(* ===== verification/Prelude.thy ===== *)
theory Prelude
  imports Main "HOL-Library.Word" "HOL-Library.List_Lexorder" "HOL-Library.Char_ord"
    "HOL-Library.Code_Target_Nat"
begin

text \<open>
  Shared vocabulary of the development: the operations of Rust's \<open>str\<close>, \<open>Vec\<close> and integer
  parsing that the sources use, the result type of fallible functions, and the generic lemmas
  (in the collections \<open>str_simps\<close> and \<open>result_simps\<close>) that the component theories rely on.

  A Rust string is a \<^typ>\<open>string\<close>: the list of its UTF-8 bytes. Searching for an ASCII separator,
  comparing and slicing at a found separator agree with the byte view; whitespace is the ASCII
  whitespace of \<open>char::is_whitespace\<close> (the non-ASCII white space characters are not modelled), and
  \<open>to_string_lossy\<close> is the identity (paths and arguments are valid UTF-8).
\<close>

named_theorems str_simps \<open>evaluation and algebra of the string operations\<close>
named_theorems result_simps \<open>unfolding of the result combinators\<close>

unbundle bit_operations_syntax

subsection \<open>Fallible functions\<close>

text \<open>
  \<open>anyhow::Result<T>\<close>: \<^term>\<open>Inl\<close> carries the error. The constructors are the errors the core
  distinguishes or reports by a message of its own.
\<close>

datatype error =
    CyclicDependency              \<comment> \<open>cycles.rs \<open>CyclicDependencyError\<close>\<close>
  | NoFileWithName string         \<comment> \<open>state.rs \<open>File::by_name\<close>\<close>
  | NoRow                         \<comment> \<open>rusqlite \<open>QueryReturnedNoRows\<close>\<close>
  | DoesNotExist string           \<comment> \<open>state.rs \<open>update_stamp\<close>\<close>
  | LockAlreadyCreated int        \<comment> \<open>state.rs \<open>Lock::new\<close>\<close>
  | LockNotOwned int              \<comment> \<open>state.rs \<open>Lock::unlock\<close>\<close>
  | MustRunInsideDo               \<comment> \<open>env.rs \<open>Env::inherit\<close>\<close>
  | Exit int                      \<comment> \<open>\<open>std::process::exit\<close>\<close>
  | IoError string                \<comment> \<open>\<open>std::io::Error\<close>\<close>
  | Msg string                    \<comment> \<open>\<open>anyhow::bail!\<close> with a message\<close>

type_synonym 'a res = "error + 'a"

definition rbind :: "'a res \<Rightarrow> ('a \<Rightarrow> 'b res) \<Rightarrow> 'b res" where
  "rbind r f = (case r of Inl e \<Rightarrow> Inl e | Inr x \<Rightarrow> f x)"

lemma rbind_simps [simp, result_simps]:
  "rbind (Inl e) f = Inl e"
  "rbind (Inr x) f = f x"
  by (simp_all add: rbind_def)

lemma rbind_Inr_iff [result_simps]:
  "rbind r f = Inr y \<longleftrightarrow> (\<exists>x. r = Inr x \<and> f x = Inr y)"
  by (cases r) auto

lemma rbind_Inl_iff [result_simps]:
  "rbind r f = Inl e \<longleftrightarrow> r = Inl e \<or> (\<exists>x. r = Inr x \<and> f x = Inl e)"
  by (cases r) auto

text \<open>\<open>Result::ok\<close>, \<open>Option::unwrap_or\<close> and \<open>Option::unwrap_or_default\<close>.\<close>

definition res_ok :: "'a res \<Rightarrow> 'a option" where
  "res_ok r = (case r of Inl _ \<Rightarrow> None | Inr x \<Rightarrow> Some x)"

definition unwrap_or :: "'a option \<Rightarrow> 'a \<Rightarrow> 'a" where
  "unwrap_or v d = (case v of None \<Rightarrow> d | Some x \<Rightarrow> x)"

lemma unwrap_or_simps [simp]: "unwrap_or None d = d" "unwrap_or (Some x) d = x"
  by (simp_all add: unwrap_or_def)

subsection \<open>Splitting and joining\<close>

text \<open>\<open>str::split(c)\<close>: the pieces between the separators; never empty.\<close>

fun split_on :: "'a \<Rightarrow> 'a list \<Rightarrow> 'a list list" where
  "split_on c [] = [[]]"
| "split_on c (x # xs) =
     (if x = c then [] # split_on c xs
      else (case split_on c xs of [] \<Rightarrow> [[x]] | p # ps \<Rightarrow> (x # p) # ps))"

text \<open>\<open>[&str]::join(sep)\<close>.\<close>

fun join_with :: "'a list \<Rightarrow> 'a list list \<Rightarrow> 'a list" where
  "join_with sep [] = []"
| "join_with sep [x] = x"
| "join_with sep (x # y # ys) = x @ sep @ join_with sep (y # ys)"

lemma split_on_not_Nil [simp]: "split_on c s \<noteq> []"
  by (cases s) (auto split: list.splits)

lemma join_split_on [simp, str_simps]: "join_with [c] (split_on c s) = s"
proof (induction s)
  case (Cons x xs)
  obtain p ps where "split_on c xs = p # ps"
    by (cases "split_on c xs") auto
  with Cons.IH show ?case by (cases ps) auto
qed simp

lemma split_on_no_sep: "p \<in> set (split_on c s) \<Longrightarrow> c \<notin> set p"
proof (induction s arbitrary: p)
  case (Cons x xs)
  then show ?case by (cases "split_on c xs") (auto split: if_splits)
qed simp

lemma split_on_id: "c \<notin> set s \<Longrightarrow> split_on c s = [s]"
  by (induction s) auto

lemma split_on_append_sep: "split_on c (a @ c # b) = split_on c a @ split_on c b"
proof (induction a)
  case (Cons x xs)
  then show ?case by (cases "split_on c xs") auto
qed simp

lemma split_on_join:
  "ps \<noteq> [] \<Longrightarrow> (\<forall>p \<in> set ps. c \<notin> set p) \<Longrightarrow> split_on c (join_with [c] ps) = ps"
proof (induction ps rule: induct_list012)
  case (3 x y zs)
  then have "split_on c (join_with [c] (y # zs)) = y # zs" by simp
  with "3.prems" show ?case by (simp add: split_on_append_sep split_on_id)
qed (auto simp: split_on_id)

lemma length_split_on: "length (split_on c s) = Suc (count_list s c)"
proof (induction s)
  case (Cons x xs)
  then show ?case by (cases "split_on c xs") auto
qed simp

lemma join_with_append:
  "xs \<noteq> [] \<Longrightarrow> ys \<noteq> [] \<Longrightarrow> join_with sep (xs @ ys) = join_with sep xs @ sep @ join_with sep ys"
proof (induction xs rule: induct_list012)
  case (2 x)
  then show ?case by (cases ys) auto
next
  case (3 x y zs)
  then show ?case by simp
qed simp

text \<open>\<open>str::split_once(c)\<close> and \<open>str::rsplit_once(c)\<close>.\<close>

fun split_once :: "'a \<Rightarrow> 'a list \<Rightarrow> ('a list \<times> 'a list) option" where
  "split_once c [] = None"
| "split_once c (x # xs) =
     (if x = c then Some ([], xs)
      else map_option (\<lambda>(a, b). (x # a, b)) (split_once c xs))"

definition rsplit_once :: "'a \<Rightarrow> 'a list \<Rightarrow> ('a list \<times> 'a list) option" where
  "rsplit_once c s = map_option (\<lambda>(a, b). (rev b, rev a)) (split_once c (rev s))"

lemma split_once_Some:
  "split_once c s = Some (a, b) \<longleftrightarrow> s = a @ c # b \<and> c \<notin> set a"
proof (induction s arbitrary: a)
  case (Cons x xs)
  then show ?case by (cases a) auto
qed simp

lemma split_once_None: "split_once c s = None \<longleftrightarrow> c \<notin> set s"
  by (induction s) auto

lemma rsplit_once_Some:
  "rsplit_once c s = Some (a, b) \<longleftrightarrow> s = a @ c # b \<and> c \<notin> set b"
proof -
  have "rsplit_once c s = Some (a, b) \<longleftrightarrow> split_once c (rev s) = Some (rev b, rev a)"
    by (auto simp: rsplit_once_def)
  also have "\<dots> \<longleftrightarrow> rev s = rev b @ c # rev a \<and> c \<notin> set b"
    by (simp add: split_once_Some)
  also have "\<dots> \<longleftrightarrow> s = a @ c # b \<and> c \<notin> set b"
    by (metis append_Cons append_Nil append_assoc rev_append rev_rev_ident rev.simps(2))
  finally show ?thesis .
qed

lemma rsplit_once_None: "rsplit_once c s = None \<longleftrightarrow> c \<notin> set s"
  by (simp add: rsplit_once_def split_once_None)

text \<open>\<open>str::splitn(n, c)\<close>: at most \<open>n\<close> pieces, the last one unsplit.\<close>

fun splitn :: "nat \<Rightarrow> 'a \<Rightarrow> 'a list \<Rightarrow> 'a list list" where
  "splitn 0 c s = []"
| "splitn (Suc 0) c s = [s]"
| "splitn (Suc (Suc n)) c s =
     (case split_once c s of None \<Rightarrow> [s] | Some (a, b) \<Rightarrow> a # splitn (Suc n) c b)"

lemma split_once_append: "c \<notin> set a \<Longrightarrow> split_once c (a @ c # b) = Some (a, b)"
  by (simp add: split_once_Some)

subsection \<open>Prefixes, searching and trimming\<close>

fun strip_prefix :: "'a list \<Rightarrow> 'a list \<Rightarrow> 'a list option" where
  "strip_prefix [] s = Some s"
| "strip_prefix (p # ps) [] = None"
| "strip_prefix (p # ps) (x # xs) = (if p = x then strip_prefix ps xs else None)"

definition starts_with :: "'a list \<Rightarrow> 'a list \<Rightarrow> bool" where
  "starts_with p s \<longleftrightarrow> strip_prefix p s \<noteq> None"

definition ends_with :: "'a list \<Rightarrow> 'a list \<Rightarrow> bool" where
  "ends_with p s \<longleftrightarrow> starts_with (rev p) (rev s)"

lemma strip_prefix_Some [str_simps]: "strip_prefix p s = Some r \<longleftrightarrow> s = p @ r"
  by (induction p s rule: strip_prefix.induct) auto

lemma strip_prefix_append [simp]: "strip_prefix p (p @ r) = Some r"
  by (simp add: strip_prefix_Some)

lemma starts_with_iff [str_simps]: "starts_with p s \<longleftrightarrow> (\<exists>r. s = p @ r)"
  by (auto simp: starts_with_def strip_prefix_Some)

text \<open>\<open>str::find(pat)\<close> returning the text before and after the first occurrence.\<close>

fun find_sub :: "'a list \<Rightarrow> 'a list \<Rightarrow> ('a list \<times> 'a list) option" where
  "find_sub p [] = (if p = [] then Some ([], []) else None)"
| "find_sub p (x # xs) =
     (case strip_prefix p (x # xs) of
        Some r \<Rightarrow> Some ([], r)
      | None \<Rightarrow> map_option (\<lambda>(a, b). (x # a, b)) (find_sub p xs))"

lemma find_sub_Some: "find_sub p s = Some (a, b) \<Longrightarrow> s = a @ p @ b"
proof (induction s arbitrary: a)
  case (Cons x xs)
  then show ?case by (auto split: option.splits simp: strip_prefix_Some)
qed (auto split: if_splits)

definition contains_char :: "char \<Rightarrow> string \<Rightarrow> bool" where
  "contains_char c s \<longleftrightarrow> c \<in> set s"

definition is_ws :: "char \<Rightarrow> bool" where
  "is_ws c \<longleftrightarrow> c \<in> {CHR '' '', CHR 0x09, CHR 0x0A, CHR 0x0B, CHR 0x0C, CHR 0x0D}"

definition trim_start :: "string \<Rightarrow> string" where
  "trim_start s = dropWhile is_ws s"

definition trim_end :: "string \<Rightarrow> string" where
  "trim_end s = rev (dropWhile is_ws (rev s))"

definition trim :: "string \<Rightarrow> string" where
  "trim s = trim_end (trim_start s)"

definition trim_end_char :: "char \<Rightarrow> string \<Rightarrow> string" where
  "trim_end_char c s = rev (dropWhile (\<lambda>x. x = c) (rev s))"

definition trim_start_char :: "char \<Rightarrow> string \<Rightarrow> string" where
  "trim_start_char c s = dropWhile (\<lambda>x. x = c) s"

lemma trim_start_id: "s = [] \<or> \<not> is_ws (hd s) \<Longrightarrow> trim_start s = s"
  by (cases s) (auto simp: trim_start_def)

lemma trim_end_id: "s = [] \<or> \<not> is_ws (last s) \<Longrightarrow> trim_end s = s"
proof -
  assume a: "s = [] \<or> \<not> is_ws (last s)"
  then have "dropWhile is_ws (rev s) = rev s"
    by (cases s rule: rev_cases) auto
  then show ?thesis by (simp add: trim_end_def)
qed

lemma trim_id: "\<forall>c \<in> set s. \<not> is_ws c \<Longrightarrow> trim s = s"
  by (cases "s = []") (auto simp: trim_def trim_start_id trim_end_id)

lemma trim_end_char_id: "s = [] \<or> last s \<noteq> c \<Longrightarrow> trim_end_char c s = s"
  by (cases s rule: rev_cases) (auto simp: trim_end_char_def)

lemma trim_end_char_last: "trim_end_char c s = [] \<or> last (trim_end_char c s) \<noteq> c"
proof -
  have "dropWhile (\<lambda>x. x = c) xs = [] \<or> hd (dropWhile (\<lambda>x. x = c) xs) \<noteq> c" for xs
    by (induction xs) auto
  from this [of "rev s"] show ?thesis
    by (auto simp: trim_end_char_def last_rev)
qed

text \<open>\<open>str::split_whitespace\<close>: the maximal runs of non-whitespace.\<close>

fun split_ws_aux :: "string \<Rightarrow> string \<Rightarrow> string list" where
  "split_ws_aux w [] = (if w = [] then [] else [rev w])"
| "split_ws_aux w (x # xs) =
     (if is_ws x then (if w = [] then split_ws_aux [] xs else rev w # split_ws_aux [] xs)
      else split_ws_aux (x # w) xs)"

definition split_ws :: "string \<Rightarrow> string list" where
  "split_ws s = split_ws_aux [] s"

lemma split_ws_aux_words:
  "\<forall>c \<in> set w. \<not> is_ws c \<Longrightarrow> x \<in> set (split_ws_aux w s) \<Longrightarrow> x \<noteq> [] \<and> (\<forall>c \<in> set x. \<not> is_ws c)"
proof (induction w s rule: split_ws_aux.induct)
  case (1 w)
  then show ?case by (auto split: if_splits)
next
  case (2 w y ys)
  note prems = "2.prems" and IH = "2.IH"
  show ?case
  proof (cases "is_ws y")
    case True
    have e: "\<forall>c \<in> set []. \<not> is_ws c" by simp
    have "x \<in> set (split_ws_aux [] ys) \<or> (x = rev w \<and> w \<noteq> [])"
      using prems(2) True by (cases "w = []") (simp_all, blast)
    then show ?thesis
    proof
      assume x: "x \<in> set (split_ws_aux [] ys)"
      show ?thesis
      proof (cases "w = []")
        case w: True
        show ?thesis using IH(1) [OF True w e x] .
      next
        case w: False
        show ?thesis using IH(2) [OF True w e x] .
      qed
    next
      assume "x = rev w \<and> w \<noteq> []"
      with prems(1) show ?thesis by simp
    qed
  next
    case False
    with prems have "\<forall>c \<in> set (y # w). \<not> is_ws c" "x \<in> set (split_ws_aux (y # w) ys)"
      by simp_all
    with False show ?thesis by (rule IH(3))
  qed
qed

lemma split_ws_words: "x \<in> set (split_ws s) \<Longrightarrow> x \<noteq> [] \<and> (\<forall>c \<in> set x. \<not> is_ws c)"
  unfolding split_ws_def by (rule split_ws_aux_words [of "[]"]) auto

lemma split_ws_aux_word:
  "\<forall>c \<in> set a. \<not> is_ws c \<Longrightarrow> split_ws_aux w (a @ s) = split_ws_aux (rev a @ w) s"
  by (induction a arbitrary: w) auto

text \<open>
  \<open>str::lines\<close>: the pieces ended by a newline, a carriage return before it dropped; a last piece
  without a newline is a line too, unless it is empty.
\<close>

definition strip_cr :: "string \<Rightarrow> string" where
  "strip_cr l = (if l \<noteq> [] \<and> last l = CHR 0x0D then butlast l else l)"

definition str_lines :: "string \<Rightarrow> string list" where
  "str_lines s =
     (let ps = split_on (CHR 0x0A) s in
      map strip_cr (butlast ps) @ (if last ps = [] then [] else [last ps]))"

lemma str_lines_Nil [simp]: "str_lines [] = []"
  by (simp add: str_lines_def)

lemma str_lines_cons: "CHR 0x0A \<notin> set l \<Longrightarrow> str_lines (l @ CHR 0x0A # s) = strip_cr l # str_lines s"
  by (simp add: str_lines_def split_on_append_sep split_on_id Let_def)

lemma strip_cr_id: "l = [] \<or> last l \<noteq> CHR 0x0D \<Longrightarrow> strip_cr l = l"
  by (auto simp: strip_cr_def)

subsection \<open>Decimal numbers\<close>

definition is_digit :: "char \<Rightarrow> bool" where
  "is_digit c \<longleftrightarrow> 48 \<le> (of_char c :: nat) \<and> (of_char c :: nat) \<le> 57"

definition digit_val :: "char \<Rightarrow> nat" where
  "digit_val c = of_char c - 48"

definition digit_char :: "nat \<Rightarrow> char" where
  "digit_char d = char_of (48 + d)"

fun show_nat :: "nat \<Rightarrow> string" where
  "show_nat n = (if n < 10 then [digit_char n] else show_nat (n div 10) @ [digit_char (n mod 10)])"

declare show_nat.simps [simp del]

definition show_int :: "int \<Rightarrow> string" where
  "show_int i = (if i < 0 then CHR ''-'' # show_nat (nat (- i)) else show_nat (nat i))"

definition digits_val :: "string \<Rightarrow> nat" where
  "digits_val s = foldl (\<lambda>a c. 10 * a + digit_val c) 0 s"

definition parse_digits :: "string \<Rightarrow> nat option" where
  "parse_digits s = (if s \<noteq> [] \<and> list_all is_digit s then Some (digits_val s) else None)"

text \<open>
  \<open>s.parse::<uN>()\<close> and \<open>s.parse::<iN>()\<close>: an optional sign (\<open>-\<close> for the signed types only), at least
  one digit, nothing else, and an error when the value does not fit the type.
\<close>

definition parse_uint :: "nat \<Rightarrow> string \<Rightarrow> nat option" where
  "parse_uint w s =
     (let d = (case s of c # r \<Rightarrow> (if c = CHR ''+'' then r else s) | [] \<Rightarrow> s) in
      case parse_digits d of None \<Rightarrow> None | Some n \<Rightarrow> if n < 2 ^ w then Some n else None)"

definition parse_sint :: "nat \<Rightarrow> string \<Rightarrow> int option" where
  "parse_sint w s =
     (let (neg, d) = (case s of c # r \<Rightarrow> (if c = CHR ''+'' then (False, r)
                                          else if c = CHR ''-'' then (True, r) else (False, s))
                      | [] \<Rightarrow> (False, s)) in
      case parse_digits d of None \<Rightarrow> None
      | Some n \<Rightarrow> let v = (if neg then - int n else int n) in
                  if - (2 ^ (w - 1)) \<le> v \<and> v < 2 ^ (w - 1) then Some v else None)"

lemma of_char_digit_char: "d < 10 \<Longrightarrow> (of_char (digit_char d) :: nat) = 48 + d"
  by (simp add: digit_char_def)

lemma is_digit_digit_char: "d < 10 \<Longrightarrow> is_digit (digit_char d)"
  by (simp add: is_digit_def of_char_digit_char)

lemma digit_val_digit_char: "d < 10 \<Longrightarrow> digit_val (digit_char d) = d"
  by (simp add: digit_val_def of_char_digit_char)

lemma show_nat_not_Nil [simp]: "show_nat n \<noteq> []"
  by (subst show_nat.simps) simp

lemma show_nat_digits: "list_all is_digit (show_nat n)"
proof (induction n rule: show_nat.induct)
  case (1 n)
  then show ?case
    by (subst show_nat.simps) (auto simp: is_digit_digit_char)
qed

lemma digits_val_show_nat [simp]: "digits_val (show_nat n) = n"
proof (induction n rule: show_nat.induct)
  case (1 n)
  then show ?case
    by (subst show_nat.simps) (auto simp: digits_val_def digit_val_digit_char)
qed

lemma parse_digits_show_nat [simp]: "parse_digits (show_nat n) = Some n"
  by (simp add: parse_digits_def show_nat_digits)

lemma show_nat_inject [simp]: "show_nat m = show_nat n \<longleftrightarrow> m = n"
  by (metis digits_val_show_nat)

lemma is_digit_chars:
  "\<not> is_digit (CHR ''-'')" "\<not> is_digit (CHR ''+'')" "\<not> is_digit (CHR '':'')" "\<not> is_digit (CHR ''.'')"
  "\<not> is_digit (CHR ''/'')" "\<not> is_digit (CHR '' '')" "\<not> is_digit (CHR '','')" "\<not> is_digit (CHR ''@'')"
  by (simp_all add: is_digit_def)

lemma show_nat_notin: "\<not> is_digit c \<Longrightarrow> c \<notin> set (show_nat n)"
  using show_nat_digits [of n] by (auto simp: list_all_iff)

lemma show_nat_hd: "\<not> is_digit c \<Longrightarrow> hd (show_nat n) \<noteq> c"
  using show_nat_notin [of c n] hd_in_set [OF show_nat_not_Nil, of n] by auto

lemma is_digit_not_ws: "is_digit c \<Longrightarrow> \<not> is_ws c"
  by (auto simp: is_digit_def is_ws_def)

lemma parse_uint_show [str_simps]:
  "n < 2 ^ w \<Longrightarrow> parse_uint w (show_nat n) = Some n"
  using show_nat_hd [of "CHR ''+''" n] parse_digits_show_nat [of n]
  by (cases "show_nat n") (auto simp: parse_uint_def is_digit_chars)

lemma parse_uint_bound: "parse_uint w s = Some n \<Longrightarrow> n < 2 ^ w"
  by (auto simp: parse_uint_def Let_def split: option.splits if_splits)

lemma parse_sint_show [str_simps]:
  assumes "- (2 ^ (w - 1)) \<le> i" "i < 2 ^ (w - 1)"
  shows "parse_sint w (show_int i) = Some i"
proof (cases "i < 0")
  case True
  with assms show ?thesis by (simp add: parse_sint_def show_int_def)
next
  case False
  have h: "hd (show_nat (nat i)) \<noteq> CHR ''+''" "hd (show_nat (nat i)) \<noteq> CHR ''-''"
    by (rule show_nat_hd; simp add: is_digit_chars)+
  obtain c r where cr: "show_nat (nat i) = c # r"
    by (cases "show_nat (nat i)") auto
  from False assms h cr show ?thesis
    using parse_digits_show_nat [of "nat i"] by (simp add: parse_sint_def show_int_def)
qed

lemma show_int_inject [simp]: "show_int a = show_int b \<longleftrightarrow> a = b"
proof -
  have "hd (show_nat n) \<noteq> CHR ''-''" for n
    by (rule show_nat_hd) (simp add: is_digit_chars)
  then have ne: "show_nat n \<noteq> CHR ''-'' # s" for n s
    by (metis list.sel(1))
  show ?thesis by (auto simp: show_int_def ne ne [symmetric])
qed

lemma show_int_chars: "c \<in> set (show_int i) \<Longrightarrow> is_digit c \<or> c = CHR ''-''"
  using show_nat_digits [unfolded list_all_iff] by (auto simp: show_int_def split: if_splits)

subsection \<open>Bytes\<close>

text \<open>\<open>n.to_le_bytes()\<close> of a \<open>u64\<close>.\<close>

fun le_bytes :: "nat \<Rightarrow> nat \<Rightarrow> string" where
  "le_bytes 0 n = []"
| "le_bytes (Suc k) n = char_of (n mod 256) # le_bytes k (n div 256)"

lemma length_le_bytes [simp]: "length (le_bytes k n) = k"
  by (induction k arbitrary: n) auto

lemma le_bytes_inject:
  "m < 256 ^ k \<Longrightarrow> n < 256 ^ k \<Longrightarrow> le_bytes k m = le_bytes k n \<longleftrightarrow> m = n"
proof (induction k arbitrary: m n)
  case (Suc k)
  have d: "m div 256 < 256 ^ k" "n div 256 < 256 ^ k"
    using Suc.prems by (simp_all add: less_mult_imp_div_less mult.commute)
  have "le_bytes (Suc k) m = le_bytes (Suc k) n \<longleftrightarrow>
        char_of (m mod 256) = (char_of (n mod 256) :: char) \<and> m div 256 = n div 256"
    using Suc.IH [OF d] by simp
  also have "char_of (m mod 256) = (char_of (n mod 256) :: char) \<longleftrightarrow> m mod 256 = n mod 256"
    by (metis char_of_eq_iff mod_mod_trivial of_char_of)
  finally show ?case by (metis div_mult_mod_eq)
qed simp

subsection \<open>Sequences of fallible steps\<close>

text \<open>A \<open>for\<close> loop whose body may return early with \<open>?\<close>.\<close>

fun foldM :: "('a \<Rightarrow> 's \<Rightarrow> 's res) \<Rightarrow> 'a list \<Rightarrow> 's \<Rightarrow> 's res" where
  "foldM f [] s = Inr s"
| "foldM f (x # xs) s = rbind (f x s) (foldM f xs)"

lemma foldM_invariant:
  assumes "foldM f xs s = Inr t" and "P s"
    and "\<And>x s t. x \<in> set xs \<Longrightarrow> P s \<Longrightarrow> f x s = Inr t \<Longrightarrow> P t"
  shows "P t"
  using assms
proof (induction xs arbitrary: s)
  case (Cons x xs)
  then obtain u where u: "f x s = Inr u" "foldM f xs u = Inr t"
    by (auto simp: rbind_Inr_iff)
  from Cons.prems(2) u(1) have "P u" by (rule Cons.prems(3) [rotated]) simp
  with u(2) show ?case
    by (rule Cons.IH) (auto intro: Cons.prems(3))
qed simp

lemma map_fst_Inr: "map_option (map_sum id fst) r = Some (Inr d) \<Longrightarrow> \<exists>q. r = Some (Inr (d, q))"
  by (cases r; cases "the r") auto

end
