(* ===== verification/Paths.thy ===== *)
theory Paths
  imports Prelude "HOL-Library.Sublist"
begin

text \<open>
  Paths: the part of \<open>std::path\<close> the sources use (\<open>components\<close>, \<open>join\<close>, \<open>parent\<close>, \<open>file_name\<close>,
  \<open>starts_with\<close>, \<open>strip_prefix\<close>), the copies of the lexical normalisation in
  \<open>redo_core/src/state.rs\<close>, \<open>builder.rs\<close>, \<open>env.rs\<close>, \<open>paths.rs\<close> and \<open>bins/src/redo_log.rs\<close>,
  \<open>redo_trace.rs\<close>, the search for \<open>.do\<close> files (\<open>paths.rs\<close>) and the choice of the base directory
  (\<open>env.rs\<close>, \<open>find_base\<close>).

  A path is its text. Results of \<open>Path::parent\<close> are given in the form that has the same components
  (repeated separators inside the prefix are collapsed), which is equality of \<open>Path\<close>s.
\<close>

subsection \<open>Components\<close>

datatype component = RootDir | CurDir | ParentDir | Normal string

definition dot :: string where "dot = ''.''"
definition dotdot :: string where "dotdot = ''..''"

definition comp_of :: "string \<Rightarrow> component" where
  "comp_of p = (if p = dotdot then ParentDir else Normal p)"

definition is_absolute :: "string \<Rightarrow> bool" where
  "is_absolute p \<longleftrightarrow> (case p of c # _ \<Rightarrow> c = CHR ''/'' | [] \<Rightarrow> False)"

definition path_components :: "string \<Rightarrow> component list" where
  "path_components p =
     (let ps = split_on (CHR ''/'') p in
      (if is_absolute p then [RootDir] else if hd ps = dot then [CurDir] else []) @
      map comp_of (filter (\<lambda>x. x \<noteq> [] \<and> x \<noteq> dot) ps))"

text \<open>\<open>PathBuf::push\<close>/\<open>Path::join\<close>.\<close>

definition path_join :: "string \<Rightarrow> string \<Rightarrow> string" where
  "path_join b p =
     (if is_absolute p then p
      else if b = [] \<or> last b = CHR ''/'' then b @ p
      else b @ ''/'' @ p)"

definition comp_str :: "component \<Rightarrow> string" where
  "comp_str c = (case c of RootDir \<Rightarrow> ''/'' | CurDir \<Rightarrow> dot | ParentDir \<Rightarrow> dotdot | Normal s \<Rightarrow> s)"

definition push_parts :: "string list \<Rightarrow> string" where
  "push_parts ps = foldl path_join [] ps"

definition path_of_components :: "component list \<Rightarrow> string" where
  "path_of_components cs = push_parts (map comp_str cs)"

definition path_parent :: "string \<Rightarrow> string option" where
  "path_parent p =
     (let cs = path_components p in
      if cs = [] \<or> last cs = RootDir then None else Some (path_of_components (butlast cs)))"

definition path_file_name :: "string \<Rightarrow> string option" where
  "path_file_name p =
     (let cs = path_components p in
      if cs = [] then None else (case last cs of Normal s \<Rightarrow> Some s | _ \<Rightarrow> None))"

definition path_starts_with :: "string \<Rightarrow> string \<Rightarrow> bool" where
  "path_starts_with p b \<longleftrightarrow> starts_with (path_components b) (path_components p)"

definition path_strip_prefix :: "string \<Rightarrow> string \<Rightarrow> string option" where
  "path_strip_prefix p b =
     map_option path_of_components (strip_prefix (path_components b) (path_components p))"

subsection \<open>Lexical normalisation\<close>

text \<open>One turn of the loop over the components, and the loop.\<close>

definition norm_step :: "string list \<Rightarrow> component \<Rightarrow> string list" where
  "norm_step parts c =
     (case c of
        RootDir \<Rightarrow> [''/'']
      | CurDir \<Rightarrow> parts
      | ParentDir \<Rightarrow> (if length parts > 1 then butlast parts else parts)
      | Normal s \<Rightarrow> parts @ [s])"

definition norm_parts :: "string \<Rightarrow> string list" where
  "norm_parts p = foldl norm_step [] (path_components p)"

definition normalize_path :: "string \<Rightarrow> string" where
  "normalize_path p = push_parts (norm_parts p)"

text \<open>The copies in \<open>builder.rs\<close>, \<open>env.rs\<close> and the two in \<open>redo_trace.rs\<close> have the same text.\<close>

definition normalize_path_lex :: "string \<Rightarrow> string" where
  "normalize_path_lex p = push_parts (foldl norm_step [] (path_components p))"

definition env_normalize_path :: "string \<Rightarrow> string" where
  "env_normalize_path p = push_parts (foldl norm_step [] (path_components p))"

definition trace_normalize_path_lex :: "string \<Rightarrow> string" where
  "trace_normalize_path_lex p = push_parts (foldl norm_step [] (path_components p))"

definition trace_normalize_path_lex_macos :: "string \<Rightarrow> string" where
  "trace_normalize_path_lex_macos p = push_parts (foldl norm_step [] (path_components p))"

definition resolve_path :: "string \<Rightarrow> string \<Rightarrow> string" where
  "resolve_path cwd raw =
     (if is_absolute raw then trace_normalize_path_lex raw
      else trace_normalize_path_lex (path_join cwd raw))"

definition resolve_path_macos :: "string \<Rightarrow> string \<Rightarrow> string" where
  "resolve_path_macos cwd raw =
     (if is_absolute raw then trace_normalize_path_lex_macos raw
      else trace_normalize_path_lex_macos (path_join cwd raw))"

text \<open>\<open>paths.rs\<close> keeps the root as an empty first part and joins with \<open>/\<close>.\<close>

definition nj_step :: "string list \<Rightarrow> component \<Rightarrow> string list" where
  "nj_step parts c =
     (case c of
        RootDir \<Rightarrow> [[]]
      | CurDir \<Rightarrow> parts
      | ParentDir \<Rightarrow> (if length parts > 1 then butlast parts else parts)
      | Normal s \<Rightarrow> parts @ [s])"

definition normalize_join :: "string \<Rightarrow> string \<Rightarrow> string" where
  "normalize_join base rel =
     (let parts = foldl nj_step [] (path_components (path_join base rel)) in
      if parts = [] then ''/''
      else if hd parts = [] then ''/'' @ join_with ''/'' (tl parts)
      else join_with ''/'' parts)"

text \<open>\<open>redo_log.rs\<close> pops above a relative start by keeping \<open>..\<close>.\<close>

definition log_norm_step :: "bool \<times> string list \<Rightarrow> component \<Rightarrow> bool \<times> string list" where
  "log_norm_step st c =
     (case (st, c) of
        ((ab, out), CurDir) \<Rightarrow> (ab, out)
      | ((ab, out), ParentDir) \<Rightarrow>
          (if out \<noteq> [] \<and> last out \<noteq> dotdot then (ab, butlast out)
           else if \<not> ab then (ab, out @ [dotdot]) else (ab, out))
      | ((ab, out), RootDir) \<Rightarrow> (True, [])
      | ((ab, out), Normal s) \<Rightarrow> (ab, out @ [s]))"

definition log_normalize :: "string \<Rightarrow> string" where
  "log_normalize p =
     (let (ab, out) = foldl log_norm_step (False, []) (path_components p) in
      if ab then ''/'' @ join_with ''/'' out else join_with ''/'' out)"

text \<open>\<open>redo_cache_server.rs\<close>: the request paths that stay inside the work directory.\<close>

definition safe_rel_path :: "string \<Rightarrow> bool" where
  "safe_rel_path p \<longleftrightarrow>
     \<not> is_absolute p \<and>
     list_all (\<lambda>c. case c of CurDir \<Rightarrow> True | Normal _ \<Rightarrow> True | _ \<Rightarrow> False) (path_components p)"

subsection \<open>The search for \<open>.do\<close> files\<close>

record do_file =
  dodir :: string
  dofile :: string
  basedir :: string
  basename :: string
  ext :: string

text \<open>The loop \<open>for i in 1..=parts.len()\<close> of \<open>default_do_files\<close>.\<close>

definition default_do_files :: "string \<Rightarrow> (string \<times> string \<times> string) list" where
  "default_do_files filename =
     (let parts = split_on (CHR ''.'') filename in
      map (\<lambda>i.
        let bname = join_with ''.'' (take i parts);
            ex = (if i < length parts then ''.'' @ join_with ''.'' (drop i parts) else [])
        in (''default'' @ ex @ ''.do'', bname, ex))
      [1..<Suc (length parts)])"

definition default_candidates :: "string list \<Rightarrow> string \<Rightarrow> nat \<Rightarrow> do_file list" where
  "default_candidates dirbits filename i =
     (let basedir_str = join_with ''/'' (take i dirbits);
          bdir = (if basedir_str = [] then ''/'' else basedir_str);
          subdir = join_with ''/'' (drop i dirbits)
      in map (\<lambda>(df, bname, ex).
           \<lparr>dodir = bdir, dofile = df, basedir = subdir,
            basename = (if subdir = [] then bname else subdir @ ''/'' @ bname), ext = ex\<rparr>)
         (default_do_files filename))"

definition possible_do_files :: "string \<Rightarrow> string \<Rightarrow> do_file list" where
  "possible_do_files target_rel base =
     (let (dir, fname) = (case rsplit_once (CHR ''/'') target_rel of
                            Some (d, f) \<Rightarrow> (d, f) | None \<Rightarrow> ([], target_rel));
          first = \<lparr>dodir = path_join base dir, dofile = fname @ ''.do'',
                   basedir = [], basename = fname, ext = []\<rparr>;
          t = normalize_join base target_rel;
          dirname = unwrap_or (path_parent t) base;
          filename = unwrap_or (path_file_name t) target_rel;
          dirbits = split_on (CHR ''/'') dirname
      in first # concat (map (default_candidates dirbits filename)
                             (rev [1..<Suc (length dirbits)])))"

definition find_do_file :: "(string \<Rightarrow> bool) \<Rightarrow> string \<Rightarrow> string \<Rightarrow> do_file option" where
  "find_do_file path_exists target_rel base =
     List.find (\<lambda>cand. path_exists (path_join (dodir cand) (dofile cand)))
       (possible_do_files target_rel base)"

subsection \<open>The base directory\<close>

definition posix_dirname :: "string \<Rightarrow> string" where
  "posix_dirname p =
     (if p = [] then []
      else let head = (case rsplit_once (CHR ''/'') p of
                         Some (a, b) \<Rightarrow> a @ ''/'' | None \<Rightarrow> [])
           in if head \<noteq> [] \<and> \<not> list_all (\<lambda>b. b = CHR ''/'') head
              then trim_end_char (CHR ''/'') head else head)"

definition abspath :: "string \<Rightarrow> string \<Rightarrow> string" where
  "abspath p cwd =
     (if p = [] then cwd
      else env_normalize_path (if is_absolute p then p else path_join cwd p))"

fun common_len :: "string \<Rightarrow> string \<Rightarrow> nat" where
  "common_len (a # as) (b # bs) = (if a \<noteq> b then 0 else Suc (common_len as bs))"
| "common_len _ _ = 0"

definition commonprefix :: "string list \<Rightarrow> string" where
  "commonprefix strings =
     (if strings = [] then []
      else let s1 = Min (set strings); s2 = Max (set strings)
           in take (common_len s1 s2) s1)"

text \<open>The walk up from the common prefix: \<open>for i in (1..parts.len()).rev()\<close>.\<close>

definition base_candidates :: "string \<Rightarrow> string list" where
  "base_candidates base =
     (let parts = split_on (CHR ''/'') base in
      map (\<lambda>i. join_with ''/'' (take i parts)) (rev [1..<length parts]))"

definition find_base :: "(string \<Rightarrow> bool) \<Rightarrow> string \<Rightarrow> string list \<Rightarrow> string" where
  "find_base path_exists cwd targets =
     (let use_targets = (if targets = [] then [''all''] else targets);
          dirs = map (\<lambda>t. abspath (posix_dirname t) cwd) use_targets @ [cwd];
          base = commonprefix dirs
      in case List.find (\<lambda>nb. path_exists (nb @ ''/.redo'')) (base_candidates base) of
           Some nb \<Rightarrow> nb | None \<Rightarrow> base)"

subsection \<open>Lemmas: components and normalisation\<close>

definition good_name :: "string \<Rightarrow> bool" where
  "good_name n \<longleftrightarrow> n \<noteq> [] \<and> CHR ''/'' \<notin> set n \<and> n \<noteq> dot \<and> n \<noteq> dotdot"

lemma comp_of_good [simp]: "good_name n \<Longrightarrow> comp_of n = Normal n"
  by (simp add: comp_of_def good_name_def)

lemma good_nameD:
  assumes "good_name n"
  shows "n \<noteq> []" "last n \<noteq> CHR ''/''" "\<not> is_absolute n"
proof -
  show n: "n \<noteq> []" using assms by (simp add: good_name_def)
  have s: "CHR ''/'' \<notin> set n" using assms by (simp add: good_name_def)
  show "last n \<noteq> CHR ''/''" using last_in_set [OF n] s by metis
  show "\<not> is_absolute n" using s by (cases n) (auto simp: is_absolute_def)
qed

lemma split_slash_abs: "is_absolute p \<Longrightarrow> split_on (CHR ''/'') p = [] # split_on (CHR ''/'') (tl p)"
  by (cases p) (auto simp: is_absolute_def)

lemma path_components_abs:
  assumes "\<forall>n \<in> set ns. good_name n"
  shows "path_components (''/'' @ join_with ''/'' ns) = RootDir # map Normal ns"
proof -
  have f: "filter (\<lambda>x. x \<noteq> [] \<and> x \<noteq> dot) ns = ns" "map comp_of ns = map Normal ns"
    using assms by (auto simp: good_name_def filter_id_conv)
  have "split_on (CHR ''/'') (join_with ''/'' ns) = ns" if "ns \<noteq> []"
    using that assms by (intro split_on_join) (auto simp: good_name_def)
  then show ?thesis
    using f by (cases "ns = []") (simp_all add: path_components_def is_absolute_def dot_def Let_def)
qed

lemma path_components_names:
  "Normal s \<in> set (path_components p) \<Longrightarrow> good_name s"
  using split_on_no_sep
  by (fastforce simp: path_components_def comp_of_def good_name_def Let_def split: if_splits)

lemma path_components_RootDir:
  "is_absolute p \<Longrightarrow> \<exists>cs. path_components p = RootDir # cs \<and> RootDir \<notin> set cs"
  by (auto simp: path_components_def comp_of_def Let_def split: if_splits)

lemma path_components_rel:
  "\<not> is_absolute p \<Longrightarrow> RootDir \<notin> set (path_components p)"
  by (auto simp: path_components_def comp_of_def Let_def split: if_splits)

text \<open>The shape of the parts of an absolute path: the root, then names.\<close>

lemma norm_step_abs:
  assumes "foldl norm_step (''/'' # ns) cs = ps" "RootDir \<notin> set cs"
    and "\<forall>n \<in> set ns. good_name n" "\<forall>s. Normal s \<in> set cs \<longrightarrow> good_name s"
  shows "\<exists>ms. ps = ''/'' # ms \<and> (\<forall>n \<in> set ms. good_name n)"
  using assms
proof (induction cs arbitrary: ns)
  case (Cons c cs)
  have "\<exists>ms. norm_step (''/'' # ns) c = ''/'' # ms \<and> (\<forall>n \<in> set ms. good_name n)"
    using Cons.prems
    by (cases c; cases ns rule: rev_cases)
       (auto simp: norm_step_def)
  then obtain ms where "norm_step (''/'' # ns) c = ''/'' # ms" "\<forall>n \<in> set ms. good_name n"
    by blast
  with Cons.prems show ?case
    by (intro Cons.IH [of ms]) auto
qed auto

lemma norm_parts_abs:
  assumes "is_absolute p"
  shows "\<exists>ms. norm_parts p = ''/'' # ms \<and> (\<forall>n \<in> set ms. good_name n)"
proof -
  obtain cs where cs: "path_components p = RootDir # cs" "RootDir \<notin> set cs"
    using path_components_RootDir [OF assms] by blast
  have "\<forall>s. Normal s \<in> set cs \<longrightarrow> good_name s"
    using path_components_names [of _ p] cs(1) by simp
  then show ?thesis
    using norm_step_abs [OF refl cs(2), of "[]"] by (simp add: norm_parts_def cs(1) norm_step_def)
qed

lemma foldl_path_join:
  assumes "b \<noteq> []" "last b \<noteq> CHR ''/''" "\<forall>n \<in> set ns. good_name n"
  shows "foldl path_join b ns = b @ concat (map (\<lambda>n. ''/'' @ n) ns)"
  using assms
proof (induction ns arbitrary: b)
  case (Cons n ns)
  have n: "n \<noteq> []" "last n \<noteq> CHR ''/''" "\<not> is_absolute n"
    using Cons.prems(3) good_nameD [of n] by simp_all
  then have "path_join b n = b @ ''/'' @ n"
    using Cons.prems by (simp add: path_join_def)
  moreover have "foldl path_join (b @ ''/'' @ n) ns = (b @ ''/'' @ n) @ concat (map (\<lambda>n. ''/'' @ n) ns)"
    using Cons.prems n by (intro Cons.IH) auto
  ultimately show ?case by simp
qed simp

lemma join_with_concat:
  "ns \<noteq> [] \<Longrightarrow> ''/'' @ join_with ''/'' ns = concat (map (\<lambda>n. ''/'' @ n) ns)"
  by (induction ns rule: induct_list012) auto

lemma push_parts_abs:
  assumes "\<forall>n \<in> set ns. good_name n"
  shows "push_parts (''/'' # ns) = ''/'' @ join_with ''/'' ns"
proof (cases ns)
  case Nil
  then show ?thesis by (simp add: push_parts_def path_join_def is_absolute_def)
next
  case (Cons n ms)
  have n: "n \<noteq> []" "last n \<noteq> CHR ''/''" "\<not> is_absolute n"
    using assms Cons good_nameD [of n] by simp_all
  then have "push_parts (''/'' # ns) = foldl path_join (''/'' @ n) ms"
    by (simp add: push_parts_def path_join_def is_absolute_def Cons)
  also have "\<dots> = (''/'' @ n) @ concat (map (\<lambda>n. ''/'' @ n) ms)"
    using n assms Cons by (intro foldl_path_join) auto
  finally show ?thesis using join_with_concat [of ns] Cons by simp
qed

lemma normalize_path_abs:
  assumes "is_absolute p"
  obtains ns where "normalize_path p = ''/'' @ join_with ''/'' ns" "\<forall>n \<in> set ns. good_name n"
    "norm_parts p = ''/'' # ns" "path_components (normalize_path p) = RootDir # map Normal ns"
proof -
  obtain ns where ns: "norm_parts p = ''/'' # ns" "\<forall>n \<in> set ns. good_name n"
    using norm_parts_abs [OF assms] by blast
  then have "normalize_path p = ''/'' @ join_with ''/'' ns"
    by (simp add: normalize_path_def push_parts_abs)
  with ns that path_components_abs show thesis by metis
qed

lemma foldl_norm_step_Normal:
  "foldl norm_step ps (map Normal ns) = ps @ ns"
  by (induction ns arbitrary: ps) (simp_all add: norm_step_def)

lemma norm_parts_canonical:
  "\<forall>n \<in> set ns. good_name n \<Longrightarrow> norm_parts (''/'' @ join_with ''/'' ns) = ''/'' # ns"
  by (simp add: norm_parts_def path_components_abs [simplified] foldl_norm_step_Normal norm_step_def)

text \<open>\<open>normalize_join\<close> agrees with \<open>normalize_path\<close> on an absolute base.\<close>

lemma nj_step_norm_step:
  "foldl nj_step ([] # ns) cs = [] # ms \<longleftrightarrow> foldl norm_step (''/'' # ns) cs = ''/'' # ms"
  if "RootDir \<notin> set cs"
  using that
proof (induction cs arbitrary: ns)
  case (Cons c cs)
  have "\<exists>ks. nj_step ([] # ns) c = [] # ks \<and> norm_step (''/'' # ns) c = ''/'' # ks"
    using Cons.prems by (cases c; cases ns rule: rev_cases) (auto simp: nj_step_def norm_step_def)
  then obtain ks where "nj_step ([] # ns) c = [] # ks" "norm_step (''/'' # ns) c = ''/'' # ks"
    by blast
  with Cons show ?case by simp
qed auto

lemma path_join_absolute: "is_absolute b \<Longrightarrow> is_absolute (path_join b p)"
  by (cases b) (auto simp: path_join_def is_absolute_def)

lemma normalize_join_abs:
  assumes "is_absolute base"
  shows "normalize_join base rel = normalize_path (path_join base rel)"
proof -
  let ?p = "path_join base rel"
  have "is_absolute ?p" using assms by (rule path_join_absolute)
  then obtain cs ns where cs: "path_components ?p = RootDir # cs" "RootDir \<notin> set cs"
    and ns: "norm_parts ?p = ''/'' # ns" "normalize_path ?p = ''/'' @ join_with ''/'' ns"
    using path_components_RootDir by (metis normalize_path_abs)
  have "foldl norm_step (''/'' # []) cs = ''/'' # ns"
    using ns(1) cs(1) by (simp add: norm_parts_def norm_step_def)
  then have "foldl nj_step ([] # []) cs = [] # ns"
    using nj_step_norm_step [OF cs(2)] by blast
  then show ?thesis
    using ns(2) by (simp add: normalize_join_def cs(1) nj_step_def)
qed

lemma path_components_join:
  assumes "is_absolute w" "\<not> is_absolute p"
  shows "path_components (path_join w p) = path_components w @ filter (\<lambda>c. c \<noteq> CurDir) (path_components p)"
proof -
  let ?f = "\<lambda>s. map comp_of (filter (\<lambda>x. x \<noteq> [] \<and> x \<noteq> dot) (split_on (CHR ''/'') s))"
  have w: "w \<noteq> []" using assms(1) by (auto simp: is_absolute_def)
  have f_sep: "?f (a @ CHR ''/'' # b) = ?f a @ ?f b" for a b
    by (simp add: split_on_append_sep)
  have "?f (path_join w p) = ?f w @ ?f p"
  proof (cases "last w = CHR ''/''")
    case True
    then obtain v where v: "w = v @ [CHR ''/'']" using w by (metis append_butlast_last_id)
    have "?f (v @ CHR ''/'' # p) = ?f v @ ?f p" "?f (v @ CHR ''/'' # []) = ?f v @ ?f []"
      by (rule f_sep)+
    with v True assms(2) show ?thesis by (simp add: path_join_def)
  next
    case False
    with w assms(2) show ?thesis by (simp add: path_join_def split_on_append_sep)
  qed
  moreover have "filter (\<lambda>c. c \<noteq> CurDir) (path_components p) = ?f p"
    using assms(2) by (auto simp: path_components_def comp_of_def filter_id_conv Let_def)
  ultimately show ?thesis
    using assms path_join_absolute [OF assms(1), of p] by (simp add: path_components_def Let_def)
qed

lemma norm_parts_join_safe:
  assumes "is_absolute w" "safe_rel_path p"
  obtains ns where "norm_parts (path_join w p) = norm_parts w @ ns"
    "\<forall>n \<in> set ns. good_name n" "filter (\<lambda>c. c \<noteq> CurDir) (path_components p) = map Normal ns"
proof -
  have "\<exists>ns. filter (\<lambda>c. c \<noteq> CurDir) cs = map Normal ns"
    if "list_all (\<lambda>c. case c of CurDir \<Rightarrow> True | Normal _ \<Rightarrow> True | _ \<Rightarrow> False) cs" for cs
    using that
  proof (induction cs)
    case (Cons c cs)
    then obtain ns where ns: "filter (\<lambda>c. c \<noteq> CurDir) cs = map Normal ns" by auto
    show ?case
    proof (cases c)
      case (Normal s)
      with ns show ?thesis by (intro exI [of _ "s # ns"]) simp
    qed (use Cons.prems ns in auto)
  qed simp
  then obtain ns where ns: "filter (\<lambda>c. c \<noteq> CurDir) (path_components p) = map Normal ns"
    using assms(2) by (auto simp: safe_rel_path_def)
  have "\<forall>n \<in> set ns. good_name n"
  proof
    fix n assume "n \<in> set ns"
    then have "Normal n \<in> set (filter (\<lambda>c. c \<noteq> CurDir) (path_components p))"
      by (simp add: ns)
    then show "good_name n" using path_components_names by simp
  qed
  moreover have "norm_parts (path_join w p) = norm_parts w @ ns"
    using assms path_components_join [of w p]
    by (simp add: norm_parts_def safe_rel_path_def ns foldl_norm_step_Normal)
  ultimately show thesis using that ns by blast
qed

text \<open>The normalisation of \<open>redo_log.rs\<close> on absolute paths.\<close>

lemma log_norm_norm_step:
  assumes "RootDir \<notin> set cs" "\<forall>n \<in> set ns. good_name n" "\<forall>s. Normal s \<in> set cs \<longrightarrow> good_name s"
    and "foldl norm_step (''/'' # ns) cs = ''/'' # ms"
  shows "foldl log_norm_step (True, ns) cs = (True, ms)"
  using assms
proof (induction cs arbitrary: ns)
  case (Cons c cs)
  have "\<exists>ks. log_norm_step (True, ns) c = (True, ks) \<and> norm_step (''/'' # ns) c = ''/'' # ks \<and>
          (\<forall>n \<in> set ks. good_name n)"
    using Cons.prems(1-3) by (cases c; cases ns rule: rev_cases)
      (auto simp: log_norm_step_def norm_step_def good_name_def)
  then obtain ks where "log_norm_step (True, ns) c = (True, ks)"
    "norm_step (''/'' # ns) c = ''/'' # ks" "\<forall>n \<in> set ks. good_name n"
    by blast
  with Cons show ?case by simp
qed simp

subsection \<open>Lemmas: candidates\<close>

lemma default_do_files_parts:
  "default_do_files f =
     map (\<lambda>i. (''default'' @ (if i < length (split_on (CHR ''.'') f)
                              then ''.'' @ join_with ''.'' (drop i (split_on (CHR ''.'') f)) else []) @ ''.do'',
               join_with ''.'' (take i (split_on (CHR ''.'') f)),
               (if i < length (split_on (CHR ''.'') f)
                then ''.'' @ join_with ''.'' (drop i (split_on (CHR ''.'') f)) else [])))
       [1..<Suc (length (split_on (CHR ''.'') f))]"
  by (simp add: default_do_files_def Let_def)

lemma join_take_drop:
  assumes "1 \<le> i" "i \<le> length ps"
  shows "join_with sep (take i ps) @ (if i < length ps then sep @ join_with sep (drop i ps) else [])
           = join_with sep ps"
proof (cases "i < length ps")
  case True
  with assms have "take i ps \<noteq> []" "drop i ps \<noteq> []" by auto
  then have "join_with sep (take i ps @ drop i ps) =
      join_with sep (take i ps) @ sep @ join_with sep (drop i ps)"
    by (rule join_with_append)
  with True show ?thesis by simp
qed (use assms in simp)

lemma default_do_files_target:
  "(d, b, e) \<in> set (default_do_files f) \<Longrightarrow> d = ''default'' @ e @ ''.do'' \<and> b @ e = f"
proof -
  let ?ps = "split_on (CHR ''.'') f"
  assume "(d, b, e) \<in> set (default_do_files f)"
  then obtain i where i: "1 \<le> i" "i \<le> length ?ps"
    and d: "d = ''default'' @ e @ ''.do''" and b: "b = join_with ''.'' (take i ?ps)"
    and e: "e = (if i < length ?ps then ''.'' @ join_with ''.'' (drop i ?ps) else [])"
    by (auto simp: default_do_files_parts)
  have "b @ e = join_with ''.'' ?ps"
    unfolding b e using i by (rule join_take_drop)
  with d show ?thesis by simp
qed

lemma length_default_do_files: "length (default_do_files f) = Suc (count_list f (CHR ''.''))"
  by (simp add: default_do_files_parts length_split_on)

lemma length_join_drop_mono:
  assumes "i < j" "j < length ps"
  shows "length (join_with [c] (drop j ps)) < length (join_with [c] (drop i ps))"
proof -
  have "take (j - i) (drop i ps) \<noteq> []" "drop j ps \<noteq> []" using assms by auto
  moreover have "drop i ps = take (j - i) (drop i ps) @ drop j ps"
    using assms by (metis append_take_drop_id drop_drop le_add_diff_inverse2 less_imp_le)
  ultimately have "join_with [c] (drop i ps) =
      join_with [c] (take (j - i) (drop i ps)) @ [c] @ join_with [c] (drop j ps)"
    by (metis join_with_append)
  then show ?thesis by simp
qed

lemma default_candidates_dodir:
  "map dodir (default_candidates dirbits f i) =
     replicate (Suc (count_list f (CHR ''.'')))
       (if join_with ''/'' (take i dirbits) = [] then ''/'' else join_with ''/'' (take i dirbits))"
  by (intro nth_equalityI)
     (auto simp: default_candidates_def length_default_do_files Let_def split_beta nth_Cons
           split: nat.splits)

text \<open>The directory part of a normalised absolute target.\<close>

lemma path_parent_abs:
  assumes "\<forall>n \<in> set (ds @ [f]). good_name n"
  shows "path_parent (''/'' @ join_with ''/'' (ds @ [f])) = Some (''/'' @ join_with ''/'' ds)"
    and "path_file_name (''/'' @ join_with ''/'' (ds @ [f])) = Some f"
proof -
  have c: "path_components (''/'' @ join_with ''/'' (ds @ [f])) = RootDir # map Normal (ds @ [f])"
    using assms by (rule path_components_abs)
  have "path_of_components (RootDir # map Normal ds) = ''/'' @ join_with ''/'' ds"
    using assms push_parts_abs [of ds] by (simp add: path_of_components_def comp_str_def comp_def)
  with c show "path_parent (''/'' @ join_with ''/'' (ds @ [f])) = Some (''/'' @ join_with ''/'' ds)"
    by (simp add: path_parent_def butlast_append)
  from c show "path_file_name (''/'' @ join_with ''/'' (ds @ [f])) = Some f"
    by (simp add: path_file_name_def)
qed

lemma split_slash_dir:
  assumes "\<forall>n \<in> set ds. good_name n" "ds \<noteq> []"
  shows "split_on (CHR ''/'') (''/'' @ join_with ''/'' ds) = [] # ds"
  using assms split_on_join [of ds "CHR ''/''"] by (simp add: good_name_def)

lemma join_take_root:
  assumes "\<forall>n \<in> set ds. good_name n" "1 \<le> i" "i \<le> Suc (length ds)"
  shows "(if join_with ''/'' (take i ([] # ds)) = [] then ''/'' else join_with ''/'' (take i ([] # ds)))
           = ''/'' @ join_with ''/'' (take (i - 1) ds)"
proof (cases "take (i - 1) ds")
  case Nil
  with assms show ?thesis by (cases i) auto
next
  case (Cons a as)
  with assms show ?thesis by (cases i) auto
qed

lemma default_candidates_arg1:
  assumes "\<forall>n \<in> set ds. good_name n" "1 \<le> i" "i \<le> Suc (length ds)" "ds \<noteq> []" "good_name f"
    and "c \<in> set (default_candidates ([] # ds) f i)"
  shows "path_join (dodir c) (basename c @ ext c) = ''/'' @ join_with ''/'' (ds @ [f])"
proof -
  let ?sub = "join_with ''/'' (drop i ([] # ds))"
  obtain d b e where dbe: "(d, b, e) \<in> set (default_do_files f)"
    and c: "c = \<lparr>dodir = ''/'' @ join_with ''/'' (take (i - 1) ds), dofile = d, basedir = ?sub,
      basename = (if ?sub = [] then b else ?sub @ ''/'' @ b), ext = e\<rparr>"
    using assms(6) join_take_root [OF assms(1-3)] by (auto simp: default_candidates_def Let_def)
  have be: "b @ e = f" using dbe default_do_files_target by blast
  have drop: "drop i ([] # ds) = drop (i - 1) ds" using assms(2) by (cases i) auto
  have "\<forall>n \<in> set (drop (i - 1) ds). n \<noteq> []"
    using assms(1) good_nameD(1) by (blast dest: in_set_dropD)
  then have sub: "?sub = [] \<longleftrightarrow> drop (i - 1) ds = []"
    unfolding drop by (cases "drop (i - 1) ds"; cases "tl (drop (i - 1) ds)") auto
  define rest where "rest = drop (i - 1) ds @ [f]"
  have arg1: "basename c @ ext c = join_with ''/'' rest"
    using be sub unfolding c rest_def drop by (auto simp: join_with_append)
  have rest: "rest \<noteq> []" "\<forall>n \<in> set rest. good_name n"
    using assms(1,5) by (auto simp: rest_def dest: in_set_dropD)
  have rel: "\<not> is_absolute (join_with ''/'' rest)"
    using rest good_nameD(1,3) [of "hd rest"] by (cases rest; cases "tl rest")
      (auto simp: is_absolute_def split: list.splits)
  have all: "ds @ [f] = take (i - 1) ds @ rest" by (simp add: rest_def)
  show ?thesis
  proof (cases "take (i - 1) ds = []")
    case True
    with all have "ds @ [f] = rest" by simp
    moreover have "dodir c = ''/''" by (simp only: c True do_file.simps join_with.simps append.simps)
    ultimately show ?thesis using rel arg1 by (simp add: path_join_def)
  next
    case False
    let ?t = "take (i - 1) ds"
    have "good_name (last ?t)" using False assms(1) last_in_set in_set_takeD by metis
    moreover have "join_with ''/'' ?t \<noteq> [] \<and> last (join_with ''/'' ?t) = last (last ?t)"
    proof (cases ?t rule: rev_cases)
      case (snoc ys y)
      have "y \<noteq> []" using \<open>good_name (last ?t)\<close> snoc good_nameD(1) by simp
      with snoc show ?thesis by (cases "ys = []") (auto simp: join_with_append)
    qed (use False in simp)
    ultimately have "last (join_with ''/'' ?t) \<noteq> CHR ''/''" "join_with ''/'' ?t \<noteq> []"
      using good_nameD(2) by auto
    then show ?thesis
      using rel False rest(1) arg1 unfolding all c by (simp add: path_join_def join_with_append)
  qed
qed

lemma possible_do_files_tail:
  assumes "normalize_join base t = ''/'' @ join_with ''/'' (ds @ [f])"
    and "\<forall>n \<in> set (ds @ [f]). good_name n" "ds \<noteq> []"
  shows "tl (possible_do_files t base) =
    concat (map (default_candidates ([] # ds) f) (rev [1..<Suc (Suc (length ds))]))"
proof -
  have "split_on (CHR ''/'') (''/'' @ join_with ''/'' ds) = [] # ds"
    using assms(2,3) by (intro split_slash_dir) auto
  moreover have "path_parent (normalize_join base t) = Some (''/'' @ join_with ''/'' ds)"
    "path_file_name (normalize_join base t) = Some f"
    unfolding assms(1) using assms(2) by (rule path_parent_abs)+
  ultimately show ?thesis
    by (simp add: possible_do_files_def Let_def split_beta del: append.simps upt_Suc)
qed

subsection \<open>Lemmas: longest common prefix\<close>

lemma common_len_le: "common_len a b \<le> length a" "common_len a b \<le> length b"
  by (induction a b rule: common_len.induct) auto

lemma common_len_take: "take (common_len a b) a = take (common_len a b) b"
  by (induction a b rule: common_len.induct) auto

lemma common_len_greatest: "prefix p a \<Longrightarrow> prefix p b \<Longrightarrow> length p \<le> common_len a b"
proof (induction a b arbitrary: p rule: common_len.induct)
  case (1 a as b bs)
  then show ?case by (cases p) auto
qed auto

lemma lex_between_prefix:
  fixes a b s :: "'a :: linorder list"
  assumes "prefix p a" "prefix p b" "a \<le> s" "s \<le> b"
  shows "prefix p s"
  using assms
proof (induction p arbitrary: a b s)
  case (Cons x p)
  then obtain a' b' where ab: "a = x # a'" "b = x # b'" "prefix p a'" "prefix p b'"
    by (metis Cons_prefix_Cons prefix_def append_Cons)
  with Cons.prems obtain y s' where s: "s = y # s'"
    by (cases s) auto
  from Cons.prems(3,4) ab s have "y = x" "a' \<le> s'" "s' \<le> b'"
    by (auto simp: Cons_le_Cons)
  with Cons.IH [of a' b' s'] ab s show ?case by simp
qed simp

subsection \<open>Properties\<close>

text \<open>Normalising an absolute path gives the root followed by names that are neither empty nor
  a dot or dot-dot component, and normalising again changes nothing.\<close>

theorem normalize_path_canonical:
  assumes "is_absolute p"
  shows "(\<exists>ns. (\<forall>n \<in> set ns. good_name n) \<and> path_components (normalize_path p) = RootDir # map Normal ns)
       \<and> normalize_path (normalize_path p) = normalize_path p"
proof -
  obtain ns where ns: "normalize_path p = ''/'' @ join_with ''/'' ns" "\<forall>n \<in> set ns. good_name n"
    "norm_parts p = ''/'' # ns" "path_components (normalize_path p) = RootDir # map Normal ns"
    using assms by (rule normalize_path_abs)
  have "norm_parts (normalize_path p) = norm_parts p"
    unfolding ns(1,3) using ns(2) by (rule norm_parts_canonical)
  then have "normalize_path (normalize_path p) = normalize_path p"
    by (simp add: normalize_path_def)
  with ns(2,4) show ?thesis by blast
qed

theorem normalize_path_canonical_witness:
  "is_absolute ''/a/./b/../c'' \<and> normalize_path ''/a/./b/../c'' = ''/a/c''
     \<and> normalize_path (normalize_path ''/a/./b/../c'') = ''/a/c''"
proof -
  have h: "is_absolute ''/a/./b/../c''" by code_simp
  have v: "normalize_path ''/a/./b/../c'' = ''/a/c''" by code_simp
  show ?thesis using normalize_path_canonical [OF h] h v by simp
qed

text \<open>The three independent normalisations (\<open>state.rs\<close>, \<open>paths.rs\<close>, \<open>redo_log.rs\<close>) agree on
  absolute paths, so the names the builder stores and the keys the log reader counts coincide.\<close>

theorem normalisations_agree:
  assumes "is_absolute base"
  shows "normalize_join base rel = normalize_path (path_join base rel)
       \<and> log_normalize (path_join base rel) = normalize_path (path_join base rel)"
proof -
  let ?p = "path_join base rel"
  have abs: "is_absolute ?p" using assms by (rule path_join_absolute)
  obtain cs where cs: "path_components ?p = RootDir # cs" "RootDir \<notin> set cs"
    using path_components_RootDir [OF abs] by blast
  obtain ns where ns: "normalize_path ?p = ''/'' @ join_with ''/'' ns" "norm_parts ?p = ''/'' # ns"
    using abs by (rule normalize_path_abs)
  have "foldl log_norm_step (True, []) cs = (True, ns)"
    using cs path_components_names [of _ ?p] ns(2)
    by (intro log_norm_norm_step) (auto simp: norm_parts_def norm_step_def)
  then have "log_normalize ?p = normalize_path ?p"
    by (simp add: log_normalize_def cs(1) log_norm_step_def ns(1))
  with normalize_join_abs [OF assms] show ?thesis by simp
qed

theorem normalisations_agree_witness:
  "is_absolute ''/w'' \<and> normalize_join ''/w'' ''x/../y'' = ''/w/y''
     \<and> log_normalize (path_join ''/w'' ''x/../y'') = ''/w/y''"
proof -
  have h: "is_absolute ''/w''" by code_simp
  have v: "normalize_path (path_join ''/w'' ''x/../y'') = ''/w/y''" by code_simp
  show ?thesis using normalisations_agree [OF h, of "''x/../y''"] h v by simp
qed

text \<open>C40. A request path accepted by \<open>safe_rel_path\<close> stays inside the work directory: joined to an
  absolute directory and normalised it lies below that directory.\<close>

theorem safe_rel_path_contained:
  assumes "is_absolute w" "safe_rel_path p"
  shows "path_starts_with (normalize_path (path_join w p)) (normalize_path w)"
proof -
  obtain ns where ns: "norm_parts (path_join w p) = norm_parts w @ ns" "\<forall>n \<in> set ns. good_name n"
    using assms by (rule norm_parts_join_safe)
  obtain ws where ws: "norm_parts w = ''/'' # ws" "\<forall>n \<in> set ws. good_name n"
    "path_components (normalize_path w) = RootDir # map Normal ws"
    using assms(1) by (rule normalize_path_abs)
  have "normalize_path (path_join w p) = ''/'' @ join_with ''/'' (ws @ ns)"
    using ns ws push_parts_abs [of "ws @ ns"] by (simp add: normalize_path_def ball_Un)
  then have "path_components (normalize_path (path_join w p)) = RootDir # map Normal (ws @ ns)"
    using ns ws path_components_abs [of "ws @ ns"] by auto
  with ws(3) show ?thesis by (simp add: path_starts_with_def starts_with_iff)
qed

theorem safe_rel_path_contained_witness:
  "is_absolute ''/srv/work'' \<and> safe_rel_path ''./src/a.c'' \<and>
   path_starts_with (normalize_path (path_join ''/srv/work'' ''./src/a.c'')) (normalize_path ''/srv/work'')"
proof -
  have h: "is_absolute ''/srv/work''" "safe_rel_path ''./src/a.c''" by code_simp+
  show ?thesis using safe_rel_path_contained [OF h] h by simp
qed

text \<open>\<open>default_do_files\<close> offers, for a file name with \<open>k\<close> dots, exactly \<open>k + 1\<close> default rules, the
  most specific extension first; each splits the file name into the base name passed as \<open>$2\<close> and the
  extension named by the rule.\<close>

theorem default_do_files_spec:
  "map (\<lambda>(d, b, e). b @ e) (default_do_files f) = replicate (Suc (count_list f (CHR ''.''))) f
   \<and> map fst (default_do_files f) = map (\<lambda>(d, b, e). ''default'' @ e @ ''.do'') (default_do_files f)
   \<and> sorted_wrt (\<lambda>(_, _, e) (_, _, e'). length e' < length e) (default_do_files f)"
proof (intro conjI)
  let ?ps = "split_on (CHR ''.'') f"
  show "map (\<lambda>(d, b, e). b @ e) (default_do_files f) = replicate (Suc (count_list f (CHR ''.''))) f"
    using default_do_files_target
    by (intro replicate_eqI) (auto simp: length_default_do_files)
  show "map fst (default_do_files f) = map (\<lambda>(d, b, e). ''default'' @ e @ ''.do'') (default_do_files f)"
    using default_do_files_target by auto
  show "sorted_wrt (\<lambda>(_, _, e) (_, _, e'). length e' < length e) (default_do_files f)"
    unfolding default_do_files_parts sorted_wrt_map
    by (rule sorted_wrt_mono_rel [OF _ sorted_wrt_upt]) (auto intro: length_join_drop_mono)
qed

text \<open>For a target below the root, every \<open>default*.do\<close> candidate of \<open>possible_do_files\<close> names the
  same file: the candidate's directory joined with its \<open>$1\<close> (base name and extension) is the
  normalised target.\<close>

theorem possible_do_files_arg1:
  assumes "is_absolute base"
    and "normalize_join base t = ''/'' @ join_with ''/'' (ds @ [f])"
    and "\<forall>n \<in> set (ds @ [f]). good_name n" "ds \<noteq> []"
    and "c \<in> set (tl (possible_do_files t base))"
  shows "path_join (dodir c) (basename c @ ext c) = normalize_path (path_join base t)"
proof -
  obtain i where "i \<in> set [1..<Suc (Suc (length ds))]" "c \<in> set (default_candidates ([] # ds) f i)"
    using assms(5) unfolding possible_do_files_tail [OF assms(2-4)] by auto
  then have "path_join (dodir c) (basename c @ ext c) = ''/'' @ join_with ''/'' (ds @ [f])"
    using assms(3,4) by (intro default_candidates_arg1) auto
  with normalize_join_abs [OF assms(1)] assms(2) show ?thesis by simp
qed

theorem possible_do_files_arg1_witness:
  "(let c = possible_do_files ''sub/x.c'' ''/w'' ! 4 in
     c \<in> set (tl (possible_do_files ''sub/x.c'' ''/w'')) \<and> dofile c = ''default.do'' \<and> dodir c = ''/w'' \<and>
     path_join (dodir c) (basename c @ ext c) = normalize_path (path_join ''/w'' ''sub/x.c''))"
proof -
  let ?c = "possible_do_files ''sub/x.c'' ''/w'' ! 4"
  have h: "is_absolute ''/w''"
    "normalize_join ''/w'' ''sub/x.c'' = ''/'' @ join_with ''/'' ([''w'', ''sub''] @ [''x.c''])"
    "\<forall>n \<in> set ([''w'', ''sub''] @ [''x.c'']). good_name n"
    by code_simp+
  have l: "length (possible_do_files ''sub/x.c'' ''/w'') = 7" by code_simp
  have c: "?c \<in> set (tl (possible_do_files ''sub/x.c'' ''/w''))"
    using nth_mem [of 3 "tl (possible_do_files ''sub/x.c'' ''/w'')"] l by (simp add: nth_tl)
  have d: "dofile ?c = ''default.do''" "dodir ?c = ''/w''" by code_simp+
  show ?thesis using possible_do_files_arg1 [OF h _ c] c d by (simp add: Let_def)
qed

text \<open>The \<open>default*.do\<close> candidates are tried directory by directory, from the target's own
  directory up to the root without skipping an ancestor, and in each directory once per extension.\<close>

theorem possible_do_files_dirs:
  assumes "normalize_join base t = ''/'' @ join_with ''/'' (ds @ [f])"
    and "\<forall>n \<in> set (ds @ [f]). good_name n" "ds \<noteq> []"
  shows "map dodir (tl (possible_do_files t base)) =
    concat (map (\<lambda>k. replicate (Suc (count_list f (CHR ''.''))) (''/'' @ join_with ''/'' (take k ds)))
              (rev [0..<Suc (length ds)]))"
proof -
  have one: "map dodir (default_candidates ([] # ds) f (Suc k)) =
      replicate (Suc (count_list f (CHR ''.''))) (''/'' @ join_with ''/'' (take k ds))"
    if "k \<le> length ds" for k
    using that assms(2) join_take_root [of ds "Suc k"]
    by (simp only: default_candidates_dodir) simp
  have upt: "[1..<Suc (Suc (length ds))] = map Suc [0..<Suc (length ds)]"
    by (simp only: map_Suc_upt One_nat_def)
  have "map (\<lambda>k. map dodir (default_candidates ([] # ds) f (Suc k))) (rev [0..<Suc (length ds)]) =
      map (\<lambda>k. replicate (Suc (count_list f (CHR ''.''))) (''/'' @ join_with ''/'' (take k ds)))
        (rev [0..<Suc (length ds)])"
    by (intro map_cong [OF refl] one) auto
  then show ?thesis
    unfolding possible_do_files_tail [OF assms] map_concat upt rev_map map_map comp_def
    by (rule arg_cong [where f = concat])
qed

theorem possible_do_files_dirs_witness:
  "map dodir (tl (possible_do_files ''sub/x.c'' ''/w'')) =
     [''/w/sub'', ''/w/sub'', ''/w'', ''/w'', ''/'', ''/'']"
proof -
  have h: "normalize_join ''/w'' ''sub/x.c'' = ''/'' @ join_with ''/'' ([''w'', ''sub''] @ [''x.c''])"
    "\<forall>n \<in> set ([''w'', ''sub''] @ [''x.c'']). good_name n" "[''w'', ''sub''] \<noteq> []"
    by code_simp+
  show ?thesis unfolding possible_do_files_dirs [OF h] by code_simp
qed

text \<open>The lexicographic minimum/maximum trick of \<open>commonprefix\<close> computes the longest common
  prefix of all the strings.\<close>

theorem commonprefix_longest:
  assumes "strings \<noteq> []"
  shows "(\<forall>s \<in> set strings. prefix (commonprefix strings) s)
       \<and> (\<forall>p. (\<forall>s \<in> set strings. prefix p s) \<longrightarrow> prefix p (commonprefix strings))"
proof -
  let ?a = "Min (set strings)" and ?b = "Max (set strings)"
  have mem: "?a \<in> set strings" "?b \<in> set strings" using assms by simp_all
  have cp: "commonprefix strings = take (common_len ?a ?b) ?a"
    using assms by (simp add: commonprefix_def Let_def)
  have pa: "prefix (commonprefix strings) ?a" unfolding cp by (rule take_is_prefix)
  have pb: "prefix (commonprefix strings) ?b"
    unfolding cp common_len_take by (rule take_is_prefix)
  have "prefix (commonprefix strings) s" if "s \<in> set strings" for s
    using pa pb by (rule lex_between_prefix) (use that in auto)
  moreover have "prefix p (commonprefix strings)" if "\<forall>s \<in> set strings. prefix p s" for p
  proof -
    have "prefix p ?a" "prefix p ?b" using that mem by auto
    then have "length p \<le> common_len ?a ?b" by (rule common_len_greatest)
    with \<open>prefix p ?a\<close> show ?thesis
      unfolding cp by (metis prefix_def append_eq_conv_conj min.absorb1 take_take)
  qed
  ultimately show ?thesis by blast
qed

theorem commonprefix_longest_witness:
  "[''/a/x'', ''/a/y''] \<noteq> [] \<and> commonprefix [''/a/x'', ''/a/y''] = ''/a/'' \<and>
   prefix (commonprefix [''/a/x'', ''/a/y'']) ''/a/y''"
proof -
  have n: "[''/a/x'', ''/a/y''] \<noteq> []" by simp
  have v: "commonprefix [''/a/x'', ''/a/y''] = ''/a/''" by code_simp
  show ?thesis using commonprefix_longest [OF n] n v by simp
qed

end
