(* ===== verification/Env_Cycles.thy ===== *)
theory Env_Cycles
  imports Paths
begin

text \<open>
  The process environment: \<open>redo_core/src/env.rs\<close> (the snapshot \<open>Env\<close>, the latched flags, \<open>init\<close>)
  and \<open>redo_core/src/cycles.rs\<close> (the set of target ids under construction, passed to child processes
  in \<open>REDO_CYCLES\<close>).

  The environment variables and the process-wide atomics are the record \<open>proc\<close>; functions that
  change them return the new record. The executable's path, its canonical form, the current
  directory and the existence of files are arguments.
\<close>

type_synonym vars = "string \<rightharpoonup> string"

record env =
  e_base :: string
  e_pwd :: string
  e_target :: string
  e_depth :: string
  e_debug :: int
  e_debug_locks :: bool
  e_debug_pids :: bool
  e_locks_broken :: bool
  e_verbose :: int
  e_xtrace :: int
  e_keep_going :: bool
  e_log :: int
  e_log_inode :: string
  e_color :: int
  e_pretty :: int
  e_shuffle :: bool
  e_startdir :: string
  e_runid :: "int option"
  e_unlocked :: bool
  e_no_oob :: bool
  e_strict :: bool
  e_strict_fail :: bool

text \<open>\<open>UNLOCKED_LATCH\<close>, \<open>NO_OOB_LATCH\<close>, \<open>IS_TOPLEVEL\<close> and the environment of the process.\<close>

record proc =
  p_vars :: vars
  p_is_toplevel :: bool
  p_unlocked_latch :: bool
  p_no_oob_latch :: bool

definition atoi :: "string \<Rightarrow> int" where
  "atoi s = unwrap_or (parse_sint 32 s) 0"

definition var_or :: "vars \<Rightarrow> string \<Rightarrow> string" where
  "var_or vs n = unwrap_or (vs n) []"

definition get_bool :: "vars \<Rightarrow> string \<Rightarrow> bool" where
  "get_bool vs n \<longleftrightarrow> var_or vs n \<noteq> []"

definition from_env :: "vars \<Rightarrow> env" where
  "from_env vs = \<lparr>
     e_base = trim_end_char (CHR ''/'') (unwrap_or (vs ''REDO_BASE'') ''NOT_DEFINED''),
     e_pwd = var_or vs ''REDO_PWD'',
     e_target = var_or vs ''REDO_TARGET'',
     e_depth = var_or vs ''REDO_DEPTH'',
     e_debug = atoi (var_or vs ''REDO_DEBUG''),
     e_debug_locks = get_bool vs ''REDO_DEBUG_LOCKS'',
     e_debug_pids = get_bool vs ''REDO_DEBUG_PIDS'',
     e_locks_broken = get_bool vs ''REDO_LOCKS_BROKEN'',
     e_verbose = atoi (var_or vs ''REDO_VERBOSE''),
     e_xtrace = atoi (var_or vs ''REDO_XTRACE''),
     e_keep_going = get_bool vs ''REDO_KEEP_GOING'',
     e_log = atoi (unwrap_or (vs ''REDO_LOG'') ''1''),
     e_log_inode = var_or vs ''REDO_LOG_INODE'',
     e_color = atoi (var_or vs ''REDO_COLOR''),
     e_pretty = atoi (var_or vs ''REDO_PRETTY''),
     e_shuffle = get_bool vs ''REDO_SHUFFLE'',
     e_startdir = var_or vs ''REDO_STARTDIR'',
     e_runid = Option.bind (vs ''REDO_RUNID'') (parse_sint 64),
     e_unlocked = get_bool vs ''REDO_UNLOCKED'',
     e_no_oob = get_bool vs ''REDO_NO_OOB'',
     e_strict = get_bool vs ''REDO_STRICT'',
     e_strict_fail = get_bool vs ''REDO_STRICT_FAIL''\<rparr>"

definition Env_inherit :: "vars \<Rightarrow> env res" where
  "Env_inherit vs = (if vs ''REDO'' = None then Inl MustRunInsideDo else Inr (from_env vs))"

text \<open>\<open>env::v()\<close>: the snapshot, with the latched flags restored.\<close>

definition env_v :: "proc \<Rightarrow> env" where
  "env_v p =
     (let e = from_env (p_vars p);
          e1 = (if \<not> e_unlocked e \<and> p_unlocked_latch p then e\<lparr>e_unlocked := True\<rparr> else e)
      in if \<not> e_no_oob e1 \<and> p_no_oob_latch p then e1\<lparr>e_no_oob := True\<rparr> else e1)"

definition inherit :: "proc \<Rightarrow> proc res" where
  "inherit p =
     rbind (Env_inherit (p_vars p)) (\<lambda>e.
       Inr (p\<lparr>p_unlocked_latch := (if e_unlocked e then True else p_unlocked_latch p),
              p_no_oob_latch := (if e_no_oob e then True else p_no_oob_latch p),
              p_vars := (p_vars p)(''REDO_UNLOCKED'' \<mapsto> [], ''REDO_NO_OOB'' \<mapsto> [])\<rparr>))"

definition init_no_state :: "proc \<Rightarrow> proc res" where
  "init_no_state p =
     (let p1 = (if p_vars p ''REDO'' = None
                then p\<lparr>p_is_toplevel := True, p_vars := (p_vars p)(''REDO'' \<mapsto> ''NOT_DEFINED'')\<rparr> else p);
          p2 = (if p_vars p1 ''REDO_BASE'' = None
                then p1\<lparr>p_vars := (p_vars p1)(''REDO_BASE'' \<mapsto> ''NOT_DEFINED'')\<rparr> else p1)
      in inherit p2)"

text \<open>Order-preserving removal of duplicates (\<open>if seen.insert(..) { dirs.push(..) }\<close>).\<close>

fun dedup_keep_first :: "'a list \<Rightarrow> 'a list \<Rightarrow> 'a list" where
  "dedup_keep_first seen [] = []"
| "dedup_keep_first seen (x # xs) =
     (if x \<in> set seen then dedup_keep_first seen xs
      else x # dedup_keep_first (x # seen) xs)"

definition helper_dirs :: "string \<Rightarrow> string \<Rightarrow> string list" where
  "helper_dirs exe real_exe =
     dedup_keep_first []
       (concat (map (\<lambda>e. case path_parent e of
                           None \<Rightarrow> []
                         | Some d \<Rightarrow> [path_join d ''../lib/redo'', path_join d ''../redo'', d])
                 [exe, real_exe]))"

definition init_toplevel :: "string \<Rightarrow> string \<Rightarrow> proc \<Rightarrow> proc" where
  "init_toplevel exe real_exe p =
     (let dirs = helper_dirs exe real_exe;
          no_prepend = (var_or (p_vars p) ''REDO_NO_PATH_PREPEND'' \<noteq> []);
          old = var_or (p_vars p) ''PATH'';
          path = join_with '':'' dirs;
          vs = (if \<not> no_prepend \<and> dirs \<noteq> []
                then (p_vars p)(''PATH'' \<mapsto> (if old = [] then path else path @ '':'' @ old))
                else p_vars p)
      in p\<lparr>p_is_toplevel := True, p_vars := vs(''REDO'' \<mapsto> exe)\<rparr>)"

definition env_init ::
  "string \<Rightarrow> string \<Rightarrow> string res \<Rightarrow> (string \<Rightarrow> bool) \<Rightarrow> string list \<Rightarrow> proc \<Rightarrow> proc res" where
  "env_init exe real_exe cwd path_exists targets p =
     (let p1 = (if p_vars p ''REDO'' = None then init_toplevel exe real_exe p else p) in
      if p_vars p1 ''REDO_BASE'' = None
      then rbind cwd (\<lambda>d.
             inherit (p1\<lparr>p_vars := (p_vars p1)(''REDO_BASE'' \<mapsto> find_base path_exists d targets,
                                              ''REDO_STARTDIR'' \<mapsto> d)\<rparr>))
      else inherit p1)"

definition mark_locks_broken :: "proc \<Rightarrow> proc res" where
  "mark_locks_broken p =
     inherit (p\<lparr>p_vars := (p_vars p)(''REDO_LOCKS_BROKEN'' \<mapsto> ''1'', ''REDO_LOG'' \<mapsto> ''0'')\<rparr>)"

subsection \<open>Cycle detection through the environment\<close>

text \<open>
  \<open>order\<close> is the iteration order of the \<open>HashSet\<close> that \<open>add\<close> turns into a vector: any arrangement of
  the elements.
\<close>

definition cycles_get :: "vars \<Rightarrow> string list" where
  "cycles_get vs = filter (\<lambda>s. s \<noteq> []) (split_on (CHR '':'') (var_or vs ''REDO_CYCLES''))"

definition cycles_add :: "(string list \<Rightarrow> string list) \<Rightarrow> int \<Rightarrow> vars \<Rightarrow> vars" where
  "cycles_add order fid vs =
     vs(''REDO_CYCLES'' \<mapsto> join_with '':'' (order (List.insert (show_int fid) (cycles_get vs))))"

definition cycles_check :: "vars \<Rightarrow> int \<Rightarrow> unit res" where
  "cycles_check vs fid =
     (if show_int fid \<in> set (cycles_get vs) then Inl CyclicDependency else Inr ())"

subsection \<open>Lemmas\<close>

lemma set_dedup_keep_first: "set (dedup_keep_first seen xs) = set xs - set seen"
  by (induction seen xs rule: dedup_keep_first.induct) auto

lemma distinct_dedup_keep_first: "distinct (dedup_keep_first seen xs)"
  by (induction seen xs rule: dedup_keep_first.induct) (auto simp: set_dedup_keep_first)

lemma colon_show_int: "CHR '':'' \<notin> set (show_int i)"
  using show_int_chars [of "CHR '':''" i] by (auto simp: is_digit_chars)

lemma cycles_get_no_colon: "x \<in> set (cycles_get vs) \<Longrightarrow> CHR '':'' \<notin> set x \<and> x \<noteq> []"
  using split_on_no_sep by (fastforce simp: cycles_get_def)

lemma show_int_not_Nil [simp]: "show_int i \<noteq> []"
  by (simp add: show_int_def)

lemma set_cycles_get_add:
  assumes "\<And>xs. set (order xs) = set xs"
  shows "set (cycles_get (cycles_add order fid vs)) = insert (show_int fid) (set (cycles_get vs))"
proof -
  let ?items = "List.insert (show_int fid) (cycles_get vs)"
  have items: "\<forall>x \<in> set (order ?items). CHR '':'' \<notin> set x \<and> x \<noteq> []"
    using cycles_get_no_colon colon_show_int by (auto simp: assms)
  have ne: "order ?items \<noteq> []"
    using assms [of ?items] by auto
  have "split_on (CHR '':'') (join_with '':'' (order ?items)) = order ?items"
    using items ne by (intro split_on_join) auto
  then have "cycles_get (cycles_add order fid vs) = filter (\<lambda>s. s \<noteq> []) (order ?items)"
    by (simp add: cycles_get_def cycles_add_def var_or_def)
  then show ?thesis using items by (auto simp: assms)
qed

lemma from_env_flags [simp]:
  "e_unlocked (from_env vs) = get_bool vs ''REDO_UNLOCKED''"
  "e_no_oob (from_env vs) = get_bool vs ''REDO_NO_OOB''"
  by (simp_all add: from_env_def)

lemma env_v_flags:
  "e_unlocked (env_v p) = (get_bool (p_vars p) ''REDO_UNLOCKED'' \<or> p_unlocked_latch p)"
  "e_no_oob (env_v p) = (get_bool (p_vars p) ''REDO_NO_OOB'' \<or> p_no_oob_latch p)"
  by (simp_all add: env_v_def Let_def)

lemma inherit_Inr:
  "inherit p = Inr q \<Longrightarrow>
     p_vars q = (p_vars p)(''REDO_UNLOCKED'' \<mapsto> [], ''REDO_NO_OOB'' \<mapsto> []) \<and>
     p_is_toplevel q = p_is_toplevel p \<and>
     p_unlocked_latch q = (p_unlocked_latch p \<or> get_bool (p_vars p) ''REDO_UNLOCKED'') \<and>
     p_no_oob_latch q = (p_no_oob_latch p \<or> get_bool (p_vars p) ''REDO_NO_OOB'')"
  by (auto simp: inherit_def Env_inherit_def rbind_Inr_iff split: if_splits)

lemma get_bool_empty [simp]: "get_bool (vs(n \<mapsto> [])) n = False"
  by (simp add: get_bool_def var_or_def)

lemma get_bool_other: "m \<noteq> n \<Longrightarrow> get_bool (vs(n := x)) m = get_bool vs m"
  by (simp add: get_bool_def var_or_def)

subsection \<open>Properties\<close>

text \<open>The ids under construction survive the trip through the environment variable: after
  \<open>cycles::add(fid)\<close> (in any iteration order of the set) a check of \<open>fid\<close> reports a cycle, and the
  answer for every other id is unchanged.\<close>

theorem cycles_check_add:
  assumes "\<And>xs. set (order xs) = set xs"
  shows "cycles_check (cycles_add order fid vs) fid' =
           (if fid' = fid then Inl CyclicDependency else cycles_check vs fid')"
  using set_cycles_get_add [of order fid vs, OF assms] by (simp add: cycles_check_def)

theorem cycles_check_add_witness:
  "cycles_check (cycles_add rev 7 [''REDO_CYCLES'' \<mapsto> ''3:5'']) 7 = Inl CyclicDependency
   \<and> cycles_check (cycles_add rev 7 [''REDO_CYCLES'' \<mapsto> ''3:5'']) 4 = Inr ()"
proof -
  have "cycles_check [''REDO_CYCLES'' \<mapsto> ''3:5''] 4 = Inr ()" by code_simp
  then show ?thesis
    using cycles_check_add [of rev 7 "[''REDO_CYCLES'' \<mapsto> ''3:5'']"] by simp
qed

text \<open>The flags \<open>REDO_UNLOCKED\<close> and \<open>REDO_NO_OOB\<close> stay in force for the process that inherited
  them, through any number of later \<open>inherit\<close> calls, but a subprocess started afterwards does not see
  them.\<close>

theorem flags_latched_not_inherited:
  assumes "inherit p = Inr q" "inherit q = Inr r"
  shows "e_unlocked (env_v q) = e_unlocked (env_v p) \<and> e_unlocked (env_v r) = e_unlocked (env_v p)
       \<and> e_no_oob (env_v q) = e_no_oob (env_v p) \<and> e_no_oob (env_v r) = e_no_oob (env_v p)
       \<and> \<not> e_unlocked (from_env (p_vars q)) \<and> \<not> e_no_oob (from_env (p_vars q))"
proof -
  have fresh: "\<not> get_bool (vs(''REDO_UNLOCKED'' \<mapsto> [], ''REDO_NO_OOB'' \<mapsto> [])) ''REDO_UNLOCKED''"
    "\<not> get_bool (vs(''REDO_UNLOCKED'' \<mapsto> [], ''REDO_NO_OOB'' \<mapsto> [])) ''REDO_NO_OOB''" for vs
    by (simp_all add: get_bool_def var_or_def)
  show ?thesis
    using inherit_Inr [OF assms(1)] inherit_Inr [OF assms(2)] fresh by (simp add: env_v_flags disj_commute)
qed

theorem flags_latched_not_inherited_witness:
  "\<exists>q. inherit \<lparr>p_vars = [''REDO'' \<mapsto> ''redo'', ''REDO_UNLOCKED'' \<mapsto> ''1''], p_is_toplevel = False,
        p_unlocked_latch = False, p_no_oob_latch = False\<rparr> = Inr q \<and>
       e_unlocked (env_v q) \<and> \<not> e_unlocked (from_env (p_vars q))"
proof -
  let ?p = "\<lparr>p_vars = [''REDO'' \<mapsto> ''redo'', ''REDO_UNLOCKED'' \<mapsto> ''1''], p_is_toplevel = False,
        p_unlocked_latch = False, p_no_oob_latch = False\<rparr>"
  obtain q where q: "inherit ?p = Inr q"
    by (simp add: inherit_def Env_inherit_def)
  moreover obtain r where "inherit q = Inr r"
    using inherit_Inr [OF q] by (simp add: inherit_def Env_inherit_def)
  moreover have "e_unlocked (env_v ?p)"
    by (simp add: env_v_flags get_bool_def var_or_def)
  ultimately show ?thesis using flags_latched_not_inherited [of ?p q r] by blast
qed

end
