(* ===== verification/State.thy ===== *)
theory State
  imports Env_Cycles
begin

text \<open>
  The state database (\<open>redo_core/src/state.rs\<close>): the tables \<open>Files\<close> and \<open>Deps\<close> with the SQL statements
  the code issues, the transaction bookkeeping of \<open>StateInner\<close>, file stamps, the in-memory \<open>File\<close>
  objects and every operation on them.

  A table is the list of its rows in the order a query returns them. The statements are given the
  meaning their SQL has on such tables; failures of sqlite itself (a busy or corrupt database) are
  not modelled. What the code asks of the file system is the record \<open>fsview\<close> (the results of
  \<open>lstat\<close> and \<open>stat\<close>); \<open>canonicalize\<close>, the \<open>pathdiff\<close> crate and the current directory are the
  record \<open>ext_fns\<close>.
\<close>

definition ALWAYS :: string where "ALWAYS = ''//ALWAYS''"
definition STAMP_DIR :: string where "STAMP_DIR = ''dir''"
definition STAMP_MISSING :: string where "STAMP_MISSING = ''0''"
definition SCHEMA_VER :: int where "SCHEMA_VER = 2"
definition LOG_LOCK_MAGIC :: int where "LOG_LOCK_MAGIC = 0x10000000"

subsection \<open>Stamps\<close>

record meta =
  m_is_dir :: bool
  m_is_symlink :: bool
  m_is_file :: bool
  m_mtime :: int
  m_mtime_nsec :: nat
  m_size :: nat
  m_ino :: nat
  m_mode :: nat
  m_uid :: nat
  m_gid :: nat

record fsview =
  fs_lstat :: "string \<Rightarrow> meta option"
  fs_stat :: "string \<Rightarrow> meta option"

definition path_exists :: "fsview \<Rightarrow> string \<Rightarrow> bool" where
  "path_exists fs p \<longleftrightarrow> fs_stat fs p \<noteq> None"

text \<open>
  \<open>f64\<close> arithmetic of the modification time: a value is a fraction \<open>n / d\<close>, rounded to 53
  significant bits, half to even, and printed with six decimals.
\<close>

fun ilog2 :: "nat \<Rightarrow> nat" where
  "ilog2 n = (if n < 2 then 0 else Suc (ilog2 (n div 2)))"

declare ilog2.simps [simp del]

definition round_half_even :: "int \<Rightarrow> int \<Rightarrow> int" where
  "round_half_even n d =
     (let q = n div d; r = n mod d in
      if 2 * r < d then q else if d < 2 * r then q + 1 else if even q then q else q + 1)"

definition f64_scale :: "int \<Rightarrow> int \<times> int \<Rightarrow> int \<times> int" where
  "f64_scale e x =
     (case x of (n, d) \<Rightarrow> if e < 0 then (n * 2 ^ nat (- e), d) else (n, d * 2 ^ nat e))"

definition f64_exponent :: "int \<times> int \<Rightarrow> int" where
  "f64_exponent x =
     (let e = int (ilog2 (nat \<bar>fst x\<bar>)) - int (ilog2 (nat (snd x))) - 52; (n, d) = f64_scale e x in
      if \<bar>n\<bar> < d * 2 ^ 52 then e - 1 else e)"

definition f64_round :: "int \<times> int \<Rightarrow> int \<times> int" where
  "f64_round x =
     (if fst x = 0 then (0, 1)
      else let e = f64_exponent x; (n, d) = f64_scale e x; m = round_half_even n d in
           if e < 0 then (m, 2 ^ nat (- e)) else (m * 2 ^ nat e, 1))"

definition f64_add :: "int \<times> int \<Rightarrow> int \<times> int \<Rightarrow> int \<times> int" where
  "f64_add x y = (case (x, y) of ((a, b), (c, d)) \<Rightarrow> f64_round (a * d + c * b, b * d))"

definition pad6 :: "nat \<Rightarrow> string" where
  "pad6 k = (let s = show_nat k in replicate (6 - length s) (CHR ''0'') @ s)"

definition fmt6 :: "int \<times> int \<Rightarrow> string" where
  "fmt6 x =
     (case x of (n, d) \<Rightarrow>
        let k = nat (round_half_even (\<bar>n\<bar> * 10 ^ 6) d) in
        (if n < 0 then ''-'' else []) @ show_nat (k div 10 ^ 6) @ ''.'' @ pad6 (k mod 10 ^ 6))"

definition mtime_str :: "int \<Rightarrow> nat \<Rightarrow> string" where
  "mtime_str s ns =
     fmt6 (f64_add (f64_round (s, 1)) (f64_round (int ns, 10 ^ 9)))"

definition stamp_of :: "meta \<Rightarrow> string" where
  "stamp_of m =
     mtime_str (m_mtime m) (m_mtime_nsec m) @ ''-'' @ show_nat (m_size m) @ ''-'' @
     show_nat (m_ino m) @ ''-'' @ show_nat (m_mode m) @ ''-'' @ show_nat (m_uid m) @ ''-'' @
     show_nat (m_gid m)"

definition read_stamp_st :: "fsview \<Rightarrow> string \<Rightarrow> bool \<Rightarrow> bool \<times> string" where
  "read_stamp_st fs path follow =
     (case (if follow then fs_stat fs path else fs_lstat fs path) of
        None \<Rightarrow> (False, STAMP_MISSING)
      | Some m \<Rightarrow> if m_is_dir m then (False, STAMP_DIR) else (m_is_symlink m, stamp_of m))"

definition detect_override :: "string \<Rightarrow> string \<Rightarrow> bool" where
  "detect_override stamp1 stamp2 =
     (if stamp1 = stamp2 then False
      else take 2 (splitn 3 (CHR ''-'') stamp1) \<noteq> take 2 (splitn 3 (CHR ''-'') stamp2))"

subsection \<open>The tables\<close>

record file_row =
  r_id :: int
  r_name :: string
  r_is_generated :: "int option"
  r_is_override :: "int option"
  r_checked_runid :: "int option"
  r_changed_runid :: "int option"
  r_failed_runid :: "int option"
  r_stamp :: "string option"
  r_csum :: "string option"

record dep_row =
  d_target :: int
  d_source :: int
  d_mode :: string
  d_delete_me :: int

record database =
  db_schema :: "int list"
  db_runid :: "int list"
  db_files :: "file_row list"
  db_deps :: "dep_row list"

text \<open>The SQL statements, as functions on the tables.\<close>

definition sql_file_by_name :: "database \<Rightarrow> string \<Rightarrow> file_row option" where
  "sql_file_by_name db n = List.find (\<lambda>r. r_name r = n) (db_files db)"

definition sql_file_by_id :: "database \<Rightarrow> int \<Rightarrow> file_row option" where
  "sql_file_by_id db i = List.find (\<lambda>r. r_id r = i) (db_files db)"

definition next_rowid :: "database \<Rightarrow> int" where
  "next_rowid db = (if db_files db = [] then 1 else Max (set (map r_id (db_files db))) + 1)"

definition new_file_row :: "int \<Rightarrow> string \<Rightarrow> file_row" where
  "new_file_row i n =
     \<lparr>r_id = i, r_name = n, r_is_generated = None, r_is_override = None, r_checked_runid = None,
      r_changed_runid = None, r_failed_runid = None, r_stamp = None, r_csum = None\<rparr>"

definition sql_insert_or_ignore_file :: "string \<Rightarrow> database \<Rightarrow> database" where
  "sql_insert_or_ignore_file n db =
     (if sql_file_by_name db n \<noteq> None then db
      else db\<lparr>db_files := db_files db @ [new_file_row (next_rowid db) n]\<rparr>)"

definition sql_update_file :: "int \<Rightarrow> (file_row \<Rightarrow> file_row) \<Rightarrow> database \<Rightarrow> database" where
  "sql_update_file i u db =
     db\<lparr>db_files := map (\<lambda>r. if r_id r = i then u r else r) (db_files db)\<rparr>"

definition sql_deps_of :: "database \<Rightarrow> int \<Rightarrow> (string \<times> file_row) list" where
  "sql_deps_of db t =
     concat (map (\<lambda>d. case sql_file_by_id db (d_source d) of None \<Rightarrow> [] | Some r \<Rightarrow> [(d_mode d, r)])
                 (filter (\<lambda>d. d_target d = t) (db_deps db)))"

definition sql_zap_deps1 :: "int \<Rightarrow> database \<Rightarrow> database" where
  "sql_zap_deps1 t db =
     db\<lparr>db_deps := map (\<lambda>d. if d_target d = t then d\<lparr>d_delete_me := 1\<rparr> else d) (db_deps db)\<rparr>"

definition sql_zap_deps2 :: "int \<Rightarrow> database \<Rightarrow> database" where
  "sql_zap_deps2 t db =
     db\<lparr>db_deps := filter (\<lambda>d. \<not> (d_target d = t \<and> d_delete_me d = 1)) (db_deps db)\<rparr>"

definition sql_insert_or_replace_dep :: "int \<Rightarrow> string \<Rightarrow> int \<Rightarrow> int \<Rightarrow> database \<Rightarrow> database" where
  "sql_insert_or_replace_dep t m src del db =
     db\<lparr>db_deps := filter (\<lambda>d. \<not> (d_target d = t \<and> d_source d = src)) (db_deps db) @
                    [\<lparr>d_target = t, d_source = src, d_mode = m, d_delete_me = del\<rparr>]\<rparr>"

definition sql_insert_runid :: "database \<Rightarrow> database" where
  "sql_insert_runid db = db\<lparr>db_runid := db_runid db @ [Max (set (db_runid db)) + 1]\<rparr>"

definition sql_create_db :: database where
  "sql_create_db =
     \<lparr>db_schema = [SCHEMA_VER], db_runid = [1000000000],
      db_files = [new_file_row 1 ALWAYS], db_deps = []\<rparr>"

subsection \<open>Transactions\<close>

text \<open>
  \<open>StateInner\<close>. \<open>si_saved\<close> is the content at the last \<open>BEGIN\<close>, what \<open>ROLLBACK\<close> returns to.
\<close>

record state_inner =
  si_db :: database
  si_saved :: database
  si_insane :: bool
  si_locks_held :: "int \<rightharpoonup> bool"
  si_wrote :: "64 word"
  si_in_tx :: bool

text \<open>\<open>u64::saturating_add(1)\<close>.\<close>

definition saturating_inc :: "64 word \<Rightarrow> 64 word" where
  "saturating_inc w = (if w = - 1 then w else w + 1)"

lemma saturating_inc_neq_0 [simp]: "saturating_inc w \<noteq> 0"
  by (simp add: saturating_inc_def add_eq_0_iff2)

definition st_write :: "(database \<Rightarrow> database) \<Rightarrow> state_inner \<Rightarrow> state_inner" where
  "st_write stmt s =
     (if si_insane s then s
      else let s1 = (if \<not> si_in_tx s then s\<lparr>si_saved := si_db s, si_in_tx := True\<rparr> else s)
           in s1\<lparr>si_wrote := saturating_inc (si_wrote s1), si_db := stmt (si_db s1)\<rparr>)"

definition st_commit :: "state_inner \<Rightarrow> state_inner" where
  "st_commit s =
     (if si_insane s then s
      else if si_wrote s = 0 then s
      else (if si_in_tx s then s\<lparr>si_in_tx := False\<rparr> else s)\<lparr>si_wrote := 0\<rparr>)"

definition st_rollback :: "state_inner \<Rightarrow> state_inner" where
  "st_rollback s =
     (if si_insane s then s
      else if si_wrote s = 0 then s
      else (if si_in_tx s then s\<lparr>si_db := si_saved s, si_in_tx := False\<rparr> else s)\<lparr>si_wrote := 0\<rparr>)"

definition is_flushed :: "state_inner \<Rightarrow> bool" where
  "is_flushed s \<longleftrightarrow> si_wrote s = 0"

definition check_sane :: "(string \<Rightarrow> bool) \<Rightarrow> env \<Rightarrow> state_inner \<Rightarrow> state_inner \<times> bool" where
  "check_sane ex e s =
     (let s1 = (if \<not> si_insane s then s\<lparr>si_insane := \<not> ex (path_join (e_base e) ''.redo'')\<rparr> else s)
      in (s1, \<not> si_insane s1))"

definition fresh_inner :: "database \<Rightarrow> state_inner" where
  "fresh_inner db =
     \<lparr>si_db = db, si_saved = db, si_insane = False, si_locks_held = Map.empty, si_wrote = 0,
      si_in_tx = False\<rparr>"

definition ensure_runid :: "proc \<Rightarrow> state_inner \<Rightarrow> (proc \<times> state_inner) res" where
  "ensure_runid p s =
     (if e_runid (env_v p) \<noteq> None then Inr (p, s)
      else let s1 = st_write sql_insert_runid s;
               runid = last (db_runid (si_db s1))
           in rbind (inherit (p\<lparr>p_vars := (p_vars p)(''REDO_RUNID'' \<mapsto> show_int runid)\<rparr>))
                (\<lambda>p1. Inr (p1, s1)))"

text \<open>
  \<open>state::db()\<close> with an existing database file (\<open>Some\<close>) or none; a version mismatch ends the
  process. \<open>broken\<close> is the outcome of the early lock test.
\<close>

definition state_db :: "bool \<Rightarrow> database option \<Rightarrow> proc \<Rightarrow> (proc \<times> state_inner) res" where
  "state_db broken file p =
     rbind (if p_is_toplevel p \<and> broken then mark_locks_broken p else Inr p) (\<lambda>p0.
       rbind (case file of
                None \<Rightarrow> Inr (fresh_inner sql_create_db)
              | Some db \<Rightarrow> if (case db_schema db of [] \<Rightarrow> None | v # _ \<Rightarrow> Some v) \<noteq> Some SCHEMA_VER
                           then Inl (Exit 1) else Inr (fresh_inner db)) (\<lambda>s.
         rbind (ensure_runid p0 s) (\<lambda>(p1, s1). Inr (p1, st_commit s1))))"

subsection \<open>Names\<close>

record ext_fns =
  x_canonicalize :: "string \<Rightarrow> string option"
  x_diff_paths :: "string \<Rightarrow> string \<Rightarrow> string option"
  x_current_dir :: "string res"

definition realdirpath :: "ext_fns \<Rightarrow> string \<Rightarrow> string" where
  "realdirpath x t =
     (let dname = unwrap_or (path_parent t) []; fname = unwrap_or (path_file_name t) [] in
      if dname = [] then fname
      else path_join (unwrap_or (x_canonicalize x dname) (normalize_path dname)) fname)"

definition relpath :: "ext_fns \<Rightarrow> string \<Rightarrow> string \<Rightarrow> string" where
  "relpath x t base =
     (let cwd = (case x_current_dir x of Inl _ \<Rightarrow> ''.'' | Inr d \<Rightarrow> d);
          t_abs = (if is_absolute t then t else path_join cwd t);
          base_abs = (if is_absolute base then base else path_join cwd base);
          t_norm = normalize_path (realdirpath x t_abs);
          b_norm = normalize_path (realdirpath x base_abs)
      in unwrap_or (x_diff_paths x t_norm b_norm) t_norm)"

definition target_relpath :: "ext_fns \<Rightarrow> env \<Rightarrow> string \<Rightarrow> string" where
  "target_relpath x e t =
     (if e_startdir e = [] \<or> e_target e = [] then relpath x t (e_base e)
      else let dofile_dir = path_join (e_startdir e) (e_pwd e);
               target_dir = unwrap_or (path_parent (path_join dofile_dir (e_target e))) dofile_dir
           in relpath x t target_dir)"

definition logname :: "env \<Rightarrow> int \<Rightarrow> string" where
  "logname e fid = path_join (path_join (e_base e) ''.redo'') (''log.'' @ show_int fid)"

definition db_name :: "ext_fns \<Rightarrow> env \<Rightarrow> string \<Rightarrow> string res" where
  "db_name x e name =
     (if name = ALWAYS then Inr ALWAYS
      else rbind (if is_absolute name then Inr name
                  else rbind (x_current_dir x) (\<lambda>d. Inr (path_join d name))) (\<lambda>a.
        let ab = normalize_path (realdirpath x a);
            base = normalize_path (realdirpath x (e_base e))
        in Inr (unwrap_or (x_diff_paths x ab base) ab)))"

subsection \<open>File objects\<close>

record redo_file =
  f_id :: int
  f_name :: string
  f_is_generated :: bool
  f_is_override :: bool
  f_checked_runid :: "int option"
  f_changed_runid :: "int option"
  f_failed_runid :: "int option"
  f_stamp :: "string option"
  f_csum :: "string option"

text \<open>\<open>Option<i64> < Option<i64>\<close>: \<open>None\<close> is below every \<open>Some\<close>.\<close>

definition opt_less :: "int option \<Rightarrow> int option \<Rightarrow> bool" where
  "opt_less a b =
     (case (a, b) of (None, Some _) \<Rightarrow> True | (Some x, Some y) \<Rightarrow> x < y | _ \<Rightarrow> False)"

definition from_row :: "env \<Rightarrow> file_row \<Rightarrow> redo_file" where
  "from_row e r =
     \<lparr>f_id = r_id r, f_name = r_name r,
      f_is_generated = (unwrap_or (r_is_generated r) 0 \<noteq> 0),
      f_is_override = (unwrap_or (r_is_override r) 0 \<noteq> 0),
      f_checked_runid = r_checked_runid r,
      f_changed_runid =
        (if r_name r = ALWAYS \<and> (r_changed_runid r = None \<or> opt_less (r_changed_runid r) (e_runid e))
         then e_runid e else r_changed_runid r),
      f_failed_runid = r_failed_runid r, f_stamp = r_stamp r, f_csum = r_csum r\<rparr>"

definition by_name :: "ext_fns \<Rightarrow> env \<Rightarrow> string \<Rightarrow> bool \<Rightarrow> state_inner \<Rightarrow> (redo_file \<times> state_inner) res" where
  "by_name x e name allow_add s =
     rbind (db_name x e name) (\<lambda>n.
       let row = sql_file_by_name (si_db s) n;
           s1 = (if row = None \<and> allow_add \<and> n \<noteq> [] then st_write (sql_insert_or_ignore_file n) s else s);
           row1 = (if row = None \<and> allow_add \<and> n \<noteq> [] then sql_file_by_name (si_db s1) n else row)
       in case row1 of None \<Rightarrow> Inl (NoFileWithName n) | Some r \<Rightarrow> Inr (from_row e r, s1))"

definition refresh :: "env \<Rightarrow> state_inner \<Rightarrow> redo_file \<Rightarrow> redo_file res" where
  "refresh e s f =
     (case sql_file_by_id (si_db s) (f_id f) of None \<Rightarrow> Inl NoRow | Some r \<Rightarrow> Inr (from_row e r))"

definition bool_int :: "bool \<Rightarrow> int" where
  "bool_int b = (if b then 1 else 0)"

definition row_update :: "redo_file \<Rightarrow> file_row \<Rightarrow> file_row" where
  "row_update f r =
     r\<lparr>r_is_generated := Some (bool_int (f_is_generated f)),
       r_is_override := Some (bool_int (f_is_override f)),
       r_checked_runid := f_checked_runid f, r_changed_runid := f_changed_runid f,
       r_failed_runid := f_failed_runid f, r_stamp := f_stamp f, r_csum := f_csum f\<rparr>"

definition save :: "redo_file \<Rightarrow> state_inner \<Rightarrow> state_inner" where
  "save f s = st_write (sql_update_file (f_id f) (row_update f)) s"

definition set_checked :: "env \<Rightarrow> redo_file \<Rightarrow> redo_file" where
  "set_checked e f = f\<lparr>f_checked_runid := e_runid e\<rparr>"

definition set_checked_save :: "env \<Rightarrow> redo_file \<Rightarrow> state_inner \<Rightarrow> redo_file \<times> state_inner" where
  "set_checked_save e f s = (let f1 = set_checked e f in (f1, save f1 s))"

definition set_changed :: "env \<Rightarrow> redo_file \<Rightarrow> redo_file" where
  "set_changed e f = f\<lparr>f_changed_runid := e_runid e, f_failed_runid := None, f_is_override := False\<rparr>"

definition read_stamp :: "fsview \<Rightarrow> env \<Rightarrow> redo_file \<Rightarrow> string" where
  "read_stamp fs e f =
     (let path = path_join (e_base e) (f_name f); (is_link, pre) = read_stamp_st fs path False in
      if is_link then pre @ ''+'' @ snd (read_stamp_st fs path True) else pre)"

definition update_stamp :: "fsview \<Rightarrow> env \<Rightarrow> bool \<Rightarrow> redo_file \<Rightarrow> redo_file res" where
  "update_stamp fs e must_exist f =
     (let newstamp = read_stamp fs e f in
      if must_exist \<and> newstamp = STAMP_MISSING then Inl (DoesNotExist (f_name f))
      else if unwrap_or (f_stamp f) [] \<noteq> newstamp
           then Inr (set_changed e (f\<lparr>f_stamp := Some newstamp\<rparr>)) else Inr f)"

definition set_failed :: "fsview \<Rightarrow> env \<Rightarrow> redo_file \<Rightarrow> redo_file res" where
  "set_failed fs e f =
     rbind (update_stamp fs e False f) (\<lambda>f1.
       Inr (f1\<lparr>f_failed_runid := e_runid e, f_is_generated := (f_stamp f1 \<noteq> Some STAMP_MISSING)\<rparr>))"

definition set_static :: "fsview \<Rightarrow> env \<Rightarrow> redo_file \<Rightarrow> redo_file res" where
  "set_static fs e f =
     rbind (update_stamp fs e True f) (\<lambda>f1.
       Inr (f1\<lparr>f_failed_runid := None, f_is_override := False, f_is_generated := False\<rparr>))"

definition set_override :: "fsview \<Rightarrow> env \<Rightarrow> redo_file \<Rightarrow> redo_file res" where
  "set_override fs e f =
     rbind (update_stamp fs e False f) (\<lambda>f1. Inr (f1\<lparr>f_failed_runid := None, f_is_override := True\<rparr>))"

definition run_reached :: "int option \<Rightarrow> env \<Rightarrow> bool" where
  "run_reached r e = (case (r, e_runid e) of (Some a, Some b) \<Rightarrow> b \<le> a | _ \<Rightarrow> False)"

definition is_checked :: "env \<Rightarrow> redo_file \<Rightarrow> bool" where
  "is_checked e f = run_reached (f_checked_runid f) e"

definition is_changed :: "env \<Rightarrow> redo_file \<Rightarrow> bool" where
  "is_changed e f = run_reached (f_changed_runid f) e"

definition is_failed :: "env \<Rightarrow> redo_file \<Rightarrow> bool" where
  "is_failed e f = run_reached (f_failed_runid f) e"

definition is_source :: "fsview \<Rightarrow> env \<Rightarrow> redo_file \<Rightarrow> bool" where
  "is_source fs e f =
     (if starts_with ''//'' (f_name f) then False
      else let newstamp = read_stamp fs e f in
           if f_is_generated f \<and> (\<not> is_failed e f \<or> newstamp \<noteq> STAMP_MISSING) \<and> \<not> f_is_override f
              \<and> f_stamp f = Some newstamp
           then False
           else if (\<not> f_is_generated f \<or> f_stamp f \<noteq> Some newstamp) \<and> newstamp = STAMP_MISSING
           then False else True)"

definition is_target :: "fsview \<Rightarrow> env \<Rightarrow> redo_file \<Rightarrow> bool" where
  "is_target fs e f = (if \<not> f_is_generated f then False else \<not> is_source fs e f)"

definition mode_char :: "string \<Rightarrow> char" where
  "mode_char m = (case m of [] \<Rightarrow> CHR ''m'' | c # _ \<Rightarrow> c)"

definition file_deps :: "env \<Rightarrow> state_inner \<Rightarrow> redo_file \<Rightarrow> (char \<times> redo_file) list" where
  "file_deps e s f =
     (if f_is_override f \<or> \<not> f_is_generated f then []
      else map (\<lambda>(m, r). (mode_char m, from_row e r)) (sql_deps_of (si_db s) (f_id f)))"

definition zap_deps1 :: "redo_file \<Rightarrow> state_inner \<Rightarrow> state_inner" where
  "zap_deps1 f s = st_write (sql_zap_deps1 (f_id f)) s"

definition zap_deps2 :: "redo_file \<Rightarrow> state_inner \<Rightarrow> state_inner" where
  "zap_deps2 f s = st_write (sql_zap_deps2 (f_id f)) s"

definition add_dep :: "ext_fns \<Rightarrow> env \<Rightarrow> redo_file \<Rightarrow> char \<Rightarrow> string \<Rightarrow> state_inner \<Rightarrow> state_inner res" where
  "add_dep x e f mode dep s =
     rbind (by_name x e dep True s) (\<lambda>(src, s1).
       Inr (st_write (sql_insert_or_replace_dep (f_id f) [mode] (f_id src) 0) s1))"

text \<open>\<open>state::files()\<close>: \<open>select .. from Files order by name\<close>.\<close>

definition files :: "env \<Rightarrow> state_inner \<Rightarrow> redo_file list" where
  "files e s = map (from_row e) (sort_key r_name (db_files (si_db s)))"

end
