(* ===== verification/State_Props.thy ===== *)
theory State_Props
  imports State
begin

text \<open>
  Correctness of the state database: well-formedness of the tables (primary keys) and of the
  transaction bookkeeping under every statement, atomicity of transactions, name resolution,
  saving and refreshing a file, the mark-and-sweep protocol that replaces a target's dependencies
  (\<open>zap_deps1\<close>, \<open>add_dep\<close>, \<open>zap_deps2\<close>), override detection and run ids.

  The locale \<open>db_statement\<close> is the contract between the transaction layer and the statements it
  executes; it is interpreted for every statement of \<open>state.rs\<close>.
\<close>

subsection \<open>Well-formed tables and the contract of a statement\<close>

definition dep_key :: "dep_row \<Rightarrow> int \<times> int" where
  "dep_key d = (d_target d, d_source d)"

definition db_wf :: "database \<Rightarrow> bool" where
  "db_wf db \<longleftrightarrow> distinct (map r_name (db_files db)) \<and> distinct (map r_id (db_files db))
     \<and> distinct (map dep_key (db_deps db))"

definition st_wf :: "state_inner \<Rightarrow> bool" where
  "st_wf s \<longleftrightarrow> db_wf (si_db s) \<and> db_wf (si_saved s) \<and> (si_in_tx s \<longleftrightarrow> si_wrote s \<noteq> 0)"

text \<open>A statement keeps the tables well-formed and neither drops nor renames a file.\<close>

definition file_ids :: "database \<Rightarrow> (string \<times> int) list" where
  "file_ids db = map (\<lambda>r. (r_name r, r_id r)) (db_files db)"

locale db_statement =
  fixes stmt :: "database \<Rightarrow> database"
  assumes stmt_wf: "db_wf db \<Longrightarrow> db_wf (stmt db)"
    and stmt_keeps_files: "set (file_ids db) \<subseteq> set (file_ids (stmt db))"
begin

lemma write_wf: "st_wf s \<Longrightarrow> st_wf (st_write stmt s)"
  by (auto simp: st_wf_def st_write_def Let_def stmt_wf)

lemma write_db: "\<not> si_insane s \<Longrightarrow> si_db (st_write stmt s) = stmt (si_db s)"
  by (simp add: st_write_def Let_def)

lemma write_keeps_files: "set (file_ids (si_db s)) \<subseteq> set (file_ids (si_db (st_write stmt s)))"
  using stmt_keeps_files by (auto simp: st_write_def Let_def)

end

lemma st_write_frame [simp]:
  "si_insane (st_write stmt s) = si_insane s"
  "si_locks_held (st_write stmt s) = si_locks_held s"
  by (simp_all add: st_write_def Let_def)

lemma st_write_db: "\<not> si_insane s \<Longrightarrow> si_db (st_write stmt s) = stmt (si_db s)"
  by (simp add: st_write_def Let_def)

lemma st_write_insane: "si_insane s \<Longrightarrow> st_write stmt s = s"
  by (simp add: st_write_def)

subsection \<open>The statements satisfy the contract\<close>

lemma find_name_None: "sql_file_by_name db n = None \<longleftrightarrow> n \<notin> r_name ` set (db_files db)"
  by (auto simp: sql_file_by_name_def find_None_iff)

lemma find_name_Some: "sql_file_by_name db n = Some r \<Longrightarrow> r \<in> set (db_files db) \<and> r_name r = n"
  by (auto simp: sql_file_by_name_def find_Some_iff)

lemma find_id_Some: "sql_file_by_id db i = Some r \<Longrightarrow> r \<in> set (db_files db) \<and> r_id r = i"
  by (auto simp: sql_file_by_id_def find_Some_iff)

lemma find_unique:
  assumes "distinct (map k xs)" "r \<in> set xs" "k r = v"
  shows "List.find (\<lambda>x. k x = v) xs = Some r"
  using assms by (induction xs) (auto simp: rev_image_eqI)

lemma find_id_unique: "db_wf db \<Longrightarrow> r \<in> set (db_files db) \<Longrightarrow> sql_file_by_id db (r_id r) = Some r"
  by (simp add: db_wf_def sql_file_by_id_def find_unique)

lemma find_name_unique:
  "db_wf db \<Longrightarrow> r \<in> set (db_files db) \<Longrightarrow> sql_file_by_name db (r_name r) = Some r"
  by (simp add: db_wf_def sql_file_by_name_def find_unique)

lemma next_rowid_fresh: "next_rowid db \<notin> r_id ` set (db_files db)"
proof
  assume "next_rowid db \<in> r_id ` set (db_files db)"
  then have "db_files db \<noteq> []" "next_rowid db \<le> Max (set (map r_id (db_files db)))"
    by (auto simp: image_iff)
  then show False by (simp add: next_rowid_def)
qed

lemma new_file_row_fields [simp]: "r_id (new_file_row i n) = i" "r_name (new_file_row i n) = n"
  by (simp_all add: new_file_row_def)

lemma row_update_fields [simp]: "r_id (row_update f r) = r_id r" "r_name (row_update f r) = r_name r"
  by (simp_all add: row_update_def)

interpretation insert_file: db_statement "sql_insert_or_ignore_file n" for n
proof
  fix db
  show "db_wf db \<Longrightarrow> db_wf (sql_insert_or_ignore_file n db)"
    using next_rowid_fresh [of db]
    by (auto simp: db_wf_def sql_insert_or_ignore_file_def find_name_None)
  show "set (file_ids db) \<subseteq> set (file_ids (sql_insert_or_ignore_file n db))"
    by (auto simp: file_ids_def sql_insert_or_ignore_file_def)
qed

lemma update_file_ids:
  "file_ids (sql_update_file i (row_update f) db) = file_ids db"
  by (simp add: file_ids_def sql_update_file_def comp_def if_distrib cong: if_cong)

lemma file_ids_names:
  "map r_name (db_files db) = map fst (file_ids db)" "map r_id (db_files db) = map snd (file_ids db)"
  by (simp_all add: file_ids_def)

interpretation update_file: db_statement "sql_update_file i (row_update f)" for i f
proof
  fix db
  show "db_wf db \<Longrightarrow> db_wf (sql_update_file i (row_update f) db)"
    unfolding db_wf_def file_ids_names update_file_ids by (simp add: sql_update_file_def)
  show "set (file_ids db) \<subseteq> set (file_ids (sql_update_file i (row_update f) db))"
    by (simp add: update_file_ids)
qed

interpretation zap1: db_statement "sql_zap_deps1 t" for t
proof
  fix db
  have k: "map dep_key (db_deps (sql_zap_deps1 t db)) = map dep_key (db_deps db)"
    by (simp add: sql_zap_deps1_def dep_key_def comp_def if_distrib cong: if_cong)
  show "db_wf db \<Longrightarrow> db_wf (sql_zap_deps1 t db)"
    using k by (simp add: db_wf_def) (simp add: sql_zap_deps1_def)
  show "set (file_ids db) \<subseteq> set (file_ids (sql_zap_deps1 t db))"
    by (simp add: file_ids_def sql_zap_deps1_def)
qed

interpretation zap2: db_statement "sql_zap_deps2 t" for t
  by unfold_locales
     (auto simp: db_wf_def sql_zap_deps2_def file_ids_def distinct_map_filter)

interpretation insert_dep: db_statement "sql_insert_or_replace_dep t m src del" for t m src del
  by unfold_locales
     (auto simp: db_wf_def sql_insert_or_replace_dep_def file_ids_def distinct_map_filter dep_key_def)

interpretation insert_runid: db_statement sql_insert_runid
  by unfold_locales (auto simp: db_wf_def sql_insert_runid_def file_ids_def)

lemma commit_wf: "st_wf s \<Longrightarrow> st_wf (st_commit s)"
  by (auto simp: st_wf_def st_commit_def)

lemma rollback_wf: "st_wf s \<Longrightarrow> st_wf (st_rollback s)"
  by (auto simp: st_wf_def st_rollback_def)

lemma fresh_inner_wf: "db_wf db \<Longrightarrow> st_wf (fresh_inner db)"
  by (simp add: st_wf_def fresh_inner_def)

lemma create_db_wf: "db_wf sql_create_db"
  by (simp add: db_wf_def sql_create_db_def)

subsection \<open>Transactions\<close>

lemma fold_st_write_sane: "\<not> si_insane s \<Longrightarrow> \<not> si_insane (fold st_write stmts s)"
  by (induction stmts arbitrary: s) simp_all

lemma fold_st_write_db:
  "\<not> si_insane s \<Longrightarrow> si_db (fold st_write stmts s) = fold (\<lambda>f. f) stmts (si_db s)"
  by (induction stmts arbitrary: s) (simp_all add: st_write_db)

lemma fold_st_write_open:
  "\<not> si_insane s \<Longrightarrow> si_in_tx s \<Longrightarrow> si_wrote s \<noteq> 0 \<Longrightarrow>
   si_saved (fold st_write stmts s) = si_saved s \<and> si_in_tx (fold st_write stmts s)
   \<and> si_wrote (fold st_write stmts s) \<noteq> 0"
proof (induction stmts arbitrary: s)
  case (Cons f stmts)
  have "\<not> si_insane (st_write f s)" "si_in_tx (st_write f s)" "si_wrote (st_write f s) \<noteq> 0"
    "si_saved (st_write f s) = si_saved s"
    using Cons.prems by (simp_all add: st_write_def Let_def)
  then show ?case using Cons.IH [of "st_write f s"] by simp
qed simp

lemma fold_st_write_flushed:
  assumes "st_wf s" "is_flushed s" "\<not> si_insane s" "stmts \<noteq> []"
  shows "si_saved (fold st_write stmts s) = si_db s"
    and "si_in_tx (fold st_write stmts s)" and "si_wrote (fold st_write stmts s) \<noteq> 0"
proof -
  obtain f fs where fs: "stmts = f # fs" using assms(4) by (cases stmts) auto
  let ?s = "st_write f s"
  have s: "\<not> si_insane ?s" "si_in_tx ?s" "si_wrote ?s \<noteq> 0" "si_saved ?s = si_db s"
    using assms by (auto simp: st_write_def Let_def st_wf_def is_flushed_def)
  show "si_saved (fold st_write stmts s) = si_db s"
    using fold_st_write_open [OF s(1-3), of fs] s(4) fs by simp
  show "si_in_tx (fold st_write stmts s)" "si_wrote (fold st_write stmts s) \<noteq> 0"
    using fold_st_write_open [OF s(1-3), of fs] fs by simp_all
qed

subsection \<open>Names\<close>

lemma insert_or_ignore_lookup:
  "sql_file_by_name (sql_insert_or_ignore_file n db) n \<noteq> None"
  by (auto simp: sql_insert_or_ignore_file_def find_name_None)

lemma insert_or_ignore_other:
  "sql_file_by_name db n = Some r \<Longrightarrow> sql_file_by_name (sql_insert_or_ignore_file m db) n = Some r"
proof -
  have "List.find P xs = Some y \<Longrightarrow> List.find P (xs @ ys) = Some y" for P :: "file_row \<Rightarrow> bool" and xs ys y
    by (induction xs) auto
  then show "sql_file_by_name db n = Some r \<Longrightarrow> sql_file_by_name (sql_insert_or_ignore_file m db) n = Some r"
    by (simp add: sql_insert_or_ignore_file_def sql_file_by_name_def)
qed

lemma by_name_Inr:
  assumes "by_name x e name add s = Inr (f, s')"
  obtains n r where "db_name x e name = Inr n" "sql_file_by_name (si_db s') n = Some r"
    "f = from_row e r" "s' = s \<or> (s' = st_write (sql_insert_or_ignore_file n) s \<and>
       sql_file_by_name (si_db s) n = None)"
  using assms
  by (fastforce simp: by_name_def rbind_Inr_iff Let_def split: option.splits if_splits)

lemma by_name_wf: "by_name x e name add s = Inr (f, s') \<Longrightarrow> st_wf s \<Longrightarrow> st_wf s'"
  by (erule by_name_Inr) (auto intro: insert_file.write_wf)

lemma by_name_insane: "by_name x e name add s = Inr (f, s') \<Longrightarrow> si_insane s' = si_insane s"
  by (erule by_name_Inr) auto

lemma by_name_keeps_rows:
  assumes "by_name x e name add s = Inr (f, s')" "sql_file_by_name (si_db s) n = Some r"
  shows "sql_file_by_name (si_db s') n = Some r"
  using assms(1)
proof (rule by_name_Inr)
  fix m q assume "s' = s \<or> (s' = st_write (sql_insert_or_ignore_file m) s \<and>
       sql_file_by_name (si_db s) m = None)"
  then show ?thesis
    using assms(2) insert_or_ignore_other by (auto simp: st_write_def Let_def)
qed

lemma by_name_deps:
  assumes "by_name x e name add s = Inr (f, s')"
  shows "db_deps (si_db s') = db_deps (si_db s)"
  using assms by (rule by_name_Inr) (auto simp: st_write_def Let_def sql_insert_or_ignore_file_def)

subsection \<open>Mark and sweep of dependencies\<close>

text \<open>The live dependency entries of a target: those not marked for deletion.\<close>

definition live_deps :: "database \<Rightarrow> int \<Rightarrow> (int \<times> string) set" where
  "live_deps db t =
     (\<lambda>d. (d_source d, d_mode d)) ` {d \<in> set (db_deps db). d_target d = t \<and> d_delete_me d \<noteq> 1}"

definition other_deps :: "database \<Rightarrow> int \<Rightarrow> dep_row list" where
  "other_deps db t = filter (\<lambda>d. d_target d \<noteq> t) (db_deps db)"

definition all_deps :: "database \<Rightarrow> int \<Rightarrow> (int \<times> string) set" where
  "all_deps db t = (\<lambda>d. (d_source d, d_mode d)) ` {d \<in> set (db_deps db). d_target d = t}"

lemma zap1_live: "live_deps (sql_zap_deps1 t db) t = {}"
proof -
  let ?z = "\<lambda>d. if d_target d = t then d\<lparr>d_delete_me := 1\<rparr> else d"
  have "d_target (?z d) = t \<Longrightarrow> d_delete_me (?z d) = 1" for d by (cases "d_target d = t") simp_all
  then have "{d \<in> ?z ` set (db_deps db). d_target d = t \<and> d_delete_me d \<noteq> 1} = {}" by blast
  then show ?thesis by (simp add: live_deps_def sql_zap_deps1_def)
qed

lemma zap1_other: "other_deps (sql_zap_deps1 t db) t = other_deps db t"
proof -
  have "filter (\<lambda>d. d_target d \<noteq> t) (map (\<lambda>d. if d_target d = t then d\<lparr>d_delete_me := 1\<rparr> else d) ds)
     = filter (\<lambda>d. d_target d \<noteq> t) ds" for ds
    by (induction ds) auto
  then show ?thesis by (simp add: other_deps_def sql_zap_deps1_def)
qed

lemma zap2_all: "all_deps (sql_zap_deps2 t db) t = live_deps db t"
  by (auto simp: all_deps_def live_deps_def sql_zap_deps2_def)

lemma zap2_other: "other_deps (sql_zap_deps2 t db) t = other_deps db t"
  by (auto simp: other_deps_def sql_zap_deps2_def intro!: filter_cong)

lemma insert_dep_live:
  "live_deps (sql_insert_or_replace_dep t m src 0 db) t =
     {p \<in> live_deps db t. fst p \<noteq> src} \<union> {(src, m)}"
proof -
  let ?new = "\<lparr>d_target = t, d_source = src, d_mode = m, d_delete_me = 0\<rparr>"
  let ?old = "{d \<in> set (db_deps db). d_target d = t \<and> d_delete_me d \<noteq> 1}"
  have "{d \<in> set (filter (\<lambda>d. \<not> (d_target d = t \<and> d_source d = src)) (db_deps db) @ [?new]).
           d_target d = t \<and> d_delete_me d \<noteq> 1} = insert ?new {d \<in> ?old. d_source d \<noteq> src}"
    unfolding set_append set_filter by fastforce
  then have "live_deps (sql_insert_or_replace_dep t m src 0 db) t =
      insert (src, m) ((\<lambda>d. (d_source d, d_mode d)) ` {d \<in> ?old. d_source d \<noteq> src})"
    by (simp add: live_deps_def sql_insert_or_replace_dep_def)
  also have "(\<lambda>d. (d_source d, d_mode d)) ` {d \<in> ?old. d_source d \<noteq> src} =
      {p \<in> live_deps db t. fst p \<noteq> src}"
    unfolding live_deps_def by force
  finally show ?thesis by simp
qed

lemma insert_dep_other: "other_deps (sql_insert_or_replace_dep t m src del db) t = other_deps db t"
  by (auto simp: other_deps_def sql_insert_or_replace_dep_def intro!: filter_cong)

text \<open>Recording a list of dependencies, as \<open>redo-ifchange\<close> and the cache-hit path do.\<close>

definition add_deps :: "ext_fns \<Rightarrow> env \<Rightarrow> redo_file \<Rightarrow> (char \<times> string) list \<Rightarrow> state_inner \<Rightarrow> state_inner res" where
  "add_deps x e f ds s = foldM (\<lambda>(mode, dep). add_dep x e f mode dep) ds s"

text \<open>The id a dependency name resolves to.\<close>

definition dep_id :: "ext_fns \<Rightarrow> env \<Rightarrow> state_inner \<Rightarrow> string \<Rightarrow> int option" where
  "dep_id x e s dep =
     (case db_name x e dep of Inl _ \<Rightarrow> None | Inr n \<Rightarrow> map_option r_id (sql_file_by_name (si_db s) n))"

lemma add_dep_Inr:
  assumes "add_dep x e f mode dep s = Inr s'" "\<not> si_insane s"
  obtains i where "dep_id x e s' dep = Some i"
    "live_deps (si_db s') (f_id f) = {p \<in> live_deps (si_db s) (f_id f). fst p \<noteq> i} \<union> {(i, [mode])}"
    "other_deps (si_db s') (f_id f) = other_deps (si_db s) (f_id f)"
    "\<not> si_insane s'"
    "\<And>d j. dep_id x e s d = Some j \<Longrightarrow> dep_id x e s' d = Some j"
proof -
  obtain src s1 where s1: "by_name x e dep True s = Inr (src, s1)"
    and s': "s' = st_write (sql_insert_or_replace_dep (f_id f) [mode] (f_id src) 0) s1"
    using assms(1) by (auto simp: add_dep_def rbind_Inr_iff)
  obtain n r where n: "db_name x e dep = Inr n" "sql_file_by_name (si_db s1) n = Some r" "src = from_row e r"
    using s1 by (rule by_name_Inr)
  have ins: "\<not> si_insane s1" using by_name_insane [OF s1] assms(2) by simp
  have db: "si_db s' = sql_insert_or_replace_dep (f_id f) [mode] (f_id src) 0 (si_db s1)"
    unfolding s' using ins by (rule st_write_db)
  have names: "sql_file_by_name (si_db s') m = sql_file_by_name (si_db s1) m" for m
    by (simp add: db sql_file_by_name_def sql_insert_or_replace_dep_def)
  have deps: "db_deps (si_db s1) = db_deps (si_db s)" using s1 by (rule by_name_deps)
  show thesis
  proof
    show "dep_id x e s' dep = Some (f_id src)"
      using n by (simp add: dep_id_def names from_row_def)
    show "live_deps (si_db s') (f_id f) =
        {p \<in> live_deps (si_db s) (f_id f). fst p \<noteq> f_id src} \<union> {(f_id src, [mode])}"
      unfolding db insert_dep_live by (simp add: live_deps_def deps)
    show "other_deps (si_db s') (f_id f) = other_deps (si_db s) (f_id f)"
      unfolding db insert_dep_other by (simp add: other_deps_def deps)
    show "\<not> si_insane s'" using ins by (simp add: s')
    show "dep_id x e s' d = Some j" if "dep_id x e s d = Some j" for d j
      using that by_name_keeps_rows [OF s1] by (auto simp: dep_id_def names split: sum.splits)
  qed
qed

text \<open>The dependency entries a list of names stands for, with the ids the database gives them.\<close>

definition dep_entries :: "ext_fns \<Rightarrow> env \<Rightarrow> state_inner \<Rightarrow> (char \<times> string) list \<Rightarrow> (int \<times> string) set" where
  "dep_entries x e s ds = {(i, md). \<exists>m d. (m, d) \<in> set ds \<and> dep_id x e s d = Some i \<and> md = [m]}"

lemma dep_entries_Nil [simp]: "dep_entries x e s [] = {}"
  by (simp add: dep_entries_def)

lemma dep_entries_Cons:
  "dep_id x e s d = Some i \<Longrightarrow> dep_entries x e s ((m, d) # ds) = insert (i, [m]) (dep_entries x e s ds)"
  by (auto simp: dep_entries_def)

lemma add_deps_Inr:
  assumes "add_deps x e f ds s = Inr s'" "\<not> si_insane s"
  shows "fst ` live_deps (si_db s') (f_id f) =
           fst ` live_deps (si_db s) (f_id f) \<union> fst ` dep_entries x e s' ds
    \<and> live_deps (si_db s') (f_id f) \<subseteq> live_deps (si_db s) (f_id f) \<union> dep_entries x e s' ds
    \<and> (\<forall>(m, d) \<in> set ds. dep_id x e s' d \<noteq> None)
    \<and> other_deps (si_db s') (f_id f) = other_deps (si_db s) (f_id f)
    \<and> \<not> si_insane s'
    \<and> (\<forall>d j. dep_id x e s d = Some j \<longrightarrow> dep_id x e s' d = Some j)"
  using assms
proof (induction ds arbitrary: s)
  case Nil
  then show ?case by (simp add: add_deps_def)
next
  case (Cons md ds)
  obtain m d where md: "md = (m, d)" by (cases md)
  obtain s1 where s1: "add_dep x e f m d s = Inr s1" "add_deps x e f ds s1 = Inr s'"
    using Cons.prems(1) by (auto simp: add_deps_def md rbind_Inr_iff)
  obtain i where i: "dep_id x e s1 d = Some i"
    "live_deps (si_db s1) (f_id f) = {p \<in> live_deps (si_db s) (f_id f). fst p \<noteq> i} \<union> {(i, [m])}"
    "other_deps (si_db s1) (f_id f) = other_deps (si_db s) (f_id f)" "\<not> si_insane s1"
    "\<And>d j. dep_id x e s d = Some j \<Longrightarrow> dep_id x e s1 d = Some j"
    using s1(1) Cons.prems(2) by (rule add_dep_Inr) blast
  note IH = Cons.IH [OF s1(2) i(4)]
  have di: "dep_id x e s' d = Some i" using IH i(1) by blast
  note ent = dep_entries_Cons [OF di, of m ds]
  have f1: "fst ` live_deps (si_db s1) (f_id f) = insert i (fst ` live_deps (si_db s) (f_id f))"
    unfolding i(2) by force
  show ?case
  proof (intro conjI)
    show "fst ` live_deps (si_db s') (f_id f) =
        fst ` live_deps (si_db s) (f_id f) \<union> fst ` dep_entries x e s' (md # ds)"
      using IH f1 by (simp add: md ent)
    show "live_deps (si_db s') (f_id f) \<subseteq>
        live_deps (si_db s) (f_id f) \<union> dep_entries x e s' (md # ds)"
      using IH unfolding md ent i(2) by blast
    show "\<forall>(m, d) \<in> set (md # ds). dep_id x e s' d \<noteq> None" using IH di md by simp
    show "other_deps (si_db s') (f_id f) = other_deps (si_db s) (f_id f)" using IH i(3) by simp
    show "\<not> si_insane s'" using IH by blast
    show "\<forall>d j. dep_id x e s d = Some j \<longrightarrow> dep_id x e s' d = Some j" using IH i(5) by blast
  qed
qed

subsection \<open>Saving\<close>

lemma find_map_other:
  assumes "\<And>r. k (u r) = k r" "v \<noteq> w"
  shows "List.find (\<lambda>r. k r = v) (map (\<lambda>r. if k r = w then u r else r) xs) = List.find (\<lambda>r. k r = v) xs"
  using assms by (induction xs) auto

lemma find_map_same:
  assumes "\<And>r. k (u r) = k r"
  shows "List.find (\<lambda>r. k r = v) (map (\<lambda>r. if k r = v then u r else r) xs) =
         map_option u (List.find (\<lambda>r. k r = v) xs)"
  using assms by (induction xs) auto

lemma update_file_by_id:
  "sql_file_by_id (sql_update_file i (row_update f) db) j =
     (if j = i then map_option (row_update f) (sql_file_by_id db j) else sql_file_by_id db j)"
  by (simp add: sql_file_by_id_def sql_update_file_def find_map_same find_map_other)

lemma from_row_update:
  assumes "f_id f = r_id r" "f_name f = r_name r" "f_name f \<noteq> ALWAYS"
  shows "from_row e (row_update f r) = f"
  using assms by (cases f) (simp add: from_row_def row_update_def bool_int_def)

lemma save_refresh_other: "f_id g \<noteq> f_id f \<Longrightarrow> refresh e (save f s) g = refresh e s g"
  by (simp add: refresh_def save_def st_write_def Let_def update_file_by_id)

text \<open>Concrete inputs of the witnesses: a fixed environment and a file system without links.\<close>

definition demo_env :: env where
  "demo_env = (from_env Map.empty)\<lparr>e_base := ''/w'', e_runid := Some 1000000002\<rparr>"

definition demo_ext :: ext_fns where
  "demo_ext = \<lparr>x_canonicalize = (\<lambda>p. Some p), x_diff_paths = path_strip_prefix,
               x_current_dir = Inr ''/w''\<rparr>"

definition demo_state :: state_inner where
  "demo_state = fresh_inner sql_create_db"

definition demo_file :: redo_file where
  "demo_file = from_row demo_env (new_file_row 2 ''a'')"

text \<open>Saving a file object and refreshing it from the database gives the object back, with every
  field (flags, run ids, stamp, checksum), and the rows of all other files are untouched.\<close>

theorem save_refresh:
  assumes "\<not> si_insane s" "refresh e s f = Inr g" "f_name f = f_name g" "f_name f \<noteq> ALWAYS"
  shows "refresh e (save f s) f = Inr f \<and>
         (\<forall>h. f_id h \<noteq> f_id f \<longrightarrow> refresh e (save f s) h = refresh e s h)"
proof -
  obtain r where r: "sql_file_by_id (si_db s) (f_id f) = Some r" "g = from_row e r"
    using assms(2) by (auto simp: refresh_def split: option.splits)
  have "f_id f = r_id r" "f_name f = r_name r"
    using find_id_Some [OF r(1)] assms(3) by (simp_all add: r(2) from_row_def)
  then have "from_row e (row_update f r) = f" using assms(4) by (rule from_row_update)
  then have "refresh e (save f s) f = Inr f"
    using assms(1) r(1) by (simp add: refresh_def save_def st_write_db update_file_by_id)
  then show ?thesis using save_refresh_other by blast
qed

theorem save_refresh_witness:
  "let s = st_write (sql_insert_or_ignore_file ''a'') demo_state; f = demo_file\<lparr>f_csum := Some ''x''\<rparr> in
   refresh demo_env (save f s) f = Inr f"
proof -
  let ?s = "st_write (sql_insert_or_ignore_file ''a'') demo_state"
  let ?f = "demo_file\<lparr>f_csum := Some ''x''\<rparr>"
  have "\<not> si_insane ?s" "refresh demo_env ?s ?f = Inr demo_file" "f_name ?f = f_name demo_file"
    "f_name ?f \<noteq> ALWAYS"
    by code_simp+
  then show ?thesis using save_refresh [of ?s demo_env ?f demo_file] by simp
qed

text \<open>Transactions are atomic. After any sequence of statements on a flushed connection a rollback
  restores exactly the database before the first of them, whereas a commit makes all their effects
  permanent: a later rollback keeps them. Either way nothing is left pending.\<close>

theorem transaction_atomic:
  assumes "st_wf s" "is_flushed s" "\<not> si_insane s" "stmts \<noteq> []"
  shows "si_db (st_rollback (fold st_write stmts s)) = si_db s
    \<and> si_db (st_rollback (st_commit (fold st_write stmts s))) = fold (\<lambda>f. f) stmts (si_db s)
    \<and> is_flushed (st_rollback (fold st_write stmts s)) \<and> is_flushed (st_commit (fold st_write stmts s))"
  using fold_st_write_flushed [OF assms] fold_st_write_sane [OF assms(3)] fold_st_write_db [OF assms(3)]
  by (simp add: st_rollback_def st_commit_def is_flushed_def)

theorem transaction_atomic_witness:
  "let s = fold st_write [sql_insert_or_ignore_file ''a'', sql_insert_runid] demo_state in
   si_db (st_rollback s) = si_db demo_state \<and> length (db_files (si_db (st_rollback (st_commit s)))) = 2"
proof -
  let ?w = "[sql_insert_or_ignore_file ''a'', sql_insert_runid]"
  have "st_wf demo_state" "is_flushed demo_state" "\<not> si_insane demo_state"
    by (simp_all add: demo_state_def fresh_inner_wf create_db_wf) (simp_all add: fresh_inner_def is_flushed_def)
  moreover have "length (db_files (fold (\<lambda>f. f) ?w (si_db demo_state))) = 2" by code_simp
  ultimately show ?thesis using transaction_atomic [of demo_state ?w] by (simp add: Let_def)
qed

text \<open>C12. Replacing the dependencies of a target. Marking its old entries, recording the new ones and
  sweeping the marked ones (the sequence of a build: \<open>zap_deps1\<close>, a number of \<open>add_dep\<close>s,
  \<open>zap_deps2\<close>) leaves exactly the files named during the build as its dependencies, each with a
  mode it was recorded with, and does not touch the entries of any other target.\<close>

theorem rebuild_deps_exact:
  assumes "\<not> si_insane s" "add_deps x e f ds (zap_deps1 f s) = Inr s1"
  shows "fst ` all_deps (si_db (zap_deps2 f s1)) (f_id f) = fst ` dep_entries x e s1 ds
    \<and> all_deps (si_db (zap_deps2 f s1)) (f_id f) \<subseteq> dep_entries x e s1 ds
    \<and> other_deps (si_db (zap_deps2 f s1)) (f_id f) = other_deps (si_db s) (f_id f)"
proof -
  have z: "si_db (zap_deps1 f s) = sql_zap_deps1 (f_id f) (si_db s)" "\<not> si_insane (zap_deps1 f s)"
    using assms(1) by (simp_all add: zap_deps1_def st_write_db)
  note r = add_deps_Inr [OF assms(2) z(2), unfolded z(1) zap1_live zap1_other]
  have "si_db (zap_deps2 f s1) = sql_zap_deps2 (f_id f) (si_db s1)"
    using r by (simp add: zap_deps2_def st_write_db)
  with r show ?thesis by (simp add: zap2_all zap2_other)
qed

definition demo_built :: state_inner where
  "demo_built =
     (let s = fold st_write [sql_insert_or_ignore_file ''t'', sql_insert_or_ignore_file ''old'',
                             sql_insert_or_replace_dep 2 ''m'' 3 0] demo_state in
      case add_deps demo_ext demo_env demo_file [(CHR ''m'', ''new''), (CHR ''c'', ''gone'')]
             (zap_deps1 demo_file s) of Inl _ \<Rightarrow> s | Inr s1 \<Rightarrow> s1)"

theorem rebuild_deps_exact_witness:
  "all_deps (si_db (zap_deps2 demo_file demo_built)) 2 = {(4, ''m''), (5, ''c'')} \<and>
   fst ` all_deps (si_db (zap_deps2 demo_file demo_built)) (f_id demo_file) =
   fst ` dep_entries demo_ext demo_env demo_built [(CHR ''m'', ''new''), (CHR ''c'', ''gone'')]"
proof -
  let ?s = "fold st_write [sql_insert_or_ignore_file ''t'', sql_insert_or_ignore_file ''old'',
                             sql_insert_or_replace_dep 2 ''m'' 3 0] demo_state"
  let ?ds = "[(CHR ''m'', ''new''), (CHR ''c'', ''gone'')]"
  have "\<not> si_insane ?s" by code_simp
  moreover have "\<exists>s1. add_deps demo_ext demo_env demo_file ?ds (zap_deps1 demo_file ?s) = Inr s1"
  proof -
    have "\<not> isl (add_deps demo_ext demo_env demo_file ?ds (zap_deps1 demo_file ?s))" by code_simp
    then show ?thesis by (auto simp: isl_def split: sum.splits) (metis sum.exhaust)
  qed
  then have "add_deps demo_ext demo_env demo_file ?ds (zap_deps1 demo_file ?s) = Inr demo_built"
    by (auto simp: demo_built_def Let_def)
  ultimately have "fst ` all_deps (si_db (zap_deps2 demo_file demo_built)) (f_id demo_file) =
      fst ` dep_entries demo_ext demo_env demo_built ?ds"
    using rebuild_deps_exact by blast
  moreover have "all_deps (si_db (zap_deps2 demo_file demo_built)) 2 = {(4, ''m''), (5, ''c'')}"
    by code_simp
  ultimately show ?thesis by simp
qed

subsection \<open>Resolving names twice\<close>

text \<open>C34. Looking a name up (creating its row if need be) is stable: a second look-up, allowed to
  create rows or not, returns the same file object and leaves the database alone; and no file that
  was known before changes.\<close>

theorem by_name_stable:
  assumes "by_name x e name allow_add s = Inr (f, s')" "st_wf s"
  shows "by_name x e name allow_add' s' = Inr (f, s')
    \<and> (\<forall>g h. refresh e s g = Inr h \<longrightarrow> refresh e s' g = Inr h) \<and> st_wf s'"
proof (intro conjI allI impI)
  obtain n r where n: "db_name x e name = Inr n" "sql_file_by_name (si_db s') n = Some r" "f = from_row e r"
    using assms(1) by (rule by_name_Inr)
  then show "by_name x e name allow_add' s' = Inr (f, s')" by (simp add: by_name_def)
  show wf: "st_wf s'" using by_name_wf [OF assms] .
  fix g h assume "refresh e s g = Inr h"
  then obtain q where q: "sql_file_by_id (si_db s) (f_id g) = Some q" "h = from_row e q"
    by (auto simp: refresh_def split: option.splits)
  have q1: "q \<in> set (db_files (si_db s))" "r_id q = f_id g" using find_id_Some [OF q(1)] by simp_all
  have "sql_file_by_name (si_db s) (r_name q) = Some q"
    using assms(2) q1 by (simp add: st_wf_def find_name_unique)
  with assms(1) have "sql_file_by_name (si_db s') (r_name q) = Some q" by (rule by_name_keeps_rows)
  from find_name_Some [OF this] wf have "sql_file_by_id (si_db s') (r_id q) = Some q"
    by (simp add: st_wf_def find_id_unique)
  with q(2) q1(2) show "refresh e s' g = Inr h" by (simp add: refresh_def)
qed

definition demo_found :: "redo_file \<times> state_inner" where
  "demo_found = (case by_name demo_ext demo_env ''a/../b'' True demo_state of
                   Inl _ \<Rightarrow> (demo_file, demo_state) | Inr r \<Rightarrow> r)"

lemma demo_state_wf: "st_wf demo_state" "is_flushed demo_state" "\<not> si_insane demo_state"
  by (simp_all add: demo_state_def fresh_inner_wf create_db_wf) (simp_all add: fresh_inner_def is_flushed_def)

theorem by_name_stable_witness:
  "f_name (fst demo_found) = ''b'' \<and> f_id (fst demo_found) = 2 \<and>
   by_name demo_ext demo_env ''a/../b'' False (snd demo_found) = Inr demo_found"
proof -
  have "\<not> isl (by_name demo_ext demo_env ''a/../b'' True demo_state)" by code_simp
  then have "by_name demo_ext demo_env ''a/../b'' True demo_state = Inr (fst demo_found, snd demo_found)"
    by (cases "by_name demo_ext demo_env ''a/../b'' True demo_state") (auto simp: demo_found_def)
  then have "by_name demo_ext demo_env ''a/../b'' False (snd demo_found) = Inr demo_found"
    using by_name_stable [OF _ demo_state_wf(1)] by (metis prod.collapse)
  moreover have "f_name (fst demo_found) = ''b''" "f_id (fst demo_found) = 2" by code_simp+
  ultimately show ?thesis by simp
qed

subsection \<open>Run ids\<close>

lemma env_v_runid: "e_runid (env_v p) = e_runid (from_env (p_vars p))"
  by (simp add: env_v_def Let_def)

lemma from_env_runid: "e_runid (from_env vs) = Option.bind (vs ''REDO_RUNID'') (parse_sint 64)"
  by (simp add: from_env_def)

lemma inherit_var:
  "inherit p = Inr p1 \<Longrightarrow> v \<noteq> ''REDO_UNLOCKED'' \<Longrightarrow> v \<noteq> ''REDO_NO_OOB'' \<Longrightarrow> p_vars p1 v = p_vars p v"
  by (auto simp: inherit_def rbind_Inr_iff)

lemma mark_locks_broken_runid:
  "mark_locks_broken p = Inr p1 \<Longrightarrow> e_runid (env_v p1) = e_runid (env_v p)"
  unfolding mark_locks_broken_def env_v_runid from_env_runid
  by (drule inherit_var [where v = "''REDO_RUNID''"]) simp_all

lemma ensure_runid_new:
  assumes "ensure_runid p s = Inr (p1, s1)" "e_runid (env_v p) = None" "\<not> si_insane s"
    "db_runid (si_db s) \<noteq> []" "\<forall>q \<in> set (db_runid (si_db s)). 0 \<le> q \<and> q < 2 ^ 63 - 1"
  defines "r \<equiv> Max (set (db_runid (si_db s))) + 1"
  shows "e_runid (env_v p1) = Some r" "db_runid (si_db s1) = db_runid (si_db s) @ [r]"
    "s1 = st_write sql_insert_runid s"
proof -
  show s1: "s1 = st_write sql_insert_runid s"
    using assms(1,2) by (auto simp: ensure_runid_def Let_def rbind_Inr_iff)
  show db: "db_runid (si_db s1) = db_runid (si_db s) @ [r]"
    using assms(3) by (simp add: s1 st_write_db sql_insert_runid_def r_def)
  have "inherit (p\<lparr>p_vars := (p_vars p)(''REDO_RUNID'' \<mapsto> show_int r)\<rparr>) = Inr p1"
    using assms(1,2) db by (auto simp: ensure_runid_def Let_def rbind_Inr_iff s1)
  from inherit_var [OF this, of "''REDO_RUNID''"] have "p_vars p1 ''REDO_RUNID'' = Some (show_int r)"
    by simp
  moreover have "Max (set (db_runid (si_db s))) \<in> set (db_runid (si_db s))" using assms(4) by simp
  with assms(5) have "0 \<le> r" "r < 2 ^ 63" by (fastforce simp: r_def)+
  then have "parse_sint 64 (show_int r) = Some r" by (intro parse_sint_show) simp_all
  ultimately show "e_runid (env_v p1) = Some r" by (simp add: env_v_runid from_env_runid)
qed

text \<open>Opening the database outside a run starts a new run: the process gets a run id larger than
  every recorded one, the id is recorded, passed on in the environment, and committed, so that
  every \<open>checked\<close>, \<open>changed\<close> or \<open>failed\<close> mark of an earlier run is older than this run.\<close>

theorem new_run_is_newest:
  assumes "state_db broken (Some db) p = Inr (p1, s)" "e_runid (env_v p) = None"
    "db_runid db \<noteq> []" "\<forall>q \<in> set (db_runid db). 0 \<le> q \<and> q < 2 ^ 63 - 1"
  shows "\<exists>r. e_runid (env_v p1) = Some r \<and> (\<forall>q \<in> set (db_runid db). q < r)
    \<and> db_runid (si_db s) = db_runid db @ [r] \<and> is_flushed s \<and> db_files (si_db s) = db_files db"
proof -
  let ?i = "fresh_inner db"
  have i: "si_db ?i = db" "\<not> si_insane ?i" by (simp_all add: fresh_inner_def)
  obtain p0 s1 where p0: "e_runid (env_v p0) = None" "ensure_runid p0 ?i = Inr (p1, s1)"
    and s: "s = st_commit s1"
    using assms(1,2) mark_locks_broken_runid [of p]
    by (fastforce simp: state_db_def rbind_Inr_iff split: if_splits)
  note r = ensure_runid_new [OF p0(2,1) i(2), unfolded i(1), OF assms(3,4)]
  have "si_db s = si_db s1" "is_flushed s"
    by (simp_all add: s st_commit_def r(3) st_write_def Let_def is_flushed_def fresh_inner_def)
  moreover have "db_files (si_db s1) = db_files db"
    by (simp add: r(3) st_write_db fresh_inner_def sql_insert_runid_def)
  moreover have "\<forall>q \<in> set (db_runid db). q < Max (set (db_runid db)) + 1"
    by (simp add: zless_add1_eq order_le_less [symmetric])
  ultimately show ?thesis using r(1,2) by auto
qed

definition demo_proc :: proc where
  "demo_proc = \<lparr>p_vars = [''REDO'' \<mapsto> ''x''], p_is_toplevel = True, p_unlocked_latch = False,
                p_no_oob_latch = False\<rparr>"

theorem new_run_is_newest_witness:
  "\<exists>p1 s. state_db True (Some sql_create_db) demo_proc = Inr (p1, s) \<and> e_runid (env_v p1) = Some 1000000001
     \<and> db_runid (si_db s) = [1000000000, 1000000001]"
proof -
  have "\<not> isl (state_db True (Some sql_create_db) demo_proc)" by code_simp
  then obtain p1 s where r: "state_db True (Some sql_create_db) demo_proc = Inr (p1, s)"
    by (cases "state_db True (Some sql_create_db) demo_proc") auto
  have "e_runid (env_v demo_proc) = None" by code_simp
  with new_run_is_newest [OF r] have "\<exists>r. e_runid (env_v p1) = Some r \<and> db_runid (si_db s) = db_runid sql_create_db @ [r]"
    by (auto simp: sql_create_db_def)
  moreover have "map_sum id (\<lambda>(p, s). last (db_runid (si_db s))) (state_db True (Some sql_create_db) demo_proc)
      = Inr 1000000001" by code_simp
  ultimately show ?thesis using r by (auto simp: sql_create_db_def)
qed

subsection \<open>Overrides\<close>

lemma round_half_even_nonneg: "0 \<le> n \<Longrightarrow> 0 < d \<Longrightarrow> 0 \<le> round_half_even n d"
  by (auto simp: round_half_even_def Let_def pos_imp_zdiv_nonneg_iff intro: add_nonneg_nonneg)

lemma f64_round_nonneg:
  assumes "0 \<le> fst x" "0 < snd x"
  shows "0 \<le> fst (f64_round x)" "0 < snd (f64_round x)"
proof -
  obtain n d where nd: "f64_scale (f64_exponent x) x = (n, d)" by fastforce
  then have "0 \<le> n" "0 < d"
    using assms by (auto simp: f64_scale_def split: prod.splits if_splits)
  then have "0 \<le> round_half_even n d" by (rule round_half_even_nonneg)
  then show "0 \<le> fst (f64_round x)" "0 < snd (f64_round x)"
    by (simp_all add: f64_round_def nd Let_def)
qed

lemma f64_add_nonneg:
  "0 \<le> fst x \<Longrightarrow> 0 < snd x \<Longrightarrow> 0 \<le> fst y \<Longrightarrow> 0 < snd y \<Longrightarrow> 0 \<le> fst (f64_add x y)"
  by (auto simp: f64_add_def split: prod.splits intro!: f64_round_nonneg)

lemma mtime_str_no_dash: "0 \<le> s \<Longrightarrow> CHR ''-'' \<notin> set (mtime_str s ns)"
proof -
  assume "0 \<le> s"
  then have "0 \<le> fst (f64_add (f64_round (s, 1)) (f64_round (int ns, 10 ^ 9)))"
    by (intro f64_add_nonneg f64_round_nonneg) simp_all
  moreover have "CHR ''-'' \<notin> set (show_nat k)" for k by (rule show_nat_notin) (simp add: is_digit_chars)
  ultimately show ?thesis
    unfolding mtime_str_def
    by (cases "f64_add (f64_round (s, 1)) (f64_round (int ns, 10 ^ 9))")
       (auto simp: fmt6_def pad6_def Let_def)
qed

lemma splitn3_stamp:
  "0 \<le> m_mtime m \<Longrightarrow> take 2 (splitn 3 (CHR ''-'') (stamp_of m)) =
     [mtime_str (m_mtime m) (m_mtime_nsec m), show_nat (m_size m)]"
  using mtime_str_no_dash show_nat_notin [of "CHR ''-''"]
  by (simp add: stamp_of_def numeral_3_eq_3 split_once_append is_digit_chars)

text \<open>Override detection compares modification time and size only: for two regular files (with
  times after 1970) a target counts as overridden exactly when the time or the size differs; a
  changed inode number, mode or owner alone does not make it one.\<close>

theorem detect_override_iff:
  assumes "0 \<le> m_mtime m1" "0 \<le> m_mtime m2"
  shows "detect_override (stamp_of m1) (stamp_of m2) \<longleftrightarrow>
     mtime_str (m_mtime m1) (m_mtime_nsec m1) \<noteq> mtime_str (m_mtime m2) (m_mtime_nsec m2)
     \<or> m_size m1 \<noteq> m_size m2"
  using assms splitn3_stamp [of m1] splitn3_stamp [of m2] by (auto simp: detect_override_def)

definition demo_meta :: meta where
  "demo_meta = \<lparr>m_is_dir = False, m_is_symlink = False, m_is_file = True, m_mtime = 7, m_mtime_nsec = 0,
                m_size = 3, m_ino = 5, m_mode = 4, m_uid = 0, m_gid = 0\<rparr>"

theorem detect_override_iff_witness:
  "\<not> detect_override (stamp_of demo_meta) (stamp_of (demo_meta\<lparr>m_ino := 6, m_mode := 2\<rparr>)) \<and>
   detect_override (stamp_of demo_meta) (stamp_of (demo_meta\<lparr>m_size := 4\<rparr>))"
  by (subst detect_override_iff, simp add: demo_meta_def, simp add: demo_meta_def)+
     (simp add: demo_meta_def)

end
