(* ===== verification/Locks.thy ===== *)
theory Locks
  imports State_Props
begin

text \<open>
  Target locks (\<open>Lock\<close>, \<open>lock_region\<close>, \<open>unlock_region\<close>, \<open>detect_broken_locks_fd\<close> of
  \<open>redo_core/src/state.rs\<close>), and the processes of a build that compete for them.

  The kernel's table of record locks on the lock file is the list of its entries (byte, process,
  shared); \<open>fcntl\<close> is given its POSIX meaning: locks belong to the process, a new request of the owner
  replaces its old one, a request that conflicts with another process fails (\<open>F_SETLK\<close>) or waits
  (\<open>F_SETLKW\<close>, the value \<open>None\<close>). Interrupted calls and a deadlock reported by the kernel are not
  modelled.
\<close>

type_synonym pid = nat
type_synonym klocks = "(int \<times> pid \<times> bool) list"

subsection \<open>Record locks\<close>

definition conflicts :: "klocks \<Rightarrow> pid \<Rightarrow> int \<Rightarrow> bool \<Rightarrow> bool" where
  "conflicts k p fid sh \<longleftrightarrow> list_ex (\<lambda>(i, q, s). i = fid \<and> q \<noteq> p \<and> \<not> (s \<and> sh)) k"

definition without :: "klocks \<Rightarrow> pid \<Rightarrow> int \<Rightarrow> klocks" where
  "without k p fid = filter (\<lambda>(i, q, s). \<not> (i = fid \<and> q = p)) k"

definition lock_region :: "pid \<Rightarrow> int \<Rightarrow> bool \<Rightarrow> bool \<Rightarrow> klocks \<Rightarrow> (bool \<times> klocks) option" where
  "lock_region p fid sh nonblock k =
     (if conflicts k p fid sh then (if nonblock then Some (False, k) else None)
      else Some (True, (fid, p, sh) # without k p fid))"

definition unlock_region :: "pid \<Rightarrow> int \<Rightarrow> klocks \<Rightarrow> klocks" where
  "unlock_region p fid k = without k p fid"

text \<open>The forked child has a process id of its own and does not inherit the lock.\<close>

definition detect_broken_locks_fd :: "pid \<Rightarrow> pid \<Rightarrow> klocks \<Rightarrow> (bool \<times> klocks) option" where
  "detect_broken_locks_fd p child k =
     (case lock_region p 0 False False k of
        None \<Rightarrow> None
      | Some (_, k1) \<Rightarrow>
          (case lock_region child 0 False True k1 of
             None \<Rightarrow> None
           | Some (got, k2) \<Rightarrow>
               \<comment> \<open>the exit of the child releases whatever it got\<close>
               Some (got, unlock_region p 0 (without k2 child 0))))"

subsection \<open>Lock objects\<close>

record lock =
  l_fid :: int
  l_owned :: bool

definition Lock_new :: "int \<Rightarrow> state_inner \<Rightarrow> (lock \<times> state_inner) res" where
  "Lock_new fid s =
     (if si_locks_held s fid = Some True then Inl (LockAlreadyCreated fid)
      else Inr (\<lparr>l_fid = fid, l_owned = False\<rparr>, s\<lparr>si_locks_held := (si_locks_held s)(fid \<mapsto> False)\<rparr>))"

definition Lock_check :: "vars \<Rightarrow> lock \<Rightarrow> unit res" where
  "Lock_check vs l = (if l_owned l then Inr () else cycles_check vs (l_fid l))"

definition hold :: "int \<Rightarrow> bool \<Rightarrow> state_inner \<Rightarrow> state_inner" where
  "hold fid b s = s\<lparr>si_locks_held := (si_locks_held s)(fid \<mapsto> b)\<rparr>"

definition Lock_trylock ::
  "vars \<Rightarrow> pid \<Rightarrow> lock \<Rightarrow> klocks \<Rightarrow> state_inner \<Rightarrow> (bool \<times> lock \<times> klocks \<times> state_inner) res" where
  "Lock_trylock vs p l k s =
     rbind (Lock_check vs l) (\<lambda>_.
       case lock_region p (l_fid l) False True k of
         None \<Rightarrow> Inr (False, l, k, s)
       | Some (got, k1) \<Rightarrow>
           Inr (got, l\<lparr>l_owned := got\<rparr>, k1, if got then hold (l_fid l) True s else s))"

definition Lock_waitlock ::
  "vars \<Rightarrow> pid \<Rightarrow> bool \<Rightarrow> lock \<Rightarrow> klocks \<Rightarrow> state_inner \<Rightarrow> (lock \<times> klocks \<times> state_inner) res option" where
  "Lock_waitlock vs p sh l k s =
     (case Lock_check vs l of
        Inl e \<Rightarrow> Some (Inl e)
      | Inr _ \<Rightarrow>
          (case lock_region p (l_fid l) sh False k of
             None \<Rightarrow> None
           | Some (_, k1) \<Rightarrow> Some (Inr (l\<lparr>l_owned := True\<rparr>, k1, hold (l_fid l) True s))))"

definition Lock_unlock :: "pid \<Rightarrow> lock \<Rightarrow> klocks \<Rightarrow> state_inner \<Rightarrow> (lock \<times> klocks \<times> state_inner) res" where
  "Lock_unlock p l k s =
     (if \<not> l_owned l then Inl (LockNotOwned (l_fid l))
      else Inr (l\<lparr>l_owned := False\<rparr>, unlock_region p (l_fid l) k, hold (l_fid l) False s))"

definition Lock_drop :: "pid \<Rightarrow> lock \<Rightarrow> klocks \<Rightarrow> state_inner \<Rightarrow> klocks \<times> state_inner" where
  "Lock_drop p l k s =
     (let (k1, s1) = (case Lock_unlock p l k s of Inl _ \<Rightarrow> (k, s) | Inr (_, k', s') \<Rightarrow> (k', s'))
      in (k1, s1\<lparr>si_locks_held := (si_locks_held s1)(l_fid l := None)\<rparr>))"

subsection \<open>Competing processes\<close>

record lproc =
  lp_vars :: vars
  lp_state :: state_inner
  lp_locks :: "lock list"

type_synonym lconf = "klocks \<times> (pid \<Rightarrow> lproc)"

text \<open>
  One operation of one process. A process has at most one \<open>Lock\<close> object per target
  (\<open>single\<close>): its callers drop an object they do not own before they create another one, and while
  it is owned \<open>Lock_new\<close> refuses. \<open>exit\<close> is the end of a process, at which the kernel drops its locks.
\<close>

inductive lock_step :: "lconf \<Rightarrow> lconf \<Rightarrow> bool" where
  new: "Lock_new fid (lp_state (ps p)) = Inr (l, s) \<Longrightarrow> fid \<notin> l_fid ` set (lp_locks (ps p)) \<Longrightarrow>
    lock_step (k, ps) (k, ps(p := (ps p)\<lparr>lp_state := s, lp_locks := l # lp_locks (ps p)\<rparr>))"
| trylock: "i < length (lp_locks (ps p)) \<Longrightarrow>
    Lock_trylock (lp_vars (ps p)) p (lp_locks (ps p) ! i) k (lp_state (ps p)) = Inr (got, l, k1, s) \<Longrightarrow>
    lock_step (k, ps) (k1, ps(p := (ps p)\<lparr>lp_state := s, lp_locks := (lp_locks (ps p))[i := l]\<rparr>))"
| waitlock: "i < length (lp_locks (ps p)) \<Longrightarrow>
    Lock_waitlock (lp_vars (ps p)) p sh (lp_locks (ps p) ! i) k (lp_state (ps p)) = Some (Inr (l, k1, s)) \<Longrightarrow>
    lock_step (k, ps) (k1, ps(p := (ps p)\<lparr>lp_state := s, lp_locks := (lp_locks (ps p))[i := l]\<rparr>))"
| unlock: "i < length (lp_locks (ps p)) \<Longrightarrow>
    Lock_unlock p (lp_locks (ps p) ! i) k (lp_state (ps p)) = Inr (l, k1, s) \<Longrightarrow>
    lock_step (k, ps) (k1, ps(p := (ps p)\<lparr>lp_state := s, lp_locks := (lp_locks (ps p))[i := l]\<rparr>))"
| drop: "i < length (lp_locks (ps p)) \<Longrightarrow>
    Lock_drop p (lp_locks (ps p) ! i) k (lp_state (ps p)) = (k1, s) \<Longrightarrow>
    lock_step (k, ps) (k1, ps(p := (ps p)\<lparr>lp_state := s,
       lp_locks := take i (lp_locks (ps p)) @ drop (Suc i) (lp_locks (ps p))\<rparr>))"
| env: "lock_step (k, ps) (k, ps(p := (ps p)\<lparr>lp_vars := vs\<rparr>))"
| exit: "lock_step (k, ps) (filter (\<lambda>(i, q, s). q \<noteq> p) k, ps(p := (ps p)\<lparr>lp_locks := []\<rparr>))"

inductive lock_reach :: "lconf \<Rightarrow> bool" where
  start: "(\<And>p. lp_locks (ps p) = []) \<Longrightarrow> lock_reach ([], ps)"
| step: "lock_reach c \<Longrightarrow> lock_step c c' \<Longrightarrow> lock_reach c'"

subsection \<open>The kernel's table\<close>

definition k_ok :: "klocks \<Rightarrow> bool" where
  "k_ok k \<longleftrightarrow> (\<forall>i p s q t. (i, p, s) \<in> set k \<longrightarrow> (i, q, t) \<in> set k \<longrightarrow> p \<noteq> q \<longrightarrow> s \<and> t)"

definition holds :: "klocks \<Rightarrow> pid \<Rightarrow> int \<Rightarrow> bool" where
  "holds k p fid \<longleftrightarrow> (\<exists>s. (fid, p, s) \<in> set k)"

lemma set_without: "set (without k p fid) = {(i, q, s) \<in> set k. \<not> (i = fid \<and> q = p)}"
  by (auto simp: without_def)

lemma conflicts_iff: "conflicts k p fid sh \<longleftrightarrow> (\<exists>q s. (fid, q, s) \<in> set k \<and> q \<noteq> p \<and> \<not> (s \<and> sh))"
  by (fastforce simp: conflicts_def list_ex_iff)

text \<open>The contract of an operation on the table: it keeps the table consistent and does not take a
  lock away from another process, or from the caller on another byte.\<close>

locale region_op =
  fixes p :: pid and fid :: int and opn :: "klocks \<Rightarrow> klocks"
  assumes op_ok: "k_ok k \<Longrightarrow> k_ok (opn k)"
    and op_others: "q \<noteq> p \<or> i \<noteq> fid \<Longrightarrow> holds (opn k) q i = holds k q i"

lemma k_ok_subset: "set k \<subseteq> set k' \<Longrightarrow> k_ok k' \<Longrightarrow> k_ok k"
  unfolding k_ok_def by blast

interpretation unlock_op: region_op p fid "unlock_region p fid" for p fid
  by unfold_locales
     (auto simp: unlock_region_def set_without holds_def elim!: k_ok_subset [rotated])

definition relock :: "pid \<Rightarrow> int \<Rightarrow> bool \<Rightarrow> bool \<Rightarrow> klocks \<Rightarrow> klocks" where
  "relock p fid sh nb k = (case lock_region p fid sh nb k of None \<Rightarrow> k | Some (_, k1) \<Rightarrow> k1)"

lemma relock_ok: "k_ok k \<Longrightarrow> k_ok (relock p fid sh nb k)"
proof (cases "conflicts k p fid sh")
  case False
  assume k: "k_ok k"
  have w: "k_ok (without k p fid)" using k by (rule k_ok_subset [rotated]) (auto simp: set_without)
  have "q \<noteq> p \<and> t \<and> sh" if "(fid, q, t) \<in> set (without k p fid)" for q t
    using that False by (auto simp: conflicts_iff set_without)
  with w have "k_ok ((fid, p, sh) # without k p fid)" unfolding k_ok_def set_simps by blast
  then show ?thesis using False by (simp add: relock_def lock_region_def)
qed (simp add: relock_def lock_region_def)

interpretation lock_op: region_op p fid "relock p fid sh nb" for p fid sh nb
  by unfold_locales
     (auto simp: relock_ok, auto simp: relock_def lock_region_def holds_def set_without split: if_splits)

lemma lock_region_Some:
  "lock_region p fid sh nb k = Some (got, k1) \<Longrightarrow>
     k1 = relock p fid sh nb k \<and> (got \<longrightarrow> holds k1 p fid) \<and> (\<not> nb \<longrightarrow> got)
     \<and> (got \<longleftrightarrow> \<not> conflicts k p fid sh) \<and> (\<not> got \<longrightarrow> k1 = k)"
  by (auto simp: lock_region_def relock_def holds_def split: if_splits)

subsection \<open>The invariant of the system\<close>

text \<open>Every owned object is backed by an entry of the kernel's table.\<close>

definition lock_inv :: "lconf \<Rightarrow> bool" where
  "lock_inv c \<longleftrightarrow> k_ok (fst c) \<and>
     (\<forall>p. distinct (map l_fid (lp_locks (snd c p))) \<and>
          (\<forall>l \<in> set (lp_locks (snd c p)). l_owned l \<longrightarrow> holds (fst c) p (l_fid l)))"

text \<open>How the methods act on an object and on the table; one rule serves all of them.\<close>

lemma lock_update_inv:
  assumes inv: "lock_inv (k, ps)" and i: "i < length (lp_locks (ps p))"
    and l: "l_fid l = l_fid (lp_locks (ps p) ! i)" "l_owned l \<longrightarrow> holds k1 p (l_fid l)"
    and k1: "k_ok k1" "\<And>q j. q \<noteq> p \<or> j \<noteq> l_fid l \<Longrightarrow> holds k1 q j = holds k q j"
  shows "lock_inv (k1, ps(p := (ps p)\<lparr>lp_state := s, lp_locks := (lp_locks (ps p))[i := l]\<rparr>))"
proof -
  let ?ls = "lp_locks (ps p)"
  have d: "map l_fid (?ls[i := l]) = map l_fid ?ls" 
    using i l(1) by (metis list_update_id map_update nth_map)
  have dist: "distinct (map l_fid ?ls)" using inv by (simp add: lock_inv_def)
  have "l_owned l' \<longrightarrow> holds k1 p (l_fid l')" if mem: "l' \<in> set (?ls[i := l])" for l'
  proof -
    obtain j where j: "j < length ?ls" "l' = ?ls[i := l] ! j" using mem unfolding in_set_conv_nth length_list_update by blast
    show ?thesis
    proof (cases "j = i")
      case True then show ?thesis using j i l(2) by simp
    next
      case False
      then have l': "l' = ?ls ! j" using j by simp
      have "l_fid l' \<noteq> l_fid l" using False j(1) i dist l(1) l' by (auto simp: distinct_conv_nth)
      moreover have "l' \<in> set ?ls" using l' j(1) by simp
      ultimately show ?thesis using inv k1(2) [of p "l_fid l'"] by (auto simp: lock_inv_def)
    qed
  qed
  then show ?thesis using inv k1 d by (auto simp: lock_inv_def)
qed

lemma trylock_effect:
  assumes "Lock_trylock vs p l k s = Inr (got, l', k1, s')"
  shows "l_fid l' = l_fid l" "l_owned l' = got" "k1 = relock p (l_fid l) False True k"
    "got \<longrightarrow> holds k1 p (l_fid l)" "got \<longleftrightarrow> \<not> conflicts k p (l_fid l) False"
proof -
  obtain k' where r: "lock_region p (l_fid l) False True k = Some (got, k')" "l' = l\<lparr>l_owned := got\<rparr>" "k1 = k'"
    using assms by (auto simp: Lock_trylock_def rbind_Inr_iff lock_region_def split: if_splits)
  show "l_fid l' = l_fid l" "l_owned l' = got" "k1 = relock p (l_fid l) False True k"
    "got \<longrightarrow> holds k1 p (l_fid l)" "got \<longleftrightarrow> \<not> conflicts k p (l_fid l) False"
    using lock_region_Some [OF r(1)] unfolding r(2,3) by auto
qed

lemma waitlock_effect:
  assumes "Lock_waitlock vs p sh l k s = Some (Inr (l', k1, s'))"
  shows "l_fid l' = l_fid l" "l_owned l'" "k1 = relock p (l_fid l) sh False k" "holds k1 p (l_fid l)"
proof -
  obtain g k' where r: "lock_region p (l_fid l) sh False k = Some (g, k')" "l' = l\<lparr>l_owned := True\<rparr>" "k1 = k'"
    using assms by (auto simp: Lock_waitlock_def split: sum.splits option.splits)
  show "l_fid l' = l_fid l" "l_owned l'" "k1 = relock p (l_fid l) sh False k" "holds k1 p (l_fid l)"
    using lock_region_Some [OF r(1)] unfolding r(2,3) by auto
qed

lemma unlock_effect:
  assumes "Lock_unlock p l k s = Inr (l', k1, s')"
  shows "l_fid l' = l_fid l" "\<not> l_owned l'" "k1 = unlock_region p (l_fid l) k" "l_owned l"
  using assms by (auto simp: Lock_unlock_def split: if_splits)

lemma drop_effect:
  assumes "Lock_drop p l k s = (k1, s')"
  shows "k1 = (if l_owned l then unlock_region p (l_fid l) k else k)"
  using assms by (auto simp: Lock_drop_def Lock_unlock_def Let_def split: if_splits)

lemma drop_inv:
  assumes inv: "lock_inv (k, ps)" and i: "i < length (lp_locks (ps p))"
    and k1: "k_ok k1" "\<And>q j. q \<noteq> p \<or> j \<noteq> l_fid (lp_locks (ps p) ! i) \<Longrightarrow> holds k1 q j = holds k q j"
  shows "lock_inv (k1, ps(p := (ps p)\<lparr>lp_state := s,
           lp_locks := take i (lp_locks (ps p)) @ drop (Suc i) (lp_locks (ps p))\<rparr>))"
proof -
  let ?ls = "lp_locks (ps p)" let ?rest = "take i ?ls @ drop (Suc i) ?ls"
  have ls: "?ls = take i ?ls @ ?ls ! i # drop (Suc i) ?ls" using i by (rule id_take_nth_drop)
  have d: "distinct (map l_fid (take i ?ls @ ?ls ! i # drop (Suc i) ?ls))"
    using inv ls by (auto simp: lock_inv_def)
  have "set ?rest \<subseteq> set ?ls" by (auto dest: in_set_takeD in_set_dropD)
  moreover have "l_fid l' \<noteq> l_fid (?ls ! i)" if "l' \<in> set ?rest" for l'
    using d that by (auto simp: image_iff)
  ultimately have "l_owned l' \<longrightarrow> holds k1 p (l_fid l')" if "l' \<in> set ?rest" for l'
    using that inv k1(2) [of p "l_fid l'"] unfolding lock_inv_def fst_conv snd_conv by blast
  moreover have "distinct (map l_fid ?rest)" using d by auto
  ultimately show ?thesis using inv k1 by (auto simp: lock_inv_def)
qed

lemma exit_inv:
  assumes "lock_inv (k, ps)"
  shows "lock_inv (filter (\<lambda>(i, q, s). q \<noteq> p) k, ps(p := (ps p)\<lparr>lp_locks := []\<rparr>))"
proof -
  have "k_ok (filter (\<lambda>(i, q, s). q \<noteq> p) k)"
    using assms k_ok_subset [OF filter_is_subset] unfolding lock_inv_def fst_conv by blast
  moreover have "holds (filter (\<lambda>(i, q, s). q \<noteq> p) k) r j = holds k r j" if "r \<noteq> p" for r j
    using that by (auto simp: holds_def)
  ultimately show ?thesis using assms by (auto simp: lock_inv_def)
qed

lemma lock_step_inv: "lock_step c c' \<Longrightarrow> lock_inv c \<Longrightarrow> lock_inv c'"
proof (induction rule: lock_step.induct)
  case (new fid ps p l s k)
  then show ?case by (auto simp: lock_inv_def Lock_new_def split: if_splits)
next
  case (trylock i ps p k got l k1 s)
  note e = trylock_effect [OF trylock(2)]
  show ?case
    using e lock_op.op_ok lock_op.op_others trylock.prems
    by (intro lock_update_inv [OF trylock.prems trylock(1)]) (auto simp: lock_inv_def)
next
  case (waitlock i ps p sh k l k1 s)
  note e = waitlock_effect [OF waitlock(2)]
  show ?case
    using e lock_op.op_ok lock_op.op_others waitlock.prems
    by (intro lock_update_inv [OF waitlock.prems waitlock(1)]) (auto simp: lock_inv_def)
next
  case (unlock i ps p k l k1 s)
  note e = unlock_effect [OF unlock(2)]
  show ?case
    using e unlock_op.op_ok unlock_op.op_others unlock.prems
    by (intro lock_update_inv [OF unlock.prems unlock(1)]) (auto simp: lock_inv_def)
next
  case (drop i ps p k k1 s)
  note e = drop_effect [OF drop(2)]
  show ?case
    using e unlock_op.op_ok unlock_op.op_others drop.prems
    by (intro drop_inv [OF drop.prems drop(1)]) (auto simp: lock_inv_def)
next
  case (env k ps p vs)
  then show ?case by (auto simp: lock_inv_def)
next
  case (exit k ps p)
  then show ?case by (rule exit_inv)
qed

lemma lock_reach_inv: "lock_reach c \<Longrightarrow> lock_inv c"
proof (induction rule: lock_reach.induct)
  case (start ps)
  then show ?case by (simp add: lock_inv_def k_ok_def)
qed (rule lock_step_inv)

subsection \<open>Properties\<close>

text \<open>C5. Mutual exclusion. Whatever interleaving of operations the processes of a build perform, two
  processes never own the lock of the same target at the same time, except as shared readers: if
  both own it, both hold it in shared mode, so a process that builds (exclusive mode) is alone.\<close>

theorem lock_mutual_exclusion:
  assumes "lock_reach (k, ps)" "p \<noteq> q"
    "l \<in> set (lp_locks (ps p))" "l_owned l" "l' \<in> set (lp_locks (ps q))" "l_owned l'" "l_fid l = l_fid l'"
  shows "\<forall>(i, r, s) \<in> set k. i = l_fid l \<and> (r = p \<or> r = q) \<longrightarrow> s"
proof -
  have inv: "k_ok k" "holds k p (l_fid l)" "holds k q (l_fid l)"
    using lock_reach_inv [OF assms(1)] assms(3-7) unfolding lock_inv_def fst_conv snd_conv by metis+
  then obtain s1 s2 where "(l_fid l, p, s1) \<in> set k" "(l_fid l, q, s2) \<in> set k"
    by (auto simp: holds_def)
  then have "s" if "(l_fid l, r, s) \<in> set k" "r = p \<or> r = q" for r s
    using that assms(2) inv(1) unfolding k_ok_def by blast
  then show ?thesis by auto
qed

definition demo_lproc :: lproc where
  "demo_lproc = \<lparr>lp_vars = Map.empty, lp_state = demo_state, lp_locks = []\<rparr>"

definition demo_reader :: lproc where
  "demo_reader = \<lparr>lp_vars = Map.empty, lp_state = hold 5 True demo_state, lp_locks = [\<lparr>l_fid = 5, l_owned = True\<rparr>]\<rparr>"

lemma reader_step:
  assumes "lock_reach (k, ps)" "ps p = demo_lproc" "\<not> conflicts k p 5 True"
  shows "lock_reach ((5, p, True) # without k p 5, ps(p := demo_reader))"
proof -
  let ?l = "\<lparr>l_fid = 5, l_owned = False\<rparr>"
  let ?s = "hold 5 False demo_state"
  let ?ps = "ps(p := (ps p)\<lparr>lp_state := ?s, lp_locks := ?l # lp_locks (ps p)\<rparr>)"
  have "lock_step (k, ps) (k, ?ps)"
    using assms(2) by (intro lock_step.new [of 5])
      (simp_all add: demo_lproc_def Lock_new_def hold_def demo_state_def fresh_inner_def)
  moreover have "lock_step (k, ?ps) ((5, p, True) # without k p 5,
      ?ps(p := (?ps p)\<lparr>lp_state := hold 5 True ?s, lp_locks := (lp_locks (?ps p))[0 := ?l\<lparr>l_owned := True\<rparr>]\<rparr>))"
    using assms(2,3) by (intro lock_step.waitlock [where sh = True])
      (simp_all add: demo_lproc_def Lock_waitlock_def Lock_check_def cycles_check_def cycles_get_def
        var_or_def lock_region_def)
  moreover have "?ps(p := (?ps p)\<lparr>lp_state := hold 5 True ?s, lp_locks := (lp_locks (?ps p))[0 := ?l\<lparr>l_owned := True\<rparr>]\<rparr>)
      = ps(p := demo_reader)"
    using assms(2) by (simp add: demo_lproc_def demo_reader_def hold_def)
  ultimately show ?thesis using assms(1) by (metis lock_reach.step)
qed

theorem lock_mutual_exclusion_witness:
  "\<exists>k ps. lock_reach (k, ps) \<and> length k = 2 \<and> (\<forall>(i, r, s) \<in> set k. i = 5 \<and> (r = 1 \<or> r = 2) \<longrightarrow> s)"
proof -
  let ?ps = "(\<lambda>_. demo_lproc)(1 := demo_reader)"
  have "lock_reach ([], \<lambda>_. demo_lproc)" by (rule lock_reach.start) (simp add: demo_lproc_def)
  then have "lock_reach ([(5, 1, True)], ?ps)"
    using reader_step [of "[]" _ 1] by (simp add: conflicts_def without_def)
  then have r: "lock_reach ([(5, 2, True), (5, 1, True)], ?ps(2 := demo_reader))"
    using reader_step [of "[(5, 1, True)]" ?ps 2] by (simp add: conflicts_def without_def)
  then have "\<forall>(i, r, s) \<in> set [(5, 2, True), (5, 1, True)]. i = (5 :: int) \<and> (r = (1 :: pid) \<or> r = 2) \<longrightarrow> s"
    using lock_mutual_exclusion [OF r, of 1 2 "\<lparr>l_fid = 5, l_owned = True\<rparr>" "\<lparr>l_fid = 5, l_owned = True\<rparr>"]
    by (simp add: demo_reader_def)
  with r show ?thesis
    by (intro exI [of _ "[(5, 2, True), (5, 1, True)]"] exI [of _ "?ps(2 := demo_reader)"]) simp
qed

text \<open>C39. Asking for a lock that a parent process is building never waits: \<open>trylock\<close> and \<open>waitlock\<close> on a
  target recorded in \<open>REDO_CYCLES\<close> return the cyclic-dependency error at once (a wait would be a
  deadlock), and otherwise \<open>trylock\<close> succeeds exactly when no other process holds the lock.\<close>

theorem lock_never_waits_on_ancestor:
  assumes "\<not> l_owned l"
  shows "(show_int (l_fid l) \<in> set (cycles_get vs) \<longrightarrow>
            Lock_waitlock vs p sh l k s = Some (Inl CyclicDependency) \<and>
            Lock_trylock vs p l k s = Inl CyclicDependency)
       \<and> (show_int (l_fid l) \<notin> set (cycles_get vs) \<longrightarrow>
            (\<exists>l' k' s'. Lock_trylock vs p l k s =
               Inr (\<forall>(i, q, b) \<in> set k. i = l_fid l \<longrightarrow> q = p, l', k', s')))"
proof -
  have c: "(\<not> conflicts k p (l_fid l) False) = (\<forall>(i, q, b) \<in> set k. i = l_fid l \<longrightarrow> q = p)"
    by (auto simp: conflicts_iff)
  show ?thesis
    unfolding c [symmetric]
    using assms by (auto simp: Lock_waitlock_def Lock_trylock_def Lock_check_def cycles_check_def lock_region_def)
qed

theorem lock_never_waits_on_ancestor_witness:
  "Lock_waitlock [''REDO_CYCLES'' \<mapsto> ''3:5''] 2 False \<lparr>l_fid = 5, l_owned = False\<rparr> [(5, 1, False)] demo_state
     = Some (Inl CyclicDependency)"
proof -
  have "show_int (l_fid \<lparr>l_fid = 5, l_owned = False\<rparr>) \<in> set (cycles_get [''REDO_CYCLES'' \<mapsto> ''3:5''])"
    by code_simp
  then show ?thesis
    using lock_never_waits_on_ancestor [of "\<lparr>l_fid = 5, l_owned = False\<rparr>" "[''REDO_CYCLES'' \<mapsto> ''3:5'']" 2 False]
    by simp
qed

text \<open>With working record locks the start-up test reports that locks work: the child of
  \<open>detect_broken_locks_fd\<close> is refused the parent's lock, and the test leaves no lock behind.\<close>

theorem working_locks_detected:
  assumes "child \<noteq> p" "detect_broken_locks_fd p child k = Some (broken, k')"
  shows "\<not> broken \<and> \<not> holds k' p 0 \<and> (\<forall>q i. q \<noteq> child \<and> (q \<noteq> p \<or> i \<noteq> 0) \<longrightarrow> holds k' q i = holds k q i)"
proof -
  obtain g k1 where k1: "lock_region p 0 False False k = Some (g, k1)"
    using assms(2) by (auto simp: detect_broken_locks_fd_def split: option.splits)
  have "conflicts k1 child 0 False"
    using k1 assms(1) by (auto simp: lock_region_def conflicts_def split: if_splits)
  then have "lock_region child 0 False True k1 = Some (False, k1)" by (simp add: lock_region_def)
  then have r: "broken = False" "k' = unlock_region p 0 (without k1 child 0)"
    using assms(2) k1 by (simp_all add: detect_broken_locks_fd_def)
  have "holds k' q i = holds k q i" if "q \<noteq> child" "q \<noteq> p \<or> i \<noteq> 0" for q i
    using that lock_op.op_others [of q p i 0 False False k] lock_region_Some [OF k1]
    by (auto simp: r(2) unlock_region_def holds_def set_without)
  then show ?thesis using r by (auto simp: unlock_region_def holds_def set_without)
qed

theorem working_locks_detected_witness:
  "\<exists>k. detect_broken_locks_fd 1 2 [(7, 3, False)] = Some (False, k) \<and> holds k 3 7"
proof -
  have "detect_broken_locks_fd 1 2 [(7, 3, False)] \<noteq> None"
    by (simp add: detect_broken_locks_fd_def lock_region_def conflicts_def without_def)
  then obtain b k where r: "detect_broken_locks_fd 1 2 [(7, 3, False)] = Some (b, k)" by auto
  show ?thesis using working_locks_detected [OF _ r] r by (auto simp: holds_def)
qed

text \<open>
  The guard of \<open>Lock::new\<close> tests for a held lock, not for an existing object: two objects for one
  target can be made, both can be locked by the process, and unlocking one releases the kernel's lock
  under the other, which still counts as owned. The premise \<open>fid \<notin> l_fid ` ..\<close> of the step relation
  is therefore needed.
\<close>

definition two_objects :: "int \<Rightarrow> state_inner \<Rightarrow> (lock \<times> klocks) res" where
  "two_objects fid s =
     rbind (Lock_new fid s) (\<lambda>(a, s1).
       rbind (Lock_new fid s1) (\<lambda>(b, s2).
         rbind (Lock_trylock Map.empty 1 a [] s2) (\<lambda>(_, a1, k1, s3).
           rbind (Lock_trylock Map.empty 1 b k1 s3) (\<lambda>(_, b1, k2, s4).
             rbind (Lock_unlock 1 a1 k2 s4) (\<lambda>(_, k3, s5). Inr (b1, k3))))))"

lemma lock_two_objects: "two_objects 5 demo_state = Inr (\<lparr>l_fid = 5, l_owned = True\<rparr>, [])"
  by code_simp

end
