(* ===== verification/Deps.thy ===== *)
theory Deps
  imports State_Props
begin

text \<open>
  The dirtiness analysis (\<open>redo_core/src/deps.rs\<close>): \<open>isdirty\<close> with the closures of its callers
  (\<open>isdirty_default\<close>, \<open>redo-ood\<close>), and the read-only variant with its \<open>PlanCache\<close>.

  The recursion follows recorded dependencies, which may be cyclic; \<open>already_checked\<close> stops it. The
  functions take fuel, the depth of the recursion, and \<open>None\<close> means that it ran out; the number of
  files in the database plus one is always enough (\<open>isdirty_terminates\<close>, \<open>isdirty_readonly_terminates\<close>).
\<close>

datatype dirty_result = Clean | Dirty | MustBuild "redo_file list"

subsection \<open>The analysis\<close>

text \<open>The three closures \<open>isdirty\<close> is given, acting on a state of their own.\<close>

record 'c dirty_ops =
  op_is_checked :: "redo_file \<Rightarrow> 'c \<Rightarrow> bool"
  op_set_checked :: "redo_file \<Rightarrow> state_inner \<times> 'c \<Rightarrow> state_inner \<times> 'c"
  op_log_override :: "string \<Rightarrow> 'c \<Rightarrow> 'c"

definition vanished :: "env \<Rightarrow> redo_file \<Rightarrow> state_inner \<Rightarrow> (redo_file \<times> state_inner) res" where
  "vanished e f s =
     (let f1 = f\<lparr>f_is_generated := False, f_failed_runid := None\<rparr>; s1 = save f1 s
      in rbind (refresh e s1 f1) (\<lambda>f2. Inr (f2, s1)))"

definition dep_max :: "redo_file \<Rightarrow> int" where
  "dep_max f = max (unwrap_or (f_changed_runid f) 0) (unwrap_or (f_checked_runid f) 0)"

definition created :: "fsview \<Rightarrow> env \<Rightarrow> redo_file \<Rightarrow> dirty_result" where
  "created fs e f = (if path_exists fs (path_join (e_base e) (f_name f)) then Dirty else Clean)"

text \<open>What the loop does with the verdict on one dependency: return, or go on with the targets that
  have to be built first.\<close>

definition dep_verdict :: "redo_file \<Rightarrow> dirty_result \<Rightarrow> redo_file list \<Rightarrow> dirty_result + redo_file list" where
  "dep_verdict f d mb =
     (case d of
        Clean \<Rightarrow> Inr mb
      | MustBuild v \<Rightarrow> Inr (mb @ v)
      | Dirty \<Rightarrow> Inl (if f_csum f = None then Dirty else MustBuild [f]))"

text \<open>The tests before the dependencies are looked at: a verdict, or none yet.\<close>

definition early_verdict :: "bool \<Rightarrow> redo_file \<Rightarrow> int \<Rightarrow> dirty_result option" where
  "early_verdict chk f mx =
     (if f_failed_runid f \<noteq> None then Some Dirty
      else if f_changed_runid f = None then Some Dirty
      else if unwrap_or (f_changed_runid f) 0 > mx then Some Dirty
      else if chk then Some Clean
      else if f_stamp f = None then Some Dirty
      else None)"

fun isdirty :: "'c dirty_ops \<Rightarrow> fsview \<Rightarrow> env \<Rightarrow> nat \<Rightarrow> redo_file \<Rightarrow> int \<Rightarrow> int list \<Rightarrow> state_inner \<times> 'c
    \<Rightarrow> (dirty_result \<times> redo_file \<times> state_inner \<times> 'c) res option"
  and isdirty_deps :: "'c dirty_ops \<Rightarrow> fsview \<Rightarrow> env \<Rightarrow> nat \<Rightarrow> redo_file \<Rightarrow> int list \<Rightarrow> redo_file list
    \<Rightarrow> (char \<times> redo_file) list \<Rightarrow> state_inner \<times> 'c
    \<Rightarrow> (dirty_result \<times> redo_file \<times> state_inner \<times> 'c) res option" where
  "isdirty ops fs e 0 f mx already w = None"
| "isdirty ops fs e (Suc n) f mx already w =
     (if f_id f \<in> set already then Some (Inl CyclicDependency)
      else case early_verdict (op_is_checked ops f (snd w)) f mx of
        Some v \<Rightarrow> Some (Inr (v, f, w))
      | None \<Rightarrow>
          (let newstamp = read_stamp fs e f in
           if f_stamp f \<noteq> Some newstamp
           then Some (rbind (if newstamp = STAMP_MISSING \<and> f_is_generated f
                             then vanished e f (fst w) else Inr (f, fst w)) (\<lambda>(f1, s1).
                        Inr (if f_csum f1 \<noteq> None then MustBuild [f1] else Dirty, f1, s1, snd w)))
           else isdirty_deps ops fs e n f (already @ [f_id f]) [] (file_deps e (fst w) f) w))"
| "isdirty_deps ops fs e n f checked mb [] w =
     (if mb \<noteq> [] then Some (Inr (MustBuild mb, f, w))
      else let c1 = (if f_is_override f then op_log_override ops (f_name f) (snd w) else snd w)
           in Some (Inr (Clean, f, op_set_checked ops f (fst w, c1))))"
| "isdirty_deps ops fs e n f checked mb ((mode, f2) # ds) w =
     (case (if mode = CHR ''c'' then Some (Inr (created fs e f2, f2, w))
            else if mode = CHR ''m'' then isdirty ops fs e n f2 (dep_max f) checked w
            else Some (Inr (Clean, f2, w))) of
        None \<Rightarrow> None
      | Some (Inl err) \<Rightarrow> Some (Inl err)
      | Some (Inr (d, _, w1)) \<Rightarrow>
          (case dep_verdict f d mb of
             Inl v \<Rightarrow> Some (Inr (v, f, w1))
           | Inr mb1 \<Rightarrow> isdirty_deps ops fs e n f checked mb1 ds w1))"

subsection \<open>Its callers\<close>

text \<open>\<open>isdirty_default\<close>: the closure state is the list of warnings printed.\<close>

definition default_ops :: "int set \<Rightarrow> env \<Rightarrow> string list dirty_ops" where
  "default_ops preflight e =
     \<lparr>op_is_checked = (\<lambda>f _. is_checked e f \<or> f_id f \<in> preflight),
      op_set_checked = (\<lambda>f (s, c). (snd (set_checked_save e f s), c)),
      op_log_override = (\<lambda>n c. c @ [n])\<rparr>"

definition isdirty_default :: "int set \<Rightarrow> fsview \<Rightarrow> env \<Rightarrow> nat \<Rightarrow> redo_file \<Rightarrow> int \<Rightarrow> state_inner \<times> string list
    \<Rightarrow> (dirty_result \<times> redo_file \<times> state_inner \<times> string list) res option" where
  "isdirty_default preflight fs e n f mx w = isdirty (default_ops preflight e) fs e n f mx [] w"

text \<open>\<open>redo-ood\<close>: the closure state is the set of ids found clean.\<close>

definition ood_ops :: "int set dirty_ops" where
  "ood_ops =
     \<lparr>op_is_checked = (\<lambda>f c. f_id f \<in> c),
      op_set_checked = (\<lambda>f (s, c). (s, insert (f_id f) c)),
      op_log_override = (\<lambda>_ c. c)\<rparr>"

text \<open>The loop of \<open>redo-ood\<close>: the names of the targets that are not clean.\<close>

fun ood_loop :: "fsview \<Rightarrow> env \<Rightarrow> nat \<Rightarrow> int \<Rightarrow> redo_file list \<Rightarrow> string list \<Rightarrow> state_inner \<times> int set
    \<Rightarrow> (string list \<times> state_inner \<times> int set) res option" where
  "ood_loop fs e n runid [] out w = Some (Inr (out, w))"
| "ood_loop fs e n runid (f # rest) out w =
     (if \<not> is_target fs e f then ood_loop fs e n runid rest out w
      else case isdirty ood_ops fs e n f runid [] w of
        None \<Rightarrow> None
      | Some (Inl err) \<Rightarrow> Some (Inl err)
      | Some (Inr (d, f1, w1)) \<Rightarrow>
          ood_loop fs e n runid rest (if d = Clean then out else out @ [f_name f1]) w1)"

definition redo_ood :: "ext_fns \<Rightarrow> fsview \<Rightarrow> env \<Rightarrow> nat \<Rightarrow> state_inner \<Rightarrow> string list res option" where
  "redo_ood x fs e n s =
     (case x_current_dir x of
        Inl err \<Rightarrow> Some (Inl err)
      | Inr cwd \<Rightarrow>
          map_option (\<lambda>r. rbind r (\<lambda>(names, _).
            Inr (map (\<lambda>n. unwrap_or (x_diff_paths x (path_join (e_base e) n) cwd) n) names)))
            (ood_loop fs e n (unwrap_or (e_runid e) 0) (files e s) [] (s, {})))"

subsection \<open>The read-only analysis\<close>

record plan_cache =
  pc_checked :: "int set"
  pc_stamp :: "int \<rightharpoonup> string"
  pc_deps :: "int \<rightharpoonup> (char \<times> redo_file) list"

definition pc_empty :: plan_cache where
  "pc_empty = \<lparr>pc_checked = {}, pc_stamp = Map.empty, pc_deps = Map.empty\<rparr>"

definition pc_is_checked :: "redo_file \<Rightarrow> plan_cache \<Rightarrow> bool" where
  "pc_is_checked f c \<longleftrightarrow> f_id f \<in> pc_checked c"

definition pc_set_checked :: "redo_file \<Rightarrow> plan_cache \<Rightarrow> plan_cache" where
  "pc_set_checked f c = c\<lparr>pc_checked := insert (f_id f) (pc_checked c)\<rparr>"

definition read_stamp_cached :: "fsview \<Rightarrow> env \<Rightarrow> redo_file \<Rightarrow> plan_cache \<Rightarrow> string \<times> plan_cache" where
  "read_stamp_cached fs e f c =
     (let c1 = (if pc_stamp c (f_id f) = None
                then c\<lparr>pc_stamp := (pc_stamp c)(f_id f \<mapsto> read_stamp fs e f)\<rparr> else c)
      in (unwrap_or (pc_stamp c1 (f_id f)) [], c1))"

definition deps_cached :: "env \<Rightarrow> state_inner \<Rightarrow> redo_file \<Rightarrow> plan_cache \<Rightarrow> (char \<times> redo_file) list \<times> plan_cache" where
  "deps_cached e s f c =
     (case pc_deps c (f_id f) of
        Some v \<Rightarrow> (v, c)
      | None \<Rightarrow> let v = file_deps e s f in (v, c\<lparr>pc_deps := (pc_deps c)(f_id f \<mapsto> v)\<rparr>))"

text \<open>\<open>log_override\<close> collects the warnings; \<open>isdirty_readonly_default\<close> drops them.\<close>

fun isdirty_readonly :: "fsview \<Rightarrow> env \<Rightarrow> state_inner \<Rightarrow> nat \<Rightarrow> redo_file \<Rightarrow> int \<Rightarrow> int list \<Rightarrow> plan_cache \<times> string list
    \<Rightarrow> (dirty_result \<times> plan_cache \<times> string list) res option"
  and readonly_deps :: "fsview \<Rightarrow> env \<Rightarrow> state_inner \<Rightarrow> nat \<Rightarrow> redo_file \<Rightarrow> int list \<Rightarrow> redo_file list
    \<Rightarrow> (char \<times> redo_file) list \<Rightarrow> plan_cache \<times> string list
    \<Rightarrow> (dirty_result \<times> plan_cache \<times> string list) res option" where
  "isdirty_readonly fs e s 0 f mx already w = None"
| "isdirty_readonly fs e s (Suc n) f mx already w =
     (if f_id f \<in> set already then Some (Inl CyclicDependency)
      else case early_verdict (pc_is_checked f (fst w)) f mx of
        Some v \<Rightarrow> Some (Inr (v, w))
      | None \<Rightarrow>
          (let (newstamp, c1) = read_stamp_cached fs e f (fst w) in
           if f_stamp f \<noteq> Some newstamp
           then Some (Inr (if f_csum f \<noteq> None then MustBuild [f] else Dirty, c1, snd w))
           else let (ds, c2) = deps_cached e s f c1
                in readonly_deps fs e s n f (already @ [f_id f]) [] ds (c2, snd w)))"
| "readonly_deps fs e s n f checked mb [] w =
     (if mb \<noteq> [] then Some (Inr (MustBuild mb, w))
      else Some (Inr (Clean, pc_set_checked f (fst w),
                      if f_is_override f then snd w @ [f_name f] else snd w)))"
| "readonly_deps fs e s n f checked mb ((mode, f2) # ds) w =
     (case (if mode = CHR ''c'' then Some (Inr (created fs e f2, w))
            else if mode = CHR ''m'' then isdirty_readonly fs e s n f2 (dep_max f) checked w
            else Some (Inr (Clean, w))) of
        None \<Rightarrow> None
      | Some (Inl err) \<Rightarrow> Some (Inl err)
      | Some (Inr (d, w1)) \<Rightarrow>
          (case dep_verdict f d mb of
             Inl v \<Rightarrow> Some (Inr (v, w1))
           | Inr mb1 \<Rightarrow> readonly_deps fs e s n f checked mb1 ds w1))"

definition isdirty_readonly_default ::
  "fsview \<Rightarrow> env \<Rightarrow> state_inner \<Rightarrow> nat \<Rightarrow> redo_file \<Rightarrow> int \<Rightarrow> plan_cache \<Rightarrow> (dirty_result \<times> plan_cache) res option" where
  "isdirty_readonly_default fs e s n f mx c =
     map_option (\<lambda>r. rbind r (\<lambda>(d, w). Inr (d, fst w))) (isdirty_readonly fs e s n f mx [] (c, []))"

subsection \<open>Enough fuel\<close>

definition file_id_set :: "state_inner \<Rightarrow> int set" where
  "file_id_set s = r_id ` set (db_files (si_db s))"

lemma finite_file_id_set [simp]: "finite (file_id_set s)"
  by (simp add: file_id_set_def)

lemma file_id_set_names: "file_id_set s = snd ` set (file_ids (si_db s))"
  by (auto simp: file_id_set_def file_ids_def image_iff)

lemma save_ids [simp]: "file_id_set (save f s) = file_id_set s"
  by (simp add: file_id_set_names save_def st_write_def Let_def update_file_ids)

lemma vanished_ids: "vanished e f s = Inr (f1, s1) \<Longrightarrow> file_id_set s1 = file_id_set s"
  by (auto simp: vanished_def Let_def rbind_Inr_iff)

lemma sql_deps_known:
  "(m, r) \<in> set (sql_deps_of db t) \<Longrightarrow> sql_file_by_id db (r_id r) = Some r"
proof -
  assume "(m, r) \<in> set (sql_deps_of db t)"
  then obtain d :: dep_row where
    d: "(m, r) \<in> set (case sql_file_by_id db (d_source d) of None \<Rightarrow> [] | Some r \<Rightarrow> [(d_mode d, r)])"
    unfolding sql_deps_of_def set_concat set_map by blast
  then have "sql_file_by_id db (d_source d) = Some r"
    by (cases "sql_file_by_id db (d_source d)") simp_all
  then show ?thesis using find_id_Some by metis
qed

text \<open>A file object that is what the database says.\<close>

definition known :: "env \<Rightarrow> state_inner \<Rightarrow> redo_file \<Rightarrow> bool" where
  "known e s f \<longleftrightarrow> refresh e s f = Inr f"

lemma known_from_row: "sql_file_by_id (si_db s) (r_id r) = Some r \<Longrightarrow> known e s (from_row e r)"
  by (simp add: known_def refresh_def from_row_def)

lemma known_unique: "known e s f \<Longrightarrow> known e s g \<Longrightarrow> f_id f = f_id g \<Longrightarrow> f = g"
  by (auto simp: known_def refresh_def split: option.splits)

lemma known_id: "known e s f \<Longrightarrow> f_id f \<in> file_id_set s"
proof -
  assume "known e s f"
  then obtain r where "sql_file_by_id (si_db s) (f_id f) = Some r"
    by (auto simp: known_def refresh_def split: option.splits)
  from find_id_Some [OF this] show ?thesis by (force simp: file_id_set_def)
qed

lemma file_deps_known: "(m, g) \<in> set (file_deps e s f) \<Longrightarrow> known e s g"
  using sql_deps_known known_from_row by (auto simp: file_deps_def split: if_splits)

text \<open>
  What the analysis relies on of a caller's closures: marking a file as checked neither adds nor
  removes files.
\<close>

locale dirty_checker =
  fixes ops :: "'c dirty_ops"
  assumes set_checked_ids: "file_id_set (fst (op_set_checked ops f w)) = file_id_set (fst w)"
begin

definition ids_kept :: "(dirty_result \<times> redo_file \<times> state_inner \<times> 'c) res option \<Rightarrow> state_inner \<times> 'c \<Rightarrow> bool" where
  "ids_kept r w \<longleftrightarrow>
     (case r of Some (Inr (d, f, w1)) \<Rightarrow> file_id_set (fst w1) = file_id_set (fst w) | Some (Inl _) \<Rightarrow> True | None \<Rightarrow> False)"

definition fuel_ok :: "fsview \<Rightarrow> env \<Rightarrow> nat \<Rightarrow> bool" where
  "fuel_ok fs e n \<longleftrightarrow>
     (\<forall>f mx already w. f_id f \<in> file_id_set (fst w) \<longrightarrow> set already \<subseteq> file_id_set (fst w) \<longrightarrow>
        distinct already \<longrightarrow> card (file_id_set (fst w)) - length already < n \<longrightarrow>
        ids_kept (isdirty ops fs e n f mx already w) w)"

lemma deps_enough_fuel:
  assumes "fuel_ok fs e n"
  shows "\<forall>(m, g) \<in> set ds. f_id g \<in> file_id_set (fst w) \<Longrightarrow> set checked \<subseteq> file_id_set (fst w) \<Longrightarrow>
     distinct checked \<Longrightarrow> card (file_id_set (fst w)) - length checked < n \<Longrightarrow>
     ids_kept (isdirty_deps ops fs e n f checked mb ds w) w"
proof (induction ds arbitrary: mb w)
  case Nil
  then show ?case by (auto simp: ids_kept_def Let_def set_checked_ids)
next
  case (Cons md ds)
  obtain m g where md: "md = (m, g)" by (cases md)
  let ?r = "if m = CHR ''c'' then Some (Inr (created fs e g, g, w))
            else if m = CHR ''m'' then isdirty ops fs e n g (dep_max f) checked w
            else Some (Inr (Clean, g, w))"
  have r: "ids_kept ?r w"
  proof (cases "m = CHR ''m''")
    case True
    have "ids_kept (isdirty ops fs e n g (dep_max f) checked w) w"
      using assms [unfolded fuel_ok_def, rule_format, of g w checked "dep_max f"] Cons.prems md by simp
    with True show ?thesis by simp
  qed (simp add: ids_kept_def)
  show ?case
  proof (cases ?r)
    case None
    with r show ?thesis by (simp add: ids_kept_def)
  next
    case (Some q)
    show ?thesis
    proof (cases q)
      case (Inl err)
      with Some show ?thesis by (simp add: md ids_kept_def)
    next
      case (Inr q1)
      obtain d g1 w1 where q1: "q1 = (d, g1, w1)" by (cases q1)
      have ids: "file_id_set (fst w1) = file_id_set (fst w)"
        using r Some Inr q1 by (simp add: ids_kept_def)
      then have "ids_kept (isdirty_deps ops fs e n f checked mb1 ds w1) w1" for mb1
        using Cons.IH [of w1 mb1] Cons.prems by auto
      then have "ids_kept (isdirty_deps ops fs e n f checked mb1 ds w1) w" for mb1
        unfolding ids_kept_def ids .
      with Some Inr q1 ids show ?thesis
        by (simp add: md split: sum.splits) (simp add: ids_kept_def)
    qed
  qed
qed

lemma enough_fuel: "fuel_ok fs e n"
proof (induction n)
  case 0
  then show ?case by (simp add: fuel_ok_def)
next
  case (Suc n)
  have "ids_kept (isdirty ops fs e (Suc n) f mx already w) w"
    if h: "f_id f \<in> file_id_set (fst w)" "set already \<subseteq> file_id_set (fst w)" "distinct already"
      "card (file_id_set (fst w)) - length already < Suc n" for f mx already w
  proof (cases "f_id f \<in> set already \<or> early_verdict (op_is_checked ops f (snd w)) f mx \<noteq> None
       \<or> f_stamp f \<noteq> Some (read_stamp fs e f)")
    case True
    then show ?thesis
      using vanished_ids by (fastforce simp: ids_kept_def Let_def rbind_def split: option.splits sum.splits)
  next
    case False
    have d: "distinct (already @ [f_id f])" "set (already @ [f_id f]) \<subseteq> file_id_set (fst w)"
      using h False by auto
    then have "length (already @ [f_id f]) \<le> card (file_id_set (fst w))"
      by (metis card_mono distinct_card finite_file_id_set)
    then have "card (file_id_set (fst w)) - length (already @ [f_id f]) < n" using h(4) by simp
    moreover have "\<forall>(m, g) \<in> set (file_deps e (fst w) f). f_id g \<in> file_id_set (fst w)"
      using file_deps_known known_id by blast
    ultimately have "ids_kept (isdirty_deps ops fs e n f (already @ [f_id f]) [] (file_deps e (fst w) f) w) w"
      using deps_enough_fuel [OF Suc.IH] d by blast
    with False show ?thesis by (simp add: Let_def)
  qed
  then show ?case unfolding fuel_ok_def by blast
qed

lemma terminates:
  assumes "f_id f \<in> file_id_set (fst w)" "card (file_id_set (fst w)) < n"
  shows "isdirty ops fs e n f mx [] w \<noteq> None"
  using enough_fuel [of fs e n] assms unfolding fuel_ok_def
  by (metis (no_types, lifting) bot.extremum diff_zero distinct.simps(1) empty_set ids_kept_def
      list.size(3) option.simps(4))

end

lemma set_checked_save_ids: "file_id_set (snd (set_checked_save e f s)) = file_id_set s"
  by (simp add: set_checked_save_def Let_def)

interpretation default_checker: dirty_checker "default_ops preflight e" for preflight e
  by unfold_locales (simp add: default_ops_def set_checked_save_ids split: prod.splits)

interpretation ood_checker: dirty_checker ood_ops
  by unfold_locales (simp add: ood_ops_def split: prod.splits)

subsection \<open>Up-to-dateness\<close>

text \<open>
  The specification. A file is up to date when it did not fail, its stamp is the recorded one, the
  files whose absence it relied on are still absent, and every dependency has not changed since the
  file was last built or checked and is up to date itself. The predicate is inductive: a file on a
  dependency cycle is not up to date.
\<close>

inductive up_to_date :: "fsview \<Rightarrow> env \<Rightarrow> state_inner \<Rightarrow> redo_file \<Rightarrow> bool" for fs e s where
  "f_failed_runid f = None \<Longrightarrow> f_changed_runid f \<noteq> None \<Longrightarrow> f_stamp f = Some (read_stamp fs e f) \<Longrightarrow>
   (\<And>g. (CHR ''c'', g) \<in> set (file_deps e s f) \<Longrightarrow> created fs e g = Clean) \<Longrightarrow>
   (\<And>g. (CHR ''m'', g) \<in> set (file_deps e s f) \<Longrightarrow>
      unwrap_or (f_changed_runid g) 0 \<le> dep_max f \<and> up_to_date fs e s g) \<Longrightarrow>
   up_to_date fs e s f"

inductive_cases up_to_dateE: "up_to_date fs e s f"

definition mdep :: "env \<Rightarrow> state_inner \<Rightarrow> redo_file \<Rightarrow> redo_file \<Rightarrow> bool" where
  "mdep e s f g \<longleftrightarrow> (CHR ''m'', g) \<in> set (file_deps e s f)"

lemma up_to_date_acyclic: "up_to_date fs e s f \<Longrightarrow> \<not> (mdep e s)\<^sup>+\<^sup>+ f f"
proof (induction rule: up_to_date.induct)
  case (1 f)
  show ?case
  proof
    assume "(mdep e s)\<^sup>+\<^sup>+ f f"
    then obtain g where g: "mdep e s f g" "(mdep e s)\<^sup>*\<^sup>* g f"
      using tranclpD [of "mdep e s" f f] by blast
    then have "(mdep e s)\<^sup>+\<^sup>+ g g" by (metis rtranclp_into_tranclp1)
    then show False using 1(5) g(1) unfolding mdep_def by blast
  qed
qed

subsection \<open>The plan cache\<close>

definition cache_ok :: "fsview \<Rightarrow> env \<Rightarrow> state_inner \<Rightarrow> plan_cache \<Rightarrow> bool" where
  "cache_ok fs e s c \<longleftrightarrow>
     (\<forall>f. known e s f \<longrightarrow>
        (f_id f \<in> pc_checked c \<longrightarrow> up_to_date fs e s f) \<and>
        (\<forall>st. pc_stamp c (f_id f) = Some st \<longrightarrow> st = read_stamp fs e f) \<and>
        (\<forall>ds. pc_deps c (f_id f) = Some ds \<longrightarrow> ds = file_deps e s f))"

lemma cache_ok_empty: "cache_ok fs e s pc_empty"
  by (simp add: cache_ok_def pc_empty_def)

lemma read_stamp_cached_ok:
  assumes "cache_ok fs e s c" "known e s f" "read_stamp_cached fs e f c = (st, c1)"
  shows "st = read_stamp fs e f" "cache_ok fs e s c1" "pc_checked c1 = pc_checked c"
proof -
  have u: "g = f" if "known e s g" "f_id g = f_id f" for g using known_unique that assms(2) by blast
  show "st = read_stamp fs e f" "pc_checked c1 = pc_checked c"
    using assms by (auto simp: read_stamp_cached_def cache_ok_def Let_def split: if_splits)
  show "cache_ok fs e s c1"
    using assms(1,3)
    by (auto dest: u simp: read_stamp_cached_def cache_ok_def Let_def split: if_splits)
qed

lemma deps_cached_ok:
  assumes "cache_ok fs e s c" "known e s f" "deps_cached e s f c = (ds, c1)"
  shows "ds = file_deps e s f" "cache_ok fs e s c1"
proof -
  have u: "g = f" if "known e s g" "f_id g = f_id f" for g using known_unique that assms(2) by blast
  show "ds = file_deps e s f"
    using assms by (auto simp: deps_cached_def cache_ok_def Let_def split: option.splits)
  show "cache_ok fs e s c1"
    using assms(1,3)
    by (auto dest: u simp: deps_cached_def cache_ok_def Let_def split: option.splits if_splits)
qed

lemma set_checked_ok:
  assumes "cache_ok fs e s c" "known e s f" "up_to_date fs e s f"
  shows "cache_ok fs e s (pc_set_checked f c)"
  using assms by (auto dest: known_unique [OF assms(2)] simp: cache_ok_def pc_set_checked_def)

subsection \<open>Soundness of the read-only analysis\<close>

definition dep_fine :: "fsview \<Rightarrow> env \<Rightarrow> state_inner \<Rightarrow> redo_file \<Rightarrow> char \<Rightarrow> redo_file \<Rightarrow> bool" where
  "dep_fine fs e s f m g \<longleftrightarrow>
     (m = CHR ''c'' \<longrightarrow> created fs e g = Clean) \<and>
     (m = CHR ''m'' \<longrightarrow> unwrap_or (f_changed_runid g) 0 \<le> dep_max f \<and> up_to_date fs e s g)"

lemma up_to_date_iff:
  "up_to_date fs e s f \<longleftrightarrow> f_failed_runid f = None \<and> f_changed_runid f \<noteq> None \<and>
     f_stamp f = Some (read_stamp fs e f) \<and> (\<forall>(m, g) \<in> set (file_deps e s f). dep_fine fs e s f m g)"
  by (subst up_to_date.simps) (auto simp: dep_fine_def)

lemma early_verdict_None:
  "early_verdict chk f mx = None \<longleftrightarrow> f_failed_runid f = None \<and> f_changed_runid f \<noteq> None \<and>
     unwrap_or (f_changed_runid f) 0 \<le> mx \<and> \<not> chk \<and> f_stamp f \<noteq> None"
  by (auto simp: early_verdict_def)

lemma early_verdict_Some:
  "early_verdict chk f mx = Some v \<Longrightarrow>
     v = Dirty \<or> (v = Clean \<and> chk \<and> f_failed_runid f = None \<and> unwrap_or (f_changed_runid f) 0 \<le> mx)"
  by (auto simp: early_verdict_def split: if_splits)

lemma dep_verdict_Inl: "dep_verdict f d mb = Inl v \<Longrightarrow> d = Dirty \<and> v \<noteq> Clean"
  by (auto simp: dep_verdict_def split: dirty_result.splits if_splits)

lemma dep_verdict_Inr: "dep_verdict f d mb = Inr mb1 \<Longrightarrow> (d = Clean \<and> mb1 = mb) \<or> (\<exists>v. d = MustBuild v \<and> mb1 = mb @ v)"
  by (auto simp: dep_verdict_def split: dirty_result.splits if_splits)

text \<open>A list of targets to build first is never empty, and each of them has a checksum.\<close>

definition verdict_ok :: "dirty_result \<Rightarrow> bool" where
  "verdict_ok d = (case d of MustBuild v \<Rightarrow> v \<noteq> [] \<and> (\<forall>g \<in> set v. f_csum g \<noteq> None) | _ \<Rightarrow> True)"

lemma verdict_ok_simps [simp]:
  "verdict_ok Clean" "verdict_ok Dirty"
  "verdict_ok (MustBuild v) = (v \<noteq> [] \<and> (\<forall>g \<in> set v. f_csum g \<noteq> None))"
  "verdict_ok (created fs e f)"
  by (simp_all add: verdict_ok_def created_def)

definition ro_sound :: "fsview \<Rightarrow> env \<Rightarrow> state_inner \<Rightarrow> nat \<Rightarrow> bool" where
  "ro_sound fs e s n \<longleftrightarrow>
     (\<forall>f mx already w d w'. cache_ok fs e s (fst w) \<longrightarrow> known e s f \<longrightarrow>
        isdirty_readonly fs e s n f mx already w = Some (Inr (d, w')) \<longrightarrow>
        cache_ok fs e s (fst w') \<and> verdict_ok d \<and>
        (d = Clean \<longrightarrow> up_to_date fs e s f \<and> unwrap_or (f_changed_runid f) 0 \<le> mx))"

lemma readonly_deps_sound:
  assumes "ro_sound fs e s n" "known e s f"
    and "\<forall>(m, g) \<in> set ds. known e s g" "cache_ok fs e s (fst w)"
    and "(\<forall>(m, g) \<in> set ds. dep_fine fs e s f m g) \<Longrightarrow> mb = [] \<Longrightarrow> up_to_date fs e s f"
    and "\<forall>g \<in> set mb. f_csum g \<noteq> None"
    and "readonly_deps fs e s n f checked mb ds w = Some (Inr (d, w'))"
  shows "cache_ok fs e s (fst w') \<and> verdict_ok d \<and> (d = Clean \<longrightarrow> up_to_date fs e s f)"
  using assms(3-)
proof (induction ds arbitrary: mb w)
  case Nil
  then show ?case using set_checked_ok [OF _ assms(2)] by (auto split: if_splits)
next
  case (Cons mg ds)
  obtain m g where mg: "mg = (m, g)" by (cases mg)
  let ?r = "if m = CHR ''c'' then Some (Inr (created fs e g, w))
            else if m = CHR ''m'' then isdirty_readonly fs e s n g (dep_max f) checked w
            else Some (Inr (Clean, w))"
  obtain d1 w1 where r: "?r = Some (Inr (d1, w1))"
    using Cons.prems(5) by (simp only: mg readonly_deps.simps split: option.splits sum.splits prod.splits)
  have g: "cache_ok fs e s (fst w1)" "verdict_ok d1" "d1 = Clean \<Longrightarrow> dep_fine fs e s f m g"
    using r Cons.prems(1,2) assms(1) [unfolded ro_sound_def, rule_format, of w g "dep_max f" checked d1 w1]
    by (auto simp: mg dep_fine_def split: if_splits)
  have rest: "(case dep_verdict f d1 mb of Inl v \<Rightarrow> Some (Inr (v, w1))
     | Inr mb1 \<Rightarrow> readonly_deps fs e s n f checked mb1 ds w1) = Some (Inr (d, w'))"
    using Cons.prems(5) r by (simp only: mg readonly_deps.simps option.case sum.case prod.case)
  show ?case
  proof (cases "dep_verdict f d1 mb")
    case (Inl v)
    then have "v = d" "w1 = w'" using rest by simp_all
    moreover have "verdict_ok v" using Inl by (auto simp: dep_verdict_def split: dirty_result.splits)
    ultimately show ?thesis using g dep_verdict_Inl [OF Inl] by simp
  next
    case (Inr mb1)
    have "readonly_deps fs e s n f checked mb1 ds w1 = Some (Inr (d, w'))" using rest Inr by simp
    moreover have "mb1 = [] \<Longrightarrow> d1 = Clean \<and> mb = []"
      using dep_verdict_Inr [OF Inr] g(2) by auto
    moreover have "\<forall>h \<in> set mb1. f_csum h \<noteq> None"
      using dep_verdict_Inr [OF Inr] g(2) Cons.prems(4) by auto
    ultimately show ?thesis
      using Cons.IH [of w1 mb1] Cons.prems(1,3) g by (auto simp: mg)
  qed
qed

lemma readonly_sound: "ro_sound fs e s n"
proof (induction n)
  case 0
  then show ?case by (simp add: ro_sound_def)
next
  case (Suc n)
  have "cache_ok fs e s (fst w') \<and> verdict_ok d \<and>
        (d = Clean \<longrightarrow> up_to_date fs e s f \<and> unwrap_or (f_changed_runid f) 0 \<le> mx)"
    if h: "cache_ok fs e s (fst w)" "known e s f"
      "isdirty_readonly fs e s (Suc n) f mx already w = Some (Inr (d, w'))" for f mx already w d w'
  proof -
    have na: "f_id f \<notin> set already" using h(3) by auto
    show ?thesis
    proof (cases "early_verdict (pc_is_checked f (fst w)) f mx")
      case (Some v)
      then have "d = v" "w' = w" using h(3) na by simp_all
      then show ?thesis
        using early_verdict_Some [OF Some] h(1,2) by (auto simp: pc_is_checked_def cache_ok_def)
    next
      case None
      note ev = None [unfolded early_verdict_None]
      obtain st c1 where st: "read_stamp_cached fs e f (fst w) = (st, c1)" by fastforce
      note st1 = read_stamp_cached_ok [OF h(1,2) st]
      obtain ds c2 where ds: "deps_cached e s f c1 = (ds, c2)" by fastforce
      note ds1 = deps_cached_ok [OF st1(2) h(2) ds]
      show ?thesis
      proof (cases "f_stamp f = Some st")
        case False
        then show ?thesis using h(3) na None st st1(2) by (auto split: if_splits)
      next
        case True
        have utd: "up_to_date fs e s f" if "\<forall>(m, g) \<in> set ds. dep_fine fs e s f m g"
          using that ev True st1(1) ds1(1) by (subst up_to_date_iff) simp
        have "readonly_deps fs e s n f (already @ [f_id f]) [] ds (c2, snd w) = Some (Inr (d, w'))"
          using h(3) na None st ds True by simp
        moreover have "\<forall>(m, g) \<in> set ds. known e s g" using ds1(1) file_deps_known by blast
        ultimately have "cache_ok fs e s (fst w') \<and> verdict_ok d \<and> (d = Clean \<longrightarrow> up_to_date fs e s f)"
          using ds1(2) utd by (intro readonly_deps_sound [OF Suc.IH h(2), of ds "(c2, snd w)" "[]"]) simp_all
        then show ?thesis using ev by simp
      qed
    qed
  qed
  then show ?case unfolding ro_sound_def by blast
qed

subsection \<open>Completeness and termination of the read-only analysis\<close>

definition ro_total :: "fsview \<Rightarrow> env \<Rightarrow> state_inner \<Rightarrow> nat \<Rightarrow> bool" where
  "ro_total fs e s n \<longleftrightarrow>
     (\<forall>f mx already w. cache_ok fs e s (fst w) \<longrightarrow> known e s f \<longrightarrow> set already \<subseteq> file_id_set s \<longrightarrow>
        distinct already \<longrightarrow> card (file_id_set s) - length already < n \<longrightarrow>
        isdirty_readonly fs e s n f mx already w \<noteq> None)"

lemma ro_loop_case:
  assumes "cache_ok fs e s (fst w)" "known e s g"
  obtains (none) "isdirty_readonly fs e s n g mx checked w = None"
  | (err) x where "isdirty_readonly fs e s n g mx checked w = Some (Inl x)"
  | (ok) d w1 where "isdirty_readonly fs e s n g mx checked w = Some (Inr (d, w1))" "cache_ok fs e s (fst w1)"
      "verdict_ok d" "d = Clean \<Longrightarrow> up_to_date fs e s g \<and> unwrap_or (f_changed_runid g) 0 \<le> mx"
proof (cases "isdirty_readonly fs e s n g mx checked w")
  case None
  then show thesis by (rule none)
next
  case (Some r)
  show thesis
  proof (cases r)
    case (Inl x)
    with Some show thesis by (intro err [of x]) simp
  next
    case (Inr q)
    obtain d w1 where "q = (d, w1)" by (cases q)
    with Some Inr have r: "isdirty_readonly fs e s n g mx checked w = Some (Inr (d, w1))" by simp
    note p = readonly_sound [unfolded ro_sound_def, rule_format, OF assms r]
    show thesis using p by (intro ok [OF r]) blast+
  qed
qed

lemma readonly_deps_total:
  assumes "ro_total fs e s n" "set checked \<subseteq> file_id_set s" "distinct checked"
    "card (file_id_set s) - length checked < n"
    and "\<forall>(m, g) \<in> set ds. known e s g" "cache_ok fs e s (fst w)"
  shows "readonly_deps fs e s n f checked mb ds w \<noteq> None"
  using assms(5-)
proof (induction ds arbitrary: mb w)
  case (Cons mg ds)
  obtain m g where mg: "mg = (m, g)" by (cases mg)
  have rest: "readonly_deps fs e s n f checked mb1 ds w1 \<noteq> None" if "cache_ok fs e s (fst w1)" for mb1 w1
    using Cons that by simp
  have k: "known e s g" using Cons.prems(1) mg by simp
  show ?case
    using Cons.prems(2) k
  proof (cases rule: ro_loop_case [where n = n and mx = "dep_max f" and checked = checked])
    case none
    then show ?thesis
      using assms(1) [unfolded ro_total_def, rule_format, OF Cons.prems(2) k assms(2-4)] by blast
  next
    case (err x)
    then show ?thesis using rest [OF Cons.prems(2)] by (auto simp: mg split: sum.splits)
  next
    case (ok d w1)
    then show ?thesis using rest [OF Cons.prems(2)] rest [OF ok(2)] by (auto simp: mg split: sum.splits)
  qed
qed simp

lemma readonly_total: "ro_total fs e s n"
proof (induction n)
  case 0
  then show ?case by (simp add: ro_total_def)
next
  case (Suc n)
  have "isdirty_readonly fs e s (Suc n) f mx already w \<noteq> None"
    if h: "cache_ok fs e s (fst w)" "known e s f" "set already \<subseteq> file_id_set s" "distinct already"
      "card (file_id_set s) - length already < Suc n" for f mx already w
  proof (cases "f_id f \<in> set already")
    case False
    obtain st c1 where st: "read_stamp_cached fs e f (fst w) = (st, c1)" by fastforce
    note st1 = read_stamp_cached_ok [OF h(1,2) st]
    obtain ds c2 where ds: "deps_cached e s f c1 = (ds, c2)" by fastforce
    note ds1 = deps_cached_ok [OF st1(2) h(2) ds]
    have d: "distinct (already @ [f_id f])" "set (already @ [f_id f]) \<subseteq> file_id_set s"
      using h known_id [OF h(2)] False by auto
    then have "length (already @ [f_id f]) \<le> card (file_id_set s)"
      by (metis card_mono distinct_card finite_file_id_set)
    then have "card (file_id_set s) - length (already @ [f_id f]) < n" using h(5) by simp
    moreover have "\<forall>(m, g) \<in> set ds. known e s g" using ds1(1) file_deps_known by blast
    ultimately have "readonly_deps fs e s n f (already @ [f_id f]) [] ds (c2, snd w) \<noteq> None"
      using ds1(2) d by (intro readonly_deps_total [OF Suc.IH]) simp_all
    then show ?thesis using st ds False by (simp split: option.splits)
  qed simp
  then show ?case unfolding ro_total_def by blast
qed

definition ro_complete :: "fsview \<Rightarrow> env \<Rightarrow> state_inner \<Rightarrow> nat \<Rightarrow> bool" where
  "ro_complete fs e s n \<longleftrightarrow>
     (\<forall>f mx already w r. cache_ok fs e s (fst w) \<longrightarrow> known e s f \<longrightarrow> up_to_date fs e s f \<longrightarrow>
        unwrap_or (f_changed_runid f) 0 \<le> mx \<longrightarrow>
        (\<forall>h. (mdep e s)\<^sup>*\<^sup>* f h \<longrightarrow> f_id h \<notin> set already) \<longrightarrow>
        isdirty_readonly fs e s n f mx already w = Some r \<longrightarrow> (\<exists>w'. r = Inr (Clean, w')))"

lemma readonly_deps_complete:
  assumes "ro_complete fs e s n"
    and "\<forall>(m, g) \<in> set ds. known e s g \<and> dep_fine fs e s f m g \<and>
           (m = CHR ''m'' \<longrightarrow> (\<forall>h. (mdep e s)\<^sup>*\<^sup>* g h \<longrightarrow> f_id h \<notin> set checked))" "cache_ok fs e s (fst w)"
    and "readonly_deps fs e s n f checked [] ds w = Some r"
  shows "\<exists>w'. r = Inr (Clean, w')"
  using assms(2-)
proof (induction ds arbitrary: w)
  case (Cons mg ds)
  obtain m g where mg: "mg = (m, g)" by (cases mg)
  have g: "known e s g" "dep_fine fs e s f m g" using Cons.prems(1) mg by simp_all
  have rest: "readonly_deps fs e s n f checked [] ds w1 = Some r \<Longrightarrow> cache_ok fs e s (fst w1) \<Longrightarrow> ?case" for w1
    using Cons.IH [of w1] Cons.prems(1) by simp
  show ?case
  proof (cases "m = CHR ''m''")
    case False
    then show ?thesis
      using Cons.prems(2,3) g(2) by (intro rest [of w]) (auto simp: mg dep_fine_def dep_verdict_def split: if_splits)
  next
    case True
    show ?thesis
      using Cons.prems(2) g(1)
    proof (cases rule: ro_loop_case [where n = n and mx = "dep_max f" and checked = checked])
      case none
      then show ?thesis using Cons.prems(3) True by (simp add: mg)
    next
      case (err x)
      then have "\<exists>w'. (Inl x :: (dirty_result \<times> plan_cache \<times> string list) res) = Inr (Clean, w')"
        using assms(1) [unfolded ro_complete_def, rule_format, OF Cons.prems(2) g(1), of "dep_max f" checked "Inl x"]
          g(2) Cons.prems(1) True
        by (simp add: mg dep_fine_def)
      then show ?thesis by simp
    next
      case (ok d w1)
      then have "d = Clean"
        using assms(1) [unfolded ro_complete_def, rule_format, OF Cons.prems(2) g(1), of "dep_max f" checked] g(2) Cons.prems(1) True
        by (auto simp: mg dep_fine_def)
      with ok Cons.prems(3) True show ?thesis by (intro rest [of w1]) (simp_all add: mg dep_verdict_def)
    qed
  qed
qed auto

lemma readonly_complete: "ro_complete fs e s n"
proof (induction n)
  case 0
  then show ?case by (simp add: ro_complete_def)
next
  case (Suc n)
  have "\<exists>w'. r = Inr (Clean, w')"
    if h: "cache_ok fs e s (fst w)" "known e s f" "up_to_date fs e s f" "unwrap_or (f_changed_runid f) 0 \<le> mx"
      "\<forall>h. (mdep e s)\<^sup>*\<^sup>* f h \<longrightarrow> f_id h \<notin> set already"
      "isdirty_readonly fs e s (Suc n) f mx already w = Some r" for f mx already w r
  proof -
    have na: "f_id f \<notin> set already" using h(5) by blast
    note u = h(3) [unfolded up_to_date_iff]
    show ?thesis
    proof (cases "pc_is_checked f (fst w)")
      case True
      then have "early_verdict (pc_is_checked f (fst w)) f mx = Some Clean"
        using u h(4) by (auto simp: early_verdict_def)
      then show ?thesis using h(6) na by auto
    next
      case False
      have ev: "early_verdict (pc_is_checked f (fst w)) f mx = None"
        using u h(4) False by (simp add: early_verdict_None)
      obtain st c1 where st: "read_stamp_cached fs e f (fst w) = (st, c1)" by fastforce
      note st1 = read_stamp_cached_ok [OF h(1,2) st]
      obtain ds c2 where ds: "deps_cached e s f c1 = (ds, c2)" by fastforce
      note ds1 = deps_cached_ok [OF st1(2) h(2) ds]
      have r: "readonly_deps fs e s n f (already @ [f_id f]) [] ds (c2, snd w) = Some r"
        using h(6) na ev st ds u st1(1) by simp
      have "f_id x \<notin> set (already @ [f_id f])" if g: "(CHR ''m'', g) \<in> set ds" "(mdep e s)\<^sup>*\<^sup>* g x" for g x
      proof -
        have fg: "mdep e s f g" using g(1) ds1(1) by (simp add: mdep_def)
        then have fx: "(mdep e s)\<^sup>+\<^sup>+ f x" using g(2) by (rule rtranclp_into_tranclp2)
        have "x \<noteq> f" using fx up_to_date_acyclic [OF h(3)] by blast
        moreover have "known e s x"
          using fx by (cases rule: tranclp.cases) (auto simp: mdep_def file_deps_known)
        ultimately have "f_id x \<noteq> f_id f" using known_unique [OF _ h(2)] by blast
        moreover have "f_id x \<notin> set already" using fx h(5) by (meson tranclp_into_rtranclp)
        ultimately show ?thesis by simp
      qed
      then have "\<forall>(m, g) \<in> set ds. known e s g \<and> dep_fine fs e s f m g \<and>
          (m = CHR ''m'' \<longrightarrow> (\<forall>h. (mdep e s)\<^sup>*\<^sup>* g h \<longrightarrow> f_id h \<notin> set (already @ [f_id f])))"
        using u ds1(1) file_deps_known by blast
      then show ?thesis using r ds1(2) by (intro readonly_deps_complete [OF Suc.IH]) simp_all
    qed
  qed
  then show ?case unfolding ro_complete_def by blast
qed

subsection \<open>Properties\<close>

text \<open>A database with the target \<open>t\<close> (id 2), built from \<open>src\<close> (id 3), and a file system where both
  are unchanged (they are directories, whose stamp is constant).\<close>

definition demo_fs :: fsview where
  "demo_fs = (let look = (\<lambda>p. if p = ''/w/t'' \<or> p = ''/w/src'' then Some (demo_meta\<lparr>m_is_dir := True\<rparr>) else None)
              in \<lparr>fs_lstat = look, fs_stat = look\<rparr>)"

definition demo_row :: "int \<Rightarrow> string \<Rightarrow> int \<Rightarrow> file_row" where
  "demo_row i n gen = (new_file_row i n)\<lparr>r_is_generated := Some gen, r_changed_runid := Some 1000000001,
     r_stamp := Some STAMP_DIR\<rparr>"

definition demo_plan :: state_inner where
  "demo_plan = fresh_inner (sql_create_db\<lparr>
     db_files := [new_file_row 1 ALWAYS, demo_row 2 ''t'' 1, demo_row 3 ''src'' 0],
     db_deps := [\<lparr>d_target = 2, d_source = 3, d_mode = ''m'', d_delete_me = 0\<rparr>]\<rparr>)"

definition demo_target :: redo_file where
  "demo_target = from_row demo_env (demo_row 2 ''t'' 1)"

lemma readonly_default_verdict:
  assumes "known e s f" "cache_ok fs e s c" "card (file_id_set s) < n"
  shows "\<exists>r. isdirty_readonly_default fs e s n f mx c = Some r \<and>
     ((\<exists>c'. r = Inr (Clean, c')) \<longleftrightarrow> up_to_date fs e s f \<and> unwrap_or (f_changed_runid f) 0 \<le> mx) \<and>
     (\<forall>d c'. r = Inr (d, c') \<longrightarrow> cache_ok fs e s c' \<and> verdict_ok d)"
proof -
  have ok: "cache_ok fs e s (fst (c, []))" using assms(2) by simp
  obtain r where r: "isdirty_readonly fs e s n f mx [] (c, []) = Some r"
    using readonly_total [unfolded ro_total_def, rule_format, OF ok assms(1), of "[]" n mx] assms(3) by auto
  have sound: "cache_ok fs e s (fst w) \<and> verdict_ok d \<and>
      (d = Clean \<longrightarrow> up_to_date fs e s f \<and> unwrap_or (f_changed_runid f) 0 \<le> mx)" if "r = Inr (d, w)" for d w
    using readonly_sound [unfolded ro_sound_def, rule_format, OF ok assms(1)] r that by blast
  have "\<exists>w. r = Inr (Clean, w)" if "up_to_date fs e s f" "unwrap_or (f_changed_runid f) 0 \<le> mx"
    using readonly_complete [unfolded ro_complete_def, rule_format, OF ok assms(1) that _ r] by simp
  with sound show ?thesis
    by (cases r) (auto simp: isdirty_readonly_default_def r)
qed

text \<open>C2. The planner's verdict is right. For a file of the database, with fuel beyond the number of
  files and any cache filled by earlier calls, the read-only analysis returns a result, keeps the
  cache right, and answers "clean" exactly when the file is up to date and did not change after
  \<open>max_changed\<close>; the memoised stamps, dependencies and marks never change a verdict. When it names
  targets to build first, there is at least one and each has a checksum.\<close>

theorem readonly_verdict:
  assumes "known e s f" "cache_ok fs e s c" "card (file_id_set s) < n"
  shows "\<exists>r. isdirty_readonly_default fs e s n f mx c = Some r \<and>
     ((\<exists>c'. r = Inr (Clean, c')) \<longleftrightarrow> up_to_date fs e s f \<and> unwrap_or (f_changed_runid f) 0 \<le> mx) \<and>
     (\<forall>d c'. r = Inr (d, c') \<longrightarrow> cache_ok fs e s c' \<and> verdict_ok d)"
  using assms by (rule readonly_default_verdict)

theorem readonly_verdict_witness:
  "up_to_date demo_fs demo_env demo_plan demo_target"
proof -
  have "known demo_env demo_plan demo_target" "card (file_id_set demo_plan) < 4" by code_simp+
  then obtain r where r: "isdirty_readonly_default demo_fs demo_env demo_plan 4 demo_target 1000000002 pc_empty = Some r"
    "(\<exists>c'. r = Inr (Clean, c')) \<longleftrightarrow> up_to_date demo_fs demo_env demo_plan demo_target \<and>
       unwrap_or (f_changed_runid demo_target) 0 \<le> 1000000002"
    using readonly_verdict [OF _ cache_ok_empty, of demo_env demo_plan demo_target 4 demo_fs 1000000002] by blast
  have "map_option (map_sum id fst) (isdirty_readonly_default demo_fs demo_env demo_plan 4 demo_target 1000000002 pc_empty)
      = Some (Inr Clean)" by code_simp
  then have "\<exists>c'. r = Inr (Clean, c')" by (cases r) (auto simp: r(1))
  with r(2) show ?thesis by blast
qed

text \<open>C19. The analysis terminates on every database, cyclic dependencies included: with fuel beyond
  the number of files \<open>isdirty_default\<close> (used by \<open>redo-ifchange\<close>) returns a verdict or an error.\<close>

theorem isdirty_terminates:
  assumes "f_id f \<in> file_id_set (fst w)" "card (file_id_set (fst w)) < n"
  shows "isdirty_default preflight fs e n f mx w \<noteq> None"
  unfolding isdirty_default_def using assms by (rule default_checker.terminates)

definition demo_cycle :: state_inner where
  "demo_cycle = demo_plan\<lparr>si_db := (si_db demo_plan)\<lparr>
     db_deps := [\<lparr>d_target = 2, d_source = 2, d_mode = ''m'', d_delete_me = 0\<rparr>]\<rparr>\<rparr>"

theorem isdirty_terminates_witness:
  "\<exists>r. isdirty_default {} demo_fs demo_env 4 demo_target 1000000002 (demo_cycle, []) = Some r \<and>
       r = Inl CyclicDependency"
proof -
  have "f_id demo_target \<in> file_id_set (fst (demo_cycle, []))" "card (file_id_set (fst (demo_cycle, []))) < 4"
    by code_simp+
  then obtain r where r: "isdirty_default {} demo_fs demo_env 4 demo_target 1000000002 (demo_cycle, []) = Some r"
    using isdirty_terminates [of demo_target "(demo_cycle, [])" 4 "{}" demo_fs demo_env 1000000002] by blast
  moreover have "map_option (map_sum id fst)
      (isdirty_default {} demo_fs demo_env 4 demo_target 1000000002 (demo_cycle, [])) = Some (Inl CyclicDependency)"
    by code_simp
  ultimately show ?thesis by (cases r) auto
qed

end
