(* ===== verification/Deps_Sound.thy ===== *)
theory Deps_Sound
  imports Deps
begin

text \<open>
  Soundness of \<open>isdirty\<close> (\<open>redo_core/src/deps.rs\<close>) for callers that write to the database while it
  runs: a file is reported clean only if it is up to date with respect to the database at the start
  of the analysis.

  During the analysis rows change in two ways only: files found clean are marked as checked in this
  run, and a vanished target is turned into a source. \<open>file_sim\<close> relates a row at the start to the
  same row later; \<open>sound_checker\<close> is the contract of the closures, interpreted for
  \<open>isdirty_default\<close> and for \<open>redo-ood\<close>.
\<close>

subsection \<open>Up to date, given files trusted already\<close>

text \<open>As \<open>up_to_date\<close>, but files that were checked earlier in this run (or by the planner) are
  accepted without looking at their dependencies.\<close>

inductive trusted_up :: "fsview \<Rightarrow> env \<Rightarrow> state_inner \<Rightarrow> (redo_file \<Rightarrow> bool) \<Rightarrow> redo_file \<Rightarrow> bool"
  for fs e s trust where
  trusted: "f_failed_runid f = None \<Longrightarrow> f_changed_runid f \<noteq> None \<Longrightarrow> trust f \<Longrightarrow> trusted_up fs e s trust f"
| checked: "f_failed_runid f = None \<Longrightarrow> f_changed_runid f \<noteq> None \<Longrightarrow> f_stamp f = Some (read_stamp fs e f) \<Longrightarrow>
   (\<And>g. (CHR ''c'', g) \<in> set (file_deps e s f) \<Longrightarrow> created fs e g = Clean) \<Longrightarrow>
   (\<And>g. (CHR ''m'', g) \<in> set (file_deps e s f) \<Longrightarrow>
      unwrap_or (f_changed_runid g) 0 \<le> dep_max f \<and> trusted_up fs e s trust g) \<Longrightarrow>
   trusted_up fs e s trust f"

lemma trusted_up_none: "trusted_up fs e s (\<lambda>_. False) f \<Longrightarrow> up_to_date fs e s f"
  by (induction rule: trusted_up.induct) (auto intro: up_to_date.intros)

subsection \<open>How rows change during the analysis\<close>

definition file_sim :: "bool \<Rightarrow> fsview \<Rightarrow> env \<Rightarrow> (redo_file \<Rightarrow> bool) \<Rightarrow> redo_file \<Rightarrow> redo_file \<Rightarrow> bool" where
  "file_sim mark fs e up f0 f \<longleftrightarrow>
     f_id f = f_id f0 \<and> f_name f = f_name f0 \<and> f_is_override f = f_is_override f0 \<and>
     f_changed_runid f = f_changed_runid f0 \<and> f_failed_runid f = f_failed_runid f0 \<and>
     f_stamp f = f_stamp f0 \<and> f_csum f = f_csum f0 \<and>
     (f_is_generated f = f_is_generated f0 \<or> f_stamp f0 \<noteq> Some (read_stamp fs e f0)) \<and>
     (f_checked_runid f = f_checked_runid f0 \<or> mark \<and> f_checked_runid f = e_runid e \<and> up f0)"

lemma file_sim_refl [simp]: "file_sim mark fs e up f f"
  by (simp add: file_sim_def)

lemma read_stamp_name: "f_name f = f_name g \<Longrightarrow> read_stamp fs e f = read_stamp fs e g"
  by (simp add: read_stamp_def)

definition st_sim :: "bool \<Rightarrow> fsview \<Rightarrow> env \<Rightarrow> (redo_file \<Rightarrow> bool) \<Rightarrow> state_inner \<Rightarrow> state_inner \<Rightarrow> bool" where
  "st_sim mark fs e up s0 s \<longleftrightarrow>
     db_deps (si_db s) = db_deps (si_db s0) \<and>
     (\<forall>i. rel_option (\<lambda>r0 r. file_sim mark fs e up (from_row e r0) (from_row e r))
            (sql_file_by_id (si_db s0) i) (sql_file_by_id (si_db s) i))"

lemma st_sim_refl: "st_sim mark fs e up s s"
  by (auto simp: st_sim_def option.rel_refl)

lemma known_always:
  assumes "known e s f" "f_name f = ALWAYS" "f_changed_runid f = None \<or> opt_less (f_changed_runid f) (e_runid e)"
  shows "f_changed_runid f = e_runid e"
proof -
  obtain r where "f = from_row e r"
    using assms(1) by (auto simp: known_def refresh_def split: option.splits)
  then show ?thesis using assms(2,3) by (auto simp: from_row_def split: if_splits)
qed

lemma from_row_row_update:
  assumes "f_id f = r_id r" "f_name f = r_name r"
    and "f_name f = ALWAYS \<Longrightarrow> f_changed_runid f = None \<or> opt_less (f_changed_runid f) (e_runid e) \<Longrightarrow>
           f_changed_runid f = e_runid e"
  shows "from_row e (row_update f r) = f"
  using assms by (cases f) (auto simp: from_row_def row_update_def bool_int_def)

lemma st_sim_row:
  assumes "st_sim mark fs e up s0 s" "sql_file_by_id (si_db s0) i = Some r0"
  obtains r where "sql_file_by_id (si_db s) i = Some r" "file_sim mark fs e up (from_row e r0) (from_row e r)"
  using assms unfolding st_sim_def by (metis option_rel_Some1)

lemma knownE:
  assumes "known e s f"
  obtains r where "sql_file_by_id (si_db s) (f_id f) = Some r" "f = from_row e r"
  using assms by (auto simp: known_def refresh_def split: option.splits)

lemma save_sim:
  assumes "st_sim mark fs e up s0 s" "known e s0 f0" "file_sim mark fs e up f0 f"
  shows "st_sim mark fs e up s0 (save f s)"
proof (cases "si_insane s")
  case True
  then show ?thesis using assms(1) by (simp add: save_def st_write_insane)
next
  case False
  obtain r0 where r0: "sql_file_by_id (si_db s0) (f_id f0) = Some r0" "f0 = from_row e r0"
    using assms(2) by (rule knownE)
  obtain r where r: "sql_file_by_id (si_db s) (f_id f0) = Some r" "file_sim mark fs e up f0 (from_row e r)"
    using assms(1) r0(1) unfolding r0(2) by (rule st_sim_row)
  have id: "f_id f = f_id f0" using assms(3) by (simp add: file_sim_def)
  have "from_row e (row_update f r) = f"
  proof (rule from_row_row_update)
    show "f_id f = r_id r" using find_id_Some [OF r(1)] id by simp
    show "f_name f = r_name r" using r(2) assms(3) by (simp add: file_sim_def from_row_def)
    show "f_changed_runid f = e_runid e" if "f_name f = ALWAYS"
      "f_changed_runid f = None \<or> opt_less (f_changed_runid f) (e_runid e)"
      using known_always [OF assms(2)] that assms(3) by (simp add: file_sim_def)
  qed
  moreover have db: "si_db (save f s) = sql_update_file (f_id f) (row_update f) (si_db s)"
    using False by (simp add: save_def st_write_db)
  ultimately have "rel_option (\<lambda>r0 r. file_sim mark fs e up (from_row e r0) (from_row e r))
      (sql_file_by_id (si_db s0) i) (sql_file_by_id (si_db (save f s)) i)" for i
    using assms(1,3) r r0 id unfolding st_sim_def by (cases "i = f_id f") (simp_all add: update_file_by_id)
  moreover have "db_deps (si_db (save f s)) = db_deps (si_db s)" by (simp add: db sql_update_file_def)
  ultimately show ?thesis using assms(1) by (simp add: st_sim_def)
qed

text \<open>The dependencies of related files are related, in order and with the same modes.\<close>

definition deps_sim :: "bool \<Rightarrow> fsview \<Rightarrow> env \<Rightarrow> (redo_file \<Rightarrow> bool) \<Rightarrow> state_inner \<Rightarrow>
    (char \<times> redo_file) list \<Rightarrow> (char \<times> redo_file) list \<Rightarrow> bool" where
  "deps_sim mark fs e up s0 = list_all2 (\<lambda>(m0, g0) (m, g). m = m0 \<and> known e s0 g0 \<and> file_sim mark fs e up g0 g)"

lemma sql_deps_sim:
  assumes "st_sim mark fs e up s0 s"
  shows "deps_sim mark fs e up s0 (map (\<lambda>(m, r). (mode_char m, from_row e r)) (sql_deps_of (si_db s0) t))
           (map (\<lambda>(m, r). (mode_char m, from_row e r)) (sql_deps_of (si_db s) t))"
proof -
  let ?look = "\<lambda>db d. case sql_file_by_id db (d_source d) of None \<Rightarrow> [] | Some r \<Rightarrow> [(d_mode d, r)]"
  let ?cv = "map (\<lambda>(m, r). (mode_char m, from_row e r))"
  have one: "deps_sim mark fs e up s0 (?cv (?look (si_db s0) d)) (?cv (?look (si_db s) d))" for d :: dep_row
  proof (cases "sql_file_by_id (si_db s0) (d_source d)")
    case None
    then have "sql_file_by_id (si_db s) (d_source d) = None"
      using assms unfolding st_sim_def by (metis option.rel_distinct(1) not_None_eq)
    with None show ?thesis by (simp add: deps_sim_def)
  next
    case (Some r0)
    obtain r where r: "sql_file_by_id (si_db s) (d_source d) = Some r"
      "file_sim mark fs e up (from_row e r0) (from_row e r)" using assms Some by (rule st_sim_row)
    have "known e s0 (from_row e r0)" using Some find_id_Some [OF Some] by (intro known_from_row) simp
    with Some r show ?thesis by (simp add: deps_sim_def)
  qed
  have "deps_sim mark fs e up s0 (?cv (concat (map (?look (si_db s0)) ds))) (?cv (concat (map (?look (si_db s)) ds)))" for ds :: "dep_row list"
    by (induction ds) (use one in \<open>auto simp: deps_sim_def intro!: list_all2_appendI\<close>)
  then show ?thesis using assms by (simp add: sql_deps_of_def st_sim_def)
qed

lemma file_deps_sim:
  assumes "st_sim mark fs e up s0 s" "file_sim mark fs e up f0 f" "f_stamp f = Some (read_stamp fs e f)"
  shows "deps_sim mark fs e up s0 (file_deps e s0 f0) (file_deps e s f)"
proof -
  have "f_is_generated f = f_is_generated f0" "f_is_override f = f_is_override f0" "f_id f = f_id f0"
    using assms(2,3) read_stamp_name [of f f0 fs e] by (auto simp: file_sim_def)
  then show ?thesis using sql_deps_sim [OF assms(1)] by (simp add: file_deps_def deps_sim_def)
qed

subsection \<open>The contract of the closures\<close>

text \<open>
  \<open>cinv\<close> is what the closures remember. A file they accept as checked is up to date at the start; an
  unchecked one has the run id it had at the start; marking an up-to-date file keeps the relation
  to the start.
\<close>

locale sound_checker =
  fixes ops :: "'c dirty_ops" and mark :: bool and fs :: fsview and e :: env and s0 :: state_inner
    and trust :: "redo_file \<Rightarrow> bool" and cinv :: "'c \<Rightarrow> bool"
  assumes is_checked_up: "op_is_checked ops f c \<Longrightarrow> cinv c \<Longrightarrow> known e s0 f0 \<Longrightarrow>
      file_sim mark fs e (trusted_up fs e s0 trust) f0 f \<Longrightarrow> f_failed_runid f0 = None \<Longrightarrow>
      f_changed_runid f0 \<noteq> None \<Longrightarrow> trusted_up fs e s0 trust f0"
    and not_checked: "\<not> op_is_checked ops f c \<Longrightarrow> file_sim mark fs e (trusted_up fs e s0 trust) f0 f \<Longrightarrow>
      f_checked_runid f = f_checked_runid f0"
    and set_checked_sim: "st_sim mark fs e (trusted_up fs e s0 trust) s0 s \<Longrightarrow> cinv c \<Longrightarrow> known e s0 f0 \<Longrightarrow>
      file_sim mark fs e (trusted_up fs e s0 trust) f0 f \<Longrightarrow> trusted_up fs e s0 trust f0 \<Longrightarrow>
      st_sim mark fs e (trusted_up fs e s0 trust) s0 (fst (op_set_checked ops f (s, c))) \<and>
      cinv (snd (op_set_checked ops f (s, c)))"
    and log_cinv: "cinv c \<Longrightarrow> cinv (op_log_override ops nm c)"
begin

definition outcome_ok :: "redo_file \<Rightarrow> int \<Rightarrow> dirty_result \<times> redo_file \<times> state_inner \<times> 'c \<Rightarrow> bool" where
  "outcome_ok f0 mx r \<longleftrightarrow>
     (case r of (d, f, s, c) \<Rightarrow> st_sim mark fs e (trusted_up fs e s0 trust) s0 s \<and> cinv c \<and> verdict_ok d \<and>
        f_name f = f_name f0 \<and> (d = Clean \<longrightarrow> trusted_up fs e s0 trust f0 \<and> unwrap_or (f_changed_runid f0) 0 \<le> mx))"

definition sound_at :: "nat \<Rightarrow> bool" where
  "sound_at n \<longleftrightarrow>
     (\<forall>f0 f mx already s c r. st_sim mark fs e (trusted_up fs e s0 trust) s0 s \<longrightarrow> cinv c \<longrightarrow> known e s0 f0 \<longrightarrow>
        file_sim mark fs e (trusted_up fs e s0 trust) f0 f \<longrightarrow>
        isdirty ops fs e n f mx already (s, c) = Some (Inr r) \<longrightarrow> outcome_ok f0 mx r)"

definition fine :: "redo_file \<Rightarrow> char \<times> redo_file \<Rightarrow> bool" where
  "fine f0 mg \<longleftrightarrow>
     (case mg of (m, g) \<Rightarrow> (m = CHR ''c'' \<longrightarrow> created fs e g = Clean) \<and>
        (m = CHR ''m'' \<longrightarrow> unwrap_or (f_changed_runid g) 0 \<le> dep_max f0 \<and> trusted_up fs e s0 trust g))"

lemma created_name: "f_name f = f_name g \<Longrightarrow> created fs e f = created fs e g"
  by (simp add: created_def)

lemma deps_sound:
  assumes IH: "sound_at n" and f0: "known e s0 f0" "file_sim mark fs e (trusted_up fs e s0 trust) f0 f"
    "dep_max f = dep_max f0" "unwrap_or (f_changed_runid f0) 0 \<le> mx"
    and "deps_sim mark fs e (trusted_up fs e s0 trust) s0 ds0 ds"
    and "st_sim mark fs e (trusted_up fs e s0 trust) s0 (fst w)" "cinv (snd w)"
    and "\<forall>mg \<in> set ds0. fine f0 mg \<Longrightarrow> mb = [] \<Longrightarrow> trusted_up fs e s0 trust f0"
    and "\<forall>g \<in> set mb. f_csum g \<noteq> None"
    and "isdirty_deps ops fs e n f checked mb ds w = Some (Inr r)"
  shows "outcome_ok f0 mx r"
proof -
  have nmf: "f_name f = f_name f0" using f0(2) by (simp add: file_sim_def)
  show ?thesis
  using assms(6-)
proof (induction ds arbitrary: ds0 mb w)
  case Nil
  then have ds0: "ds0 = []" by (simp add: deps_sim_def)
  show ?case
  proof (cases "mb = []")
    case True
    let ?c = "if f_is_override f then op_log_override ops (f_name f) (snd w) else snd w"
    have u: "trusted_up fs e s0 trust f0" using Nil True ds0 by simp
    have "cinv ?c" using Nil(3) log_cinv by simp
    from set_checked_sim [OF Nil(2) this f0(1,2) u] u f0(4) Nil(6) True nmf show ?thesis
      by (auto simp: outcome_ok_def Let_def split: prod.splits)
  next
    case False
    then have "r = (MustBuild mb, f, w)" using Nil(6) by simp
    then show ?thesis using False Nil nmf by (cases w) (simp add: outcome_ok_def)
  qed
next
  case (Cons mg ds)
  obtain m g where mg: "mg = (m, g)" by (cases mg)
  obtain g0 ds1 where ds0: "ds0 = (m, g0) # ds1" "known e s0 g0" "file_sim mark fs e (trusted_up fs e s0 trust) g0 g"
    "deps_sim mark fs e (trusted_up fs e s0 trust) s0 ds1 ds"
    using Cons.prems(1) mg by (auto simp: deps_sim_def list_all2_Cons2)
  have nm: "f_name g = f_name g0" using ds0(3) by (simp add: file_sim_def)
  let ?r = "if m = CHR ''c'' then Some (Inr (created fs e g, g, w))
            else if m = CHR ''m'' then isdirty ops fs e n g (dep_max f) checked w
            else Some (Inr (Clean, g, w))"
  obtain d g1 w1 where r1: "?r = Some (Inr (d, g1, w1))"
    using Cons.prems(6) by (simp only: mg isdirty_deps.simps split: option.splits sum.splits prod.splits) simp_all
  have o1: "st_sim mark fs e (trusted_up fs e s0 trust) s0 (fst w1)" "cinv (snd w1)" "verdict_ok d"
    "d = Clean \<Longrightarrow> fine f0 (m, g0)"
    using r1 Cons.prems(2,3) ds0(2,3) f0(3) created_name [OF nm]
      IH [unfolded sound_at_def, rule_format, of "fst w" "snd w" g0 g "dep_max f" checked "(d, g1, w1)"]
    by (auto simp: fine_def outcome_ok_def split: if_splits prod.splits)
  have rest: "(case dep_verdict f d mb of Inl v \<Rightarrow> Some (Inr (v, f, w1))
     | Inr mb1 \<Rightarrow> isdirty_deps ops fs e n f checked mb1 ds w1) = Some (Inr r)"
    using Cons.prems(6) r1 by (simp only: mg isdirty_deps.simps option.case sum.case prod.case)
  show ?case
  proof (cases "dep_verdict f d mb")
    case (Inl v)
    then have "r = (v, f, w1)" using rest by simp
    moreover have "verdict_ok v" "v \<noteq> Clean"
      using Inl by (auto simp: dep_verdict_def split: dirty_result.splits if_splits)
    ultimately show ?thesis using o1 nmf by (cases w1) (simp add: outcome_ok_def)
  next
    case (Inr mb1)
    have "isdirty_deps ops fs e n f checked mb1 ds w1 = Some (Inr r)" using rest Inr by simp
    moreover have "mb1 = [] \<Longrightarrow> d = Clean \<and> mb = []" using dep_verdict_Inr [OF Inr] o1(3) by auto
    then have "\<forall>mg \<in> set ds1. fine f0 mg \<Longrightarrow> mb1 = [] \<Longrightarrow> trusted_up fs e s0 trust f0"
      using Cons.prems(4) o1(4) ds0(1) by simp
    moreover have "\<forall>h \<in> set mb1. f_csum h \<noteq> None"
      using dep_verdict_Inr [OF Inr] o1(3) Cons.prems(5) by auto
    ultimately show ?thesis using Cons.IH [OF ds0(4) o1(1,2)] by blast
  qed
qed
qed

lemma vanished_sim:
  assumes "st_sim mark fs e (trusted_up fs e s0 trust) s0 s" "known e s0 f0"
    "file_sim mark fs e (trusted_up fs e s0 trust) f0 f" "f_failed_runid f = None"
    "f_stamp f \<noteq> Some (read_stamp fs e f)" "vanished e f s = Inr (f1, s1)"
  shows "st_sim mark fs e (trusted_up fs e s0 trust) s0 s1 \<and> f_name f1 = f_name f0"
proof -
  let ?f = "f\<lparr>f_is_generated := False, f_failed_runid := None\<rparr>"
  have "file_sim mark fs e (trusted_up fs e s0 trust) f0 ?f"
    using assms(3-5) read_stamp_name [of f f0 fs e] by (auto simp: file_sim_def)
  then have s1: "st_sim mark fs e (trusted_up fs e s0 trust) s0 s1"
    using save_sim [OF assms(1,2)] assms(6) by (auto simp: vanished_def Let_def rbind_Inr_iff)
  obtain r0 where r0: "sql_file_by_id (si_db s0) (f_id f0) = Some r0" "f0 = from_row e r0"
    using assms(2) by (rule knownE)
  obtain r where "sql_file_by_id (si_db s1) (f_id f0) = Some r" "file_sim mark fs e (trusted_up fs e s0 trust) f0 (from_row e r)"
    using s1 r0(1) unfolding r0(2) by (rule st_sim_row)
  moreover have "refresh e s1 ?f = Inr f1" using assms(6) by (auto simp: vanished_def Let_def rbind_Inr_iff)
  ultimately have "f_name f1 = f_name f0"
    using assms(3) by (auto simp: refresh_def file_sim_def split: option.splits)
  with s1 show ?thesis ..
qed

lemma sound: "sound_at n"
proof (induction n)
  case 0
  then show ?case by (simp add: sound_at_def)
next
  case (Suc n)
  have "outcome_ok f0 mx r"
    if h: "st_sim mark fs e (trusted_up fs e s0 trust) s0 s" "cinv c" "known e s0 f0"
      "file_sim mark fs e (trusted_up fs e s0 trust) f0 f"
      "isdirty ops fs e (Suc n) f mx already (s, c) = Some (Inr r)" for f0 f mx already s c r
  proof -
    have na: "f_id f \<notin> set already" using h(5) by auto
    have same: "f_failed_runid f = f_failed_runid f0" "f_changed_runid f = f_changed_runid f0" "f_stamp f = f_stamp f0"
      "read_stamp fs e f = read_stamp fs e f0" "f_name f = f_name f0"
      using h(4) read_stamp_name [of f f0] by (simp_all add: file_sim_def)
    show ?thesis
    proof (cases "early_verdict (op_is_checked ops f c) f mx")
      case (Some v)
      then have r: "r = (v, f, s, c)" using h(5) na by simp
      have "f_changed_runid f \<noteq> None" if "v = Clean" using Some that by (auto simp: early_verdict_def split: if_splits)
      then show ?thesis
        using early_verdict_Some [OF Some] h(1,2) is_checked_up [OF _ h(2-4)] same
        by (auto simp: r outcome_ok_def)
    next
      case None
      note ev = None [unfolded early_verdict_None]
      show ?thesis
      proof (cases "f_stamp f = Some (read_stamp fs e f)")
        case False
        then obtain f1 s1 where v: "(if read_stamp fs e f = STAMP_MISSING \<and> f_is_generated f then vanished e f s else Inr (f, s))
            = Inr (f1, s1)" "r = (if f_csum f1 \<noteq> None then MustBuild [f1] else Dirty, f1, s1, c)"
          using h(5) na None by (auto simp: rbind_Inr_iff Let_def split: if_splits)
        have "st_sim mark fs e (trusted_up fs e s0 trust) s0 s1 \<and> f_name f1 = f_name f0"
          using v(1) h(1) vanished_sim [OF h(1,3,4) _ False] ev same by (auto split: if_splits)
        then show ?thesis using h(2) v(2) by (simp add: outcome_ok_def)
      next
        case True
        have u: "trusted_up fs e s0 trust f0" if "\<forall>mg \<in> set (file_deps e s0 f0). fine f0 mg"
          using that ev same True by (intro trusted_up.checked) (auto simp: fine_def)
        have dm: "dep_max f = dep_max f0" using not_checked [OF _ h(4), of c] ev same by (simp add: dep_max_def)
        show ?thesis
        proof (rule deps_sound [OF Suc.IH h(3,4) dm _ file_deps_sim [OF h(1,4) True]])
          show "unwrap_or (f_changed_runid f0) 0 \<le> mx" using ev same by simp
          show "isdirty_deps ops fs e n f (already @ [f_id f]) [] (file_deps e s f) (s, c) = Some (Inr r)"
            using h(5) na None True by (simp add: Let_def)
        qed (use h u in simp_all)
      qed
    qed
  qed
  then show ?case unfolding sound_at_def by blast
qed

lemma clean_is_up:
  assumes "known e s0 f" "cinv c" "isdirty ops fs e n f mx already (s0, c) = Some (Inr (d, f1, s1, c1))"
  shows "verdict_ok d" "st_sim mark fs e (trusted_up fs e s0 trust) s0 s1" "cinv c1"
    "d = Clean \<Longrightarrow> trusted_up fs e s0 trust f \<and> unwrap_or (f_changed_runid f) 0 \<le> mx"
  using sound [unfolded sound_at_def, rule_format, OF st_sim_refl assms(2,1) file_sim_refl assms(3)]
  by (simp_all add: outcome_ok_def)

end

subsection \<open>The closures of the callers\<close>

text \<open>\<open>isdirty_default\<close> trusts the files checked in this run and those the planner found clean.\<close>

definition default_trust :: "int set \<Rightarrow> env \<Rightarrow> redo_file \<Rightarrow> bool" where
  "default_trust preflight e f \<longleftrightarrow> is_checked e f \<or> f_id f \<in> preflight"

definition with_runid :: "int \<Rightarrow> env \<Rightarrow> env" where
  "with_runid r e = e\<lparr>e_runid := Some r\<rparr>"

lemma with_runid_id: "e_runid e = Some r \<Longrightarrow> with_runid r e = e"
  by (simp add: with_runid_def)

lemma checked_now: "f_checked_runid f = e_runid (with_runid r e) \<Longrightarrow> is_checked (with_runid r e) f"
  by (simp add: is_checked_def run_reached_def with_runid_def)

interpretation default_sound: sound_checker "default_ops preflight (with_runid r e)" True fs "with_runid r e" s0
    "default_trust preflight (with_runid r e)" "\<lambda>_. True" for preflight r e fs s0
proof
  let ?e = "with_runid r e"
  let ?up = "trusted_up fs ?e s0 (default_trust preflight ?e)"
  fix f f0 :: redo_file and c :: "string list" and s
  show "?up f0" if "op_is_checked (default_ops preflight ?e) f c" "file_sim True fs ?e ?up f0 f"
    "f_failed_runid f0 = None" "f_changed_runid f0 \<noteq> None"
  proof (cases "f_checked_runid f = f_checked_runid f0")
    case True
    then have "default_trust preflight ?e f0"
      using that by (auto simp: default_ops_def default_trust_def is_checked_def file_sim_def)
    then show ?thesis using that by (intro trusted_up.trusted)
  next
    case False
    then show ?thesis using that(2) by (simp add: file_sim_def)
  qed
  show "f_checked_runid f = f_checked_runid f0"
    if "\<not> op_is_checked (default_ops preflight ?e) f c" "file_sim True fs ?e ?up f0 f"
    using that checked_now [of f r e] by (auto simp: default_ops_def file_sim_def)
  assume a: "st_sim True fs ?e ?up s0 s" "known ?e s0 f0" "file_sim True fs ?e ?up f0 f" "?up f0"
  have "file_sim True fs ?e ?up f0 (set_checked ?e f)"
    using a(3,4) by (simp add: file_sim_def set_checked_def)
  then show "st_sim True fs ?e ?up s0 (fst (op_set_checked (default_ops preflight ?e) f (s, c))) \<and> True"
    using save_sim [OF a(1,2)] by (simp add: default_ops_def set_checked_save_def Let_def)
qed simp_all

text \<open>\<open>redo-ood\<close> remembers the ids it found clean and trusts no one else.\<close>

definition ood_cinv :: "fsview \<Rightarrow> env \<Rightarrow> state_inner \<Rightarrow> int set \<Rightarrow> bool" where
  "ood_cinv fs e s0 c \<longleftrightarrow> (\<forall>f. known e s0 f \<longrightarrow> f_id f \<in> c \<longrightarrow> trusted_up fs e s0 (\<lambda>_. False) f)"

interpretation ood_sound: sound_checker ood_ops False fs e s0 "\<lambda>_. False" "ood_cinv fs e s0" for fs e s0
proof
  let ?up = "trusted_up fs e s0 (\<lambda>_. False)"
  fix f f0 :: redo_file and c :: "int set" and s nm
  show "?up f0" if "op_is_checked ood_ops f c" "ood_cinv fs e s0 c" "known e s0 f0" "file_sim False fs e ?up f0 f"
    using that by (auto simp: ood_ops_def ood_cinv_def file_sim_def)
  show "f_checked_runid f = f_checked_runid f0" if "file_sim False fs e ?up f0 f"
    using that by (simp add: file_sim_def)
  show "ood_cinv fs e s0 (op_log_override ood_ops nm c)" if "ood_cinv fs e s0 c"
    using that by (simp add: ood_ops_def)
  assume a: "st_sim False fs e ?up s0 s" "ood_cinv fs e s0 c" "known e s0 f0" "file_sim False fs e ?up f0 f" "?up f0"
  have "f_id f = f_id f0" using a(4) by (simp add: file_sim_def)
  then show "st_sim False fs e ?up s0 (fst (op_set_checked ood_ops f (s, c))) \<and>
      ood_cinv fs e s0 (snd (op_set_checked ood_ops f (s, c)))"
    using a(1,2,5) known_unique [OF _ a(3)] by (auto simp: ood_ops_def ood_cinv_def)
qed

subsection \<open>Properties\<close>

text \<open>C1. No stale target is taken for clean. If \<open>isdirty_default\<close> answers "clean" for a file of the
  database, the file is up to date with respect to the database at the start of the call, assuming
  only that the files already checked in this run (or found clean by the planner) are; this holds
  although the analysis itself marks files as checked and turns vanished targets into sources. A
  list of targets to build first is never empty and names only targets with checksums.\<close>

theorem isdirty_clean_sound:
  assumes "e_runid e = Some r" "known e s f"
    "isdirty_default preflight fs e n f mx (s, l) = Some (Inr (d, f', s', l'))"
  shows "(d = Clean \<longrightarrow> trusted_up fs e s (default_trust preflight e) f \<and> unwrap_or (f_changed_runid f) 0 \<le> mx)
    \<and> (\<forall>v. d = MustBuild v \<longrightarrow> v \<noteq> [] \<and> (\<forall>g \<in> set v. f_csum g \<noteq> None))"
proof -
  note h = default_sound.clean_is_up [where r = r and e = e and preflight = preflight,
      unfolded with_runid_id [OF assms(1)], OF assms(2) TrueI assms(3) [unfolded isdirty_default_def]]
  show ?thesis using h(1,4) by auto
qed

theorem isdirty_clean_sound_witness:
  "trusted_up demo_fs demo_env demo_plan (default_trust {} demo_env) demo_target"
proof -
  have p: "e_runid demo_env = Some 1000000002" "known demo_env demo_plan demo_target" by code_simp+
  let ?r = "isdirty_default {} demo_fs demo_env 4 demo_target 1000000002 (demo_plan, [])"
  have "map_option (map_sum id fst) ?r = Some (Inr Clean)" by code_simp
  then obtain f' s' l' where "?r = Some (Inr (Clean, f', s', l'))"
    using map_fst_Inr by (metis prod.exhaust)
  from isdirty_clean_sound [OF p this] show ?thesis by simp
qed

lemma ood_loop_complete:
  assumes "ood_loop fs e n runid fl out (s, c) = Some (Inr (names, w))"
    "st_sim False fs e (trusted_up fs e s0 (\<lambda>_. False)) s0 s" "ood_cinv fs e s0 c" "\<forall>f \<in> set fl. known e s0 f"
  shows "set out \<subseteq> set names \<and>
    (\<forall>f \<in> set fl. is_target fs e f \<and> f_name f \<notin> set names \<longrightarrow> up_to_date fs e s0 f)"
  using assms
proof (induction fl arbitrary: out s c)
  case (Cons f fl)
  show ?case
  proof (cases "is_target fs e f")
    case False
    then show ?thesis using Cons by simp
  next
    case True
    obtain d f1 s1 c1 where r: "isdirty ood_ops fs e n f runid [] (s, c) = Some (Inr (d, f1, s1, c1))"
      "ood_loop fs e n runid fl (if d = Clean then out else out @ [f_name f1]) (s1, c1) = Some (Inr (names, w))"
      using Cons.prems(1) True by (auto split: option.splits sum.splits)
    have "known e s0 f" using Cons.prems(4) by simp
    note q = ood_sound.sound [unfolded ood_sound.sound_at_def, rule_format, OF Cons.prems(2,3) this file_sim_refl r(1),
        unfolded ood_sound.outcome_ok_def prod.case]
    have IH: "set (if d = Clean then out else out @ [f_name f1]) \<subseteq> set names \<and>
        (\<forall>f \<in> set fl. is_target fs e f \<and> f_name f \<notin> set names \<longrightarrow> up_to_date fs e s0 f)"
      using Cons.IH [OF r(2)] q Cons.prems(4) by simp
    show ?thesis using IH q trusted_up_none by (auto split: if_splits)
  qed
qed simp

lemma files_known: "db_wf (si_db s) \<Longrightarrow> f \<in> set (files e s) \<Longrightarrow> known e s f"
  using find_id_unique by (auto simp: files_def intro!: known_from_row)

text \<open>\<open>redo-ood\<close> misses nothing: when it succeeds, every target of the database that is not up to
  date is among the names it prints (relative to the current directory).\<close>

theorem redo_ood_complete:
  assumes "redo_ood x fs e n s = Some (Inr out)" "db_wf (si_db s)" "x_current_dir x = Inr cwd"
    "f \<in> set (files e s)" "is_target fs e f" "\<not> up_to_date fs e s f"
  shows "unwrap_or (x_diff_paths x (path_join (e_base e) (f_name f)) cwd) (f_name f) \<in> set out"
proof -
  obtain names w where r: "ood_loop fs e n (unwrap_or (e_runid e) 0) (files e s) [] (s, {}) = Some (Inr (names, w))"
    and out: "out = map (\<lambda>n. unwrap_or (x_diff_paths x (path_join (e_base e) n) cwd) n) names"
    using assms(1,3) by (auto simp: redo_ood_def rbind_Inr_iff)
  have "ood_cinv fs e s {}" by (simp add: ood_cinv_def)
  from ood_loop_complete [OF r st_sim_refl this] files_known [OF assms(2)] assms(4-6)
  have "f_name f \<in> set names" by blast
  then show ?thesis by (auto simp: out)
qed

lemma up_to_date_dep_stamp:
  assumes "up_to_date fs e s f" "(CHR ''m'', g) \<in> set (file_deps e s f)"
  shows "f_stamp g = Some (read_stamp fs e g)"
proof -
  have "up_to_date fs e s g" using assms(1) by (rule up_to_dateE) (use assms(2) in blast)
  then show ?thesis by (rule up_to_dateE)
qed

definition demo_stale :: state_inner where
  "demo_stale = demo_plan\<lparr>si_db := (si_db demo_plan)\<lparr>
     db_files := [demo_row 2 ''t'' 1, (demo_row 3 ''src'' 0)\<lparr>r_stamp := Some STAMP_MISSING\<rparr>]\<rparr>\<rparr>"

definition demo_source :: redo_file where
  "demo_source = from_row demo_env ((demo_row 3 ''src'' 0)\<lparr>r_stamp := Some STAMP_MISSING\<rparr>)"

theorem redo_ood_complete_witness:
  "\<exists>out. redo_ood demo_ext demo_fs demo_env 4 demo_stale = Some (Inr out) \<and> ''t'' \<in> set out"
proof -
  have r: "redo_ood demo_ext demo_fs demo_env 4 demo_stale = Some (Inr [''t''])" by code_simp
  have wf: "db_wf (si_db demo_stale)" "x_current_dir demo_ext = Inr ''/w''"
    "demo_target \<in> set (files demo_env demo_stale)" "is_target demo_fs demo_env demo_target" by code_simp+
  have k: "known demo_env demo_stale demo_target" "card (file_id_set demo_stale) < 4" by code_simp+
  have "\<not> up_to_date demo_fs demo_env demo_stale demo_target"
  proof
    assume "up_to_date demo_fs demo_env demo_stale demo_target"
    moreover have "(CHR ''m'', demo_source) \<in> set (file_deps demo_env demo_stale demo_target)"
      "f_stamp demo_source \<noteq> Some (read_stamp demo_fs demo_env demo_source)" by code_simp+
    ultimately show False using up_to_date_dep_stamp by blast
  qed
  from redo_ood_complete [OF r wf this] have
    "unwrap_or (x_diff_paths demo_ext (path_join (e_base demo_env) (f_name demo_target)) ''/w'') (f_name demo_target) \<in> set [''t'']" .
  with r show ?thesis by auto
qed

end
