(* ===== verification/Jobserver.thy ===== *)
theory Jobserver
  imports State_Props
begin

text \<open>
  The job server (\<open>redo_core/src/jobserver.rs\<close>): tokens shared through a pipe, cheating when no token
  comes, starting jobs and waiting for them.

  The statics of a process are the record \<open>jobserver\<close>; the number of bytes in the token pipe and in the
  cheat pipe, shared by all processes, is the record \<open>pipes\<close>. What the kernel decides is an argument:
  which jobs \<open>select\<close> reports, how they ended, and whether another process wins the race for a byte
  (\<open>sched\<close>). A loop that waits consumes a list of such outcomes; \<open>None\<close> is a loop still waiting at the
  end of the list. The counters are unbounded integers: they stay below the number of jobs, far
  from the limits of \<open>i32\<close>.
\<close>

record job =
  j_name :: string
  j_pid :: nat

record jobserver =
  js_toplevel :: int
  js_mytokens :: int
  js_cheats :: int
  js_tokenfds :: "(int \<times> int) option"
  js_cheatfds :: "(int \<times> int) option"
  js_waitfds :: "(int \<times> job) list"

record pipes =
  pp_tokens :: nat
  pp_cheats :: nat

type_synonym jst = "jobserver \<times> pipes"

text \<open>The initial values of the statics.\<close>

definition js_init :: jobserver where
  "js_init = \<lparr>js_toplevel = 0, js_mytokens = 1, js_cheats = 0, js_tokenfds = None, js_cheatfds = None,
              js_waitfds = []\<rparr>"

datatype wstatus = Exited int | Signaled int | OtherStatus

definition exit_rv :: "wstatus \<Rightarrow> int" where
  "exit_rv s = (case s of Exited c \<Rightarrow> c | Signaled n \<Rightarrow> - n | OtherStatus \<Rightarrow> 201)"

record sched =
  sc_ready :: "int list"
  sc_status :: "nat \<Rightarrow> wstatus"
  sc_cheat_lost :: "int \<Rightarrow> bool"
  sc_token_lost :: bool

subsection \<open>Tokens\<close>

fun create_loop :: "nat \<Rightarrow> int \<times> int \<Rightarrow> int \<times> int" where
  "create_loop 0 (m, c) = (m, c)"
| "create_loop (Suc n) (m, c) = create_loop n (if c > 0 then (m, c - 1) else (m + 1, c))"

definition create_tokens :: "int \<Rightarrow> jobserver \<Rightarrow> jobserver" where
  "create_tokens n j =
     (let (m, c) = create_loop (nat n) (js_mytokens j, js_cheats j)
      in j\<lparr>js_mytokens := m, js_cheats := c\<rparr>)"

definition destroy_tokens :: "int \<Rightarrow> jobserver \<Rightarrow> jobserver" where
  "destroy_tokens n j = j\<lparr>js_mytokens := js_mytokens j - n\<rparr>"

fun release_loop :: "nat \<Rightarrow> int \<times> int \<times> nat \<Rightarrow> int \<times> int \<times> nat" where
  "release_loop 0 (m, c, share) = (m, c, share)"
| "release_loop (Suc n) (m, c, share) =
     release_loop n (if c > 0 then (m - 1, c - 1, share) else (m - 1, c, share + 1))"

definition release :: "int \<Rightarrow> jst \<Rightarrow> jst res" where
  "release n st =
     (case st of (j, p) \<Rightarrow>
        let (m, c, share) = release_loop (nat n) (js_mytokens j, js_cheats j, 0);
            j1 = j\<lparr>js_mytokens := m, js_cheats := c\<rparr>
        in if share > 0
           then (if js_tokenfds j = None then Inl (Msg ''tokenfds'')
                 else Inr (j1, p\<lparr>pp_tokens := pp_tokens p + share\<rparr>))
           else Inr (j1, p))"

definition has_token :: "jobserver \<Rightarrow> bool" where
  "has_token j \<longleftrightarrow> js_mytokens j \<ge> 1"

definition release_mine :: "jst \<Rightarrow> jst res" where
  "release_mine st = release 1 st"

definition release_except_mine :: "jst \<Rightarrow> jst res" where
  "release_except_mine st =
     (if js_mytokens (fst st) > 1 then release (js_mytokens (fst st) - 1) st else Inr st)"

text \<open>\<open>let _ = ..\<close>: an error is ignored. The only failure modelled is a missing token pipe, which does not
  occur after \<open>setup\<close>.\<close>

definition ignore_err :: "jst res \<Rightarrow> jst \<Rightarrow> jst" where
  "ignore_err r st = (case r of Inl _ \<Rightarrow> st | Inr st1 \<Rightarrow> st1)"

subsection \<open>Setting up\<close>

definition parse_fd_pair :: "string \<Rightarrow> (int \<times> int) option" where
  "parse_fd_pair arg =
     (case split_on (CHR '','') arg of
        a # b # _ \<Rightarrow> (case (parse_sint 32 a, parse_sint 32 b) of (Some x, Some y) \<Rightarrow> Some (x, y) | _ \<Rightarrow> None)
      | _ \<Rightarrow> None)"

definition parse_makeflags :: "vars \<Rightarrow> (int \<times> int) option" where
  "parse_makeflags vs =
     (let flags = '' '' @ var_or vs ''MAKEFLAGS'' @ '' '' in
      case (case find_sub '' --jobserver-auth='' flags of
              Some (_, rest) \<Rightarrow> Some rest
            | None \<Rightarrow> map_option snd (find_sub '' --jobserver-fds='' flags)) of
        None \<Rightarrow> None
      | Some rest \<Rightarrow>
          (case parse_fd_pair (hd (split_on (CHR '' '') rest)) of
             None \<Rightarrow> None
           | Some (a, b) \<Rightarrow> if a \<le> 0 \<or> b \<le> 0 then None else Some (a, b)))"

definition show_fd_pair :: "int \<times> int \<Rightarrow> string" where
  "show_fd_pair fds = show_int (fst fds) @ '','' @ show_int (snd fds)"

definition inherited_cheatfds :: "(int \<Rightarrow> bool) \<Rightarrow> vars \<Rightarrow> (int \<times> int) option" where
  "inherited_cheatfds fd_exists vs =
     (case vs ''REDO_CHEATFDS'' of
        None \<Rightarrow> None
      | Some s \<Rightarrow>
          (case parse_fd_pair s of
             Some (a, b) \<Rightarrow> if a > 2 \<and> b > 2 \<and> fd_exists a \<and> fd_exists b then Some (a, b) else None
           | None \<Rightarrow> None))"

text \<open>\<open>tf\<close> and \<open>cf\<close> are the descriptors \<open>make_pipe\<close> returns for the token and the cheat pipe; the pipes
  a process makes are empty.\<close>

definition setup_cheatfds :: "(int \<Rightarrow> bool) \<Rightarrow> int \<times> int \<Rightarrow> int \<Rightarrow> vars \<Rightarrow> jst \<Rightarrow> vars \<times> jst" where
  "setup_cheatfds fd_exists cf maxjobs vs st =
     (case (if maxjobs \<noteq> 0 then None else inherited_cheatfds fd_exists vs) of
        Some c \<Rightarrow> (vs, (fst st)\<lparr>js_cheatfds := Some c\<rparr>, snd st)
      | None \<Rightarrow> (vs(''REDO_CHEATFDS'' \<mapsto> show_fd_pair cf),
                 (fst st)\<lparr>js_cheatfds := Some cf\<rparr>, (snd st)\<lparr>pp_cheats := 0\<rparr>))"

definition makeflags_for :: "int \<times> int \<Rightarrow> string" where
  "makeflags_for tf = '' -j --jobserver-auth='' @ show_fd_pair tf @ '' --jobserver-fds='' @ show_fd_pair tf"

definition new_jobserver ::
  "(int \<Rightarrow> bool) \<Rightarrow> int \<times> int \<Rightarrow> int \<times> int \<Rightarrow> int \<Rightarrow> vars \<Rightarrow> jst \<Rightarrow> (vars \<times> jst) res" where
  "new_jobserver fd_exists tf cf maxjobs vs st =
     (let (vs1, j1, p1) = setup_cheatfds fd_exists cf maxjobs vs st;
          realmax = (if maxjobs > 0 then maxjobs else 1);
          j2 = create_tokens (realmax - 1) (j1\<lparr>js_toplevel := realmax, js_tokenfds := Some tf\<rparr>)
      in rbind (release_except_mine (j2, p1\<lparr>pp_tokens := 0\<rparr>)) (\<lambda>st3.
           Inr (vs1(''MAKEFLAGS'' \<mapsto> makeflags_for tf), st3)))"

definition jobserver_setup ::
  "(int \<Rightarrow> bool) \<Rightarrow> int \<times> int \<Rightarrow> int \<times> int \<Rightarrow> int \<Rightarrow> vars \<Rightarrow> jst \<Rightarrow> (vars \<times> jst) res" where
  "jobserver_setup fd_exists tf cf maxjobs vs st =
     (if js_tokenfds (fst st) \<noteq> None then Inr (vs, st)
      else
        let inherited = parse_makeflags vs in
        case inherited of
          Some (a, b) \<Rightarrow>
            if \<not> fd_exists a \<or> \<not> fd_exists b then Inl (Msg ''broken jobserver fds'')
            else if maxjobs = 0
              then (let (vs1, j1, p1) = setup_cheatfds fd_exists cf maxjobs vs st
                    in Inr (vs1, j1\<lparr>js_tokenfds := Some (a, b)\<rparr>, p1))
              else new_jobserver fd_exists tf cf maxjobs vs st
        | None \<Rightarrow> new_jobserver fd_exists tf cf maxjobs vs st)"

subsection \<open>Waiting for jobs\<close>

text \<open>\<open>try_read_token\<close> on a pipe with \<open>n\<close> bytes: a byte or none, and the bytes left.\<close>

definition try_read_token :: "bool \<Rightarrow> nat \<Rightarrow> bool \<times> nat" where
  "try_read_token lost n = (if n = 0 \<or> lost then (False, n) else (True, n - 1))"

type_synonym event = "string \<times> int"

text \<open>The body of the loop over the finished jobs; the call of \<open>done\<close> is recorded as an event.\<close>

definition reap :: "sched \<Rightarrow> int \<Rightarrow> event list \<times> jst \<Rightarrow> event list \<times> jst" where
  "reap sc fd est =
     (case est of (ev, j, p) \<Rightarrow>
        case map_of (js_waitfds j) fd of
          None \<Rightarrow> est
        | Some jb \<Rightarrow>
            let j1 = j\<lparr>js_waitfds := filter (\<lambda>(k, _). k \<noteq> fd) (js_waitfds j)\<rparr>;
                rv = exit_rv (sc_status sc (j_pid jb));
                (b, left) = try_read_token (sc_cheat_lost sc fd) (pp_cheats p);
                p1 = p\<lparr>pp_cheats := left\<rparr>;
                st2 = (if b then (j1, p1)
                       else let j2 = create_tokens 1 j1 in
                            if has_token j2 then ignore_err (release_except_mine (j2, p1)) (j2, p1)
                            else (j2, p1))
            in (ev @ [(j_name jb, rv)], st2))"

definition js_wait :: "sched \<Rightarrow> jst \<Rightarrow> event list \<times> jst" where
  "js_wait sc st =
     (let done_fds = filter (\<lambda>fd. fd \<in> set (sc_ready sc)) (map fst (js_waitfds (fst st)))
      in fold (reap sc) done_fds ([], st))"

text \<open>\<open>delay\<close> tells whether a time limit was given.\<close>

fun ensure_token :: "bool \<Rightarrow> sched list \<Rightarrow> event list \<times> jst \<Rightarrow> (sched list \<times> event list \<times> jst) option" where
  "ensure_token delay scs (ev, j, p) =
     (if js_mytokens j \<ge> 1 then Some (scs, ev, j, p)
      else case scs of
        [] \<Rightarrow> None
      | sc # rest \<Rightarrow>
          (let (ev1, j1, p1) = js_wait sc (j, p) in
           if js_mytokens j1 \<ge> 1 then Some (rest, ev @ ev1, j1, p1)
           else let (got, left) = try_read_token (sc_token_lost sc) (pp_tokens p1) in
                if got then Some (rest, ev @ ev1, j1\<lparr>js_mytokens := js_mytokens j1 + 1\<rparr>, p1\<lparr>pp_tokens := left\<rparr>)
                else if delay then Some (rest, ev @ ev1, j1, p1)
                else ensure_token delay rest (ev @ ev1, j1, p1)))"

declare ensure_token.simps [simp del]

definition running :: "jobserver \<Rightarrow> bool" where
  "running j \<longleftrightarrow> js_waitfds j \<noteq> []"

text \<open>The inner loop: wait for a token as long as jobs are running.\<close>

fun ensure_running :: "nat \<Rightarrow> sched list \<Rightarrow> event list \<times> jst \<Rightarrow> (sched list \<times> event list \<times> jst) option" where
  "ensure_running 0 scs est = None"
| "ensure_running (Suc n) scs est =
     (if running (fst (snd est)) \<and> \<not> has_token (fst (snd est))
      then (case ensure_token False scs est of
              None \<Rightarrow> None
            | Some (scs1, est1) \<Rightarrow> ensure_running n scs1 est1)
      else Some (scs, est))"

fun ensure_token_or_cheat ::
  "nat \<Rightarrow> (nat \<Rightarrow> int) \<Rightarrow> sched list \<Rightarrow> event list \<times> jst \<Rightarrow> (sched list \<times> event list \<times> jst) option" where
  "ensure_token_or_cheat 0 cheatfunc scs est = None"
| "ensure_token_or_cheat (Suc n) cheatfunc scs est =
     (if has_token (fst (snd est)) then Some (scs, est)
      else case ensure_running n scs est of
        None \<Rightarrow> None
      | Some (scs1, est1) \<Rightarrow>
          (case ensure_token True scs1 est1 of
             None \<Rightarrow> None
           | Some (scs2, ev2, j2, p2) \<Rightarrow>
               if has_token j2 then Some (scs2, ev2, j2, p2)
               else if js_mytokens j2 \<noteq> 0 then ensure_token_or_cheat n cheatfunc scs2 (ev2, j2, p2)
               else if cheatfunc n > 0
                 then Some (scs2, ev2, j2\<lparr>js_mytokens := js_mytokens j2 + cheatfunc n,
                                         js_cheats := js_cheats j2 + cheatfunc n\<rparr>, p2)
                 else ensure_token_or_cheat n cheatfunc scs2 (ev2, j2, p2)))"

text \<open>\<open>start\<close> in the parent: \<open>fd\<close> and \<open>pid\<close> are what \<open>make_pipe\<close> and \<open>fork\<close> return.\<close>

definition start :: "bool \<Rightarrow> int \<Rightarrow> nat \<Rightarrow> string \<Rightarrow> jobserver \<Rightarrow> jobserver res" where
  "start flushed fd pid reason j =
     (if \<not> flushed then Inl (Msg ''state is not flushed'')
      else if \<not> has_token j then Inl (Msg ''start() requires a token'')
      else let j1 = destroy_tokens 1 j in
           Inr (j1\<lparr>js_waitfds := (fd, \<lparr>j_name = reason, j_pid = pid\<rparr>) # filter (\<lambda>(k, _). k \<noteq> fd) (js_waitfds j1)\<rparr>))"

text \<open>\<open>while MYTOKENS >= 2 { let _ = release(1); }\<close>\<close>

definition release_spare :: "jst \<Rightarrow> jst" where
  "release_spare st =
     (let k = nat (js_mytokens (fst st) - 1) in
      ((\<lambda>st. ignore_err (release 1 st) st) ^^ k) st)"

fun wait_all_loop :: "sched list \<Rightarrow> event list \<times> jst \<Rightarrow> (event list \<times> jst) option" where
  "wait_all_loop scs (ev, st) =
     (if \<not> running (fst st) then Some (ev, st)
      else case scs of
        [] \<Rightarrow> None
      | sc # rest \<Rightarrow>
          (let st1 = release_spare st;
               st2 = (if js_mytokens (fst st1) \<ge> 1 then ignore_err (release_mine st1) st1 else st1);
               (ev1, st3) = js_wait sc st2
           in wait_all_loop rest (ev @ ev1, st3)))"

text \<open>At the top level: all bytes are read back from both pipes and counted.\<close>

definition account :: "jst \<Rightarrow> jst res" where
  "account st =
     (let (j1, p1) = (if js_mytokens (fst st) \<ge> 1 then ignore_err (release_mine st) st else st) in
      if int (pp_tokens p1) - int (pp_cheats p1) \<noteq> js_toplevel j1
      then Inl (Msg ''token accounting mismatch on exit'')
      else Inr (j1, p1\<lparr>pp_cheats := 0\<rparr>))"

definition wait_all :: "sched list \<Rightarrow> jst \<Rightarrow> (event list \<times> jst) res option" where
  "wait_all scs st =
     (case wait_all_loop scs ([], st) of
        None \<Rightarrow> None
      | Some (ev, st1) \<Rightarrow>
          Some (if js_toplevel (fst st1) > 0 then rbind (account st1) (\<lambda>st2. Inr (ev, st2)) else Inr (ev, st1)))"

definition force_return_tokens :: "jst \<Rightarrow> jst res" where
  "force_return_tokens st =
     (let j1 = create_tokens (int (length (js_waitfds (fst st)))) (fst st) in
      rbind (if has_token j1 then release_except_mine (j1, snd st) else Inr (j1, snd st)) (\<lambda>(j2, p2).
        if js_cheats j2 > 0
        then Inr ((destroy_tokens (js_cheats j2) j2)\<lparr>js_cheats := 0\<rparr>,
                  p2\<lparr>pp_cheats := pp_cheats p2 + nat (js_cheats j2)\<rparr>)
        else Inr (j2, p2)))"

subsection \<open>Conservation in one process\<close>

text \<open>The real tokens of a process (held, less those made by cheating), its jobs (each will give one
  back) and the pipes, where a byte of the cheat pipe cancels a token.\<close>

definition balance :: "jst \<Rightarrow> int" where
  "balance st = js_mytokens (fst st) - js_cheats (fst st) + int (length (js_waitfds (fst st)))
     + int (pp_tokens (snd st)) - int (pp_cheats (snd st))"

definition js_wf :: "jobserver \<Rightarrow> bool" where
  "js_wf j \<longleftrightarrow> distinct (map fst (js_waitfds j))"

lemma create_loop_diff: "create_loop n (m, c) = (m', c') \<Longrightarrow> m' - c' = m - c + int n"
proof (induction n arbitrary: m c)
  case (Suc n)
  then show ?case by (cases "c > 0") (fastforce dest: Suc.IH)+
qed simp

lemma release_loop_diff:
  "release_loop n (m, c, k) = (m', c', k') \<Longrightarrow> m' - c' + int k' = m - c + int k"
proof (induction n arbitrary: m c k)
  case (Suc n)
  then show ?case by (cases "c > 0") (fastforce dest: Suc.IH)+
qed simp

lemma create_tokens_frame [simp]:
  "js_waitfds (create_tokens n j) = js_waitfds j" "js_toplevel (create_tokens n j) = js_toplevel j"
  "js_tokenfds (create_tokens n j) = js_tokenfds j" "js_cheatfds (create_tokens n j) = js_cheatfds j"
  by (simp_all add: create_tokens_def split: prod.splits)

lemma create_tokens_diff:
  "0 \<le> n \<Longrightarrow> js_mytokens (create_tokens n j) - js_cheats (create_tokens n j) = js_mytokens j - js_cheats j + n"
  by (auto simp: create_tokens_def dest: create_loop_diff split: prod.splits)

lemma release_balance:
  assumes "release n st = Inr st1"
  shows "balance st1 = balance st" "js_waitfds (fst st1) = js_waitfds (fst st)"
    "js_toplevel (fst st1) = js_toplevel (fst st)" "pp_cheats (snd st1) = pp_cheats (snd st)"
    "js_tokenfds (fst st1) = js_tokenfds (fst st)" "js_cheatfds (fst st1) = js_cheatfds (fst st)"
proof -
  obtain j p where st: "st = (j, p)" by (cases st)
  obtain m c k where l: "release_loop (nat n) (js_mytokens j, js_cheats j, 0) = (m, c, k)"
    using prod_cases3 by blast
  note d = release_loop_diff [OF l]
  have st1: "st1 = (j\<lparr>js_mytokens := m, js_cheats := c\<rparr>, p\<lparr>pp_tokens := pp_tokens p + k\<rparr>)"
    using assms by (auto simp: release_def st l Let_def split: if_splits)
  show "balance st1 = balance st" "js_waitfds (fst st1) = js_waitfds (fst st)"
    "js_toplevel (fst st1) = js_toplevel (fst st)" "pp_cheats (snd st1) = pp_cheats (snd st)"
    "js_tokenfds (fst st1) = js_tokenfds (fst st)" "js_cheatfds (fst st1) = js_cheatfds (fst st)"
    using d by (simp_all add: st st1 balance_def)
qed

lemma release_except_mine_balance:
  assumes "release_except_mine st = Inr st1"
  shows "balance st1 = balance st" "js_waitfds (fst st1) = js_waitfds (fst st)"
    "js_toplevel (fst st1) = js_toplevel (fst st)" "pp_cheats (snd st1) = pp_cheats (snd st)"
    "js_tokenfds (fst st1) = js_tokenfds (fst st)" "js_cheatfds (fst st1) = js_cheatfds (fst st)"
  using assms release_balance by (auto simp: release_except_mine_def split: if_splits)

lemma ignore_err_balance:
  assumes "\<And>st1. r = Inr st1 \<Longrightarrow> balance st1 = balance st \<and> js_waitfds (fst st1) = js_waitfds (fst st)
     \<and> js_toplevel (fst st1) = js_toplevel (fst st)"
  shows "balance (ignore_err r st) = balance st \<and> js_waitfds (fst (ignore_err r st)) = js_waitfds (fst st)
     \<and> js_toplevel (fst (ignore_err r st)) = js_toplevel (fst st)"
  using assms by (cases r) (simp_all add: ignore_err_def)

lemma filter_key_length:
  "distinct (map fst xs) \<Longrightarrow> map_of xs k = Some v \<Longrightarrow>
     Suc (length (filter (\<lambda>(i, _). i \<noteq> k) xs)) = length xs"
proof (induction xs)
  case (Cons x xs)
  show ?case
  proof (cases "fst x = k")
    case True
    then have "filter (\<lambda>(i, _). i \<noteq> k) xs = xs"
      using Cons.prems(1) by (intro filter_True) (auto simp: rev_image_eqI)
    then show ?thesis using True by (simp add: case_prod_beta [abs_def])
  next
    case False
    then show ?thesis using Cons by (cases x) auto
  qed
qed simp

lemma reap_balance:
  assumes "js_wf (fst st)" "reap sc fd (ev, st) = (ev1, st1)"
  shows "balance st1 = balance st \<and> js_wf (fst st1) \<and> js_toplevel (fst st1) = js_toplevel (fst st)"
proof -
  obtain j p where st: "st = (j, p)" by (cases st)
  show ?thesis
  proof (cases "map_of (js_waitfds j) fd")
    case None
    then show ?thesis using assms by (auto simp: reap_def st)
  next
    case (Some jb)
    let ?j1 = "j\<lparr>js_waitfds := filter (\<lambda>(k, _). k \<noteq> fd) (js_waitfds j)\<rparr>"
    obtain b left where b: "try_read_token (sc_cheat_lost sc fd) (pp_cheats p) = (b, left)" by fastforce
    let ?p1 = "p\<lparr>pp_cheats := left\<rparr>"
    let ?j2 = "create_tokens 1 ?j1"
    have len: "Suc (length (js_waitfds ?j1)) = length (js_waitfds j)"
      using filter_key_length [OF _ Some] assms(1) by (simp add: st js_wf_def)
    have wf: "js_wf ?j1" using assms(1) by (simp add: st js_wf_def distinct_map_filter)
    have st1: "st1 = (if b then (?j1, ?p1) else if has_token ?j2
        then ignore_err (release_except_mine (?j2, ?p1)) (?j2, ?p1) else (?j2, ?p1))"
      using assms(2) Some b by (cases b; cases "has_token ?j2") (simp_all add: reap_def st Let_def)
    have left: "int left = int (pp_cheats p) - (if b then 1 else 0)"
      using b by (auto simp: try_read_token_def split: if_splits)
    have bal: "balance (if b then ?j1 else ?j2, ?p1) = balance st"
      using len left create_tokens_diff [of 1 ?j1] by (auto simp: balance_def st)
    have ig: "balance (ignore_err (release_except_mine (?j2, ?p1)) (?j2, ?p1)) = balance (?j2, ?p1)
        \<and> js_waitfds (fst (ignore_err (release_except_mine (?j2, ?p1)) (?j2, ?p1))) = js_waitfds ?j2
        \<and> js_toplevel (fst (ignore_err (release_except_mine (?j2, ?p1)) (?j2, ?p1))) = js_toplevel ?j2"
      using ignore_err_balance [of "release_except_mine (?j2, ?p1)" "(?j2, ?p1)"] release_except_mine_balance by auto
    show ?thesis using bal ig wf unfolding st1 by (auto simp: js_wf_def st)
  qed
qed

lemma js_wait_balance:
  assumes "js_wf (fst st)" "js_wait sc st = (ev, st1)"
  shows "balance st1 = balance st \<and> js_wf (fst st1) \<and> js_toplevel (fst st1) = js_toplevel (fst st)"
proof -
  have "balance (snd (fold (reap sc) fds (ev0, st))) = balance st \<and> js_wf (fst (snd (fold (reap sc) fds (ev0, st))))
      \<and> js_toplevel (fst (snd (fold (reap sc) fds (ev0, st)))) = js_toplevel (fst st)"
    if "js_wf (fst st)" for fds ev0 st
    using that
  proof (induction fds arbitrary: ev0 st)
    case (Cons fd fds)
    obtain ev1 st1 where r: "reap sc fd (ev0, st) = (ev1, st1)" by (cases "reap sc fd (ev0, st)")
    note b = reap_balance [OF Cons.prems r]
    show ?case using Cons.IH [of st1 ev1] b by (simp add: r)
  qed simp
  from this [OF assms(1), of _ "[]"] assms(2) show ?thesis by (simp add: js_wait_def Let_def) (metis snd_conv)
qed

lemma ensure_token_balance:
  "js_wf (fst (snd est)) \<Longrightarrow> ensure_token delay scs est = Some (scs1, ev1, st1) \<Longrightarrow>
     balance st1 = balance (snd est) \<and> js_wf (fst st1) \<and> js_toplevel (fst st1) = js_toplevel (fst (snd est))"
proof (induction scs arbitrary: est)
  case Nil
  then show ?case by (cases est) (auto simp: ensure_token.simps split: if_splits)
next
  case (Cons sc rest)
  obtain ev j p where est: "est = (ev, j, p)" by (metis prod_cases3)
  show ?case
  proof (cases "js_mytokens j \<ge> 1")
    case True
    then show ?thesis using Cons.prems by (auto simp: est ensure_token.simps)
  next
    case False
    obtain ev2 j2 p2 where w: "js_wait sc (j, p) = (ev2, j2, p2)" by (metis prod_cases3)
    have b: "balance (j2, p2) = balance (j, p)" "js_wf j2" "js_toplevel j2 = js_toplevel j"
      using js_wait_balance [OF _ w] Cons.prems(1) est by simp_all
    obtain got left where t: "try_read_token (sc_token_lost sc) (pp_tokens p2) = (got, left)" by fastforce
    have left: "int left = int (pp_tokens p2) - (if got then 1 else 0)"
      using t by (auto simp: try_read_token_def split: if_splits)
    note u = Cons.prems(2) [unfolded est ensure_token.simps [of delay "sc # rest"] list.case w prod.case t Let_def]
    show ?thesis
    proof (cases "js_mytokens j2 \<ge> 1 \<or> got \<or> delay")
      case True
      then show ?thesis
        using u False b left by (auto simp: est balance_def js_wf_def split: if_splits)
    next
      case n: False
      then have "ensure_token delay rest (ev @ ev2, j2, p2) = Some (scs1, ev1, st1)"
        using u False by simp
      from Cons.IH [OF _ this] b show ?thesis by (simp add: est)
    qed
  qed
qed

lemma ensure_running_balance:
  "js_wf (fst (snd est)) \<Longrightarrow> ensure_running n scs est = Some (scs1, ev1, st1) \<Longrightarrow>
     balance st1 = balance (snd est) \<and> js_wf (fst st1) \<and> js_toplevel (fst st1) = js_toplevel (fst (snd est))"
proof (induction n arbitrary: scs est)
  case (Suc n)
  show ?case
  proof (cases "running (fst (snd est)) \<and> \<not> has_token (fst (snd est))")
    case True
    then obtain scs2 ev2 st2 where e: "ensure_token False scs est = Some (scs2, ev2, st2)"
      "ensure_running n scs2 (ev2, st2) = Some (scs1, ev1, st1)"
      using Suc.prems(2) by (auto split: option.splits)
    show ?thesis using ensure_token_balance [OF Suc.prems(1) e(1)] Suc.IH [OF _ e(2)] by simp
  next
    case False
    then show ?thesis using Suc.prems by auto
  qed
qed simp

lemma ensure_token_or_cheat_balance:
  "js_wf (fst (snd est)) \<Longrightarrow> ensure_token_or_cheat n cf scs est = Some (scs1, ev1, st1) \<Longrightarrow>
     balance st1 = balance (snd est) \<and> js_wf (fst st1) \<and> js_toplevel (fst st1) = js_toplevel (fst (snd est))"
proof (induction n arbitrary: scs est)
  case (Suc n)
  show ?case
  proof (cases "has_token (fst (snd est))")
    case True
    then show ?thesis using Suc.prems by auto
  next
    case False
    obtain scs2 ev2 st2 where r: "ensure_running n scs est = Some (scs2, ev2, st2)"
      using Suc.prems(2) False by (auto split: option.splits)
    note b2 = ensure_running_balance [OF Suc.prems(1) r]
    obtain scs3 ev3 j3 p3 where t: "ensure_token True scs2 (ev2, st2) = Some (scs3, ev3, j3, p3)"
      using Suc.prems(2) False r by (auto split: option.splits)
    have b3: "balance (j3, p3) = balance st2" "js_wf j3" "js_toplevel j3 = js_toplevel (fst st2)"
      using ensure_token_balance [OF _ t] b2 by simp_all
    show ?thesis
    proof (cases "has_token j3 \<or> (js_mytokens j3 = 0 \<and> cf n > 0)")
      case True
      then show ?thesis using Suc.prems(2) False r t b2 b3
        by (auto simp: balance_def js_wf_def split: if_splits)
    next
      case n: False
      then have "ensure_token_or_cheat n cf scs3 (ev3, j3, p3) = Some (scs1, ev1, st1)"
        using Suc.prems(2) False r t by (auto split: if_splits)
      from Suc.IH [OF _ this] b2 b3 show ?thesis by simp
    qed
  qed
qed simp

lemma release_spare_balance:
  "balance (release_spare st) = balance st \<and> js_waitfds (fst (release_spare st)) = js_waitfds (fst st)
     \<and> js_toplevel (fst (release_spare st)) = js_toplevel (fst st)"
proof -
  let ?f = "\<lambda>st. ignore_err (release 1 st) st"
  have one: "balance (?f st) = balance st \<and> js_waitfds (fst (?f st)) = js_waitfds (fst st)
     \<and> js_toplevel (fst (?f st)) = js_toplevel (fst st)" for st
    by (rule ignore_err_balance) (auto dest: release_balance)
  have "balance ((?f ^^ k) st) = balance st \<and> js_waitfds (fst ((?f ^^ k) st)) = js_waitfds (fst st)
     \<and> js_toplevel (fst ((?f ^^ k) st)) = js_toplevel (fst st)" for k
    using one by (induction k) simp_all
  then show ?thesis by (simp add: release_spare_def Let_def)
qed

lemma wait_all_loop_balance:
  "js_wf (fst st) \<Longrightarrow> wait_all_loop scs (ev, st) = Some (ev1, st1) \<Longrightarrow>
     balance st1 = balance st \<and> js_wf (fst st1) \<and> js_toplevel (fst st1) = js_toplevel (fst st) \<and> js_waitfds (fst st1) = []"
proof (induction scs arbitrary: ev st)
  case Nil
  then show ?case by (auto simp: running_def split: if_splits)
next
  case (Cons sc rest)
  show ?case
  proof (cases "running (fst st)")
    case False
    then show ?thesis using Cons.prems by (auto simp: running_def)
  next
    case True
    let ?st1 = "release_spare st"
    let ?st2 = "if js_mytokens (fst ?st1) \<ge> 1 then ignore_err (release_mine ?st1) ?st1 else ?st1"
    have b2: "balance ?st2 = balance st \<and> js_waitfds (fst ?st2) = js_waitfds (fst st) \<and> js_toplevel (fst ?st2) = js_toplevel (fst st)"
      using release_spare_balance [of st] ignore_err_balance [of "release_mine ?st1" ?st1] release_balance [of 1 ?st1]
      by (simp add: release_mine_def)
    obtain ev3 st3 where w: "js_wait sc ?st2 = (ev3, st3)" by (cases "js_wait sc ?st2")
    have "js_wf (fst ?st2)" using b2 Cons.prems(1) by (simp add: js_wf_def)
    from js_wait_balance [OF this w] have b3: "balance st3 = balance st" "js_wf (fst st3)" "js_toplevel (fst st3) = js_toplevel (fst st)"
      using b2 by simp_all
    have "wait_all_loop rest (ev @ ev3, st3) = Some (ev1, st1)"
      using Cons.prems(2) True w by (simp add: Let_def)
    from Cons.IH [OF b3(2) this] b3 show ?thesis by simp
  qed
qed

subsection \<open>The processes of a build\<close>

text \<open>
  The shared pipes, the live processes, the exited processes not yet waited for, and the states in which
  the processes that have ended did so. Every step is one action of one process, taken from the operations
  above: giving a token back, taking one from the pipe, cheating (only without a job of its own, by one
  token, which is what the callers' \<open>cheatfunc\<close> returns), starting a job, waiting for a finished job, and
  ending. A process below the top level may end, or be killed, in any state: with or without a token, with
  cheats it has not returned (nothing calls \<open>force_return_tokens\<close>), with jobs still running.
\<close>

type_synonym jconf = "pipes \<times> (nat \<rightharpoonup> jobserver) \<times> nat list \<times> jobserver list"

definition child_of :: "jobserver \<Rightarrow> jobserver" where
  "child_of j = js_init\<lparr>js_tokenfds := js_tokenfds j, js_cheatfds := js_cheatfds j\<rparr>"

inductive js_step :: "jconf \<Rightarrow> jconf \<Rightarrow> bool" where
  give: "ps q = Some j \<Longrightarrow> has_token j \<Longrightarrow> release_mine (j, p) = Inr (j1, p1) \<Longrightarrow>
    js_step (p, ps, z, es) (p1, ps(q \<mapsto> j1), z, es)"
| take: "ps q = Some j \<Longrightarrow> \<not> has_token j \<Longrightarrow> try_read_token False (pp_tokens p) = (True, left) \<Longrightarrow>
    js_step (p, ps, z, es) (p\<lparr>pp_tokens := left\<rparr>, ps(q \<mapsto> j\<lparr>js_mytokens := js_mytokens j + 1\<rparr>), z, es)"
| cheat: "ps q = Some j \<Longrightarrow> js_mytokens j = 0 \<Longrightarrow> \<not> running j \<Longrightarrow>
    js_step (p, ps, z, es) (p, ps(q \<mapsto> j\<lparr>js_mytokens := js_mytokens j + 1, js_cheats := js_cheats j + 1\<rparr>), z, es)"
| spawn: "ps q = Some j \<Longrightarrow> start True fd pid reason j = Inr j1 \<Longrightarrow> ps pid = None \<Longrightarrow> pid \<notin> set z \<Longrightarrow>
    fd \<notin> fst ` set (js_waitfds j) \<Longrightarrow> js_step (p, ps, z, es) (p, ps(q \<mapsto> j1, pid \<mapsto> child_of j), z, es)"
| reaped: "ps q = Some j \<Longrightarrow> map_of (js_waitfds j) fd = Some jb \<Longrightarrow> j_pid jb \<in> set z \<Longrightarrow>
    reap sc fd ([], j, p) = (ev, j1, p1) \<Longrightarrow>
    js_step (p, ps, z, es) (p1, ps(q \<mapsto> j1), remove1 (j_pid jb) z, es)"
| ends: "ps q = Some j \<Longrightarrow> js_toplevel j = 0 \<Longrightarrow>
    js_step (p, ps, z, es) (p, ps(q := None), q # z, j # es)"

inductive js_reach :: "int \<Rightarrow> jconf \<Rightarrow> bool" for T where
  start: "T > 0 \<Longrightarrow> jobserver_setup fd_exists tf cf T vs (js_init, p0) = Inr (vs1, j, p) \<Longrightarrow>
    js_reach T (p, [0 \<mapsto> j], [], [])"
| step: "js_reach T c \<Longrightarrow> js_step c c1 \<Longrightarrow> js_reach T c1"

definition real_tokens :: "jobserver \<Rightarrow> int" where
  "real_tokens j = js_mytokens j - js_cheats j"

definition tokens_of :: "(nat \<rightharpoonup> jobserver) \<Rightarrow> int" where
  "tokens_of ps = (\<Sum>q \<in> dom ps. real_tokens (the (ps q)))"

text \<open>When a process is waited for, one token is made for it. What it did not hold at its end is surplus.\<close>

definition surplus :: "jobserver list \<Rightarrow> int" where
  "surplus es = (\<Sum>j\<leftarrow>es. 1 - real_tokens j)"

definition proc_ok :: "jobserver \<Rightarrow> bool" where
  "proc_ok j \<longleftrightarrow> js_wf j \<and> 0 \<le> js_mytokens j \<and> js_mytokens j \<le> 1 \<and> 0 \<le> js_cheats j
     \<and> js_cheats j \<le> js_mytokens j + int (length (js_waitfds j)) \<and> js_tokenfds j \<noteq> None"

definition conf_ok :: "int \<Rightarrow> jconf \<Rightarrow> bool" where
  "conf_ok T c \<longleftrightarrow> (case c of (p, ps, z, es) \<Rightarrow>
     finite (dom ps) \<and> (\<forall>q j. ps q = Some j \<longrightarrow> proc_ok j) \<and>
     (\<exists>j. ps 0 = Some j \<and> js_toplevel j = T) \<and> T > 0 \<and>
     tokens_of ps + int (length z) + int (pp_tokens p) = T + surplus es \<and> pp_cheats p = 0)"

lemma tokens_of_split:
  assumes "finite (dom ps)" "ps q = Some j"
  shows "tokens_of ps = real_tokens j + (\<Sum>r \<in> dom ps - {q}. real_tokens (the (ps r)))"
  unfolding tokens_of_def using sum.remove [of "dom ps" q "\<lambda>r. real_tokens (the (ps r))"] assms by auto

lemma tokens_of_upd:
  assumes "finite (dom ps)" "ps q = Some j"
  shows "tokens_of (ps(q \<mapsto> j1)) = tokens_of ps - real_tokens j + real_tokens j1"
proof -
  have "dom (ps(q \<mapsto> j1)) - {q} = dom ps - {q}" by auto
  then have "tokens_of (ps(q \<mapsto> j1)) = real_tokens j1 + (\<Sum>r \<in> dom ps - {q}. real_tokens (the ((ps(q \<mapsto> j1)) r)))"
    using tokens_of_split [of "ps(q \<mapsto> j1)" q j1] assms(1) by simp
  also have "(\<Sum>r \<in> dom ps - {q}. real_tokens (the ((ps(q \<mapsto> j1)) r))) = (\<Sum>r \<in> dom ps - {q}. real_tokens (the (ps r)))"
    by (intro sum.cong) auto
  finally show ?thesis using tokens_of_split [OF assms] by (simp del: fun_upd_apply)
qed

lemma tokens_of_new:
  assumes "finite (dom ps)" "ps q = None"
  shows "tokens_of (ps(q \<mapsto> j)) = tokens_of ps + real_tokens j"
proof -
  have "(\<Sum>r \<in> dom ps. real_tokens (the ((ps(q \<mapsto> j)) r))) = (\<Sum>r \<in> dom ps. real_tokens (the (ps r)))"
    using assms(2) by (intro sum.cong) auto
  then show ?thesis using assms by (simp add: tokens_of_def domIff)
qed

lemma tokens_of_del:
  assumes "finite (dom ps)" "ps q = Some j"
  shows "tokens_of (ps(q := None)) = tokens_of ps - real_tokens j"
proof -
  have "tokens_of (ps(q := None)) = (\<Sum>r \<in> dom ps - {q}. real_tokens (the (ps r)))"
    unfolding tokens_of_def by (intro sum.cong) auto
  then show ?thesis using tokens_of_split [OF assms] by simp
qed

text \<open>The actions on a well-behaved process.\<close>

lemma give_effect:
  assumes "proc_ok j" "has_token j" "release_mine (j, p) = Inr (j1, p1)" "pp_cheats p = 0"
  shows "proc_ok j1" "real_tokens j1 + int (pp_tokens p1) = real_tokens j + int (pp_tokens p)"
    "pp_cheats p1 = 0" "js_toplevel j1 = js_toplevel j"
  using assms
  by (auto simp: proc_ok_def js_wf_def real_tokens_def release_mine_def release_def has_token_def Let_def
      split: if_splits)

lemma reap_effect:
  assumes "proc_ok j" "map_of (js_waitfds j) fd = Some jb" "reap sc fd ([], j, p) = (ev, j1, p1)" "pp_cheats p = 0"
  shows "proc_ok j1" "real_tokens j1 + int (pp_tokens p1) = real_tokens j + int (pp_tokens p) + 1"
    "pp_cheats p1 = 0" "js_toplevel j1 = js_toplevel j"
proof -
  let ?w = "filter (\<lambda>(k, _). k \<noteq> fd) (js_waitfds j)"
  have len: "int (length ?w) = int (length (js_waitfds j)) - 1"
    using filter_key_length [OF _ assms(2)] assms(1) unfolding proc_ok_def js_wf_def by linarith
  have wf: "distinct (map fst ?w)" using assms(1) by (simp add: proc_ok_def js_wf_def distinct_map_filter)
  have m: "js_mytokens j = 0 \<or> js_mytokens j = 1" using assms(1) by (auto simp: proc_ok_def)
  have r: "j1 = j\<lparr>js_waitfds := ?w, js_mytokens := (if js_cheats j > 0 then js_mytokens j else 1),
         js_cheats := (if js_cheats j > 0 then js_cheats j - 1 else js_cheats j)\<rparr>
     \<and> p1 = p\<lparr>pp_cheats := 0, pp_tokens := pp_tokens p + (if js_cheats j > 0 \<or> js_mytokens j = 0 then 0 else 1)\<rparr>"
    using m
  proof
    assume "js_mytokens j = 0"
    then show ?thesis using assms(2-4)
      by (cases p) (auto simp: reap_def try_read_token_def create_tokens_def has_token_def
          release_except_mine_def ignore_err_def Let_def split: if_splits)
  next
    assume "js_mytokens j = 1"
    then show ?thesis using assms(1-4)
      by (cases p) (auto simp: reap_def try_read_token_def create_tokens_def has_token_def release_except_mine_def
          release_def ignore_err_def proc_ok_def Let_def split: if_splits)
  qed
  show "proc_ok j1" "real_tokens j1 + int (pp_tokens p1) = real_tokens j + int (pp_tokens p) + 1"
    "pp_cheats p1 = 0" "js_toplevel j1 = js_toplevel j"
    using assms(1) m len wf r by (auto simp: proc_ok_def js_wf_def real_tokens_def)
qed

lemma spawn_effect:
  assumes "proc_ok j" "start True fd pid reason j = Inr j1" "fd \<notin> fst ` set (js_waitfds j)"
  shows "proc_ok j1" "real_tokens j1 = real_tokens j - 1" "js_toplevel j1 = js_toplevel j"
    "proc_ok (child_of j)" "real_tokens (child_of j) = 1"
proof -
  have f: "filter (\<lambda>(k, _). k \<noteq> fd) (js_waitfds j) = js_waitfds j"
    using assms(3) by (intro filter_True) force
  show "proc_ok j1" "real_tokens j1 = real_tokens j - 1" "js_toplevel j1 = js_toplevel j"
    "proc_ok (child_of j)" "real_tokens (child_of j) = 1"
    using assms f
    by (auto simp: proc_ok_def js_wf_def start_def has_token_def destroy_tokens_def real_tokens_def
        child_of_def js_init_def Let_def split: if_splits)
qed

lemma conf_ok_upd:
  assumes "conf_ok T (p, ps, z, es)" "ps q = Some j" "proc_ok j1" "js_toplevel j1 = js_toplevel j"
    "real_tokens j1 + int (pp_tokens p1) + int (length z1) = real_tokens j + int (pp_tokens p) + int (length z)"
    "pp_cheats p1 = 0"
  shows "conf_ok T (p1, ps(q \<mapsto> j1), z1, es)"
  using assms tokens_of_upd [of ps q j j1] by (auto simp: conf_ok_def)

lemma js_step_ok: "js_step c c1 \<Longrightarrow> conf_ok T c \<Longrightarrow> conf_ok T c1"
proof (induction rule: js_step.induct)
  case (give ps q j p j1 p1 z es)
  then have "proc_ok j" "pp_cheats p = 0" by (auto simp: conf_ok_def)
  from give_effect [OF this(1) give(2,3) this(2)] show ?case
    by (intro conf_ok_upd [OF give.prems give(1)]) simp_all
next
  case (take ps q j p left z es)
  then have "proc_ok j" "pp_cheats p = 0" by (auto simp: conf_ok_def)
  then show ?case using take(2,3)
    by (intro conf_ok_upd [OF take.prems take(1)])
      (auto simp: proc_ok_def js_wf_def has_token_def real_tokens_def try_read_token_def split: if_splits)
next
  case (cheat ps q j p z es)
  then have "proc_ok j" "pp_cheats p = 0" by (auto simp: conf_ok_def)
  then show ?case using cheat(2,3)
    by (intro conf_ok_upd [OF cheat.prems cheat(1)]) (auto simp: proc_ok_def js_wf_def real_tokens_def running_def)
next
  case (spawn ps q j fd pid reason j1 z p es)
  then have ok: "proc_ok j" "pp_cheats p = 0" by (auto simp: conf_ok_def)
  note e = spawn_effect [OF ok(1) spawn(2,5)]
  have fin: "finite (dom ps)" using spawn.prems by (simp add: conf_ok_def)
  have "tokens_of (ps(q \<mapsto> j1, pid \<mapsto> child_of j)) = tokens_of ps"
    using tokens_of_upd [OF fin spawn(1), of j1] tokens_of_new [of "ps(q \<mapsto> j1)" pid "child_of j"] fin spawn(1,3) e
    by (cases "pid = q") auto
  moreover have "pid \<noteq> 0" using spawn(3) spawn.prems by (cases "pid = 0") (auto simp: conf_ok_def)
  ultimately show ?case using spawn.prems spawn(1) e by (auto simp: conf_ok_def)
next
  case (reaped ps q j fd jb z sc p ev j1 p1 es)
  then have ok: "proc_ok j" "pp_cheats p = 0" by (auto simp: conf_ok_def)
  note e = reap_effect [OF ok(1) reaped(2,4) ok(2)]
  have "int (length (remove1 (j_pid jb) z)) = int (length z) - 1"
    using reaped(3) length_pos_if_in_set [OF reaped(3)] by (simp add: length_remove1 of_nat_diff Suc_leI)
  then show ?case using e by (intro conf_ok_upd [OF reaped.prems reaped(1)]) simp_all
next
  case (ends ps q j p z es)
  then have fin: "finite (dom ps)" by (simp add: conf_ok_def)
  have q: "q \<noteq> 0" using ends.prems ends(1,2) by (cases "q = 0") (auto simp: conf_ok_def)
  show ?case using ends.prems q tokens_of_del [OF fin ends(1)] by (auto simp: conf_ok_def surplus_def)
qed

lemma create_loop_0: "create_loop n (m, 0) = (m + int n, 0)"
  by (induction n arbitrary: m) auto

lemma release_loop_0: "release_loop n (m, 0, k) = (m - int n, 0, k + n)"
  by (induction n arbitrary: m k) auto

lemma setup_result:
  assumes "T > 0" "jobserver_setup fd_exists tf cf T vs (js_init, p0) = Inr (vs1, j, p)"
  shows "js_toplevel j = T" "js_mytokens j = 1" "js_cheats j = 0" "js_tokenfds j = Some tf" "js_waitfds j = []"
    "int (pp_tokens p) = T - 1" "pp_cheats p = 0" "vs1 ''MAKEFLAGS'' = Some (makeflags_for tf)"
proof -
  have "new_jobserver fd_exists tf cf T vs (js_init, p0) = Inr (vs1, j, p)"
    using assms by (auto simp: jobserver_setup_def js_init_def Let_def split: option.splits if_splits)
  then show "js_toplevel j = T" "js_mytokens j = 1" "js_cheats j = 0" "js_tokenfds j = Some tf" "js_waitfds j = []"
    "int (pp_tokens p) = T - 1" "pp_cheats p = 0" "vs1 ''MAKEFLAGS'' = Some (makeflags_for tf)"
    using assms(1)
    by (auto simp: new_jobserver_def setup_cheatfds_def js_init_def create_tokens_def create_loop_0 Let_def
        release_except_mine_def release_def release_loop_0 split: if_splits)
qed

lemma js_reach_ok: "js_reach T c \<Longrightarrow> conf_ok T c"
proof (induction rule: js_reach.induct)
  case (start fd_exists tf cf vs p0 vs1 j p)
  note r = setup_result [OF start]
  have "tokens_of [0 \<mapsto> j] = 1" by (simp add: tokens_of_def real_tokens_def r)
  then show ?case using start(1) r by (auto simp: conf_ok_def proc_ok_def js_wf_def surplus_def split: if_splits)
qed (rule js_step_ok)

subsection \<open>Properties\<close>

text \<open>No token is lost or made up by a process. Waiting for a token (with or without cheating),
  waiting for all jobs, and every release keep the balance: tokens held less tokens made by
  cheating, plus running jobs, plus the bytes of the token pipe less those of the cheat pipe.\<close>

theorem token_balance:
  assumes "js_wf j"
  shows "(\<forall>n cf scs ev scs1 ev1 st. ensure_token_or_cheat n cf scs (ev, j, p) = Some (scs1, ev1, st) \<longrightarrow> balance st = balance (j, p))
    \<and> (\<forall>scs ev ev1 st. wait_all_loop scs (ev, j, p) = Some (ev1, st) \<longrightarrow> balance st = balance (j, p) \<and> js_waitfds (fst st) = [])
    \<and> (\<forall>n st. release n (j, p) = Inr st \<longrightarrow> balance st = balance (j, p))
    \<and> (\<forall>fd pid nm j1. fd \<notin> fst ` set (js_waitfds j) \<longrightarrow> start True fd pid nm j = Inr j1 \<longrightarrow> balance (j1, p) = balance (j, p))"
proof (intro conjI allI impI)
  fix n cf scs ev scs1 ev1 st assume "ensure_token_or_cheat n cf scs (ev, j, p) = Some (scs1, ev1, st)"
  from ensure_token_or_cheat_balance [OF _ this] assms show "balance st = balance (j, p)" by simp
next
  fix scs ev ev1 st assume "wait_all_loop scs (ev, j, p) = Some (ev1, st)"
  from wait_all_loop_balance [OF _ this] assms
  show "balance st = balance (j, p)" "js_waitfds (fst st) = []" by simp_all
next
  fix n st assume "release n (j, p) = Inr st"
  then show "balance st = balance (j, p)" by (rule release_balance)
next
  fix fd pid nm j1 assume a: "fd \<notin> fst ` set (js_waitfds j)" "start True fd pid nm j = Inr j1"
  have "filter (\<lambda>(k, _). k \<noteq> fd) (js_waitfds j) = js_waitfds j" using a(1) by (intro filter_True) force
  then show "balance (j1, p) = balance (j, p)"
    using a(2) by (auto simp: start_def destroy_tokens_def balance_def Let_def split: if_splits)
qed

definition demo_root :: jst where
  "demo_root = (case jobserver_setup (\<lambda>_. True) (100, 101) (102, 103) 1 Map.empty
       (js_init, \<lparr>pp_tokens = 0, pp_cheats = 0\<rparr>) of Inl _ \<Rightarrow> (js_init, \<lparr>pp_tokens = 0, pp_cheats = 0\<rparr>) | Inr (_, st) \<Rightarrow> st)"

definition demo_sched :: "int list \<Rightarrow> sched" where
  "demo_sched fds = \<lparr>sc_ready = fds, sc_status = (\<lambda>_. Exited 0), sc_cheat_lost = (\<lambda>_. False), sc_token_lost = False\<rparr>"

theorem token_balance_witness:
  "\<exists>j1. start True 50 7 ''t'' (fst demo_root) = Inr j1 \<and> js_mytokens j1 = 0 \<and> balance (j1, snd demo_root) = 1"
proof -
  have "js_wf (fst demo_root)" "50 \<notin> fst ` set (js_waitfds (fst demo_root))"
    "balance (fst demo_root, snd demo_root) = 1" by code_simp+
  moreover have "\<not> isl (start True 50 7 ''t'' (fst demo_root))" by code_simp
  then obtain j1 where "start True 50 7 ''t'' (fst demo_root) = Inr j1"
    by (cases "start True 50 7 ''t'' (fst demo_root)") auto
  moreover have "map_sum id js_mytokens (start True 50 7 ''t'' (fst demo_root)) = Inr 0" by code_simp
  ultimately show ?thesis using token_balance [of "fst demo_root" "snd demo_root"] by (metis Inr_inject map_sum.simps(2))
qed


lemma demo_reach: "js_reach 1 (snd demo_root, [0 \<mapsto> fst demo_root], [], [])"
proof -
  let ?s = "jobserver_setup (\<lambda>_. True) (100, 101) (102, 103) 1 Map.empty (js_init, \<lparr>pp_tokens = 0, pp_cheats = 0\<rparr>)"
  have "\<not> isl ?s" by code_simp
  then obtain vs j p where s: "?s = Inr (vs, j, p)" by (cases ?s) auto
  then have d: "demo_root = (j, p)" by (simp add: demo_root_def)
  show ?thesis unfolding d fst_conv snd_conv by (rule js_reach.start [OF _ s]) simp
qed


text \<open>The accounting at the end of the top-level process succeeds: when all other processes have
  ended, each with its token and no cheat, and have been waited for, and no job is left, the check of
  \<open>wait_all\<close> that the tokens read back from the pipes equal the tokens created passes.\<close>

theorem accounting_passes:
  assumes "js_reach T (p, [0 \<mapsto> j], [], es)" "js_waitfds j = []" "\<forall>j \<in> set es. js_mytokens j = 1 \<and> js_cheats j = 0"
  shows "\<exists>st. wait_all [] (j, p) = Some (Inr ([], st)) \<and> int (pp_tokens (snd st)) = T"
proof -
  have "surplus es = 0" using assms(3) by (induction es) (auto simp: surplus_def real_tokens_def)
  moreover have "conf_ok T (p, [0 \<mapsto> j], [], es)" using assms(1) by (rule js_reach_ok)
  ultimately have j: "proc_ok j" "js_toplevel j = T" "T > 0" "real_tokens j + int (pp_tokens p) = T" "pp_cheats p = 0"
    by (auto simp: conf_ok_def tokens_of_def split: if_splits)
  have "js_mytokens j = 0 \<and> js_cheats j = 0 \<or> js_mytokens j = 1 \<and> (js_cheats j = 0 \<or> js_cheats j = 1)"
    using j(1) assms(2) by (auto simp: proc_ok_def)
  then show ?thesis
    using j assms(2)
    by (auto simp: wait_all_def running_def account_def release_mine_def release_def ignore_err_def Let_def
        proc_ok_def real_tokens_def)
qed

theorem accounting_passes_witness:
  "\<exists>st. wait_all [] demo_root = Some (Inr ([], st)) \<and> int (pp_tokens (snd st)) = 1"
proof -
  have "js_waitfds (fst demo_root) = []" by code_simp
  with demo_reach show ?thesis using accounting_passes [of 1 "snd demo_root" "fst demo_root" "[]"] by simp
qed

text \<open>A process started by another one finds its job server: \<open>parse_makeflags\<close> reads back the
  descriptors that \<open>setup\<close> put into \<open>MAKEFLAGS\<close>.\<close>

theorem makeflags_roundtrip:
  assumes "0 < a" "a < 2 ^ 31" "0 < b" "b < 2 ^ 31"
  shows "parse_makeflags (vs(''MAKEFLAGS'' \<mapsto> makeflags_for (a, b))) = Some (a, b)"
proof -
  let ?r = "show_fd_pair (a, b) @ '' --jobserver-fds='' @ show_fd_pair (a, b) @ '' ''"
  have "find_sub '' --jobserver-auth='' ('' '' @ makeflags_for (a, b) @ '' '') = Some (''  -j'', ?r)"
    by (simp add: makeflags_for_def)
  moreover have "CHR '' '' \<notin> set (show_fd_pair (a, b))"
    using show_int_chars [of "CHR '' ''" a] show_int_chars [of "CHR '' ''" b]
    by (auto simp: show_fd_pair_def is_digit_chars)
  then have "hd (split_on (CHR '' '') ?r) = show_fd_pair (a, b)"
    by (simp add: split_on_append_sep split_on_id)
  moreover have "CHR '','' \<notin> set (show_int i)" for i
    using show_int_chars [of "CHR '',''" i] by (auto simp: is_digit_chars)
  then have "split_on (CHR '','') (show_fd_pair (a, b)) = [show_int a, show_int b]"
    by (simp add: show_fd_pair_def split_on_append_sep split_on_id)
  moreover have "parse_sint 32 (show_int a) = Some a" "parse_sint 32 (show_int b) = Some b"
    using assms by (auto intro!: parse_sint_show)
  ultimately show ?thesis using assms by (simp add: parse_makeflags_def var_or_def parse_fd_pair_def Let_def)
qed

theorem makeflags_roundtrip_witness:
  "parse_makeflags [''MAKEFLAGS'' \<mapsto> makeflags_for (100, 101)] = Some (100, 101)"
  using makeflags_roundtrip [of 100 101 Map.empty] by simp

subsection \<open>A cheat that is not returned\<close>

text \<open>
  No caller of the job server uses \<open>force_return_tokens\<close>. The run below shows what that means with \<open>-j1\<close>: the
  process of job 7 gives its token back while it waits, the top-level process starts job 8 with it,
  and process 7 cheats to go on. If process 7 ends without returning its cheat, the top level makes
  one token too many and the final accounting fails; if it calls \<open>force_return_tokens\<close>, the accounting
  passes.
\<close>

definition cheat_run :: "bool \<Rightarrow> (event list \<times> jst) res option" where
  "cheat_run return_tokens =
     (let p0 = snd demo_root;
          j1 = (case start True 50 7 ''a'' (fst demo_root) of Inl _ \<Rightarrow> js_init | Inr j \<Rightarrow> j);
          (c1, p1) = ignore_err (release_mine (child_of (fst demo_root), p0)) (js_init, p0)
      in case ensure_token False [demo_sched []] ([], j1, p1) of
           None \<Rightarrow> None
         | Some (_, _, j2, p2) \<Rightarrow>
             (case ensure_token_or_cheat 3 (\<lambda>_. 1) [demo_sched []] ([], c1, p2) of
                None \<Rightarrow> None
              | Some (_, _, c2, p3) \<Rightarrow>
                  let p4 = (if return_tokens then snd (ignore_err (force_return_tokens (c2, p3)) (c2, p3)) else p3);
                      j3 = (case start True 51 8 ''b'' j2 of Inl _ \<Rightarrow> js_init | Inr j \<Rightarrow> j)
                  in wait_all [demo_sched [50, 51]] (j3, p4)))"

text \<open>Returning tokens matters: in the run above the final accounting fails when the process that
  cheated ends without \<open>force_return_tokens\<close> (as all callers do), and passes when it calls it.\<close>

theorem unreturned_cheat_fails_accounting:
  "cheat_run False = Some (Inl (Msg ''token accounting mismatch on exit'')) \<and>
   (\<exists>st. cheat_run True = Some (Inr ([(''b'', 0), (''a'', 0)], st)))"
proof
  have "map_option (map_sum id fst) (cheat_run False) = Some (Inl (Msg ''token accounting mismatch on exit''))"
    by code_simp
  then show "cheat_run False = Some (Inl (Msg ''token accounting mismatch on exit''))"
    by (cases "cheat_run False"; cases "the (cheat_run False)") auto
  have "map_option (map_sum id fst) (cheat_run True) = Some (Inr [(''b'', 0), (''a'', 0)])" by code_simp
  then show "\<exists>st. cheat_run True = Some (Inr ([(''b'', 0), (''a'', 0)], st))"
    by (cases "cheat_run True"; cases "the (cheat_run True)") auto
qed

end
