(* ===== verification/Http.thy ===== *)
theory Http
  imports Prelude "HOL-Library.Sublist"
begin

text \<open>
  The wire formats shared by the remote cache client (\<open>redo_core/src/remote_cache.rs\<close>) and the cache
  server (\<open>bins/src/redo_cache_server.rs\<close>): HTTP requests and responses, and the small JSON extractors.
  A connection is the string of bytes that arrives on it; \<open>read_line\<close> and \<open>read_exact\<close> are those of
  \<open>std::io\<close>, with an early end of the stream as the only failure.
\<close>

abbreviation CRLF :: string where "CRLF \<equiv> [CHR 0x0D, CHR 0x0A]"

subsection \<open>Lines and headers\<close>

fun read_line :: "string \<Rightarrow> string \<times> string" where
  "read_line [] = ([], [])"
| "read_line (c # s) =
     (if c = CHR 0x0A then ([c], s) else (case read_line s of (l, r) \<Rightarrow> (c # l, r)))"

lemma read_line_length: "read_line s = (l, r) \<Longrightarrow> length l + length r = length s \<and> (s \<noteq> [] \<longrightarrow> l \<noteq> [])"
  by (induction s arbitrary: l) (auto split: if_splits prod.splits)

definition ascii_lower :: "char \<Rightarrow> char" where
  "ascii_lower c =
     (if 65 \<le> (of_char c :: nat) \<and> (of_char c :: nat) \<le> 90 then char_of (of_char c + 32 :: nat) else c)"

definition to_ascii_lowercase :: "string \<Rightarrow> string" where
  "to_ascii_lowercase s = map ascii_lower s"

type_synonym headers = "string \<rightharpoonup> string"

definition add_header :: "string \<Rightarrow> headers \<Rightarrow> headers" where
  "add_header line h =
     (case split_once (CHR '':'') line of
        None \<Rightarrow> h
      | Some (k, v) \<Rightarrow> h(to_ascii_lowercase (trim k) \<mapsto> trim v))"

function read_headers :: "headers \<Rightarrow> string \<Rightarrow> headers \<times> string" where
  "read_headers h s =
     (let (line, rest) = read_line s in
      if line = [] \<or> line = CRLF then (h, rest) else read_headers (add_header line h) rest)"
  by pat_completeness auto
termination
proof (relation "measure (\<lambda>(h, s). length s)")
  fix h s x line rest
  assume a: "x = read_line s" "(line, rest) = x" "\<not> (line = [] \<or> line = CRLF)"
  then have "read_line s = (line, rest)" by simp
  from read_line_length [OF this] a(3) show "((add_header line h, rest), h, s) \<in> measure (\<lambda>(h, s). length s)"
    by (cases line) auto
qed simp

declare read_headers.simps [simp del]

subsection \<open>Requests and responses\<close>

record http_response =
  hr_status :: nat
  hr_body :: string

definition second_word :: "string \<Rightarrow> string \<Rightarrow> string" where
  "second_word d line = (case split_ws line of _ # w # _ \<Rightarrow> w | _ \<Rightarrow> d)"

definition read_http_response :: "string \<Rightarrow> http_response res" where
  "read_http_response s =
     (let (status_line, r1) = read_line s;
          status = unwrap_or (parse_uint 16 (second_word ''0'' status_line)) 0;
          (h, r2) = read_headers Map.empty r1
      in case Option.bind (h ''content-length'') (parse_uint 64) of
           Some n \<Rightarrow> if n \<le> length r2 then Inr \<lparr>hr_status = status, hr_body = take n r2\<rparr>
                     else Inl (IoError ''unexpected end of file'')
         | None \<Rightarrow> Inr \<lparr>hr_status = status, hr_body = r2\<rparr>)"

definition header_line :: "string \<times> string \<Rightarrow> string" where
  "header_line kv = fst kv @ '': '' @ snd kv @ CRLF"

definition write_http_request ::
  "string \<Rightarrow> string \<Rightarrow> string \<Rightarrow> (string \<times> string) list \<Rightarrow> string option \<Rightarrow> string" where
  "write_http_request method host path hs body =
     method @ '' '' @ path @ '' HTTP/1.1'' @ CRLF @
     header_line (''Host'', host) @ header_line (''Connection'', ''close'') @
     (case body of None \<Rightarrow> [] | Some b \<Rightarrow> header_line (''Content-Length'', show_nat (length b))) @
     concat (map header_line hs) @ CRLF @ unwrap_or body []"

definition write_status :: "nat \<Rightarrow> string \<Rightarrow> string \<Rightarrow> string \<Rightarrow> string" where
  "write_status code reason body ctype =
     ''HTTP/1.1 '' @ show_nat code @ '' '' @ reason @ CRLF @
     header_line (''Content-Length'', show_nat (length body)) @ header_line (''Content-Type'', ctype) @
     header_line (''Connection'', ''close'') @ CRLF @ body"

definition write_json :: "nat \<Rightarrow> string \<Rightarrow> string \<Rightarrow> string" where
  "write_json code reason body = write_status code reason body ''application/json''"

definition write_text :: "nat \<Rightarrow> string \<Rightarrow> string \<Rightarrow> string" where
  "write_text code reason body = write_status code reason body ''text/plain''"

subsection \<open>JSON\<close>

definition quoted :: "string \<Rightarrow> string" where
  "quoted s = ''\"'' @ s @ ''\"''"

definition json_get_string :: "string \<Rightarrow> string \<Rightarrow> string option" where
  "json_get_string body key =
     Option.bind (find_sub (quoted key) body) (\<lambda>(_, rest).
     Option.bind (split_once (CHR '':'') rest) (\<lambda>(_, rest1).
     Option.bind (strip_prefix ''\"'' (trim_start rest1)) (\<lambda>rest2.
     map_option fst (split_once (CHR ''\"'') rest2))))"

definition json_get_u64 :: "string \<Rightarrow> string \<Rightarrow> nat option" where
  "json_get_u64 body key =
     Option.bind (find_sub (quoted key) body) (\<lambda>(_, rest).
     Option.bind (split_once (CHR '':'') rest) (\<lambda>(_, rest1).
     let ds = takeWhile is_digit (trim_start rest1) in
     if ds = [] then None else parse_uint 64 ds))"

definition is_ascii_hexdigit :: "char \<Rightarrow> bool" where
  "is_ascii_hexdigit c \<longleftrightarrow> is_digit c \<or> (65 \<le> (of_char c :: nat) \<and> (of_char c :: nat) \<le> 70)
     \<or> (97 \<le> (of_char c :: nat) \<and> (of_char c :: nat) \<le> 102)"

definition is_hex :: "string \<Rightarrow> bool" where
  "is_hex s \<longleftrightarrow> s \<noteq> [] \<and> list_all is_ascii_hexdigit s"

subsection \<open>Lemmas\<close>

lemma read_line_append: "CHR 0x0A \<notin> set l \<Longrightarrow> read_line (l @ CHR 0x0A # r) = (l @ [CHR 0x0A], r)"
  by (induction l) auto

text \<open>A text without line breaks, as every header value the code writes.\<close>

definition one_line :: "string \<Rightarrow> bool" where
  "one_line s \<longleftrightarrow> CHR 0x0A \<notin> set s"

lemma one_line_simps [simp]:
  "one_line []" "one_line (c # s) \<longleftrightarrow> c \<noteq> CHR 0x0A \<and> one_line s" "one_line (a @ b) \<longleftrightarrow> one_line a \<and> one_line b"
  by (auto simp: one_line_def)

lemma one_line_show_nat [simp]: "one_line (show_nat n)"
  unfolding one_line_def by (rule show_nat_notin) (simp add: is_digit_def)

lemma read_headers_end [simp]: "read_headers h (CRLF @ r) = (h, r)"
  by (subst read_headers.simps) simp

lemma trim_value: "trim (CHR '' '' # v @ CRLF) = trim v"
proof -
  have e: "trim_end (x @ CRLF) = trim_end x" for x by (simp add: trim_end_def is_ws_def)
  have s: "trim_start (v @ CRLF) = (if trim_start v = [] then [] else trim_start v @ CRLF)"
    by (induction v) (auto simp: trim_start_def is_ws_def)
  have "trim_start (CHR '' '' # v @ CRLF) = trim_start (v @ CRLF)" by (simp add: trim_start_def is_ws_def)
  then show ?thesis using s e [of "trim_start v"] by (simp add: trim_def)
qed

lemma read_headers_line:
  assumes "one_line k" "one_line v" "CHR '':'' \<notin> set k" "k \<noteq> []" "k \<noteq> [CHR 0x0D]"
  shows "read_headers h (header_line (k, v) @ r) =
     read_headers (h(to_ascii_lowercase (trim k) \<mapsto> trim v)) r"
proof -
  let ?l = "k @ '': '' @ v @ [CHR 0x0D]"
  have "read_line (?l @ CHR 0x0A # r) = (?l @ [CHR 0x0A], r)"
    using assms(1,2) by (intro read_line_append) (auto simp: one_line_def)
  then have rl: "read_line (header_line (k, v) @ r) = (k @ CHR '':'' # (CHR '' '' # v @ CRLF), r)"
    by (simp add: header_line_def)
  have "split_once (CHR '':'') (k @ CHR '':'' # (CHR '' '' # v @ CRLF)) = Some (k, CHR '' '' # v @ CRLF)"
    using assms(3) by (rule split_once_append)
  then have "add_header (k @ CHR '':'' # (CHR '' '' # v @ CRLF)) h = h(to_ascii_lowercase (trim k) \<mapsto> trim v)"
    unfolding add_header_def by (simp add: trim_value)
  moreover have "k @ CHR '':'' # (CHR '' '' # v @ CRLF) \<noteq> CRLF" using assms(4) by (cases k) auto
  ultimately show ?thesis
    by (subst read_headers.simps) (simp add: rl)
qed

lemma trim_digits [simp]: "trim (show_nat n) = show_nat n"
  using show_nat_digits [of n] is_digit_not_ws by (intro trim_id) (auto simp: list_all_iff)

lemma split_ws_aux_ws: "is_ws c \<Longrightarrow> w \<noteq> [] \<Longrightarrow> split_ws_aux w (c # s) = rev w # split_ws_aux [] s"
  by simp

lemma split_ws_cons:
  assumes "w \<noteq> []" "\<forall>c \<in> set w. \<not> is_ws c" "is_ws c"
  shows "split_ws (w @ c # s) = w # split_ws s"
  using split_ws_aux_word [OF assms(2), of "[]"] assms(1,3) by (simp add: split_ws_def)

lemma is_ws_chars [simp]: "is_ws (CHR '' '')" "is_ws (CHR 0x0D)" "is_ws (CHR 0x0A)"
  by (simp_all add: is_ws_def)

lemma hex_not: 
  "is_ascii_hexdigit c \<Longrightarrow> \<not> is_ws c" "is_ascii_hexdigit c \<Longrightarrow> c \<noteq> CHR ''\"''" "is_ascii_hexdigit c \<Longrightarrow> c \<noteq> CHR ''/''"
  "is_ascii_hexdigit c \<Longrightarrow> c \<noteq> CHR 0x0A" "is_ascii_hexdigit c \<Longrightarrow> c \<noteq> CHR ''.''"
  by (auto simp: is_ascii_hexdigit_def is_digit_def is_ws_def)

lemma read_http_response_eq:
  assumes "read_line s = (l, r1)" "second_word ''0'' l = w" "read_headers Map.empty r1 = (h, body)"
    "parse_uint 16 w = Some code" "h ''content-length'' = Some (show_nat (length body))" "length body < 2 ^ 64"
  shows "read_http_response s = Inr \<lparr>hr_status = code, hr_body = body\<rparr>"
  unfolding read_http_response_def using assms by (simp add: parse_uint_show)

lemma status_line_read:
  assumes "one_line reason"
  obtains sl where "read_line (write_status code reason body ctype) =
      (sl, header_line (''Content-Length'', show_nat (length body)) @ header_line (''Content-Type'', ctype) @
        header_line (''Connection'', ''close'') @ CRLF @ body)"
    "second_word ''0'' sl = show_nat code"
proof -
  let ?hs = "header_line (''Content-Length'', show_nat (length body)) @ header_line (''Content-Type'', ctype) @
     header_line (''Connection'', ''close'') @ CRLF @ body"
  let ?sl = "''HTTP/1.1 '' @ show_nat code @ '' '' @ reason @ [CHR 0x0D]"
  have "read_line (?sl @ CHR 0x0A # ?hs) = (?sl @ [CHR 0x0A], ?hs)"
    using assms show_nat_notin [of "CHR 0x0A" code] by (intro read_line_append) (auto simp: one_line_def is_digit_def)
  then have rl: "read_line (write_status code reason body ctype) = (?sl @ [CHR 0x0A], ?hs)"
    by (simp add: write_status_def)
  have ws: "\<forall>c \<in> set (show_nat code). \<not> is_ws c"
    using show_nat_digits [of code] is_digit_not_ws by (auto simp: list_all_iff)
  have "split_ws (''HTTP/1.1'' @ CHR '' '' # (show_nat code @ CHR '' '' # reason @ CRLF)) =
      ''HTTP/1.1'' # show_nat code # split_ws (reason @ CRLF)"
    using split_ws_cons [of "''HTTP/1.1''" "CHR '' ''"] split_ws_cons [OF show_nat_not_Nil ws, of "CHR '' ''"]
    by (simp add: is_ws_def)
  then have "second_word ''0'' (?sl @ [CHR 0x0A]) = show_nat code" by (simp add: second_word_def)
  with rl show thesis by (rule that)
qed

lemma response_header_names:
  "to_ascii_lowercase (trim ''Content-Length'') = ''content-length''"
  "to_ascii_lowercase (trim ''Content-Type'') = ''content-type''"
  "to_ascii_lowercase (trim ''Connection'') = ''connection''"
  by code_simp+

lemma read_write_status:
  assumes "code < 2 ^ 16" "one_line reason" "one_line ctype" "length body < 2 ^ 64"
  shows "read_http_response (write_status code reason body ctype) = Inr \<lparr>hr_status = code, hr_body = body\<rparr>"
proof -
  let ?hs = "header_line (''Content-Length'', show_nat (length body)) @ header_line (''Content-Type'', ctype) @
     header_line (''Connection'', ''close'') @ CRLF @ body"
  obtain sl where rl: "read_line (write_status code reason body ctype) = (sl, ?hs)" and st: "second_word ''0'' sl = show_nat code"
    using assms(2) by (rule status_line_read)
  have h: "read_headers Map.empty ?hs =
      ([''content-length'' \<mapsto> show_nat (length body), ''content-type'' \<mapsto> trim ctype, ''connection'' \<mapsto> trim ''close''], body)"
    using assms(3) response_header_names read_headers_end by (simp add: read_headers_line del: append_Cons append.simps)
  show ?thesis
    using assms(1,4) by (intro read_http_response_eq [OF rl st h]) (simp_all add: parse_uint_show)
qed

end
