(* ===== verification/Blob_Store.thy ===== *)
theory Blob_Store
  imports Paths Http
begin

text \<open>
  Content-addressed storage: the contract shared by the cache server's blob directory
  (\<open>bins/src/redo_cache_server.rs\<close>) and the local action cache (\<open>redo_core/src/action_cache.rs\<close>), and the
  path arithmetic of their directory layout. The files of a directory tree are a map from paths to
  contents; SHA-256 is a parameter \<open>sha\<close>.
\<close>

type_synonym files = "string \<rightharpoonup> string"

definition is_key :: "string \<Rightarrow> bool" where
  "is_key k \<longleftrightarrow> length k = 64 \<and> is_hex k"

text \<open>\<open>bucket_dir\<close>: the first two characters of a key choose the directory.\<close>

definition bucket :: "string \<Rightarrow> string" where
  "bucket key = (if length key \<ge> 2 then take 2 key else ''00'')"

definition bucket_dir :: "string \<Rightarrow> string \<Rightarrow> string \<Rightarrow> string" where
  "bucket_dir root kind key = path_join (path_join root kind) (bucket key)"

definition key_path :: "string \<Rightarrow> string \<Rightarrow> string \<Rightarrow> string" where
  "key_path root kind key = path_join (bucket_dir root kind key) key"

subsection \<open>Different keys, different files\<close>

definition root_prefix :: "string \<Rightarrow> string" where
  "root_prefix root = (if root = [] \<or> last root = CHR ''/'' then root else root @ ''/'')"

lemma path_join_relative: "\<not> is_absolute p \<Longrightarrow> path_join b p = root_prefix b @ p"
  by (simp add: path_join_def root_prefix_def)

lemma key_not_absolute: "is_hex k \<Longrightarrow> \<not> is_absolute k"
  using hex_not(3) by (cases k) (auto simp: is_hex_def is_absolute_def)

lemma hex_last: "is_hex k \<Longrightarrow> last k \<noteq> CHR ''/''"
  using hex_not(3) by (auto simp: is_hex_def list_all_iff)

lemma bucket_key: "is_key k \<Longrightarrow> bucket k = take 2 k"
  by (simp add: is_key_def bucket_def)

lemma is_hex_take: "is_hex k \<Longrightarrow> 0 < n \<Longrightarrow> is_hex (take n k)"
  by (auto simp: is_hex_def list_all_iff dest: in_set_takeD)

definition kind_ok :: "string \<Rightarrow> bool" where
  "kind_ok kind \<longleftrightarrow> kind \<noteq> [] \<and> hd kind \<noteq> CHR ''/'' \<and> last kind \<noteq> CHR ''/''"

lemma bucket_dir_eq:
  assumes "is_key k" "kind_ok kind"
  shows "bucket_dir root kind k = root_prefix root @ kind @ ''/'' @ take 2 k"
proof -
  have "\<not> is_absolute kind" using assms(2) by (cases kind) (auto simp: kind_ok_def is_absolute_def)
  then have r: "path_join root kind = root_prefix root @ kind" by (rule path_join_relative)
  have "\<not> is_absolute (take 2 k)"
    using assms(1) by (intro key_not_absolute is_hex_take) (auto simp: is_key_def)
  then show ?thesis
    using assms by (simp add: bucket_dir_def bucket_key path_join_relative r root_prefix_def [of "root_prefix root @ kind"] kind_ok_def)
qed

lemma in_bucket_eq:
  assumes "is_key k" "kind_ok kind" "\<not> is_absolute n"
  shows "path_join (bucket_dir root kind k) n = root_prefix root @ kind @ ''/'' @ take 2 k @ ''/'' @ n"
proof -
  have "is_hex (take 2 k)" using assms(1) by (intro is_hex_take) (auto simp: is_key_def)
  then have "last (take 2 k) \<noteq> CHR ''/''" "take 2 k \<noteq> []" by (auto simp: hex_last) (simp add: is_hex_def)
  then show ?thesis
    using assms(3) by (simp add: path_join_relative bucket_dir_eq [OF assms(1,2)] root_prefix_def [of "root_prefix root @ _"])
qed

lemma key_path_eq:
  "is_key k \<Longrightarrow> kind_ok kind \<Longrightarrow> key_path root kind k = root_prefix root @ kind @ ''/'' @ take 2 k @ ''/'' @ k"
  by (simp add: key_path_def in_bucket_eq key_not_absolute is_key_def)

lemma key_path_inject:
  assumes "is_key k" "is_key k'" "kind_ok kind" "key_path root kind k = key_path root kind k'"
  shows "k = k'"
proof -
  have "take 2 k @ ''/'' @ k = take 2 k' @ ''/'' @ k'" using assms by (simp add: key_path_eq)
  moreover have "length (take 2 k @ ''/'') = length (take 2 k' @ ''/'')" using assms(1,2) by (simp add: is_key_def)
  ultimately have "(take 2 k @ ''/'') @ k = (take 2 k' @ ''/'') @ k'" by simp
  then show ?thesis using \<open>length (take 2 k @ ''/'') = _\<close> by (metis append_eq_append_conv)
qed

text \<open>Temporary files have names that start with a dot, which no key does.\<close>

lemma key_path_dot:
  assumes "is_key k" "is_key k'" "kind_ok kind" "n = CHR ''.'' # n'"
  shows "key_path root kind k \<noteq> path_join (bucket_dir root kind k') n"
proof
  assume "key_path root kind k = path_join (bucket_dir root kind k') n"
  moreover have "\<not> is_absolute n" using assms(4) by (simp add: is_absolute_def)
  ultimately have "(take 2 k @ ''/'') @ k = (take 2 k' @ ''/'') @ n"
    using assms by (simp add: key_path_eq in_bucket_eq)
  moreover have "length (take 2 k @ ''/'') = length (take 2 k' @ ''/'')" using assms(1,2) by (simp add: is_key_def)
  ultimately have "k = n" by (metis append_eq_append_conv)
  then show False using assms(1,4) hex_not(5) by (auto simp: is_key_def is_hex_def)
qed

subsection \<open>The contract\<close>

locale blob_store =
  fixes sha :: "string \<Rightarrow> string" and look :: "'s \<Rightarrow> string \<Rightarrow> string option"
    and stash :: "string \<Rightarrow> 's \<Rightarrow> 's" and ok :: "'s \<Rightarrow> bool"
  assumes stash_ok: "ok s \<Longrightarrow> ok (stash b s)"
    and look_ok: "ok s \<Longrightarrow> is_key k \<Longrightarrow> look s k = Some b \<Longrightarrow> sha b = k"
    and look_stash: "is_key (sha b) \<Longrightarrow> look (stash b s) (sha b) \<noteq> None"
    and stash_keeps: "is_key k \<Longrightarrow> look s k = Some c \<Longrightarrow> look (stash b s) k = Some c"
begin

lemma stashes_ok: "ok s \<Longrightarrow> ok (fold stash bs s)"
  by (induction bs arbitrary: s) (auto simp: stash_ok)

lemma stashes_keep: "is_key k \<Longrightarrow> look s k = Some c \<Longrightarrow> look (fold stash bs s) k = Some c"
  by (induction bs arbitrary: s) (auto simp: stash_keeps)

text \<open>Everything ever stored can be fetched by its digest, and what is fetched has that digest.\<close>

lemma fetch_stashed:
  assumes "ok s" "b \<in> set bs" "is_key (sha b)"
  shows "\<exists>c. look (fold stash bs s) (sha b) = Some c \<and> sha c = sha b"
proof -
  obtain xs ys where bs: "bs = xs @ b # ys" using assms(2) by (meson split_list)
  obtain c where "look (stash b (fold stash xs s)) (sha b) = Some c"
    using look_stash [OF assms(3)] by fastforce
  then have "look (fold stash bs s) (sha b) = Some c"
    using stashes_keep [OF assms(3), of _ c ys] by (simp add: bs)
  moreover from this have "sha c = sha b" using look_ok [OF stashes_ok [OF assms(1)] assms(3)] by blast
  ultimately show ?thesis by blast
qed

lemma fetch_stashed_same:
  assumes "ok s" "b \<in> set bs" "is_key (sha b)" "\<And>c. sha c = sha b \<Longrightarrow> c = b"
  shows "look (fold stash bs s) (sha b) = Some b"
  using fetch_stashed [OF assms(1-3)] assms(4) by blast

end

end
