(* ===== verification/Cache_Server.thy ===== *)
theory Cache_Server
  imports Blob_Store
begin

text \<open>
  The cache server (\<open>bins/src/redo_cache_server.rs\<close>): storage of blobs and action mappings, the request
  handlers, remote execution, and the dispatch of a connection.

  A connection is the string of bytes received; a handler returns the bytes it answers and the files
  of the server afterwards. \<open>sha\<close> is SHA-256, \<open>uniq\<close> the process id and counter that name temporary
  files. Failing disk operations are not modelled; a connection that ends early is.
\<close>

record server_config =
  cs_root :: string
  cs_read_only :: bool
  cs_require_bearer :: "string option"
  cs_enable_exec :: bool

definition parse_listen :: "string \<Rightarrow> string" where
  "parse_listen s =
     (let s = trim s in
      if s = [] then ''127.0.0.1:0''
      else if starts_with '':'' s then ''127.0.0.1'' @ s
      else s)"

definition url_for_addr :: "string \<Rightarrow> string \<Rightarrow> nat \<Rightarrow> string" where
  "url_for_addr bind_addr ip port =
     (let host = (if starts_with ''0.0.0.0:'' bind_addr \<or> starts_with ''::'' bind_addr then ''127.0.0.1''
                  else if starts_with '':'' bind_addr then ''127.0.0.1'' else ip)
      in ''http://'' @ host @ '':'' @ show_nat port)"

text \<open>The command line of \<open>main\<close>: \<open>None\<close> is the exit after \<open>--help\<close>.\<close>

record server_args =
  sa_listen :: string
  sa_root :: "string option"
  sa_read_only :: bool
  sa_require_bearer :: "string option"
  sa_write_url_file :: "string option"
  sa_enable_exec :: bool

definition next_arg :: "string list \<Rightarrow> string" where
  "next_arg as = (case as of a # _ \<Rightarrow> a | [] \<Rightarrow> [])"

function parse_server_args :: "string list \<Rightarrow> server_args \<Rightarrow> server_args option" where
  "parse_server_args [] sa = Some sa"
| "parse_server_args (a # as) sa =
     (if a = ''--listen'' then parse_server_args (tl as) (sa\<lparr>sa_listen := parse_listen (next_arg as)\<rparr>)
      else if a = ''--root'' then parse_server_args (tl as) (sa\<lparr>sa_root := Some (next_arg as)\<rparr>)
      else if a = ''--read-only'' then parse_server_args as (sa\<lparr>sa_read_only := True\<rparr>)
      else if a = ''--require-bearer'' then parse_server_args (tl as) (sa\<lparr>sa_require_bearer := Some (next_arg as)\<rparr>)
      else if a = ''--write-url-file'' then parse_server_args (tl as) (sa\<lparr>sa_write_url_file := Some (next_arg as)\<rparr>)
      else if a = ''--enable-exec'' then parse_server_args as (sa\<lparr>sa_enable_exec := True\<rparr>)
      else if a = ''--help'' \<or> a = ''-h'' then None
      else parse_server_args as sa)"
  by pat_completeness auto
termination by (relation "measure (\<lambda>(as, sa). length as)") auto

definition server_config_of :: "string list \<Rightarrow> server_config res" where
  "server_config_of as =
     (case parse_server_args as \<lparr>sa_listen = ''127.0.0.1:0'', sa_root = None, sa_read_only = False,
             sa_require_bearer = None, sa_write_url_file = None, sa_enable_exec = False\<rparr> of
        None \<Rightarrow> Inl (Exit 0)
      | Some sa \<Rightarrow>
          (case sa_root sa of
             None \<Rightarrow> Inl (Exit 2)
           | Some r \<Rightarrow> Inr \<lparr>cs_root = r, cs_read_only = sa_read_only sa,
                           cs_require_bearer = sa_require_bearer sa, cs_enable_exec = sa_enable_exec sa\<rparr>))"

subsection \<open>Storage\<close>

definition blob_path :: "string \<Rightarrow> string \<Rightarrow> string" where
  "blob_path root k = key_path root ''blobs'' k"

definition action_path :: "string \<Rightarrow> string \<Rightarrow> string" where
  "action_path root k = key_path root ''actions'' k"

definition tmp_name :: "string \<Rightarrow> string \<Rightarrow> string" where
  "tmp_name key uniq = ''.'' @ key @ ''.'' @ uniq @ ''.tmp''"

definition rename_file :: "string \<Rightarrow> string \<Rightarrow> files \<Rightarrow> files" where
  "rename_file a b fs = (fs(b := fs a))(a := None)"

definition store_blob_bytes_known :: "(string \<Rightarrow> string) \<Rightarrow> string \<Rightarrow> string \<Rightarrow> string \<Rightarrow> string \<Rightarrow> files \<Rightarrow> files res" where
  "store_blob_bytes_known sha root key bytes uniq fs =
     (if sha bytes \<noteq> key then Inl (Msg ''digest_mismatch'')
      else let dest = blob_path root key;
               tmp = path_join (bucket_dir root ''blobs'' key) (tmp_name key uniq)
           in if fs dest \<noteq> None then Inr fs
              else Inr (rename_file tmp dest (fs(tmp \<mapsto> bytes))))"

definition store_blob_bytes :: "(string \<Rightarrow> string) \<Rightarrow> string \<Rightarrow> string \<Rightarrow> string \<Rightarrow> files \<Rightarrow> (string \<times> files) res" where
  "store_blob_bytes sha root bytes uniq fs =
     rbind (store_blob_bytes_known sha root (sha bytes) bytes uniq fs) (\<lambda>fs1. Inr (sha bytes, fs1))"

definition store_blob_from_file_compute ::
  "(string \<Rightarrow> string) \<Rightarrow> string \<Rightarrow> string \<Rightarrow> string \<Rightarrow> files \<Rightarrow> (string \<times> nat) \<times> files" where
  "store_blob_from_file_compute sha root content uniq fs =
     (let tmp = path_join (path_join root ''blobs'') (''.tmp.'' @ uniq);
          hex = sha content;
          fs1 = fs(tmp \<mapsto> content);
          dest = blob_path root hex
      in ((hex, length content),
          if fs1 dest \<noteq> None then fs1(tmp := None) else rename_file tmp dest fs1))"

subsection \<open>Handlers\<close>

definition auth_ok :: "headers \<Rightarrow> string option \<Rightarrow> bool" where
  "auth_ok h want =
     (case want of
        None \<Rightarrow> True
      | Some tok \<Rightarrow> trim (unwrap_or (h ''authorization'') []) = ''Bearer '' @ tok)"

definition nl :: string where "nl = [CHR 0x0A]"

definition handle_get_blob :: "server_config \<Rightarrow> string \<Rightarrow> files \<Rightarrow> string" where
  "handle_get_blob cfg key fs =
     (case fs (blob_path (cs_root cfg) key) of
        None \<Rightarrow> write_text 404 ''Not Found'' (''not_found'' @ nl)
      | Some b \<Rightarrow> write_status 200 ''OK'' b ''application/octet-stream'')"

definition handle_put_blob ::
  "(string \<Rightarrow> string) \<Rightarrow> server_config \<Rightarrow> string \<Rightarrow> string \<Rightarrow> string \<Rightarrow> nat \<Rightarrow> files \<Rightarrow> string \<times> files" where
  "handle_put_blob sha cfg uniq stream key clen fs =
     (let dest = blob_path (cs_root cfg) key;
          tmp = path_join (bucket_dir (cs_root cfg) ''blobs'' key) (tmp_name key uniq);
          bytes = take clen stream;
          fs1 = fs(tmp \<mapsto> bytes)
      in if sha bytes \<noteq> key then (write_text 400 ''Bad Request'' (''digest_mismatch'' @ nl), fs1(tmp := None))
         else if fs1 dest \<noteq> None then (write_text 200 ''OK'' (''ok'' @ nl), fs1(tmp := None))
         else (write_text 200 ''OK'' (''ok'' @ nl), rename_file tmp dest fs1))"

definition first_line :: "string \<Rightarrow> string" where
  "first_line s = trim (case str_lines s of [] \<Rightarrow> [] | l # _ \<Rightarrow> l)"

definition action_body :: "string \<Rightarrow> string" where
  "action_body man =
     ''{\"schema\":\"redo-action-result:v1\",\"manifest_sha256\":\"'' @ man @ ''\"}''"

definition handle_get_action :: "server_config \<Rightarrow> string \<Rightarrow> files \<Rightarrow> string" where
  "handle_get_action cfg key fs =
     (case fs (action_path (cs_root cfg) key) of
        None \<Rightarrow> write_text 404 ''Not Found'' (''not_found'' @ nl)
      | Some s \<Rightarrow>
          let man = first_line s in
          if man = [] \<or> \<not> is_hex man then write_text 500 ''Internal Server Error'' (''bad_mapping'' @ nl)
          else write_json 200 ''OK'' (action_body man))"

text \<open>The manifest digest of a request or a response, under any of the three accepted names.\<close>

definition manifest_of :: "string \<Rightarrow> string option" where
  "manifest_of body =
     (case json_get_string body ''manifest_sha256'' of
        Some v \<Rightarrow> Some v
      | None \<Rightarrow>
          (case json_get_string body ''artifact_manifest_sha256'' of
             Some v \<Rightarrow> Some v
           | None \<Rightarrow> json_get_string body ''artifact_manifest_digest''))"

text \<open>
  \<open>handle_put_action\<close> in two parts, between which other connections are served: the checks, up to the
  look at an existing mapping, and the write. \<open>Inl\<close> is an answer, \<open>Inr\<close> the manifest to write.
\<close>

definition put_action_check ::
  "server_config \<Rightarrow> string \<Rightarrow> string \<Rightarrow> nat \<Rightarrow> files \<Rightarrow> (string + string) res" where
  "put_action_check cfg stream key clen fs =
     (if length stream < clen then Inl (IoError ''unexpected end of file'')
      else
        let man = unwrap_or (manifest_of (take clen stream)) [] in
        if length man \<noteq> 64 \<or> \<not> is_hex man
        then Inr (Inl (write_text 400 ''Bad Request'' (''invalid_manifest_sha256'' @ nl)))
        else case fs (action_path (cs_root cfg) key) of
          Some existing \<Rightarrow>
            if first_line existing = man then Inr (Inl (write_text 200 ''OK'' (''ok'' @ nl)))
            else Inr (Inl (write_text 409 ''Conflict'' (''conflict'' @ nl)))
        | None \<Rightarrow> Inr (Inr man))"

definition put_action_commit :: "server_config \<Rightarrow> string \<Rightarrow> string \<Rightarrow> string \<Rightarrow> files \<Rightarrow> string \<times> files" where
  "put_action_commit cfg uniq key man fs =
     (let dest = action_path (cs_root cfg) key;
          tmp = path_join (bucket_dir (cs_root cfg) ''actions'' key) (tmp_name key uniq)
      in (write_text 200 ''OK'' (''ok'' @ nl), rename_file tmp dest (fs(tmp \<mapsto> man @ nl))))"

definition handle_put_action ::
  "server_config \<Rightarrow> string \<Rightarrow> string \<Rightarrow> string \<Rightarrow> nat \<Rightarrow> files \<Rightarrow> (string \<times> files) res" where
  "handle_put_action cfg uniq stream key clen fs =
     rbind (put_action_check cfg stream key clen fs) (\<lambda>r.
       case r of Inl resp \<Rightarrow> Inr (resp, fs) | Inr man \<Rightarrow> Inr (put_action_commit cfg uniq key man fs))"

subsection \<open>Remote execution\<close>

record exec_input =
  ei_path :: string
  ei_sha256 :: string
  ei_mode :: nat

record exec_request =
  er_schema :: string
  er_argv :: "string list"
  er_cwd_rel :: string
  er_target_rel :: string
  er_tmp_rel :: string
  er_deps_out0_rel :: string
  er_trace_out0_rel :: string
  er_inputs :: "exec_input list"

text \<open>The checks of a request; \<open>Some\<close> is the error it is refused with.\<close>

definition exec_refusal :: "exec_request \<Rightarrow> string option" where
  "exec_refusal req =
     (if er_schema req \<noteq> ''redo-remote-exec:v1'' then Some ''bad_schema''
      else if er_argv req = [] then Some ''missing_argv''
      else if \<not> safe_rel_path (er_cwd_rel req) \<or> \<not> safe_rel_path (er_target_rel req)
           \<or> \<not> safe_rel_path (er_tmp_rel req) \<or> \<not> safe_rel_path (er_deps_out0_rel req)
           \<or> \<not> safe_rel_path (er_trace_out0_rel req) then Some ''bad_paths''
      else if list_ex (\<lambda>i. length (ei_sha256 i) \<noteq> 64 \<or> \<not> is_hex (ei_sha256 i) \<or> \<not> safe_rel_path (ei_path i))
                (er_inputs req) then Some ''bad_input''
      else None)"

text \<open>The regular files of a work directory, by path, with their permission bits.\<close>

type_synonym work = "string \<rightharpoonup> string \<times> nat"

definition work_key :: "string \<Rightarrow> string" where
  "work_key p = path_of_components (filter (\<lambda>c. c \<noteq> CurDir) (path_components p))"

fun materialize_inputs :: "string \<Rightarrow> files \<Rightarrow> exec_input list \<Rightarrow> work \<Rightarrow> work option" where
  "materialize_inputs root fs [] w = Some w"
| "materialize_inputs root fs (i # is) w =
     (case fs (blob_path root (ei_sha256 i)) of
        None \<Rightarrow> None
      | Some b \<Rightarrow> materialize_inputs root fs is (w(work_key (ei_path i) \<mapsto> (b, ei_mode i AND 511))))"

text \<open>\<open>bwrap\<close> and its arguments. \<open>host_exists\<close> tells which system directories there are.\<close>

definition bwrap_args :: "(string \<Rightarrow> bool) \<Rightarrow> string \<Rightarrow> exec_request \<Rightarrow> string list" where
  "bwrap_args host_exists work_host req =
     [''--die-with-parent'', ''--unshare-net'', ''--proc'', ''/proc'', ''--dev'', ''/dev'', ''--tmpfs'', ''/tmp'',
      ''--bind'', work_host, ''/work''] @
     concat (map (\<lambda>d. if host_exists d then [''--ro-bind'', d, d] else [])
                 [''/usr'', ''/bin'', ''/lib'', ''/lib64'', ''/etc'']) @
     [''--chdir'', ''/work/'' @ trim_end_char (CHR ''/'') (er_cwd_rel req), ''--'', ''redo-trace'', ''--trace-out0'',
      ''/work/'' @ er_trace_out0_rel req, ''--mode'', ''read'', ''--''] @ er_argv req"

definition exec_env :: "exec_request \<Rightarrow> (string \<times> string) list" where
  "exec_env req =
     [(''PATH'', ''/work/.redo/remote-bin:/usr/bin:/bin''), (''REDO_BASE'', ''/work''),
      (''REDO_REMOTE_DEPS_OUT0'', ''/work/'' @ er_deps_out0_rel req)]"

text \<open>The rules for \<open>$3\<close> and standard output: exit code and work directory after the script. \<open>fmode\<close> is the mode
  of a file the server creates.\<close>

definition exec_output :: "nat \<Rightarrow> exec_request \<Rightarrow> int \<Rightarrow> string \<Rightarrow> work \<Rightarrow> int \<times> work" where
  "exec_output fmode req code out w =
     (let tmp = work_key (er_tmp_rel req); target = work_key (er_target_rel req) in
      if code \<noteq> 0 then (code, w)
      else if out \<noteq> [] \<and> w tmp \<noteq> None then (207, w)
      else let w1 = (if out \<noteq> [] then w(tmp \<mapsto> (out, fmode)) else w) in
           (0, if w1 tmp \<noteq> None then (w1(target := w1 tmp))(tmp := None) else w1(target := None)))"

definition manifest_json :: "string \<Rightarrow> nat \<Rightarrow> nat \<Rightarrow> string" where
  "manifest_json blob_hex sz mode =
     ''{\"schema\":\"redo-artifact-manifest:v1\",\"kind\":\"file\",\"digest\":\"sha256:'' @ blob_hex @
     ''\",\"size\":'' @ show_nat sz @ '',\"mode\":'' @ show_nat mode @ ''}''"

definition opt_json :: "string option \<Rightarrow> string" where
  "opt_json v = (case v of None \<Rightarrow> ''null'' | Some s \<Rightarrow> quoted s)"

definition exec_result_json :: "int \<Rightarrow> string option \<Rightarrow> string option \<Rightarrow> string option \<Rightarrow> string option \<Rightarrow> string option \<Rightarrow> string" where
  "exec_result_json code man deps trace out err =
     ''{\"schema\":\"redo-remote-exec-result:v1\",\"exit_code\":'' @ show_int code @
     '',\"output_manifest_sha256\":'' @ opt_json man @ '',\"deps_sha256\":'' @ opt_json deps @
     '',\"trace_sha256\":'' @ opt_json trace @ '',\"stdout_sha256\":'' @ opt_json out @
     '',\"stderr_sha256\":'' @ opt_json err @ ''}''"

text \<open>Storing a result: \<open>.ok()\<close> drops an error.\<close>

definition store_ok :: "(string \<Rightarrow> string) \<Rightarrow> string \<Rightarrow> string \<Rightarrow> string option \<Rightarrow> files \<Rightarrow> string option \<times> files" where
  "store_ok sha root uniq bytes fs =
     (case bytes of
        None \<Rightarrow> (None, fs)
      | Some b \<Rightarrow> (case store_blob_bytes sha root b uniq fs of Inl _ \<Rightarrow> (None, fs) | Inr (h, fs1) \<Rightarrow> (Some h, fs1)))"

definition exec_manifest :: "(string \<Rightarrow> string) \<Rightarrow> string \<Rightarrow> string \<Rightarrow> int \<Rightarrow> (string \<times> nat) option \<Rightarrow> files \<Rightarrow> string option \<times> files" where
  "exec_manifest sha root uniq code target fs =
     (case target of
        Some (content, mode) \<Rightarrow>
          if code = 0
          then (let ((hex, sz), fs1) = store_blob_from_file_compute sha root content uniq fs
                in store_ok sha root uniq (Some (manifest_json hex sz (mode AND 511))) fs1)
          else (None, fs)
      | None \<Rightarrow> (None, fs))"

text \<open>
  What a sandbox leaves: the exit status, the two outputs, the regular files of the work directory and its
  symbolic links. After the script the server works on four paths of that directory, and the kernel follows the
  links it meets on the way, to wherever the script made them point. \<open>via_link\<close> says when that happens; what the server
  then answers and does to its files is up to the parameter \<open>follow\<close>.
\<close>

type_synonym sandbox_result = "int option \<times> string \<times> string \<times> work \<times> string list"

definition via_link :: "string list \<Rightarrow> string \<Rightarrow> bool" where
  "via_link links p \<longleftrightarrow> list_ex (\<lambda>l. p = l \<or> strip_prefix (l @ ''/'') p \<noteq> None) links"

definition exec_paths :: "exec_request \<Rightarrow> string list" where
  "exec_paths req = map work_key [er_tmp_rel req, er_target_rel req, er_trace_out0_rel req, er_deps_out0_rel req]"

text \<open>
  \<open>parse\<close> is \<open>serde_json\<close>, \<open>scripts\<close> the two wrapper scripts installed in the work directory, and \<open>run\<close> the
  execution of \<open>bwrap\<close>: \<open>None\<close> when it is not installed, \<open>Some (Inl _)\<close> when it cannot be started.
\<close>

definition exec_finish ::
  "nat \<Rightarrow> (string \<Rightarrow> string) \<Rightarrow> (exec_request \<Rightarrow> sandbox_result \<Rightarrow> files \<Rightarrow> string \<times> files) \<Rightarrow> server_config \<Rightarrow> string \<Rightarrow>
   exec_request \<Rightarrow> sandbox_result \<Rightarrow> files \<Rightarrow> string \<times> files" where
  "exec_finish fmode sha follow cfg uniq req res fs =
     (case res of (code, out, err, w, links) \<Rightarrow>
        if list_ex (via_link links) (exec_paths req) then follow req res fs
        else
        let root = cs_root cfg;
            (final, w1) = exec_output fmode req (unwrap_or code 201) out w;
            tkey = work_key (er_trace_out0_rel req);
            w2 = (if w1 tkey = None then w1(tkey \<mapsto> (''TRACE_UNAVAILABLE:missing_trace'' @ [CHR 0x00], fmode)) else w1);
            (out_hex, f1) = store_ok sha root uniq (Some out) fs;
            (err_hex, f2) = store_ok sha root uniq (Some err) f1;
            (deps_hex, f3) = store_ok sha root uniq (map_option fst (w2 (work_key (er_deps_out0_rel req)))) f2;
            (trace_hex, f4) = store_ok sha root uniq (map_option fst (w2 tkey)) f3;
            (man_hex, f5) = exec_manifest sha root uniq final (w2 (work_key (er_target_rel req))) f4
        in (write_json 200 ''OK'' (exec_result_json final man_hex deps_hex trace_hex out_hex err_hex), f5))"

definition handle_post_exec ::
  "nat \<Rightarrow> (string \<Rightarrow> string) \<Rightarrow> (string \<Rightarrow> exec_request option) \<Rightarrow> string \<times> string \<Rightarrow>
   (string list \<Rightarrow> (string \<times> string) list \<Rightarrow> work \<Rightarrow> (string + sandbox_result) option) \<Rightarrow>
   (exec_request \<Rightarrow> sandbox_result \<Rightarrow> files \<Rightarrow> string \<times> files) \<Rightarrow> (string \<Rightarrow> bool) \<Rightarrow> server_config \<Rightarrow> string \<Rightarrow> string \<Rightarrow> nat \<Rightarrow> files \<Rightarrow> (string \<times> files) res" where
  "handle_post_exec fmode sha parse scripts run follow host_exists cfg uniq stream clen fs =
     (if \<not> cs_enable_exec cfg then Inr (write_text 404 ''Not Found'' (''not_found'' @ nl), fs)
      else if clen > 50 * 1024 * 1024 then Inr (write_text 413 ''Payload Too Large'' (''too_large'' @ nl), fs)
      else if length stream < clen then Inl (IoError ''unexpected end of file'')
      else case parse (take clen stream) of
        None \<Rightarrow> Inr (write_text 400 ''Bad Request'' (''bad_json'' @ nl), fs)
      | Some req \<Rightarrow>
          (case exec_refusal req of
             Some msg \<Rightarrow> Inr (write_text 400 ''Bad Request'' (msg @ nl), fs)
           | None \<Rightarrow>
               let work_host = path_join (path_join (path_join (cs_root cfg) ''exec'') uniq) ''work'' in
               case materialize_inputs (cs_root cfg) fs (er_inputs req) Map.empty of
                 None \<Rightarrow> Inr (write_text 400 ''Bad Request'' (''missing_blob'' @ nl), fs)
               | Some w \<Rightarrow>
                   let w1 = w(work_key (er_deps_out0_rel req) \<mapsto> ([], fmode),
                              ''.redo/remote-bin/redo-ifchange'' \<mapsto> (fst scripts, 493),
                              ''.redo/remote-bin/redo-ifcreate'' \<mapsto> (snd scripts, 493)) in
                   case run (bwrap_args host_exists work_host req) (exec_env req) w1 of
                     None \<Rightarrow> Inr (write_text 501 ''Not Implemented'' (''bwrap_missing'' @ nl), fs)
                   | Some (Inl e) \<Rightarrow>
                       Inr (write_text 500 ''Internal Server Error'' (''exec_failed:'' @ e @ nl), fs)
                   | Some (Inr res) \<Rightarrow> Inr (exec_finish fmode sha follow cfg uniq req res fs)))"

definition handle_post_exec_other :: "server_config \<Rightarrow> nat \<Rightarrow> string" where
  "handle_post_exec_other cfg clen =
     (if \<not> cs_enable_exec cfg then write_text 404 ''Not Found'' (''not_found'' @ nl)
      else if clen > 50 * 1024 * 1024 then write_text 413 ''Payload Too Large'' (''too_large'' @ nl)
      else write_text 501 ''Not Implemented'' (''exec_unavailable'' @ nl))"

subsection \<open>Dispatch\<close>

text \<open>\<open>exec\<close> is the handler of \<open>POST /v1/exec\<close> on the platform. A connection that closes at once gets no
  answer.\<close>

definition handle_one ::
  "(string \<Rightarrow> string) \<Rightarrow> (server_config \<Rightarrow> string \<Rightarrow> string \<Rightarrow> nat \<Rightarrow> files \<Rightarrow> (string \<times> files) res) \<Rightarrow>
   server_config \<Rightarrow> string \<Rightarrow> string \<Rightarrow> files \<Rightarrow> (string \<times> files) res" where
  "handle_one sha exec cfg uniq s fs =
     (let (req_line, r1) = read_line s in
      if req_line = [] then Inr ([], fs)
      else
        let ws = split_ws req_line;
            meth = (case ws of m # _ \<Rightarrow> m | [] \<Rightarrow> []);
            path = second_word [] req_line;
            (h, body) = read_headers Map.empty r1;
            clen = unwrap_or (Option.bind (h ''content-length'') (parse_uint 64)) 0
        in
        if (meth = ''PUT'' \<or> meth = ''POST'') \<and> cs_read_only cfg
        then Inr (write_text 403 ''Forbidden'' (''read_only'' @ nl), fs)
        else if (meth = ''PUT'' \<or> meth = ''POST'') \<and> \<not> auth_ok h (cs_require_bearer cfg)
        then Inr (write_text 403 ''Forbidden'' (''forbidden'' @ nl), fs)
        else if trim_end_char (CHR ''/'') path = ''/v1/exec''
        then (if meth = ''POST'' then exec cfg uniq body clen fs
              else Inr (write_text 405 ''Method Not Allowed'' (''method_not_allowed'' @ nl), fs))
        else case strip_prefix ''/v1/blobs/'' path of
          Some rest \<Rightarrow>
            (let key = trim_end_char (CHR ''/'') rest in
             if length key \<noteq> 64 \<or> \<not> is_hex key
             then Inr (write_text 400 ''Bad Request'' (''invalid_digest'' @ nl), fs)
             else if meth = ''GET'' then Inr (handle_get_blob cfg key fs, fs)
             else if meth = ''PUT'' then Inr (handle_put_blob sha cfg uniq body key clen fs)
             else Inr (write_text 405 ''Method Not Allowed'' (''method_not_allowed'' @ nl), fs))
        | None \<Rightarrow>
            (case strip_prefix ''/v1/actions/'' path of
               Some rest \<Rightarrow>
                 (let key = trim_end_char (CHR ''/'') rest in
                  if length key \<noteq> 64 \<or> \<not> is_hex key
                  then Inr (write_text 400 ''Bad Request'' (''invalid_actionkey'' @ nl), fs)
                  else if meth = ''GET'' then Inr (handle_get_action cfg key fs, fs)
                  else if meth = ''PUT'' then handle_put_action cfg uniq body key clen fs
                  else Inr (write_text 405 ''Method Not Allowed'' (''method_not_allowed'' @ nl), fs))
             | None \<Rightarrow> Inr (write_text 404 ''Not Found'' (''not_found'' @ nl), fs)))"

subsection \<open>The layout keeps blobs, mappings and temporary files apart\<close>

lemma kinds_ok [simp]: "kind_ok ''blobs''" "kind_ok ''actions''"
  by (simp_all add: kind_ok_def)

lemma tmp_name_dot: "tmp_name key uniq = CHR ''.'' # key @ ''.'' @ uniq @ ''.tmp''"
  by (simp add: tmp_name_def)

lemma tmp_relative: "\<not> is_absolute (tmp_name key uniq)"
  by (simp add: tmp_name_dot is_absolute_def)

lemma blob_neq_tmp:
  assumes "is_key k" "is_key k'"
  shows "blob_path root k \<noteq> path_join (bucket_dir root ''blobs'' k') (tmp_name k' u)"
    "action_path root k \<noteq> path_join (bucket_dir root ''actions'' k') (tmp_name k' u)"
  using key_path_dot [OF assms kinds_ok(1) tmp_name_dot] key_path_dot [OF assms kinds_ok(2) tmp_name_dot]
  by (simp_all add: blob_path_def action_path_def)

lemma blob_neq_action:
  assumes "is_key k" "is_key k'"
  shows "blob_path root k \<noteq> action_path root k'"
    "blob_path root k \<noteq> path_join (bucket_dir root ''actions'' k') (tmp_name k' u)"
    "action_path root k \<noteq> path_join (bucket_dir root ''blobs'' k') (tmp_name k' u)"
  using assms by (simp_all add: blob_path_def action_path_def key_path_eq in_bucket_eq tmp_relative)

lemma neq_compute_tmp:
  assumes "is_key k"
  shows "blob_path root k \<noteq> path_join (path_join root ''blobs'') (''.tmp.'' @ u)"
    "action_path root k \<noteq> path_join (path_join root ''blobs'') (''.tmp.'' @ u)"
proof -
  have t: "path_join (path_join root ''blobs'') (''.tmp.'' @ u) = root_prefix root @ ''blobs/.tmp.'' @ u"
    by (simp add: path_join_relative is_absolute_def root_prefix_def [of "root_prefix root @ _"])
  obtain c r where k: "take 2 k = c # r" "is_ascii_hexdigit c"
    using assms by (cases k) (auto simp: is_key_def is_hex_def numeral_2_eq_2)
  show "blob_path root k \<noteq> path_join (path_join root ''blobs'') (''.tmp.'' @ u)"
    "action_path root k \<noteq> path_join (path_join root ''blobs'') (''.tmp.'' @ u)"
    unfolding t using assms k(2) hex_not(5) by (auto simp: blob_path_def action_path_def key_path_eq k(1))
qed

lemma blob_path_inject: "is_key k \<Longrightarrow> is_key k' \<Longrightarrow> blob_path root k = blob_path root k' \<longleftrightarrow> k = k'"
  using key_path_inject [of k k' "''blobs''" root] by (auto simp: blob_path_def)

lemma action_path_inject: "is_key k \<Longrightarrow> is_key k' \<Longrightarrow> action_path root k = action_path root k' \<longleftrightarrow> k = k'"
  using key_path_inject [of k k' "''actions''" root] by (auto simp: action_path_def)

lemmas layout [simp] = blob_neq_tmp blob_neq_action blob_neq_tmp [symmetric] blob_neq_action [symmetric]
  neq_compute_tmp [simplified] neq_compute_tmp [symmetric, simplified] blob_path_inject action_path_inject

subsection \<open>What the handlers do to the stored files\<close>

text \<open>The blobs and mappings visible to a client.\<close>

definition blob_at :: "string \<Rightarrow> files \<Rightarrow> string \<Rightarrow> string option" where
  "blob_at root fs k = fs (blob_path root k)"

definition action_at :: "string \<Rightarrow> files \<Rightarrow> string \<Rightarrow> string option" where
  "action_at root fs k = fs (action_path root k)"

definition cas_ok :: "(string \<Rightarrow> string) \<Rightarrow> string \<Rightarrow> files \<Rightarrow> bool" where
  "cas_ok sha root fs \<longleftrightarrow> (\<forall>k b. is_key k \<longrightarrow> blob_at root fs k = Some b \<longrightarrow> sha b = k)"

text \<open>The effect of storing bytes under their digest: nothing if the blob is there, else one more blob.\<close>

definition adds_blob :: "string \<Rightarrow> string \<Rightarrow> string \<Rightarrow> files \<Rightarrow> files \<Rightarrow> bool" where
  "adds_blob root key b fs fs1 \<longleftrightarrow>
     (\<forall>k. is_key k \<longrightarrow> blob_at root fs1 k = (if k = key \<and> blob_at root fs key = None then Some b else blob_at root fs k)) \<and>
     (\<forall>k. is_key k \<longrightarrow> action_at root fs1 k = action_at root fs k)"

lemma put_adds_blob:
  assumes "is_key key" "dest = blob_path root key" "tmp = path_join (bucket_dir root ''blobs'' key) (tmp_name key u)"
  shows "fs dest = None \<Longrightarrow> adds_blob root key b fs (rename_file tmp dest (fs(tmp \<mapsto> b)))"
    and "fs dest \<noteq> None \<Longrightarrow> adds_blob root key b fs (fs(tmp := None))"
    and "(fs(tmp \<mapsto> b)) dest = fs dest" "(fs(tmp \<mapsto> b))(tmp := None) = fs(tmp := None)"
  using assms by (auto simp: adds_blob_def blob_at_def action_at_def rename_file_def)

lemma tmp_removed: "is_key key \<Longrightarrow> is_key k \<Longrightarrow> tmp = path_join (bucket_dir root ''blobs'' key) (tmp_name key u) \<Longrightarrow>
   blob_at root (fs(tmp := None)) k = blob_at root fs k \<and> action_at root (fs(tmp := None)) k = action_at root fs k"
  by (simp add: blob_at_def action_at_def)

definition grows :: "(string \<Rightarrow> string) \<Rightarrow> string \<Rightarrow> files \<Rightarrow> files \<Rightarrow> bool" where
  "grows sha root fs fs1 \<longleftrightarrow>
     (\<forall>k. is_key k \<longrightarrow> (blob_at root fs1 k = blob_at root fs k \<or>
        (blob_at root fs k = None \<and> (\<exists>b. blob_at root fs1 k = Some b \<and> sha b = k)))
      \<and> (action_at root fs1 k = action_at root fs k \<or> action_at root fs k = None))"

lemma grows_refl [simp]: "grows sha root fs fs"
  by (simp add: grows_def)

lemma grows_trans:
  assumes "grows sha root a b" "grows sha root b c" shows "grows sha root a c"
  unfolding grows_def
proof (intro allI impI)
  fix k assume "is_key k"
  then show "(blob_at root c k = blob_at root a k \<or> (blob_at root a k = None \<and> (\<exists>b. blob_at root c k = Some b \<and> sha b = k)))
      \<and> (action_at root c k = action_at root a k \<or> action_at root a k = None)"
    using assms unfolding grows_def by metis
qed

lemma adds_blob_grows: "adds_blob root key b fs fs1 \<Longrightarrow> sha b = key \<Longrightarrow> grows sha root fs fs1"
  unfolding adds_blob_def grows_def by auto

lemma grows_cas_ok: "grows sha root fs fs1 \<Longrightarrow> cas_ok sha root fs \<Longrightarrow> cas_ok sha root fs1"
  unfolding grows_def cas_ok_def by (metis option.inject)

lemma store_known_adds:
  assumes "is_key key" "store_blob_bytes_known sha root key b u fs = Inr fs1"
  shows "adds_blob root key b fs fs1" "sha b = key"
proof -
  show "sha b = key" using assms(2) by (auto simp: store_blob_bytes_known_def split: if_splits)
  show "adds_blob root key b fs fs1"
    using assms put_adds_blob(1) [OF assms(1) refl refl]
    by (cases "fs (blob_path root key) = None")
       (auto simp: store_blob_bytes_known_def Let_def adds_blob_def blob_at_def split: if_splits)
qed

text \<open>The server's blob directory satisfies the contract of a content-addressed store.\<close>

definition server_stash :: "(string \<Rightarrow> string) \<Rightarrow> string \<Rightarrow> string \<Rightarrow> string \<Rightarrow> files \<Rightarrow> files" where
  "server_stash sha root uniq b fs =
     (if is_key (sha b) then (case store_blob_bytes sha root b uniq fs of Inl _ \<Rightarrow> fs | Inr (_, fs1) \<Rightarrow> fs1) else fs)"

lemma server_stash_adds: "is_key (sha b) \<Longrightarrow> adds_blob root (sha b) b fs (server_stash sha root uniq b fs)"
proof -
  assume k: "is_key (sha b)"
  have "\<not> isl (store_blob_bytes_known sha root (sha b) b uniq fs)"
    by (simp add: store_blob_bytes_known_def Let_def)
  then obtain fs1 where "store_blob_bytes_known sha root (sha b) b uniq fs = Inr fs1"
    by (cases "store_blob_bytes_known sha root (sha b) b uniq fs") auto
  with store_known_adds [OF k this] k show ?thesis by (simp add: server_stash_def store_blob_bytes_def)
qed

interpretation server_blobs: blob_store sha "blob_at root" "server_stash sha root uniq" "cas_ok sha root" for sha root uniq
proof
  fix s b k c
  note adds = server_stash_adds [of sha b root s uniq]
  show "cas_ok sha root (server_stash sha root uniq b s)" if "cas_ok sha root s"
  proof (cases "is_key (sha b)")
    case True
    then have "grows sha root s (server_stash sha root uniq b s)" using adds adds_blob_grows by blast
    then show ?thesis using that by (rule grows_cas_ok)
  qed (simp add: server_stash_def that)
  show "sha c = k" if "cas_ok sha root s" "is_key k" "blob_at root s k = Some c"
    using that unfolding cas_ok_def by blast
  show "blob_at root (server_stash sha root uniq b s) (sha b) \<noteq> None" if "is_key (sha b)"
    using adds that unfolding adds_blob_def by auto
  show "blob_at root (server_stash sha root uniq b s) k = Some c" if "is_key k" "blob_at root s k = Some c"
  proof (cases "is_key (sha b)")
    case True
    then show ?thesis using adds that unfolding adds_blob_def by auto
  qed (simp add: server_stash_def that)
qed

lemma put_blob_effect:
  assumes "is_key key" "handle_put_blob sha cfg u stream key clen fs = (resp, fs1)"
  shows "if sha (take clen stream) = key
         then adds_blob (cs_root cfg) key (take clen stream) fs fs1 \<and> resp = write_text 200 ''OK'' (''ok'' @ nl)
         else (\<forall>k. is_key k \<longrightarrow> blob_at (cs_root cfg) fs1 k = blob_at (cs_root cfg) fs k \<and>
                 action_at (cs_root cfg) fs1 k = action_at (cs_root cfg) fs k)"
proof -
  note p = put_adds_blob [OF assms(1) refl refl, where fs = fs and root = "cs_root cfg" and u = u and b = "take clen stream"]
  show ?thesis
    using assms p tmp_removed [OF assms(1) _ refl]
    by (auto simp: handle_put_blob_def Let_def split: if_splits)
qed

lemma put_blob_grows:
  assumes "is_key key" "handle_put_blob sha cfg u stream key clen fs = (resp, fs1)"
  shows "grows sha (cs_root cfg) fs fs1"
  using put_blob_effect [OF assms] adds_blob_grows [of "cs_root cfg" key "take clen stream" fs fs1 sha]
  by (auto simp: grows_def split: if_splits)

lemma put_action_commit_effect:
  assumes "is_key key" "put_action_commit cfg u key man fs = (resp, fs1)" "is_key k"
  shows "blob_at (cs_root cfg) fs1 k = blob_at (cs_root cfg) fs k"
    "action_at (cs_root cfg) fs1 k = (if k = key then Some (man @ nl) else action_at (cs_root cfg) fs k)"
  using assms by (auto simp: put_action_commit_def Let_def blob_at_def action_at_def rename_file_def)

lemma put_action_grows:
  assumes "is_key key" "handle_put_action cfg u stream key clen fs = Inr (resp, fs1)"
  shows "grows sha (cs_root cfg) fs fs1"
proof -
  obtain r where r: "put_action_check cfg stream key clen fs = Inr r"
    using assms(2) by (auto simp: handle_put_action_def rbind_Inr_iff)
  show ?thesis
  proof (cases r)
    case (Inl a)
    then show ?thesis using assms(2) r by (simp add: handle_put_action_def)
  next
    case (Inr man)
    then have none: "action_at (cs_root cfg) fs key = None"
      using r by (auto simp: put_action_check_def action_at_def Let_def split: if_splits option.splits)
    have c: "put_action_commit cfg u key man fs = (resp, fs1)"
      using assms(2) r Inr by (simp add: handle_put_action_def)
    show ?thesis
      unfolding grows_def using put_action_commit_effect [OF assms(1) c] none by auto
  qed
qed

lemma store_ok_grows:
  assumes "\<And>b. is_key (sha b)" "store_ok sha root u v fs = (r, fs1)"
  shows "grows sha root fs fs1"
proof (cases v)
  case (Some b)
  show ?thesis
  proof (cases "store_blob_bytes_known sha root (sha b) b u fs")
    case (Inr f)
    from store_known_adds [OF assms(1) this] Inr Some assms(2) show ?thesis
      by (auto simp: store_ok_def store_blob_bytes_def intro: adds_blob_grows)
  qed (use Some assms(2) in \<open>simp add: store_ok_def store_blob_bytes_def\<close>)
qed (use assms(2) in \<open>simp add: store_ok_def\<close>)

lemma compute_grows:
  assumes "is_key (sha b)" "store_blob_from_file_compute sha root b u fs = (r, fs1)"
  shows "grows sha root fs fs1"
  using assms
  by (auto simp: store_blob_from_file_compute_def Let_def grows_def blob_at_def action_at_def rename_file_def
      split: if_splits)

lemma exec_manifest_grows:
  assumes "\<And>b. is_key (sha b)" "exec_manifest sha root u code t fs = (r, fs1)"
  shows "grows sha root fs fs1"
proof (cases "t = None \<or> code \<noteq> 0")
  case True
  then show ?thesis using assms(2) by (auto simp: exec_manifest_def split: option.splits)
next
  case False
  then obtain c m where t: "t = Some (c, m)" "code = 0" by auto
  obtain h sz f where f: "store_blob_from_file_compute sha root c u fs = ((h, sz), f)" by (metis prod.exhaust)
  have "store_ok sha root u (Some (manifest_json h sz (m AND 511))) f = (r, fs1)"
    using assms(2) t f by (simp add: exec_manifest_def)
  from grows_trans [OF compute_grows [OF assms(1) f] store_ok_grows [OF assms(1) this]] show ?thesis .
qed

lemma exec_finish_grows:
  assumes "\<And>b. is_key (sha b)" "exec_finish fmode sha follow cfg u req res fs = (resp, fs1)"
    "\<not> list_ex (via_link (snd (snd (snd (snd res))))) (exec_paths req)"
  shows "grows sha (cs_root cfg) fs fs1"
proof -
  obtain code out err w links where res: "res = (code, out, err, w, links)" by (metis prod.exhaust)
  show ?thesis
    using assms(2,3) unfolding exec_finish_def res Let_def prod.case fst_conv snd_conv if_not_P [OF assms(3) [unfolded res snd_conv]]
    by (auto split: prod.splits dest!: store_ok_grows [OF assms(1)] exec_manifest_grows [OF assms(1)])
       (blast intro: grows_trans)
qed

text \<open>No script leaves a symbolic link in its work directory.\<close>

definition leaves_no_links :: "(string list \<Rightarrow> (string \<times> string) list \<Rightarrow> work \<Rightarrow> (string + sandbox_result) option) \<Rightarrow> bool" where
  "leaves_no_links run \<longleftrightarrow> (\<forall>argv env w res. run argv env w = Some (Inr res) \<longrightarrow> snd (snd (snd (snd res))) = [])"

lemma no_links_clear: "leaves_no_links run \<Longrightarrow> run a e v = Some (Inr res) \<Longrightarrow>
    \<not> list_ex (via_link (snd (snd (snd (snd res))))) (exec_paths req)"
proof -
  assume "leaves_no_links run" "run a e v = Some (Inr res)"
  then have "snd (snd (snd (snd res))) = []" unfolding leaves_no_links_def by blast
  then show ?thesis by (simp add: via_link_def exec_paths_def)
qed

lemma post_exec_grows:
  assumes "\<And>b. is_key (sha b)" "handle_post_exec fmode sha parse scripts run follow hx cfg u stream clen fs = Inr (resp, fs1)"
    "cs_enable_exec cfg \<longrightarrow> leaves_no_links run"
  shows "grows sha (cs_root cfg) fs fs1"
  using assms(2,3) no_links_clear [of run] exec_finish_grows [OF assms(1)]
  by (auto simp: handle_post_exec_def Let_def split: if_splits option.splits sum.splits)

text \<open>What a request can do to the files, whatever bytes it consists of.\<close>

lemma handle_one_cases:
  assumes "handle_one sha exec cfg u s fs = Inr (resp, fs1)"
  obtains (same) "fs1 = fs"
  | (exec) stream clen where "exec cfg u stream clen fs = Inr (resp, fs1)" "\<not> cs_read_only cfg"
  | (blob) stream key clen where "is_key key" "handle_put_blob sha cfg u stream key clen fs = (resp, fs1)"
      "\<not> cs_read_only cfg"
  | (action) stream key clen where "is_key key" "handle_put_action cfg u stream key clen fs = Inr (resp, fs1)"
      "\<not> cs_read_only cfg"
  using assms unfolding handle_one_def Let_def
  by (auto simp: is_key_def split: prod.splits if_splits option.splits)

lemma handle_one_grows:
  assumes "handle_one sha exec cfg u s fs = Inr (resp, fs1)"
    and "\<And>stream clen resp fs1. exec cfg u stream clen fs = Inr (resp, fs1) \<Longrightarrow> grows sha (cs_root cfg) fs fs1"
  shows "grows sha (cs_root cfg) fs fs1"
  using assms(1)
proof (cases rule: handle_one_cases)
  case same
  then show ?thesis by simp
next
  case (exec stream clen)
  then show ?thesis using assms(2) by blast
next
  case (blob stream key clen)
  then show ?thesis by (intro put_blob_grows)
next
  case (action stream key clen)
  then show ?thesis by (intro put_action_grows)
qed

subsection \<open>Properties\<close>

text \<open>
  Connections are served at the same time. The atomic effects on the files are those of \<open>rename\<close>. A request
  served without interruption is one step. A \<open>PUT\<close> of a mapping may be interrupted between its look at the existing
  mapping and its \<open>rename\<close>; the second component of the state holds the keys and the manifests of the requests that are.
  A blob that was found missing is put into place, perhaps after another request has done so; each of the blobs of an
  execution is such a step, too.
\<close>

inductive server_step ::
  "(string \<Rightarrow> string) \<Rightarrow> (server_config \<Rightarrow> string \<Rightarrow> string \<Rightarrow> nat \<Rightarrow> files \<Rightarrow> (string \<times> files) res) \<Rightarrow> server_config \<Rightarrow>
   files \<times> (string \<times> string) list \<Rightarrow> files \<times> (string \<times> string) list \<Rightarrow> bool" for sha exec cfg where
  request: "handle_one sha exec cfg u s fs = Inr (resp, fs1) \<Longrightarrow> server_step sha exec cfg (fs, pend) (fs1, pend)"
| late_blob: "is_key (sha b) \<Longrightarrow> server_step sha exec cfg (fs, pend) (fs(blob_path (cs_root cfg) (sha b) \<mapsto> b), pend)"
| put_begin: "is_key key \<Longrightarrow> put_action_check cfg s key n fs = Inr (Inr man) \<Longrightarrow>
    server_step sha exec cfg (fs, pend) (fs, (key, man) # pend)"
| put_end: "is_key key \<Longrightarrow> (key, man) \<in> set pend \<Longrightarrow> put_action_commit cfg u key man fs = (resp, fs1) \<Longrightarrow>
    server_step sha exec cfg (fs, pend) (fs1, remove1 (key, man) pend)"
| dropped: "(key, man) \<in> set pend \<Longrightarrow> server_step sha exec cfg (fs, pend) (fs, remove1 (key, man) pend)"

inductive server_run ::
  "(string \<Rightarrow> string) \<Rightarrow> (server_config \<Rightarrow> string \<Rightarrow> string \<Rightarrow> nat \<Rightarrow> files \<Rightarrow> (string \<times> files) res) \<Rightarrow> server_config \<Rightarrow>
   files \<times> (string \<times> string) list \<Rightarrow> files \<times> (string \<times> string) list \<Rightarrow> bool" for sha exec cfg c where
  here: "server_run sha exec cfg c c"
| there: "server_run sha exec cfg c d \<Longrightarrow> server_step sha exec cfg d e \<Longrightarrow> server_run sha exec cfg c e"

text \<open>What one step keeps, with mappings that nobody is about to write.\<close>

definition keeps_store :: "(string \<Rightarrow> string) \<Rightarrow> string \<Rightarrow> files \<times> (string \<times> string) list \<Rightarrow> files \<times> (string \<times> string) list \<Rightarrow> bool" where
  "keeps_store sha root c d \<longleftrightarrow>
     (cas_ok sha root (fst c) \<longrightarrow> cas_ok sha root (fst d)) \<and>
     (\<forall>k b. is_key k \<longrightarrow> cas_ok sha root (fst c) \<longrightarrow> blob_at root (fst c) k = Some b \<longrightarrow>
        (\<exists>b'. blob_at root (fst d) k = Some b' \<and> sha b' = sha b)) \<and>
     (\<forall>k m. is_key k \<longrightarrow> action_at root (fst c) k = Some m \<longrightarrow> k \<notin> fst ` set (snd c) \<longrightarrow>
        action_at root (fst d) k = Some m \<and> k \<notin> fst ` set (snd d))"

lemma keeps_store_trans:
  assumes "keeps_store sha root a b" "keeps_store sha root b c" shows "keeps_store sha root a c"
  using assms unfolding keeps_store_def by (smt (verit, ccfv_threshold))

lemma grows_keeps_store: "grows sha root fs fs1 \<Longrightarrow> keeps_store sha root (fs, pend) (fs1, pend)"
  using grows_cas_ok [of sha root fs fs1] unfolding keeps_store_def fst_conv snd_conv grows_def
  by (metis option.distinct(1))

lemma server_step_keeps:
  assumes "\<And>fs u stream clen resp fs1. exec cfg u stream clen fs = Inr (resp, fs1) \<Longrightarrow> grows sha (cs_root cfg) fs fs1"
    "server_step sha exec cfg c d"
  shows "keeps_store sha (cs_root cfg) c d"
  using assms(2)
proof cases
  case (request u s fs resp fs1 pend)
  then show ?thesis using grows_keeps_store [OF handle_one_grows [OF request(3) assms(1)]] by simp
next
  case (late_blob b fs pend)
  then show ?thesis
    by (auto simp: keeps_store_def cas_ok_def blob_at_def action_at_def)
next
  case (put_begin key s n fs man pend)
  have "action_at (cs_root cfg) fs key = None"
    using put_begin(4) by (auto simp: put_action_check_def action_at_def Let_def split: if_splits option.splits)
  then show ?thesis using put_begin by (auto simp: keeps_store_def)
next
  case (put_end key man pend u fs resp fs1)
  note e = put_action_commit_effect [OF put_end(3,5)]
  have "k \<notin> fst ` set (remove1 (key, man) pend)" if "k \<notin> fst ` set pend" for k
    using that set_remove1_subset [of "(key, man)" pend] by blast
  moreover have "key \<in> fst ` set pend" using put_end(4) by force
  ultimately show ?thesis using put_end(1,2) e
    by (auto simp: keeps_store_def cas_ok_def)
next
  case (dropped key man pend fs)
  have "k \<notin> fst ` set (remove1 (key, man) pend)" if "k \<notin> fst ` set pend" for k
    using that set_remove1_subset [of "(key, man)" pend] by blast
  then show ?thesis using dropped by (auto simp: keeps_store_def)
qed

text \<open>C7. The server is a content-addressed, append-only store, for connections served at the same time and whatever
  bytes their clients send: at every moment of such a run every stored blob has the content its name is
  the SHA-256 of, no stored blob disappears or gets a content with another digest, and a mapping that is there while
  no \<open>PUT\<close> of its key is under way stays as it is. (\<open>sha\<close> yields 64 hexadecimal digits. A server that runs
  scripts is as safe only as long as no script leaves a symbolic link in its work directory. Two simultaneous \<open>PUT\<close>s of
  one new key can replace each other's mapping: lemma \<open>put_action_race\<close>.)\<close>

theorem server_append_only:
  assumes "\<And>b. is_key (sha b)" "cas_ok sha (cs_root cfg) fs" "cs_enable_exec cfg \<longrightarrow> leaves_no_links run"
    "server_run sha (handle_post_exec fmode sha parse scripts run follow hx) cfg (fs, pend) (fs1, pend1)"
  shows "cas_ok sha (cs_root cfg) fs1
    \<and> (\<forall>k b. is_key k \<longrightarrow> blob_at (cs_root cfg) fs k = Some b \<longrightarrow> (\<exists>b1. blob_at (cs_root cfg) fs1 k = Some b1 \<and> sha b1 = sha b))
    \<and> (\<forall>k m. is_key k \<longrightarrow> action_at (cs_root cfg) fs k = Some m \<longrightarrow> k \<notin> fst ` set pend \<longrightarrow> action_at (cs_root cfg) fs1 k = Some m)"
proof -
  let ?exec = "handle_post_exec fmode sha parse scripts run follow hx"
  have g: "grows sha (cs_root cfg) fs fs1" if "?exec cfg u stream clen fs = Inr (resp, fs1)" for fs u stream clen resp fs1
    using post_exec_grows [OF assms(1) that assms(3)] .
  have "keeps_store sha (cs_root cfg) c d" if "server_run sha ?exec cfg c d" for c d
    using that
  proof (induction rule: server_run.induct)
    case here
    show ?case by (simp add: keeps_store_def)
  next
    case (there d e)
    show ?case by (rule keeps_store_trans [OF there.IH server_step_keeps [OF g there.hyps(2)]])
  qed
  from this [OF assms(4)] assms(2) show ?thesis unfolding keeps_store_def fst_conv snd_conv by blast
qed

definition zero_sha :: "string \<Rightarrow> string" where
  "zero_sha b = replicate 64 (CHR ''0'')"

definition demo_cfg :: server_config where
  "demo_cfg = \<lparr>cs_root = ''/srv'', cs_read_only = False, cs_require_bearer = None, cs_enable_exec = False\<rparr>"

lemma zero_sha_key: "is_key (zero_sha b)"
  by (simp add: is_key_def zero_sha_def is_hex_def list_all_iff is_ascii_hexdigit_def is_digit_def)

text \<open>A request is served while a \<open>PUT\<close> of a mapping is under way.\<close>

theorem server_append_only_witness:
  "\<exists>fs. server_run zero_sha (handle_post_exec 420 zero_sha (\<lambda>_. None) ([], []) (\<lambda>_ _ _. None) (\<lambda>_ _ fs. ([], fs)) (\<lambda>_. True)) demo_cfg
      (Map.empty, []) (fs, [(zero_sha [], zero_sha [])])
    \<and> cas_ok zero_sha ''/srv'' fs"
proof -
  let ?e = "handle_post_exec 420 zero_sha (\<lambda>_. None) ([], []) (\<lambda>_ _ _. None) (\<lambda>_ _ fs. ([], fs)) (\<lambda>_. True)"
  let ?h = "handle_one zero_sha ?e demo_cfg ''1.0'' (''GET / HTTP/1.1'' @ CRLF @ CRLF) Map.empty"
  have "map_sum id (\<lambda>r. ()) ?h = Inr ()" by code_simp
  then obtain resp fs where h: "?h = Inr (resp, fs)" by (cases ?h) auto
  have c: "cas_ok zero_sha (cs_root demo_cfg) Map.empty" by (simp add: cas_ok_def blob_at_def)
  let ?b = "''{\"manifest_sha256\":\"'' @ zero_sha [] @ ''\"}''"
  have "put_action_check demo_cfg ?b (zero_sha []) (length ?b) Map.empty = Inr (Inr (zero_sha []))" by code_simp
  then have "server_run zero_sha ?e demo_cfg (Map.empty, []) (Map.empty, [(zero_sha [], zero_sha [])])"
    using zero_sha_key by (intro server_run.there [OF server_run.here server_step.put_begin])
  then have r: "server_run zero_sha ?e demo_cfg (Map.empty, []) (fs, [(zero_sha [], zero_sha [])])"
    by (rule server_run.there [OF _ server_step.request [OF h]])
  have "cs_enable_exec demo_cfg \<longrightarrow> leaves_no_links (\<lambda>_ _ _. None)" by (simp add: leaves_no_links_def)
  from server_append_only [OF zero_sha_key c this r] r show ?thesis by (auto simp: demo_cfg_def)
qed

text \<open>C26. A read-only server never changes its files, and without the bearer token a request that could
  change them (\<open>PUT\<close>, \<open>POST\<close>) is refused with status 403 and changes nothing.\<close>

theorem server_write_protection:
  assumes "handle_one sha exec cfg u s fs = Inr (resp, fs1)"
  shows "(cs_read_only cfg \<longrightarrow> fs1 = fs) \<and>
     (\<forall>l r h body m w. read_line s = (l, r) \<longrightarrow> split_ws l = m # w \<longrightarrow> read_headers Map.empty r = (h, body) \<longrightarrow>
        m \<in> {''PUT'', ''POST''} \<longrightarrow> \<not> auth_ok h (cs_require_bearer cfg) \<longrightarrow>
        fs1 = fs \<and> (\<exists>b. resp = write_text 403 ''Forbidden'' b))"
proof (intro conjI allI impI)
  assume "cs_read_only cfg"
  with assms show "fs1 = fs" by (cases rule: handle_one_cases) auto
next
  fix l r h body m w
  assume a: "read_line s = (l, r)" "split_ws l = m # w" "read_headers Map.empty r = (h, body)"
    "m \<in> {''PUT'', ''POST''}" "\<not> auth_ok h (cs_require_bearer cfg)"
  have "l \<noteq> []" using a(2) by (auto simp: split_ws_def)
  with a assms have "fs1 = fs \<and> (resp = write_text 403 ''Forbidden'' (''read_only'' @ nl) \<or> resp = write_text 403 ''Forbidden'' (''forbidden'' @ nl))"
    unfolding handle_one_def Let_def a(1) prod.case by (auto split: if_splits)
  then show "fs1 = fs" "\<exists>b. resp = write_text 403 ''Forbidden'' b" by blast+
qed

theorem server_write_protection_witness:
  "\<exists>resp. handle_one zero_sha (\<lambda>_ _ _ _ _. Inl NoRow) (demo_cfg\<lparr>cs_read_only := True\<rparr>) ''1.0''
     (''PUT /v1/exec HTTP/1.1'' @ CRLF @ CRLF) Map.empty = Inr (resp, Map.empty)"
proof -
  let ?h = "handle_one zero_sha (\<lambda>_ _ _ _ _. Inl NoRow) (demo_cfg\<lparr>cs_read_only := True\<rparr>) ''1.0''
     (''PUT /v1/exec HTTP/1.1'' @ CRLF @ CRLF) Map.empty"
  have "\<not> isl ?h" by code_simp
  then obtain resp fs where h: "?h = Inr (resp, fs)" by (cases ?h) auto
  from server_write_protection [OF h] have "fs = Map.empty" by simp
  with h show ?thesis by simp
qed

subsection \<open>Two writers of one mapping\<close>

text \<open>
  \<open>handle_put_action\<close> relies on \<open>rename\<close> to fail when the mapping exists, but \<open>rename\<close> replaces its
  target. Two connections that both pass the check before either of them writes are both
  answered with success, and the mapping of the first is replaced by that of the second.
\<close>

lemma put_action_race:
  assumes "is_key key" "put_action_check cfg s1 key n1 fs = Inr (Inr m1)" "put_action_check cfg s2 key n2 fs = Inr (Inr m2)"
    "put_action_commit cfg u1 key m1 fs = (r1, fs1)" "put_action_commit cfg u2 key m2 fs1 = (r2, fs2)"
  shows "r1 = write_text 200 ''OK'' (''ok'' @ nl)" "r2 = write_text 200 ''OK'' (''ok'' @ nl)"
    "action_at (cs_root cfg) fs1 key = Some (m1 @ nl)" "action_at (cs_root cfg) fs2 key = Some (m2 @ nl)"
  using put_action_commit_effect [OF assms(1,4,1)] put_action_commit_effect [OF assms(1,5,1)] assms(4,5)
  by (auto simp: put_action_commit_def Let_def)

end
