(* ===== verification/Remote_Cache.thy ===== *)
theory Remote_Cache
  imports Env_Cycles Cache_Server
begin

text \<open>
  The client of the cache server (\<open>redo_core/src/remote_cache.rs\<close>): configuration, URLs, the requests and
  the artifact manifest.

  A connection to the server is a function \<open>net\<close> from the bytes of the request and the state of the
  server to the answer and the new state: \<open>Inl\<close> when the connection or the request fails, otherwise the bytes that
  arrive and the error, if any, that a read meets after them (a timeout, a reset). For some theorems it is the
  server of \<open>Cache_Server\<close>. SHA-256 is the parameter \<open>sha\<close>.
\<close>

subsection \<open>Configuration\<close>

definition env_s :: "vars \<Rightarrow> string \<Rightarrow> string option" where
  "env_s vs name =
     (case vs name of
        None \<Rightarrow> None
      | Some v \<Rightarrow> let s = trim v in if s = [] then None else Some s)"

definition env_flag_set :: "vars \<Rightarrow> string \<Rightarrow> bool" where
  "env_flag_set vs name =
     (case vs name of None \<Rightarrow> False | Some v \<Rightarrow> let s = trim v in s \<noteq> [] \<and> s \<noteq> ''0'')"

definition atoi_u64 :: "string \<Rightarrow> nat" where
  "atoi_u64 s = unwrap_or (parse_uint 64 (trim s)) 0"

record remote_url =
  ru_host :: string
  ru_port :: nat
  ru_base_path :: string

definition RemoteUrl_join :: "remote_url \<Rightarrow> string \<Rightarrow> string" where
  "RemoteUrl_join u sfx =
     (if ru_base_path u = [] then ''/''
      else if ends_with ''/'' (ru_base_path u) then ru_base_path u else ru_base_path u @ ''/'')
     @ trim_start_char (CHR ''/'') sfx"

record remote_config =
  rc_url :: remote_url
  rc_timeout :: nat
  rc_bearer_token :: "string option"
  rc_push_enabled :: bool

definition parse_host_port :: "string \<Rightarrow> (string \<times> nat) res" where
  "parse_host_port hostport =
     (case strip_prefix ''['' hostport of
        Some h \<Rightarrow>
          (case split_once (CHR '']'') h of
             None \<Rightarrow> Inl (Msg ''invalid remote URL host'')
           | Some (inside, after) \<Rightarrow>
               Inr (inside, case strip_prefix '':'' (trim_start after) of
                              Some p \<Rightarrow> unwrap_or (parse_uint 16 p) 80
                            | None \<Rightarrow> 80))
      | None \<Rightarrow>
          Inr (case rsplit_once (CHR '':'') hostport of
                 Some (h, p) \<Rightarrow> if p \<noteq> [] \<and> list_all is_digit p then (h, unwrap_or (parse_uint 16 p) 80) else (hostport, 80)
               | None \<Rightarrow> (hostport, 80)))"

definition parse_http_url :: "string \<Rightarrow> remote_url res" where
  "parse_http_url s0 =
     (let s = trim s0 in
      case strip_prefix ''http://'' s of
        None \<Rightarrow> if starts_with ''https://'' s then Inl (Msg ''https URLs are not supported (need http://)'')
                else Inl (Msg ''remote URL must start with http://'')
      | Some rest \<Rightarrow>
          (let (hostport, path) = (case split_once (CHR ''/'') rest of
                                     Some (a, b) \<Rightarrow> (a, ''/'' @ trim_end_char (CHR ''/'') b)
                                   | None \<Rightarrow> (rest, []))
           in rbind (parse_host_port hostport) (\<lambda>(host, port).
                Inr \<lparr>ru_host = host, ru_port = port, ru_base_path = path\<rparr>)))"

definition config_from_env :: "vars \<Rightarrow> remote_config option res" where
  "config_from_env vs =
     (case env_s vs ''REDO_ACTION_CACHE_REMOTE_URL'' of
        None \<Rightarrow> Inr None
      | Some url_s \<Rightarrow>
          rbind (parse_http_url url_s) (\<lambda>url.
            let secs = (case map_option atoi_u64 (env_s vs ''REDO_ACTION_CACHE_REMOTE_TIMEOUT_SECS'') of
                          Some n \<Rightarrow> if n > 0 then n else 5
                        | None \<Rightarrow> 5)
            in Inr (Some \<lparr>rc_url = url, rc_timeout = secs,
                          rc_bearer_token = env_s vs ''REDO_ACTION_CACHE_REMOTE_BEARER_TOKEN'',
                          rc_push_enabled = env_flag_set vs ''REDO_ACTION_CACHE_REMOTE_PUSH''\<rparr>)))"

subsection \<open>Requests\<close>

type_synonym answer = "string \<times> error option"
type_synonym 's net = "string \<Rightarrow> 's \<Rightarrow> answer res \<times> 's"

text \<open>A line that ends because the stream broke: \<open>read_line\<close> fails.\<close>

definition broken_line :: "error option \<Rightarrow> string \<Rightarrow> error option" where
  "broken_line brk line = (if line \<noteq> [] \<and> last line = CHR 0x0A then None else brk)"

function complete_headers :: "string \<Rightarrow> bool" where
  "complete_headers s =
     (let (line, rest) = read_line s in
      if line = CRLF then True
      else if line = [] \<or> last line \<noteq> CHR 0x0A then False
      else complete_headers rest)"
  by pat_completeness auto
termination
proof (relation "measure length")
  fix s x line rest
  assume a: "x = read_line s" "(line, rest) = x" "line \<noteq> CRLF" "\<not> (line = [] \<or> last line \<noteq> CHR 0x0A)"
  then have "read_line s = (line, rest)" by simp
  from read_line_length [OF this] a(4) show "(rest, s) \<in> measure length" by (cases line) auto
qed simp

declare complete_headers.simps [simp del]

text \<open>\<open>read_http_response\<close> on a stream that may break: in the status line, the headers or a body of known length
  that is an error; the rest of a body without a length is what was read (\<open>let _ = r.read_to_end\<close>).\<close>

definition read_answer :: "answer \<Rightarrow> http_response res" where
  "read_answer a =
     (case a of
        (s, None) \<Rightarrow> read_http_response s
      | (s, Some e) \<Rightarrow>
          if \<not> complete_headers (snd (read_line s)) then Inl e
          else case read_http_response s of Inl _ \<Rightarrow> Inl e | Inr resp \<Rightarrow> Inr resp)"

definition auth_headers :: "remote_config \<Rightarrow> (string \<times> string) list" where
  "auth_headers cfg =
     (case rc_bearer_token cfg of None \<Rightarrow> [] | Some t \<Rightarrow> [(''Authorization'', ''Bearer '' @ t)])"

definition http_call ::
  "'s net \<Rightarrow> remote_config \<Rightarrow> string \<Rightarrow> string \<Rightarrow> (string \<times> string) list \<Rightarrow> string option \<Rightarrow> 's \<Rightarrow> http_response res \<times> 's" where
  "http_call net cfg meth path hs body st =
     (case net (write_http_request meth (ru_host (rc_url cfg)) path hs body) st of
        (r, st1) \<Rightarrow> (rbind r read_answer, st1))"

definition get_action_manifest_sha256 :: "'s net \<Rightarrow> remote_config \<Rightarrow> string \<Rightarrow> 's \<Rightarrow> string option res \<times> 's" where
  "get_action_manifest_sha256 net cfg key st =
     (case http_call net cfg ''GET'' (RemoteUrl_join (rc_url cfg) (''v1/actions/'' @ key)) (auth_headers cfg) None st of
        (r, st1) \<Rightarrow>
          (rbind r (\<lambda>resp.
             if hr_status resp = 200 then Inr (manifest_of (hr_body resp))
             else if hr_status resp = 404 then Inr None
             else Inl (Msg ''remote actions GET failed'')), st1))"

definition get_blob_bytes_verified ::
  "(string \<Rightarrow> string) \<Rightarrow> 's net \<Rightarrow> remote_config \<Rightarrow> string \<Rightarrow> 's \<Rightarrow> string res \<times> 's" where
  "get_blob_bytes_verified sha net cfg key st =
     (case http_call net cfg ''GET'' (RemoteUrl_join (rc_url cfg) (''v1/blobs/'' @ key)) (auth_headers cfg) None st of
        (r, st1) \<Rightarrow>
          (rbind r (\<lambda>resp.
             if hr_status resp \<noteq> 200 then Inl (Msg ''remote blobs GET failed'')
             else if sha (hr_body resp) \<noteq> key then Inl (Msg ''digest mismatch'')
             else Inr (hr_body resp)), st1))"

text \<open>
  The streaming download: headers are read by a loop of its own, the body is copied up to the
  content length or the end of the stream. \<open>dest\<close> is the content of the destination file before the
  call; the result is the number of bytes and the content after it (\<open>None\<close>: no such file). The file is created
  before the body is read; when a read fails in the body, what has arrived stays in it.
\<close>

definition contains_sub :: "string \<Rightarrow> string \<Rightarrow> bool" where
  "contains_sub p s \<longleftrightarrow> find_sub p s \<noteq> None"

definition download_header :: "string \<Rightarrow> nat option \<Rightarrow> nat option res" where
  "download_header line clen =
     (case split_once (CHR '':'') line of
        None \<Rightarrow> Inr clen
      | Some (k, v) \<Rightarrow>
          let name = to_ascii_lowercase (trim k);
              clen1 = (if name = ''content-length'' then parse_uint 64 (trim v) else clen)
          in if name = ''transfer-encoding'' \<and> contains_sub ''chunked'' (to_ascii_lowercase v)
             then Inl (Msg ''chunked transfer encoding not supported'')
             else Inr clen1)"

function download_headers :: "error option \<Rightarrow> nat option \<Rightarrow> string \<Rightarrow> (nat option \<times> string) res" where
  "download_headers brk clen s =
     (let (line, rest) = read_line s in
      case broken_line brk line of
        Some e \<Rightarrow> Inl e
      | None \<Rightarrow>
          if line = [] \<or> line = CRLF then Inr (clen, rest)
          else case download_header line clen of
                 Inl e \<Rightarrow> Inl e
               | Inr clen1 \<Rightarrow> download_headers brk clen1 rest)"
  by pat_completeness auto
termination
proof (relation "measure (\<lambda>(b, c, s). length s)")
  fix brk clen s x line rest c1
  assume a: "x = read_line s" "(line, rest) = x" "\<not> (line = [] \<or> line = CRLF)"
  then have "read_line s = (line, rest)" by simp
  from read_line_length [OF this] a(3) show "((brk, c1, rest), brk, clen, s) \<in> measure (\<lambda>(b, c, s). length s)"
    by (cases line) auto
qed simp

declare download_headers.simps [simp del]

definition download_blob_to_file_verified ::
  "(string \<Rightarrow> string) \<Rightarrow> 's net \<Rightarrow> remote_config \<Rightarrow> string \<Rightarrow> string option \<Rightarrow> 's \<Rightarrow> (nat res \<times> string option) \<times> 's" where
  "download_blob_to_file_verified sha net cfg key dest st =
     (case net (write_http_request ''GET'' (ru_host (rc_url cfg))
                  (RemoteUrl_join (rc_url cfg) (''v1/blobs/'' @ key)) (auth_headers cfg) None) st of
        (Inl e, st1) \<Rightarrow> ((Inl e, dest), st1)
      | (Inr (s, brk), st1) \<Rightarrow>
          (let (status_line, r1) = read_line s in
           case broken_line brk status_line of
             Some e \<Rightarrow> (Inl e, dest)
           | None \<Rightarrow>
           if unwrap_or (parse_uint 16 (second_word ''0'' status_line)) 0 \<noteq> 200
           then (Inl (Msg ''remote blobs GET failed''), dest)
           else case download_headers brk None r1 of
                  Inl e \<Rightarrow> (Inl e, dest)
                | Inr (clen, rest) \<Rightarrow>
                    let data = (case clen of None \<Rightarrow> rest | Some n \<Rightarrow> take n rest);
                        whole = (case clen of None \<Rightarrow> False | Some n \<Rightarrow> n \<le> length rest)
                    in case (if whole then None else brk) of
                         Some e \<Rightarrow> (Inl e, Some data)
                       | None \<Rightarrow>
                           if sha data \<noteq> key then (Inl (Msg ''digest mismatch''), None)
                           else (Inr (length data), Some data),
           st1))"

definition put_blob_bytes :: "'s net \<Rightarrow> remote_config \<Rightarrow> string \<Rightarrow> string \<Rightarrow> 's \<Rightarrow> unit res \<times> 's" where
  "put_blob_bytes net cfg key body st =
     (case http_call net cfg ''PUT'' (RemoteUrl_join (rc_url cfg) (''v1/blobs/'' @ key))
             (auth_headers cfg @ [(''Content-Type'', ''application/octet-stream'')]) (Some body) st of
        (r, st1) \<Rightarrow>
          (rbind r (\<lambda>resp. if hr_status resp \<in> {200, 201, 204} then Inr () else Inl (Msg ''remote blobs PUT failed'')), st1))"

definition put_action_mapping :: "'s net \<Rightarrow> remote_config \<Rightarrow> string \<Rightarrow> string \<Rightarrow> 's \<Rightarrow> unit res \<times> 's" where
  "put_action_mapping net cfg key man st =
     (case http_call net cfg ''PUT'' (RemoteUrl_join (rc_url cfg) (''v1/actions/'' @ key))
             (auth_headers cfg @ [(''Content-Type'', ''application/json'')]) (Some (action_body man)) st of
        (r, st1) \<Rightarrow>
          (rbind r (\<lambda>resp.
             if hr_status resp \<in> {200, 201, 204} then Inr ()
             else if hr_status resp = 409 then Inl (Msg ''remote action mapping conflict (409)'')
             else if hr_status resp = 403 then Inl (Msg ''remote action mapping forbidden (403)'')
             else Inl (Msg ''remote actions PUT failed'')), st1))"

definition post_exec :: "'s net \<Rightarrow> remote_config \<Rightarrow> string \<Rightarrow> 's \<Rightarrow> string res \<times> 's" where
  "post_exec net cfg body st =
     (case http_call net cfg ''POST'' (RemoteUrl_join (rc_url cfg) ''v1/exec'')
             (auth_headers cfg @ [(''Content-Type'', ''application/json'')]) (Some body) st of
        (r, st1) \<Rightarrow>
          (rbind r (\<lambda>resp.
             if hr_status resp = 200 then Inr (hr_body resp)
             else if hr_status resp = 403 then Inl (Msg ''remote exec forbidden (403)'')
             else if hr_status resp = 404 then Inl (Msg ''remote exec endpoint not found (404)'')
             else if hr_status resp = 501 then Inl (Msg ''remote exec unavailable (501)'')
             else Inl (Msg ''remote exec failed'')), st1))"

subsection \<open>The artifact manifest\<close>

record artifact_manifest =
  am_blob_sha256 :: string
  am_size :: nat
  am_mode :: "32 word"

definition parse_artifact_manifest_v1 :: "string \<Rightarrow> artifact_manifest res" where
  "parse_artifact_manifest_v1 body =
     (if unwrap_or (json_get_string body ''schema'') [] \<noteq> ''redo-artifact-manifest:v1''
      then Inl (Msg ''unsupported manifest schema'')
      else if unwrap_or (json_get_string body ''kind'') [] \<noteq> ''file''
      then Inl (Msg ''unsupported manifest kind'')
      else case strip_prefix ''sha256:'' (unwrap_or (json_get_string body ''digest'') []) of
             None \<Rightarrow> Inl (Msg ''invalid manifest digest'')
           | Some h \<Rightarrow>
               Inr \<lparr>am_blob_sha256 = h, am_size = unwrap_or (json_get_u64 body ''size'') 0,
                    am_mode = word_of_nat (unwrap_or (json_get_u64 body ''mode'') 0)\<rparr>)"

end
