(* ===== verification/Remote_Props.thy ===== *)
theory Remote_Props
  imports Remote_Cache
begin

text \<open>
  The remote cache client (\<open>Remote_Cache\<close>) talking to the cache server (\<open>Cache_Server\<close>): what a
  request looks like to the server, and the round trips of blobs, action mappings and artifact
  manifests.
\<close>

subsection \<open>A request as the server reads it\<close>

definition header_ok :: "string \<times> string \<Rightarrow> bool" where
  "header_ok kv \<longleftrightarrow> one_line (fst kv) \<and> one_line (snd kv) \<and> CHR '':'' \<notin> set (fst kv) \<and> fst kv \<noteq> [] \<and> fst kv \<noteq> [CHR 0x0D]"

definition header_map :: "(string \<times> string) list \<Rightarrow> headers \<Rightarrow> headers" where
  "header_map hs h = fold (\<lambda>kv h. h(to_ascii_lowercase (trim (fst kv)) \<mapsto> trim (snd kv))) hs h"

lemma read_headers_list:
  "list_all header_ok hs \<Longrightarrow> read_headers h (concat (map header_line hs) @ CRLF @ b) = (header_map hs h, b)"
proof (induction hs arbitrary: h)
  case (Cons kv hs)
  obtain k v where kv: "kv = (k, v)" by fastforce
  with Cons show ?case
    using read_headers_line [of k v h "concat (map header_line hs) @ CRLF @ b"]
    by (simp add: header_ok_def header_map_def del: append_Cons append.simps)
qed (simp add: header_map_def read_headers_end [simplified])

definition request_headers :: "string \<Rightarrow> (string \<times> string) list \<Rightarrow> string option \<Rightarrow> (string \<times> string) list" where
  "request_headers host hs body =
     (''Host'', host) # (''Connection'', ''close'') #
     (case body of None \<Rightarrow> [] | Some b \<Rightarrow> [(''Content-Length'', show_nat (length b))]) @ hs"

lemma write_http_request_eq:
  "write_http_request m host path hs body =
     (m @ '' '' @ path @ '' HTTP/1.1'' @ [CHR 0x0D]) @ CHR 0x0A #
     concat (map header_line (request_headers host hs body)) @ CRLF @ unwrap_or body []"
  by (simp add: write_http_request_def request_headers_def split: option.splits)

definition word_ok :: "string \<Rightarrow> bool" where
  "word_ok w \<longleftrightarrow> w \<noteq> [] \<and> (\<forall>c \<in> set w. \<not> is_ws c)"

lemma word_ok_one_line: "word_ok w \<Longrightarrow> one_line w"
  by (auto simp: word_ok_def one_line_def is_ws_def)

text \<open>The parts of a request: its line, the two words of it, the headers and the body.\<close>

lemma request_read:
  assumes "word_ok m" "word_ok path" "one_line host" "list_all header_ok hs"
  shows "\<exists>l r. read_line (write_http_request m host path hs body) = (l, r) \<and> l \<noteq> []
     \<and> split_ws l = [m, path, ''HTTP/1.1'']
     \<and> read_headers Map.empty r = (header_map (request_headers host hs body) Map.empty, unwrap_or body [])"
proof (intro exI conjI)
  let ?l = "m @ '' '' @ path @ '' HTTP/1.1'' @ [CHR 0x0D]"
  let ?r = "concat (map header_line (request_headers host hs body)) @ CRLF @ unwrap_or body []"
  show "read_line (write_http_request m host path hs body) = (?l @ [CHR 0x0A], ?r)"
    unfolding write_http_request_eq
    using assms(1,2) by (intro read_line_append) (auto simp: word_ok_def is_ws_def)
  show "?l @ [CHR 0x0A] \<noteq> []" by simp
  have "split_ws (m @ CHR '' '' # path @ CHR '' '' # ''HTTP/1.1'' @ CRLF) = m # path # split_ws (''HTTP/1.1'' @ CRLF)"
    using assms(1,2) by (simp add: split_ws_cons word_ok_def)
  moreover have "split_ws (''HTTP/1.1'' @ CRLF) = [''HTTP/1.1'']" by code_simp
  ultimately show "split_ws (?l @ [CHR 0x0A]) = [m, path, ''HTTP/1.1'']" by simp
  have "list_all header_ok (request_headers host hs body)"
    using assms(3,4) by (simp add: request_headers_def header_ok_def split: option.splits)
  then show "read_headers Map.empty ?r = (header_map (request_headers host hs body) Map.empty, unwrap_or body [])"
    by (rule read_headers_list)
qed

subsection \<open>The connection of a client to a server\<close>

definition server_net ::
  "(string \<Rightarrow> string) \<Rightarrow> (server_config \<Rightarrow> string \<Rightarrow> string \<Rightarrow> nat \<Rightarrow> files \<Rightarrow> (string \<times> files) res) \<Rightarrow>
   server_config \<Rightarrow> string \<Rightarrow> files net" where
  "server_net sha exec scfg uniq req fs =
     (case handle_one sha exec scfg uniq req fs of Inl e \<Rightarrow> (Inl e, fs) | Inr (resp, fs1) \<Rightarrow> (Inr (resp, None), fs1))"

text \<open>A client that may write to the server: its token is the required one, if any, and its
  configuration is that of a URL without a path.\<close>

definition client_ok :: "remote_config \<Rightarrow> server_config \<Rightarrow> bool" where
  "client_ok cfg scfg \<longleftrightarrow>
     ru_base_path (rc_url cfg) = [] \<and> one_line (ru_host (rc_url cfg)) \<and> \<not> cs_read_only scfg
     \<and> (case rc_bearer_token cfg of None \<Rightarrow> True | Some t \<Rightarrow> word_ok t)
     \<and> (cs_require_bearer scfg = None \<or> cs_require_bearer scfg = rc_bearer_token cfg)"

lemma header_names:
  "to_ascii_lowercase (trim ''Host'') = ''host''" "to_ascii_lowercase (trim ''Connection'') = ''connection''"
  "to_ascii_lowercase (trim ''Content-Length'') = ''content-length''"
  "to_ascii_lowercase (trim ''Content-Type'') = ''content-type''"
  "to_ascii_lowercase (trim ''Authorization'') = ''authorization''"
  by code_simp+

lemma trim_bearer: 
  assumes "word_ok t" shows "trim (''Bearer '' @ t) = ''Bearer '' @ t"
proof -
  have "trim_start (''Bearer '' @ t) = ''Bearer '' @ t" by (simp add: trim_start_def is_ws_def)
  moreover have "trim_end (''Bearer '' @ t) = ''Bearer '' @ t"
    using assms by (intro trim_end_id) (auto simp: word_ok_def)
  ultimately show ?thesis by (simp add: trim_def)
qed

definition client_headers :: "remote_config \<Rightarrow> string option \<Rightarrow> (string \<times> string) list" where
  "client_headers cfg ctype = auth_headers cfg @ (case ctype of None \<Rightarrow> [] | Some c \<Rightarrow> [(''Content-Type'', c)])"

lemma client_header_map:
  assumes "client_ok cfg scfg" "h = header_map (request_headers host (client_headers cfg ctype) body) Map.empty"
  shows "h ''content-length'' = map_option (\<lambda>b. show_nat (length b)) body" "auth_ok h (cs_require_bearer scfg)"
proof -
  show "h ''content-length'' = map_option (\<lambda>b. show_nat (length b)) body"
    unfolding assms(2)
    by (simp add: header_map_def request_headers_def client_headers_def auth_headers_def header_names split: option.splits)
  show "auth_ok h (cs_require_bearer scfg)"
  proof (cases "rc_bearer_token cfg")
    case (Some t)
    then have "word_ok t" using assms(1) by (simp add: client_ok_def)
    then have "h ''authorization'' = Some (''Bearer '' @ t)"
      unfolding assms(2) using Some trim_bearer [of t]
      by (simp add: header_map_def request_headers_def client_headers_def auth_headers_def header_names split: option.splits)
    then show ?thesis
      using assms(1) Some trim_bearer [OF \<open>word_ok t\<close>] by (auto simp: auth_ok_def client_ok_def)
  qed (use assms(1) in \<open>auto simp: auth_ok_def client_ok_def\<close>)
qed

lemma client_headers_ok:
  assumes "client_ok cfg scfg" "ctype = None \<or> (\<exists>c. ctype = Some c \<and> one_line c)"
  shows "list_all header_ok (client_headers cfg ctype)"
  using assms
  by (auto simp: client_headers_def auth_headers_def header_ok_def client_ok_def word_ok_one_line split: option.splits)

lemma key_word_ok: "is_key k \<Longrightarrow> word_ok k"
  using hex_not(1) by (auto simp: is_key_def is_hex_def word_ok_def list_all_iff)

lemma key_trim_slash: "is_key k \<Longrightarrow> trim_end_char (CHR ''/'') k = k"
  by (intro trim_end_char_id) (auto simp: is_key_def hex_last)

lemma join_simple: "ru_base_path u = [] \<Longrightarrow> RemoteUrl_join u (''v1/'' @ s) = ''/v1/'' @ s"
  by (simp add: RemoteUrl_join_def trim_start_char_def)

text \<open>What the server does with a request of such a client: it reaches the handler of the path, with the
  key and the body that were sent.\<close>

lemma key_exec_path:
  assumes "is_key k"
  shows "trim_end_char (CHR ''/'') (''/v1/blobs/'' @ k) \<noteq> ''/v1/exec''" "trim_end_char (CHR ''/'') (''/v1/actions/'' @ k) \<noteq> ''/v1/exec''"
proof -
  have "k \<noteq> []" "last k \<noteq> CHR ''/''" using assms by (auto simp: is_key_def hex_last)
  then show "trim_end_char (CHR ''/'') (''/v1/blobs/'' @ k) \<noteq> ''/v1/exec''" "trim_end_char (CHR ''/'') (''/v1/actions/'' @ k) \<noteq> ''/v1/exec''"
    by (simp_all add: trim_end_char_id)
qed

lemma handle_one_key:
  assumes "read_line s = (l, r)" "l \<noteq> []" "read_headers Map.empty r = (h, body)" "is_key k"
    "\<not> cs_read_only scfg" "auth_ok h (cs_require_bearer scfg)"
    "n = unwrap_or (Option.bind (h ''content-length'') (parse_uint 64)) 0"
  shows "split_ws l = [''GET'', ''/v1/blobs/'' @ k, v] \<Longrightarrow> handle_one sha exec scfg u s fs = Inr (handle_get_blob scfg k fs, fs)"
    "split_ws l = [''PUT'', ''/v1/blobs/'' @ k, v] \<Longrightarrow>
       handle_one sha exec scfg u s fs = Inr (handle_put_blob sha scfg u body k n fs)"
    "split_ws l = [''GET'', ''/v1/actions/'' @ k, v] \<Longrightarrow> handle_one sha exec scfg u s fs = Inr (handle_get_action scfg k fs, fs)"
    "split_ws l = [''PUT'', ''/v1/actions/'' @ k, v] \<Longrightarrow>
       handle_one sha exec scfg u s fs = handle_put_action scfg u body k n fs"
  using assms key_exec_path [OF assms(4), simplified] key_trim_slash [OF assms(4)]
  by (simp_all add: handle_one_def second_word_def is_key_def)

definition client_request :: "remote_config \<Rightarrow> string \<Rightarrow> string \<Rightarrow> string option \<Rightarrow> string option \<Rightarrow> string" where
  "client_request cfg m path ctype body = write_http_request m (ru_host (rc_url cfg)) path (client_headers cfg ctype) body"

lemma client_request_read:
  assumes "client_ok cfg scfg" "word_ok m" "word_ok path" "ctype = None \<or> (\<exists>c. ctype = Some c \<and> one_line c)"
    "length (unwrap_or body []) < 2 ^ 64"
  shows "\<exists>l r h. read_line (client_request cfg m path ctype body) = (l, r) \<and> l \<noteq> []
     \<and> split_ws l = [m, path, ''HTTP/1.1''] \<and> read_headers Map.empty r = (h, unwrap_or body [])
     \<and> auth_ok h (cs_require_bearer scfg) \<and> \<not> cs_read_only scfg
     \<and> length (unwrap_or body []) = unwrap_or (Option.bind (h ''content-length'') (parse_uint 64)) 0"
proof -
  let ?h = "header_map (request_headers (ru_host (rc_url cfg)) (client_headers cfg ctype) body) Map.empty"
  have host: "one_line (ru_host (rc_url cfg))" and ro: "\<not> cs_read_only scfg" using assms(1) by (auto simp: client_ok_def)
  have "length (unwrap_or body []) = unwrap_or (Option.bind (?h ''content-length'') (parse_uint 64)) 0"
    using client_header_map(1) [OF assms(1) refl] assms(5) by (cases body) (simp_all add: parse_uint_show)
  then show ?thesis
    using request_read [OF assms(2,3) host client_headers_ok [OF assms(1,4)], of body] ro client_header_map(2) [OF assms(1) refl]
    unfolding client_request_def by blast
qed

lemma client_words:
  "word_ok ''PUT''" "word_ok ''GET''" "is_key k \<Longrightarrow> word_ok (''/v1/blobs/'' @ k)" "is_key k \<Longrightarrow> word_ok (''/v1/actions/'' @ k)"
  using key_word_ok [of k] by (auto simp: word_ok_def is_ws_def)

lemma server_net_client:
  assumes "client_ok cfg scfg" "is_key k" "one_line c" "length b < 2 ^ 64"
  shows "server_net sha exec scfg u (client_request cfg ''PUT'' (''/v1/blobs/'' @ k) (Some c) (Some b)) fs =
     (case handle_put_blob sha scfg u b k (length b) fs of (resp, fs1) \<Rightarrow> (Inr (resp, None), fs1))"
    and "server_net sha exec scfg u (client_request cfg ''GET'' (''/v1/blobs/'' @ k) None None) fs =
     (Inr (handle_get_blob scfg k fs, None), fs)"
    and "server_net sha exec scfg u (client_request cfg ''PUT'' (''/v1/actions/'' @ k) (Some c) (Some b)) fs =
     (case handle_put_action scfg u b k (length b) fs of Inl e \<Rightarrow> (Inl e, fs) | Inr (resp, fs1) \<Rightarrow> (Inr (resp, None), fs1))"
    and "server_net sha exec scfg u (client_request cfg ''GET'' (''/v1/actions/'' @ k) None None) fs =
     (Inr (handle_get_action scfg k fs, None), fs)"
proof -
  note put = client_request_read [OF assms(1) client_words(1) _ disjI2, where body = "Some b"]
    and get = client_request_read [OF assms(1) client_words(2) _ disjI1, where body = None]
  show "server_net sha exec scfg u (client_request cfg ''PUT'' (''/v1/blobs/'' @ k) (Some c) (Some b)) fs =
     (case handle_put_blob sha scfg u b k (length b) fs of (resp, fs1) \<Rightarrow> (Inr (resp, None), fs1))"
    using put [OF client_words(3) [OF assms(2)], where ctype = "Some c"] handle_one_key(2) [OF _ _ _ assms(2)] assms(3,4)
    by (fastforce simp: server_net_def)
  show "server_net sha exec scfg u (client_request cfg ''GET'' (''/v1/blobs/'' @ k) None None) fs =
     (Inr (handle_get_blob scfg k fs, None), fs)"
    using get [OF client_words(3) [OF assms(2)], where ctype = None] handle_one_key(1) [OF _ _ _ assms(2)]
    by (fastforce simp: server_net_def)
  show "server_net sha exec scfg u (client_request cfg ''PUT'' (''/v1/actions/'' @ k) (Some c) (Some b)) fs =
     (case handle_put_action scfg u b k (length b) fs of Inl e \<Rightarrow> (Inl e, fs) | Inr (resp, fs1) \<Rightarrow> (Inr (resp, None), fs1))"
    using put [OF client_words(4) [OF assms(2)], where ctype = "Some c"] handle_one_key(4) [OF _ _ _ assms(2)] assms(3,4)
    by (fastforce simp: server_net_def)
  show "server_net sha exec scfg u (client_request cfg ''GET'' (''/v1/actions/'' @ k) None None) fs =
     (Inr (handle_get_action scfg k fs, None), fs)"
    using get [OF client_words(4) [OF assms(2)], where ctype = None] handle_one_key(3) [OF _ _ _ assms(2)]
    by (fastforce simp: server_net_def)
qed

subsection \<open>Round trips\<close>

lemma read_small_response:
  assumes "code < 2 ^ 16" "one_line reason" "length body < 2 ^ 64"
  shows "read_http_response (write_text code reason body) = Inr \<lparr>hr_status = code, hr_body = body\<rparr>"
    "read_http_response (write_json code reason body) = Inr \<lparr>hr_status = code, hr_body = body\<rparr>"
  using read_write_status [OF assms(1,2) _ assms(3)] by (simp_all add: write_text_def write_json_def)

lemma read_answer_None [simp]: "read_answer (s, None) = read_http_response s"
  by (simp add: read_answer_def)

lemma broken_line_None [simp]: "broken_line None line = None"
  by (simp add: broken_line_def)

lemma client_calls:
  assumes "client_ok cfg scfg"
  shows "RemoteUrl_join (rc_url cfg) (''v1/blobs/'' @ k) = ''/v1/blobs/'' @ k"
    "RemoteUrl_join (rc_url cfg) (''v1/actions/'' @ k) = ''/v1/actions/'' @ k"
    "http_call net cfg m path (auth_headers cfg) None st =
       (case net (client_request cfg m path None None) st of (r, st1) \<Rightarrow> (rbind r read_answer, st1))"
    "http_call net cfg m path (auth_headers cfg @ [(''Content-Type'', c)]) (Some b) st =
       (case net (client_request cfg m path (Some c) (Some b)) st of (r, st1) \<Rightarrow> (rbind r read_answer, st1))"
  using assms by (simp_all add: client_ok_def RemoteUrl_join_def trim_start_char_def http_call_def client_request_def client_headers_def)

lemma put_blob_bytes_served:
  assumes "client_ok cfg scfg" "is_key (sha b)" "length b < 2 ^ 64"
  shows "\<exists>fs1. put_blob_bytes (server_net sha exec scfg u) cfg (sha b) b fs = (Inr (), fs1)
     \<and> adds_blob (cs_root scfg) (sha b) b fs fs1"
proof -
  obtain resp fs1 where h: "handle_put_blob sha scfg u b (sha b) (length b) fs = (resp, fs1)" by fastforce
  have e: "adds_blob (cs_root scfg) (sha b) b fs fs1" "resp = write_text 200 ''OK'' (''ok'' @ nl)"
    using put_blob_effect [OF assms(2) h] by auto
  have "read_http_response resp = Inr \<lparr>hr_status = 200, hr_body = ''ok'' @ nl\<rparr>"
    unfolding e(2) by (rule read_small_response) (simp_all add: nl_def)
  then have "put_blob_bytes (server_net sha exec scfg u) cfg (sha b) b fs = (Inr (), fs1)"
    unfolding put_blob_bytes_def client_calls [OF assms(1)]
    using server_net_client(1) [OF assms(1,2) _ assms(3)] h by simp
  with e(1) show ?thesis by blast
qed

lemma get_blob_served:
  assumes "client_ok cfg scfg" "is_key (sha b)" "length b < 2 ^ 64" "blob_at (cs_root scfg) fs (sha b) = Some b"
  shows "get_blob_bytes_verified sha (server_net sha exec scfg u) cfg (sha b) fs = (Inr b, fs)"
proof -
  have "handle_get_blob scfg (sha b) fs = write_status 200 ''OK'' b ''application/octet-stream''"
    using assms(4) by (simp add: handle_get_blob_def blob_at_def)
  then have "read_http_response (handle_get_blob scfg (sha b) fs) = Inr \<lparr>hr_status = 200, hr_body = b\<rparr>"
    using read_write_status [of 200 "''OK''" "''application/octet-stream''" b] assms(3) by simp
  then show ?thesis
    unfolding get_blob_bytes_verified_def client_calls [OF assms(1)]
    using server_net_client(2) [OF assms(1,2), where c = "[]" and b = "[]"] by simp
qed

text \<open>The remote cache keeps what is put into it: after a successful \<open>put_blob_bytes\<close>, and any blobs put
  after it, fetching by digest over HTTP returns exactly the bytes that were sent. (\<open>sha\<close> is a digest
  of 64 hexadecimal digits without a collision for these bytes; the client is authorised.)\<close>

theorem remote_blob_roundtrip:
  assumes "client_ok cfg scfg" "is_key (sha b)" "\<And>c. sha c = sha b \<Longrightarrow> c = b" "length b < 2 ^ 64"
    "cas_ok sha (cs_root scfg) fs"
  shows "\<exists>fs1. put_blob_bytes (server_net sha exec scfg u) cfg (sha b) b fs = (Inr (), fs1) \<and>
     (\<forall>others. get_blob_bytes_verified sha (server_net sha exec scfg u) cfg (sha b)
         (fold (server_stash sha (cs_root scfg) u) others fs1) =
       (Inr b, fold (server_stash sha (cs_root scfg) u) others fs1))"
proof -
  obtain fs1 where p: "put_blob_bytes (server_net sha exec scfg u) cfg (sha b) b fs = (Inr (), fs1)"
    and a: "adds_blob (cs_root scfg) (sha b) b fs fs1" using put_blob_bytes_served [where sha = sha and b = b, OF assms(1,2,4)] by blast
  obtain c where c: "blob_at (cs_root scfg) fs1 (sha b) = Some c"
    using a assms(2) unfolding adds_blob_def by (cases "blob_at (cs_root scfg) fs (sha b)") auto
  have "cas_ok sha (cs_root scfg) fs1" using grows_cas_ok [OF adds_blob_grows [where sha = sha, OF a refl] assms(5)] .
  with c assms(2,3) have c: "blob_at (cs_root scfg) fs1 (sha b) = Some b" unfolding cas_ok_def by metis
  have "blob_at (cs_root scfg) (fold (server_stash sha (cs_root scfg) u) others fs1) (sha b) = Some b" for others
    using server_blobs.stashes_keep [OF assms(2) c] .
  with p get_blob_served [where sha = sha and b = b, OF assms(1,2,4)] show ?thesis by blast
qed

definition demo_sha :: "string \<Rightarrow> string" where
  "demo_sha b = replicate 64 (if b = ''hello'' then CHR ''1'' else CHR ''0'')"

definition demo_client :: remote_config where
  "demo_client = \<lparr>rc_url = \<lparr>ru_host = ''127.0.0.1'', ru_port = 8080, ru_base_path = []\<rparr>, rc_timeout = 5,
                  rc_bearer_token = Some ''token'', rc_push_enabled = True\<rparr>"

lemma demo_sha_key: "is_key (demo_sha b)"
  by (simp add: is_key_def demo_sha_def is_hex_def list_all_iff is_ascii_hexdigit_def is_digit_def)

lemma demo_client_ok: "client_ok demo_client (demo_cfg\<lparr>cs_require_bearer := Some ''token''\<rparr>)"
  by code_simp

theorem remote_blob_roundtrip_witness:
  "\<exists>fs1. put_blob_bytes (server_net demo_sha (\<lambda>_ _ _ _ _. Inl NoRow) (demo_cfg\<lparr>cs_require_bearer := Some ''token''\<rparr>) ''1.0'')
      demo_client (demo_sha ''hello'') ''hello'' Map.empty = (Inr (), fs1)
    \<and> get_blob_bytes_verified demo_sha (server_net demo_sha (\<lambda>_ _ _ _ _. Inl NoRow) (demo_cfg\<lparr>cs_require_bearer := Some ''token''\<rparr>) ''1.0'')
      demo_client (demo_sha ''hello'') fs1 = (Inr ''hello'', fs1)"
proof -
  have inj: "c = ''hello''" if "demo_sha c = demo_sha ''hello''" for c
    using that by (auto simp: demo_sha_def split: if_splits)
  have l: "length ''hello'' < (2 :: nat) ^ 64" by simp
  have "cas_ok demo_sha (cs_root (demo_cfg\<lparr>cs_require_bearer := Some ''token''\<rparr>)) Map.empty"
    by (simp add: cas_ok_def blob_at_def)
  from remote_blob_roundtrip [where sha = demo_sha and b = "''hello''", OF demo_client_ok demo_sha_key inj l this,
      where exec = "\<lambda>_ _ _ _ _. Inl NoRow" and u = "''1.0''"]
  show ?thesis by (metis fold_simps(1))
qed

text \<open>A fetch that succeeds returns bytes of the requested digest, whatever the other side sends.\<close>

lemma verified_fetch:
  assumes "get_blob_bytes_verified sha net cfg key st = (Inr b, st1)"
  shows "sha b = key"
  using assms by (auto simp: get_blob_bytes_verified_def rbind_Inr_iff split: prod.splits if_splits)

lemma read_line_split: "read_line s = (l, r) \<Longrightarrow> s = l @ r"
  by (induction s arbitrary: l r) (auto split: if_splits prod.splits)

lemma download_headers_suffix: "download_headers brk clen s = Inr (c, r) \<Longrightarrow> \<exists>pre. s = pre @ r"
proof (induction brk clen s rule: download_headers.induct)
  case (1 brk clen s)
  obtain line rest where l: "read_line s = (line, rest)" by fastforce
  have s: "s = line @ rest" using read_line_split [OF l] .
  show ?case
  proof (cases "line = [] \<or> line = CRLF")
    case True
    then show ?thesis using 1(2) s l by (subst (asm) download_headers.simps) (auto split: option.splits)
  next
    case False
    then obtain c1 where c: "broken_line brk line = None" "download_header line clen = Inr c1" "download_headers brk c1 rest = Inr (c, r)"
      using 1(2) l by (subst (asm) download_headers.simps) (auto split: option.splits sum.splits)
    then obtain pre where "rest = pre @ r" using 1(1) [OF l [symmetric] refl c(1) False c(2)] by blast
    then show ?thesis using s by (intro exI [of _ "line @ pre"]) simp
  qed
qed

lemma body_suffix: "read_line s = (l, r) \<Longrightarrow> download_headers brk None r = Inr (c, rest) \<Longrightarrow> \<exists>pre. s = pre @ rest"
  using read_line_split [of s l r] download_headers_suffix [of brk None r c rest] by (metis append.assoc)



subsection \<open>Action mappings\<close>

lemma key_no_quote: "is_key k \<Longrightarrow> CHR ''\"'' \<notin> set k"
  using hex_not(2) by (auto simp: is_key_def is_hex_def list_all_iff)

lemma manifest_of_body: "is_key man \<Longrightarrow> manifest_of (action_body man) = Some man"
  using split_once_append [of "CHR ''\"''" man "''}''"] key_no_quote [of man]
  by (simp add: manifest_of_def json_get_string_def action_body_def quoted_def trim_start_def is_ws_def)

lemma first_line_key: 
  assumes "is_key man" shows "first_line (man @ nl) = man"
proof -
  have w: "word_ok man" using assms by (rule key_word_ok)
  then have n: "CHR 0x0A \<notin> set man" "last man \<noteq> CHR 0x0D" "man \<noteq> []" by (auto simp: word_ok_def is_ws_def)
  have "split_on (CHR 0x0A) (man @ nl) = [man, []]"
    using split_on_append_sep [of "CHR 0x0A" man "[]"] split_on_id [OF n(1)] by (simp add: nl_def)
  then have "str_lines (man @ nl) = [man]" using n(2) by (simp add: str_lines_def strip_cr_def)
  then show ?thesis using w by (simp add: first_line_def trim_id word_ok_def)
qed

lemma get_action_served:
  assumes "client_ok cfg scfg" "is_key key" "is_key man" "action_at (cs_root scfg) fs key = Some (man @ nl)"
  shows "get_action_manifest_sha256 (server_net sha exec scfg u) cfg key fs = (Inr (Some man), fs)"
proof -
  have "handle_get_action scfg key fs = write_json 200 ''OK'' (action_body man)"
    using assms(3,4) by (auto simp: handle_get_action_def action_at_def first_line_key is_key_def)
  moreover have "length (action_body man) < 2 ^ 64" using assms(3) by (simp add: action_body_def is_key_def)
  ultimately have "read_http_response (handle_get_action scfg key fs) = Inr \<lparr>hr_status = 200, hr_body = action_body man\<rparr>"
    using read_small_response(2) [of 200 "''OK''"] by simp
  then show ?thesis
    unfolding get_action_manifest_sha256_def client_calls [OF assms(1)]
    using server_net_client(4) [OF assms(1,2), where c = "[]" and b = "[]"] manifest_of_body [OF assms(3)] by simp
qed

lemma put_action_check_body:
  assumes "is_key man"
  shows "put_action_check scfg (action_body man) key (length (action_body man)) fs =
     (case action_at (cs_root scfg) fs key of
        Some existing \<Rightarrow>
          if first_line existing = man then Inr (Inl (write_text 200 ''OK'' (''ok'' @ nl)))
          else Inr (Inl (write_text 409 ''Conflict'' (''conflict'' @ nl)))
      | None \<Rightarrow> Inr (Inr man))"
  using assms manifest_of_body [OF assms]
  by (auto simp: put_action_check_def action_at_def is_key_def Let_def split: option.splits)

lemma put_action_served:
  assumes "client_ok cfg scfg" "is_key key" "is_key man"
    "handle_put_action scfg u (action_body man) key (length (action_body man)) fs = Inr (write_text code reason (b @ nl), fs1)"
    "code < 2 ^ 16" "one_line reason" "length b < 2 ^ 63"
  shows "put_action_mapping (server_net sha exec scfg u) cfg key man fs =
     (if code \<in> {200, 201, 204} then Inr ()
      else if code = 409 then Inl (Msg ''remote action mapping conflict (409)'')
      else if code = 403 then Inl (Msg ''remote action mapping forbidden (403)'')
      else Inl (Msg ''remote actions PUT failed''), fs1)"
proof -
  have "length (action_body man) < 2 ^ 64" using assms(3) by (simp add: action_body_def is_key_def)
  moreover have "read_http_response (write_text code reason (b @ nl)) = Inr \<lparr>hr_status = code, hr_body = b @ nl\<rparr>"
    using assms(5-7) by (intro read_small_response) (simp_all add: nl_def)
  ultimately show ?thesis
    unfolding put_action_mapping_def client_calls [OF assms(1)]
    using server_net_client(3) [OF assms(1,2), where c = "''application/json''" and b = "action_body man"] assms(4) by simp
qed

text \<open>Action mappings are written once. Putting a mapping for a new key makes the server return that
  manifest from then on; putting it again succeeds and changes nothing; putting another manifest for
  the key is an error for the client and changes nothing.\<close>

theorem remote_action_roundtrip:
  assumes "client_ok cfg scfg" "is_key key" "is_key man"
  shows "(action_at (cs_root scfg) fs key = None \<longrightarrow>
       (\<exists>fs1. put_action_mapping (server_net sha exec scfg u) cfg key man fs = (Inr (), fs1) \<and>
              get_action_manifest_sha256 (server_net sha exec scfg u) cfg key fs1 = (Inr (Some man), fs1))) \<and>
     (\<forall>old. action_at (cs_root scfg) fs key = Some old \<longrightarrow>
       put_action_mapping (server_net sha exec scfg u) cfg key man fs =
         (if first_line old = man then Inr () else Inl (Msg ''remote action mapping conflict (409)''), fs))"
proof (intro conjI allI impI)
  assume none: "action_at (cs_root scfg) fs key = None"
  obtain fs1 where c: "put_action_commit scfg u key man fs = (write_text 200 ''OK'' (''ok'' @ nl), fs1)"
    by (simp add: put_action_commit_def Let_def)
  have "handle_put_action scfg u (action_body man) key (length (action_body man)) fs = Inr (write_text 200 ''OK'' (''ok'' @ nl), fs1)"
    using put_action_check_body [OF assms(3)] none c by (simp add: handle_put_action_def)
  from put_action_served [OF assms this]
  have p: "put_action_mapping (server_net sha exec scfg u) cfg key man fs = (Inr (), fs1)" by simp
  have "action_at (cs_root scfg) fs1 key = Some (man @ nl)"
    using put_action_commit_effect(2) [OF assms(2) c assms(2)] by simp
  with p get_action_served [OF assms] show "\<exists>fs1. put_action_mapping (server_net sha exec scfg u) cfg key man fs = (Inr (), fs1) \<and>
      get_action_manifest_sha256 (server_net sha exec scfg u) cfg key fs1 = (Inr (Some man), fs1)" by blast
next
  fix old assume old: "action_at (cs_root scfg) fs key = Some old"
  show "put_action_mapping (server_net sha exec scfg u) cfg key man fs =
      (if first_line old = man then Inr () else Inl (Msg ''remote action mapping conflict (409)''), fs)"
  proof (cases "first_line old = man")
    case True
    then have "handle_put_action scfg u (action_body man) key (length (action_body man)) fs = Inr (write_text 200 ''OK'' (''ok'' @ nl), fs)"
      using put_action_check_body [OF assms(3)] old by (simp add: handle_put_action_def)
    from put_action_served [OF assms this] True show ?thesis by simp
  next
    case False
    then have "handle_put_action scfg u (action_body man) key (length (action_body man)) fs =
        Inr (write_text 409 ''Conflict'' (''conflict'' @ nl), fs)"
      using put_action_check_body [OF assms(3)] old by (simp add: handle_put_action_def)
    from put_action_served [OF assms this] False show ?thesis by simp
  qed
qed

theorem remote_action_roundtrip_witness:
  "\<exists>fs1. put_action_mapping (server_net demo_sha (\<lambda>_ _ _ _ _. Inl NoRow) (demo_cfg\<lparr>cs_require_bearer := Some ''token''\<rparr>) ''1.0'')
      demo_client (demo_sha ''key'') (demo_sha ''hello'') Map.empty = (Inr (), fs1)
    \<and> get_action_manifest_sha256 (server_net demo_sha (\<lambda>_ _ _ _ _. Inl NoRow) (demo_cfg\<lparr>cs_require_bearer := Some ''token''\<rparr>) ''1.0'')
      demo_client (demo_sha ''key'') fs1 = (Inr (Some (demo_sha ''hello'')), fs1)"
  using remote_action_roundtrip [OF demo_client_ok demo_sha_key demo_sha_key, where sha = demo_sha and u = "''1.0''"
      and exec = "\<lambda>_ _ _ _ _. Inl NoRow" and fs = Map.empty]
  by (simp add: action_at_def)

subsection \<open>Artifact manifests\<close>

lemma find_sub_skip:
  assumes "c \<notin> set a"
  shows "find_sub (c # p) (a @ b) = (case find_sub (c # p) b of None \<Rightarrow> None | Some (x, y) \<Rightarrow> Some (a @ x, y))"
  using assms by (induction a) (auto split: option.splits)

lemma takeWhile_digits: "\<not> is_digit c \<Longrightarrow> takeWhile is_digit (show_nat n @ c # s) = show_nat n"
  using show_nat_digits [of n] by (auto simp: list_all_iff takeWhile_append)

lemma trim_start_digits: "trim_start (show_nat n @ s) = show_nat n @ s"
  using show_nat_digits [of n] is_digit_not_ws show_nat_not_Nil [of n]
  by (intro trim_start_id) (auto simp: list_all_iff hd_append)

text \<open>The manifest the server writes for an output is read back by the client with the same digest, size
  and mode.\<close>

theorem manifest_roundtrip:
  assumes "is_key hex" "sz < 2 ^ 64" "mode < 2 ^ 32"
  shows "parse_artifact_manifest_v1 (manifest_json hex sz mode) =
    Inr \<lparr>am_blob_sha256 = hex, am_size = sz, am_mode = word_of_nat mode\<rparr>"
proof -
  have q: "CHR ''\"'' \<notin> set hex" using key_no_quote [OF assms(1)] .
  have qn: "CHR ''\"'' \<notin> set (show_nat sz)" by (rule show_nat_notin) (simp add: is_digit_def)
  have "json_get_string (manifest_json hex sz mode) ''schema'' = Some ''redo-artifact-manifest:v1''"
    "json_get_string (manifest_json hex sz mode) ''kind'' = Some ''file''"
    by (simp_all add: json_get_string_def manifest_json_def quoted_def trim_start_def is_ws_def)
  moreover have "json_get_string (manifest_json hex sz mode) ''digest'' = Some (''sha256:'' @ hex)"
    using split_once_append [of "CHR ''\"''" "''sha256:'' @ hex", simplified, OF q]
    by (simp add: json_get_string_def manifest_json_def quoted_def trim_start_def is_ws_def)
  moreover have "json_get_u64 (manifest_json hex sz mode) ''size'' = Some sz"
    using assms(2) by (simp add: json_get_u64_def manifest_json_def quoted_def find_sub_skip [OF q] trim_start_digits
        takeWhile_digits is_digit_def parse_uint_show Let_def)
  moreover have "json_get_u64 (manifest_json hex sz mode) ''mode'' = Some mode"
    using assms(3) by (simp add: json_get_u64_def manifest_json_def quoted_def find_sub_skip [OF q] find_sub_skip [OF qn]
        trim_start_digits takeWhile_digits is_digit_def parse_uint_show Let_def)
  ultimately show ?thesis
    by (simp add: parse_artifact_manifest_v1_def)
qed

theorem manifest_roundtrip_witness:
  "parse_artifact_manifest_v1 (manifest_json (demo_sha ''hello'') 5 420) =
    Inr \<lparr>am_blob_sha256 = demo_sha ''hello'', am_size = 5, am_mode = 420\<rparr>"
  using manifest_roundtrip [OF demo_sha_key, of 5 420 "''hello''"] by simp

subsection \<open>Downloads, uploads and mappings served\<close>

text \<open>The headers of an answer, as the download loop reads them.\<close>

lemma download_headers_line:
  assumes "one_line k" "one_line v" "CHR '':'' \<notin> set k" "k \<noteq> []" "to_ascii_lowercase (trim k) \<noteq> ''transfer-encoding''"
  shows "download_headers None clen (header_line (k, v) @ r) =
     download_headers None (if to_ascii_lowercase (trim k) = ''content-length'' then parse_uint 64 (trim v) else clen) r"
proof -
  let ?l = "k @ '': '' @ v @ [CHR 0x0D]"
  have "read_line (?l @ CHR 0x0A # r) = (?l @ [CHR 0x0A], r)"
    using assms(1,2) by (intro read_line_append) (auto simp: one_line_def)
  then have rl: "read_line (header_line (k, v) @ r) = (k @ CHR '':'' # (CHR '' '' # v @ CRLF), r)"
    by (simp add: header_line_def)
  have "split_once (CHR '':'') (k @ CHR '':'' # (CHR '' '' # v @ CRLF)) = Some (k, CHR '' '' # v @ CRLF)"
    using assms(3) by (rule split_once_append)
  then have "download_header (k @ CHR '':'' # (CHR '' '' # v @ CRLF)) clen =
      Inr (if to_ascii_lowercase (trim k) = ''content-length'' then parse_uint 64 (trim v) else clen)"
    unfolding download_header_def using assms(5) by (simp add: trim_value Let_def)
  moreover have "k @ CHR '':'' # (CHR '' '' # v @ CRLF) \<noteq> CRLF" using assms(4) by (cases k) auto
  ultimately show ?thesis by (subst download_headers.simps) (simp add: rl)
qed

lemma download_headers_end: "download_headers None clen (CRLF @ r) = Inr (clen, r)"
  by (subst download_headers.simps) simp

lemma download_served:
  assumes "client_ok cfg scfg" "is_key (sha b)" "length b < 2 ^ 64" "blob_at (cs_root scfg) fs (sha b) = Some b"
  shows "download_blob_to_file_verified sha (server_net sha exec scfg u) cfg (sha b) dest fs = ((Inr (length b), Some b), fs)"
proof -
  have h: "handle_get_blob scfg (sha b) fs = write_status 200 ''OK'' b ''application/octet-stream''"
    using assms(4) by (simp add: handle_get_blob_def blob_at_def)
  obtain sl where rl: "read_line (write_status 200 ''OK'' b ''application/octet-stream'') =
      (sl, header_line (''Content-Length'', show_nat (length b)) @ header_line (''Content-Type'', ''application/octet-stream'') @
        header_line (''Connection'', ''close'') @ CRLF @ b)" "second_word ''0'' sl = show_nat 200"
    by (rule status_line_read [of "''OK''"]) (simp add: one_line_def)
  have dh: "download_headers None None (header_line (''Content-Length'', show_nat (length b)) @ header_line (''Content-Type'', ''application/octet-stream'') @
        header_line (''Connection'', ''close'') @ CRLF @ b) = Inr (Some (length b), b)"
    using response_header_names download_headers_end assms(3)
    by (simp add: download_headers_line parse_uint_show del: append_Cons append.simps)
  have "write_http_request ''GET'' (ru_host (rc_url cfg)) (''/v1/blobs/'' @ sha b) (auth_headers cfg) None =
      client_request cfg ''GET'' (''/v1/blobs/'' @ sha b) None None"
    by (simp add: client_request_def client_headers_def)
  then show ?thesis
    unfolding download_blob_to_file_verified_def client_calls [OF assms(1)]
    using server_net_client(2) [OF assms(1,2), where c = "[]" and b = "[]"] h rl dh parse_uint_show [of 200 16] by simp
qed

text \<open>A blob that was put is there afterwards, and so are those that were there before.\<close>

lemma put_blob_kept:
  assumes "client_ok cfg scfg" "is_key (sha b)" "\<And>c. sha c = sha b \<Longrightarrow> c = b" "length b < 2 ^ 64" "cas_ok sha (cs_root scfg) fs"
  obtains fs1 where "put_blob_bytes (server_net sha exec scfg u) cfg (sha b) b fs = (Inr (), fs1)"
    "blob_at (cs_root scfg) fs1 (sha b) = Some b" "cas_ok sha (cs_root scfg) fs1"
    "\<forall>k. is_key k \<longrightarrow> action_at (cs_root scfg) fs1 k = action_at (cs_root scfg) fs k"
    "\<forall>k c. is_key k \<longrightarrow> blob_at (cs_root scfg) fs k = Some c \<longrightarrow> blob_at (cs_root scfg) fs1 k = Some c"
proof -
  obtain fs1 where p: "put_blob_bytes (server_net sha exec scfg u) cfg (sha b) b fs = (Inr (), fs1)"
    and a: "adds_blob (cs_root scfg) (sha b) b fs fs1"
    using put_blob_bytes_served [where sha = sha and b = b, OF assms(1,2,4)] by blast
  have ok: "cas_ok sha (cs_root scfg) fs1" using grows_cas_ok [OF adds_blob_grows [where sha = sha, OF a refl] assms(5)] .
  obtain c where "blob_at (cs_root scfg) fs1 (sha b) = Some c"
    using a assms(2) unfolding adds_blob_def by (cases "blob_at (cs_root scfg) fs (sha b)") auto
  with ok assms(2,3) have c: "blob_at (cs_root scfg) fs1 (sha b) = Some b" unfolding cas_ok_def by metis
  show thesis using a by (intro that [OF p c ok]) (auto simp: adds_blob_def)
qed

lemma put_action_new:
  assumes "client_ok cfg scfg" "is_key key" "is_key man" "action_at (cs_root scfg) fs key = None"
  obtains fs1 where "put_action_mapping (server_net sha exec scfg u) cfg key man fs = (Inr (), fs1)"
    "action_at (cs_root scfg) fs1 key = Some (man @ nl)"
    "\<forall>k. is_key k \<longrightarrow> blob_at (cs_root scfg) fs1 k = blob_at (cs_root scfg) fs k"
proof -
  obtain fs1 where c: "put_action_commit scfg u key man fs = (write_text 200 ''OK'' (''ok'' @ nl), fs1)"
    by (simp add: put_action_commit_def Let_def)
  have "handle_put_action scfg u (action_body man) key (length (action_body man)) fs = Inr (write_text 200 ''OK'' (''ok'' @ nl), fs1)"
    using put_action_check_body [OF assms(3)] assms(4) c by (simp add: handle_put_action_def)
  from put_action_served [OF assms(1-3) this]
  have "put_action_mapping (server_net sha exec scfg u) cfg key man fs = (Inr (), fs1)" by simp
  then show thesis
    using put_action_commit_effect [OF assms(2) c] assms(2) by (intro that) auto
qed

end
