(* ===== verification/Action_Cache.thy ===== *)
theory Action_Cache
  imports State Blob_Store "HOL-Library.Multiset"
begin

text \<open>
  The local action cache (\<open>redo_core/src/action_cache.rs\<close>): action keys, the object store under
  \<open>.redo/action_cache\<close> and its garbage collection.

  SHA-256 is the parameter \<open>sha\<close>, the version string the parameter \<open>tag\<close>. The objects are a map from
  paths to contents with modification times; the order in which a directory is listed is the
  parameter \<open>rd\<close>.
\<close>

definition DEFAULT_MAX_BYTES :: nat where "DEFAULT_MAX_BYTES = 1024 * 1024 * 1024"

definition ac_env_flag_set :: "vars \<Rightarrow> string \<Rightarrow> bool" where
  "ac_env_flag_set vs name = (case vs name of Some v \<Rightarrow> v \<noteq> [] \<and> v \<noteq> ''0'' | None \<Rightarrow> False)"

definition enabled_default_on :: "vars \<Rightarrow> bool" where
  "enabled_default_on vs \<longleftrightarrow> \<not> ac_env_flag_set vs ''REDO_NO_ACTION_CACHE''"

definition max_bytes :: "vars \<Rightarrow> nat" where
  "max_bytes vs =
     (case vs ''REDO_ACTION_CACHE_MAX_BYTES'' of
        Some v \<Rightarrow> if trim v \<noteq> [] then unwrap_or (parse_uint 64 (trim v)) DEFAULT_MAX_BYTES else DEFAULT_MAX_BYTES
      | None \<Rightarrow> DEFAULT_MAX_BYTES)"

definition root_dir :: "env \<Rightarrow> string" where
  "root_dir e = path_join (path_join (e_base e) ''.redo'') ''action_cache''"

definition objects_dir :: "env \<Rightarrow> string" where
  "objects_dir e = path_join (root_dir e) ''objects''"

definition ac_bucket_dir :: "env \<Rightarrow> string \<Rightarrow> string" where
  "ac_bucket_dir e key_hex = path_join (objects_dir e) (if length key_hex \<ge> 2 then take 2 key_hex else ''00'')"

definition ac_blob_path :: "env \<Rightarrow> string \<Rightarrow> string" where
  "ac_blob_path e key_hex = path_join (ac_bucket_dir e key_hex) (key_hex @ ''.blob'')"

definition ac_meta_path :: "env \<Rightarrow> string \<Rightarrow> string" where
  "ac_meta_path e key_hex = path_join (ac_bucket_dir e key_hex) (key_hex @ ''.meta'')"

definition tmp_path_near :: "nat \<Rightarrow> string \<Rightarrow> string \<Rightarrow> string" where
  "tmp_path_near pid target sfx =
     (case rsplit_once (CHR ''/'') target of
        Some (d, fname) \<Rightarrow> d @ ''/'' @ ''.'' @ fname @ ''.'' @ show_nat pid @ ''.'' @ sfx
      | None \<Rightarrow> ''.'' @ target @ ''.'' @ show_nat pid @ ''.'' @ sfx)"

subsection \<open>Action keys\<close>

record action_key =
  ak_hex :: string

definition ActionKey_prefix :: "action_key \<Rightarrow> string" where
  "ActionKey_prefix k = (if length (ak_hex k) \<ge> 12 then take 12 (ak_hex k) else ak_hex k)"

datatype eligibility = Eligible | SkipAlways

definition hash_str :: "string \<Rightarrow> string" where
  "hash_str s = le_bytes 8 (length s) @ s"

text \<open>\<open>sort_by\<close> on the pair of mode and name.\<close>

definition sort_deps :: "(char \<times> redo_file) list \<Rightarrow> (char \<times> redo_file) list" where
  "sort_deps deps = sort_key (\<lambda>(m, f). m # f_name f) deps"

text \<open>The loops over the dependencies: \<open>None\<close> is the early return with \<open>SkipAlways\<close>.\<close>

fun hash_deps_v0 :: "fsview \<Rightarrow> env \<Rightarrow> (char \<times> redo_file) list \<Rightarrow> string option" where
  "hash_deps_v0 fs e [] = Some []"
| "hash_deps_v0 fs e ((mode, dep) # ds) =
     (if f_name dep = ALWAYS then None
      else map_option (\<lambda>r. [mode] @ hash_str (f_name dep) @ hash_str (read_stamp fs e dep) @ r) (hash_deps_v0 fs e ds))"

definition finish_key :: "(string \<Rightarrow> string) \<Rightarrow> string \<Rightarrow> string option \<Rightarrow> eligibility \<times> action_key" where
  "finish_key sha head body =
     (case body of
        None \<Rightarrow> (SkipAlways, \<lparr>ak_hex = []\<rparr>)
      | Some b \<Rightarrow> (Eligible, \<lparr>ak_hex = sha (head @ b)\<rparr>))"

definition key_head_v0 :: "string list \<Rightarrow> nat \<Rightarrow> string" where
  "key_head_v0 strs n = concat (map hash_str strs) @ le_bytes 8 n"

definition compute_action_key_v0 ::
  "(string \<Rightarrow> string) \<Rightarrow> string \<Rightarrow> fsview \<Rightarrow> env \<Rightarrow> string \<Rightarrow> (char \<times> redo_file) list \<Rightarrow> eligibility \<times> action_key" where
  "compute_action_key_v0 sha tag fs e target deps =
     (let ds = sort_deps deps in
      finish_key sha (key_head_v0 [''redo-action-key-v0'', tag, target] (length ds)) (hash_deps_v0 fs e ds))"

definition compute_action_key_v0_policy ::
  "(string \<Rightarrow> string) \<Rightarrow> string \<Rightarrow> fsview \<Rightarrow> env \<Rightarrow> string \<Rightarrow> string \<Rightarrow> (char \<times> redo_file) list \<Rightarrow> eligibility \<times> action_key" where
  "compute_action_key_v0_policy sha tag fs e policy target deps =
     (let ds = sort_deps deps in
      finish_key sha (key_head_v0 [''redo-action-key-v0'', ''policy='' @ policy, tag, target] (length ds)) (hash_deps_v0 fs e ds))"

text \<open>
  Keys for the remote cache hash the content of dependencies. \<open>read_link\<close> and \<open>content\<close> are what
  reading a link and a file give (\<open>None\<close>: an error). The states of a dependency that the code tells
  apart are a datatype; \<open>observe_dep\<close> is the inspection and \<open>dep_state_bytes\<close> the hashing. An inspection that
  fails for another reason than that there is no file ends the code with an error; the view of the files has no such failures.
\<close>

datatype ref_state = RefMissing | RefDir | RefFile string nat | RefOther

datatype dep_state = DepMissing | DepDir | DepSymlink string ref_state | DepFile string nat

definition sha256_file_hex :: "(string \<Rightarrow> string) \<Rightarrow> (string \<rightharpoonup> string) \<Rightarrow> string \<Rightarrow> string res" where
  "sha256_file_hex sha content p =
     (case content p of None \<Rightarrow> Inl (IoError p) | Some b \<Rightarrow> Inr (sha b))"

definition observe_ref :: "(string \<Rightarrow> string) \<Rightarrow> fsview \<Rightarrow> (string \<rightharpoonup> string) \<Rightarrow> string \<Rightarrow> ref_state res" where
  "observe_ref sha fs content p =
     (case fs_stat fs p of
        None \<Rightarrow> Inr RefMissing
      | Some rm \<Rightarrow>
          if m_is_dir rm then Inr RefDir
          else if m_is_file rm then rbind (sha256_file_hex sha content p) (\<lambda>d. Inr (RefFile d (m_mode rm AND 511)))
          else Inr RefOther)"

definition observe_dep ::
  "(string \<Rightarrow> string) \<Rightarrow> fsview \<Rightarrow> (string \<rightharpoonup> string) \<Rightarrow> (string \<rightharpoonup> string) \<Rightarrow> env \<Rightarrow> string \<Rightarrow> dep_state res" where
  "observe_dep sha fs read_link content e name =
     (let p = path_join (e_base e) name in
      case fs_lstat fs p of
        None \<Rightarrow> Inr DepMissing
      | Some m \<Rightarrow>
          if m_is_dir m then Inr DepDir
          else if m_is_symlink m
          then rbind (observe_ref sha fs content p) (\<lambda>r.
                 Inr (DepSymlink (unwrap_or (read_link p) ''READLINK_FAILED'') r))
          else if m_is_file m
          then rbind (sha256_file_hex sha content p) (\<lambda>d. Inr (DepFile d (m_mode m AND 511)))
          else Inl (Msg ''unsupported dependency type''))"

fun ref_state_bytes :: "ref_state \<Rightarrow> string" where
  "ref_state_bytes RefMissing = hash_str ''REF_MISSING''"
| "ref_state_bytes RefDir = hash_str ''REF_DIR''"
| "ref_state_bytes (RefFile d m) = hash_str ''REF_FILE'' @ hash_str d @ le_bytes 8 m"
| "ref_state_bytes RefOther = hash_str ''REF_OTHER''"

fun dep_state_bytes :: "dep_state \<Rightarrow> string" where
  "dep_state_bytes DepMissing = hash_str ''MISSING''"
| "dep_state_bytes DepDir = hash_str ''DIR''"
| "dep_state_bytes (DepSymlink l r) = hash_str ''SYMLINK'' @ hash_str l @ ref_state_bytes r"
| "dep_state_bytes (DepFile d m) = hash_str ''FILE'' @ hash_str d @ le_bytes 8 m"

fun hash_deps_v1 ::
  "(string \<Rightarrow> dep_state res) \<Rightarrow> (char \<times> redo_file) list \<Rightarrow> string option res" where
  "hash_deps_v1 look [] = Inr (Some [])"
| "hash_deps_v1 look ((mode, dep) # ds) =
     (if f_name dep = ALWAYS then Inr None
      else rbind (look (f_name dep)) (\<lambda>s.
           rbind (hash_deps_v1 look ds) (\<lambda>r.
             Inr (map_option (\<lambda>b. [mode] @ hash_str (f_name dep) @ dep_state_bytes s @ b) r))))"

definition compute_action_key_v1_remote ::
  "(string \<Rightarrow> string) \<Rightarrow> string \<Rightarrow> string \<Rightarrow> string \<Rightarrow> (string \<Rightarrow> dep_state res) \<Rightarrow> string \<Rightarrow> (char \<times> redo_file) list
   \<Rightarrow> (eligibility \<times> action_key) res" where
  "compute_action_key_v1_remote sha tag os arch look target deps =
     (let ds = sort_deps deps in
      rbind (hash_deps_v1 look ds) (\<lambda>b.
        Inr (finish_key sha (key_head_v0 [''redo-action-key-v1-remote'', tag, os, arch, target] (length ds)) b)))"

definition compute_action_key_v1_remote_policy ::
  "(string \<Rightarrow> string) \<Rightarrow> string \<Rightarrow> string \<Rightarrow> string \<Rightarrow> (string \<Rightarrow> dep_state res) \<Rightarrow> string \<Rightarrow> string \<Rightarrow> (char \<times> redo_file) list
   \<Rightarrow> (eligibility \<times> action_key) res" where
  "compute_action_key_v1_remote_policy sha tag os arch look policy target deps =
     (let ds = sort_deps deps in
      rbind (hash_deps_v1 look ds) (\<lambda>b.
        Inr (finish_key sha
          (key_head_v0 [''redo-action-key-v1-remote'', ''policy='' @ policy, tag, os, arch, target] (length ds)) b)))"

subsection \<open>The object store\<close>

type_synonym objs = "string \<rightharpoonup> string \<times> nat"

record cached_meta =
  cm_mode :: nat
  cm_size :: nat
  cm_sha256 :: string

definition meta_text :: "cached_meta \<Rightarrow> string" where
  "meta_text m =
     ''mode='' @ show_nat (cm_mode m) @ [CHR 0x0A] @ ''size='' @ show_nat (cm_size m) @ [CHR 0x0A] @
     ''sha256='' @ cm_sha256 m @ [CHR 0x0A]"

text \<open>Writing through a temporary file: \<open>create_new\<close> fails when it exists; \<open>rename\<close> replaces.\<close>

definition write_meta_atomically :: "nat \<Rightarrow> nat \<Rightarrow> string \<Rightarrow> cached_meta \<Rightarrow> objs \<Rightarrow> objs res" where
  "write_meta_atomically pid now path m o1 =
     (let tmp = tmp_path_near pid path ''meta.tmp'' in
      if o1 tmp \<noteq> None then Inl (IoError tmp)
      else Inr ((o1(path \<mapsto> (meta_text m, now)))(tmp := None)))"

definition write_blob_from_file_atomically ::
  "(string \<Rightarrow> string) \<Rightarrow> nat \<Rightarrow> nat \<Rightarrow> string \<Rightarrow> string \<Rightarrow> objs \<Rightarrow> ((nat \<times> string) \<times> objs) res" where
  "write_blob_from_file_atomically sha pid now dest src o1 =
     (let tmp = tmp_path_near pid dest ''blob.tmp'' in
      if o1 tmp \<noteq> None then Inl (IoError tmp)
      else Inr ((length src, sha src), (o1(dest \<mapsto> (src, now)))(tmp := None)))"

definition meta_line :: "string \<Rightarrow> nat option \<times> nat option \<times> string option \<Rightarrow> nat option \<times> nat option \<times> string option" where
  "meta_line line acc =
     (case acc of (mode, sz, h) \<Rightarrow>
        (case strip_prefix ''mode='' line of
           Some v \<Rightarrow> (parse_uint 32 (trim v), sz, h)
         | None \<Rightarrow>
             (case strip_prefix ''size='' line of
                Some v \<Rightarrow> (mode, parse_uint 64 (trim v), h)
              | None \<Rightarrow>
                  (case strip_prefix ''sha256='' line of
                     Some v \<Rightarrow> (mode, sz, if trim v \<noteq> [] then Some (trim v) else h)
                   | None \<Rightarrow> (mode, sz, h)))))"

definition lookup :: "env \<Rightarrow> action_key \<Rightarrow> objs \<Rightarrow> (string \<times> cached_meta) option" where
  "lookup e key o1 =
     (if ak_hex key = [] then None
      else case (o1 (ac_blob_path e (ak_hex key)), o1 (ac_meta_path e (ak_hex key))) of
        (Some _, Some (meta_s, _)) \<Rightarrow>
          (case fold meta_line (str_lines meta_s) (None, None, None) of
             (mode, sz, h) \<Rightarrow>
               Some (ac_blob_path e (ak_hex key),
                     \<lparr>cm_mode = unwrap_or mode 420, cm_size = unwrap_or sz 0, cm_sha256 = unwrap_or h []\<rparr>))
      | _ \<Rightarrow> None)"

text \<open>\<open>materialize\<close>: the bytes and the mode the destination gets.\<close>

definition materialize :: "objs \<Rightarrow> string \<Rightarrow> cached_meta \<Rightarrow> (nat \<times> string \<times> nat) res" where
  "materialize o1 blob m =
     (case o1 blob of None \<Rightarrow> Inl (IoError blob) | Some (b, _) \<Rightarrow> Inr (length b, b, cm_mode m))"

subsection \<open>Garbage collection\<close>

record obj_entry =
  oe_blob :: string
  oe_meta :: string
  oe_size :: nat
  oe_mtime :: nat

fun trim_end_matches :: "string \<Rightarrow> string \<Rightarrow> nat \<Rightarrow> string" where
  "trim_end_matches p s 0 = s"
| "trim_end_matches p s (Suc n) =
     (if p \<noteq> [] \<and> ends_with p s then trim_end_matches p (take (length s - length p) s) n else s)"

definition collect_bucket :: "(string \<Rightarrow> string list option) \<Rightarrow> objs \<Rightarrow> string \<Rightarrow> obj_entry list" where
  "collect_bucket rd o1 p =
     (case rd p of
        None \<Rightarrow> []
      | Some names \<Rightarrow>
          concat (map (\<lambda>name.
            if \<not> ends_with ''.blob'' name then []
            else case o1 (path_join p name) of
                   None \<Rightarrow> []
                 | Some (b, mt) \<Rightarrow>
                     [\<lparr>oe_blob = path_join p name,
                       oe_meta = path_join p (trim_end_matches ''.blob'' name (length name) @ ''.meta''),
                       oe_size = length b, oe_mtime = mt\<rparr>]) names))"

definition collect_objects :: "env \<Rightarrow> (string \<Rightarrow> string list option) \<Rightarrow> objs \<Rightarrow> obj_entry list" where
  "collect_objects e rd o1 =
     (case rd (objects_dir e) of
        None \<Rightarrow> []
      | Some buckets \<Rightarrow> concat (map (\<lambda>b. collect_bucket rd o1 (path_join (objects_dir e) b)) buckets))"

text \<open>The order of eviction: oldest first, of the same age the largest first.\<close>

definition evict_before :: "obj_entry \<Rightarrow> obj_entry \<Rightarrow> bool" where
  "evict_before a b \<longleftrightarrow> oe_mtime a < oe_mtime b \<or> (oe_mtime a = oe_mtime b \<and> oe_size b \<le> oe_size a)"

fun insert_obj :: "obj_entry \<Rightarrow> obj_entry list \<Rightarrow> obj_entry list" where
  "insert_obj x [] = [x]"
| "insert_obj x (y # ys) = (if evict_before x y then x # y # ys else y # insert_obj x ys)"

definition sort_objs :: "obj_entry list \<Rightarrow> obj_entry list" where
  "sort_objs xs = foldr insert_obj xs []"

text \<open>The loop: the entries to delete and those to keep.\<close>

fun evict :: "nat \<Rightarrow> nat \<Rightarrow> obj_entry list \<Rightarrow> obj_entry list \<times> obj_entry list" where
  "evict maxb tot [] = ([], [])"
| "evict maxb tot (x # xs) =
     (if tot \<le> maxb then ([], x # xs)
      else case evict maxb (tot - oe_size x) xs of (del, keep) \<Rightarrow> (x # del, keep))"

definition remove_entry :: "obj_entry \<Rightarrow> objs \<Rightarrow> objs" where
  "remove_entry x o1 = o1(oe_blob x := None, oe_meta x := None)"

definition total_size :: "obj_entry list \<Rightarrow> nat" where
  "total_size xs = sum_list (map oe_size xs)"

definition maybe_gc :: "env \<Rightarrow> nat \<Rightarrow> (objs \<Rightarrow> string \<Rightarrow> string list option) \<Rightarrow> objs \<Rightarrow> objs" where
  "maybe_gc e maxb rd o1 =
     (if maxb = 0 then o1
      else let xs = collect_objects e (rd o1) o1 in
           if total_size xs \<le> maxb then o1
           else fold remove_entry (fst (evict maxb (total_size xs) (sort_objs xs))) o1)"

definition store ::
  "(string \<Rightarrow> string) \<Rightarrow> env \<Rightarrow> nat \<Rightarrow> (objs \<Rightarrow> string \<Rightarrow> string list option) \<Rightarrow> nat \<Rightarrow> nat \<Rightarrow> action_key \<Rightarrow> string option \<Rightarrow> nat
   \<Rightarrow> objs \<Rightarrow> (nat \<times> objs) res" where
  "store sha e maxb rd pid now key src mode o1 =
     (if ak_hex key = [] then Inl (Msg ''empty action key'')
      else let bp = ac_blob_path e (ak_hex key); mp = ac_meta_path e (ak_hex key) in
      case (o1 bp, o1 mp) of
        (Some (b, _), Some _) \<Rightarrow> Inr (length b, o1)
      | _ \<Rightarrow>
          (case src of
             None \<Rightarrow> Inl (IoError ''metadata'')
           | Some content \<Rightarrow>
               rbind (write_blob_from_file_atomically sha pid now bp content o1) (\<lambda>((wrote, h), o2).
                 let o3 = (case write_meta_atomically pid now mp
                                 \<lparr>cm_mode = mode, cm_size = length content, cm_sha256 = h\<rparr> o2 of
                             Inl _ \<Rightarrow> o2 | Inr o3 \<Rightarrow> o3)
                 in Inr (wrote, maybe_gc e maxb rd o3))))"

subsection \<open>The serialisation is injective\<close>

definition short :: "string \<Rightarrow> bool" where
  "short s \<longleftrightarrow> length s < 2 ^ 64"

lemma hash_str_append:
  assumes "short a" "short b"
  shows "hash_str a @ x = hash_str b @ y \<longleftrightarrow> a = b \<and> x = y"
proof
  assume h: "hash_str a @ x = hash_str b @ y"
  then have "le_bytes 8 (length a) = le_bytes 8 (length b)" "a @ x = b @ y"
    unfolding hash_str_def by simp_all
  then have "length a = length b"
    using assms le_bytes_inject [of "length a" 8 "length b"] by (simp add: short_def)
  with \<open>a @ x = b @ y\<close> show "a = b \<and> x = y" by simp
qed simp

lemma hash_strs_append:
  assumes "list_all short as" "list_all short bs" "length as = length bs"
  shows "concat (map hash_str as) @ x = concat (map hash_str bs) @ y \<longleftrightarrow> as = bs \<and> x = y"
  using assms(3,1,2) by (induction as bs rule: list_induct2) (auto simp: hash_str_append)

lemma key_head_append:
  assumes "list_all short as" "list_all short bs" "length as = length bs" "m < 2 ^ 64" "n < 2 ^ 64"
  shows "key_head_v0 as m @ x = key_head_v0 bs n @ y \<longleftrightarrow> as = bs \<and> m = n \<and> x = y"
proof -
  have "le_bytes 8 m @ x = le_bytes 8 n @ y \<longleftrightarrow> m = n \<and> x = y"
    using le_bytes_inject [of m 8 n] assms(4,5) by simp
  then show ?thesis using hash_strs_append [OF assms(1-3)] by (simp add: key_head_v0_def)
qed

lemma short_literals [simp]: "short []" "short (c # s) \<longleftrightarrow> Suc (length s) < 2 ^ 64"
  by (simp_all add: short_def)

text \<open>Every state of a dependency is recognised from its bytes, whatever follows.\<close>

definition ref_short :: "ref_state \<Rightarrow> bool" where
  "ref_short r = (case r of RefFile d m \<Rightarrow> short d \<and> m < 2 ^ 64 | _ \<Rightarrow> True)"

definition state_short :: "dep_state \<Rightarrow> bool" where
  "state_short s =
     (case s of DepSymlink l r \<Rightarrow> short l \<and> ref_short r | DepFile d m \<Rightarrow> short d \<and> m < 2 ^ 64 | _ \<Rightarrow> True)"

lemma ref_state_bytes_append:
  assumes "ref_short r" "ref_short s"
  shows "ref_state_bytes r @ x = ref_state_bytes s @ y \<longleftrightarrow> r = s \<and> x = y"
  using assms by (cases r; cases s) (auto simp: hash_str_append le_bytes_inject ref_short_def)

lemma dep_state_bytes_append:
  assumes "state_short r" "state_short s"
  shows "dep_state_bytes r @ x = dep_state_bytes s @ y \<longleftrightarrow> r = s \<and> x = y"
  using assms by (cases r; cases s) (auto simp: hash_str_append le_bytes_inject ref_state_bytes_append state_short_def)

text \<open>What the bytes of a list of dependencies determine.\<close>

lemma hash_deps_v0_inject:
  assumes "hash_deps_v0 fs e ds = Some b" "hash_deps_v0 fs' e' ds' = Some b" "length ds = length ds'"
    "\<forall>d \<in> set ds. short (f_name (snd d)) \<and> short (read_stamp fs e (snd d))"
    "\<forall>d \<in> set ds'. short (f_name (snd d)) \<and> short (read_stamp fs' e' (snd d))"
  shows "map (\<lambda>(m, f). (m, f_name f, read_stamp fs e f)) ds = map (\<lambda>(m, f). (m, f_name f, read_stamp fs' e' f)) ds'"
  using assms(3,1,2,4,5)
proof (induction ds ds' arbitrary: b rule: list_induct2)
  case (Cons d ds d' ds')
  obtain m f m' f' where d: "d = (m, f)" "d' = (m', f')" by fastforce
  obtain r where r: "hash_deps_v0 fs e ds = Some r" "b = m # hash_str (f_name f) @ hash_str (read_stamp fs e f) @ r"
    using Cons.prems(1) d by (auto split: if_splits)
  obtain r' where r': "hash_deps_v0 fs' e' ds' = Some r'" "b = m' # hash_str (f_name f') @ hash_str (read_stamp fs' e' f') @ r'"
    using Cons.prems(2) d by (auto split: if_splits)
  have "m = m' \<and> f_name f = f_name f' \<and> read_stamp fs e f = read_stamp fs' e' f' \<and> r = r'"
    using r(2) r'(2) Cons.prems(3,4) d by (auto simp: hash_str_append)
  then show ?case using Cons.IH [of r] r(1) r'(1) Cons.prems(3,4) d by simp
qed simp

lemma hash_deps_v1_inject:
  assumes "hash_deps_v1 look ds = Inr (Some b)" "hash_deps_v1 look' ds' = Inr (Some b)" "length ds = length ds'"
    "\<forall>d \<in> set ds. short (f_name (snd d)) \<and> (\<forall>s. look (f_name (snd d)) = Inr s \<longrightarrow> state_short s)"
    "\<forall>d \<in> set ds'. short (f_name (snd d)) \<and> (\<forall>s. look' (f_name (snd d)) = Inr s \<longrightarrow> state_short s)"
  shows "map (\<lambda>(m, f). (m, f_name f, look (f_name f))) ds = map (\<lambda>(m, f). (m, f_name f, look' (f_name f))) ds'"
  using assms(3,1,2,4,5)
proof (induction ds ds' arbitrary: b rule: list_induct2)
  case (Cons d ds d' ds')
  obtain m f m' f' where d: "d = (m, f)" "d' = (m', f')" by fastforce
  obtain s r where r: "look (f_name f) = Inr s" "hash_deps_v1 look ds = Inr (Some r)"
    "b = m # hash_str (f_name f) @ dep_state_bytes s @ r"
    using Cons.prems(1) d by (auto simp: rbind_Inr_iff split: if_splits)
  obtain s' r' where r': "look' (f_name f') = Inr s'" "hash_deps_v1 look' ds' = Inr (Some r')"
    "b = m' # hash_str (f_name f') @ dep_state_bytes s' @ r'"
    using Cons.prems(2) d by (auto simp: rbind_Inr_iff split: if_splits)
  have "state_short s" "state_short s'" using r(1) r'(1) Cons.prems(3,4) d by auto
  then have "m = m' \<and> f_name f = f_name f' \<and> s = s' \<and> r = r'"
    using r(3) r'(3) Cons.prems(3,4) d by (auto simp: hash_str_append dep_state_bytes_append)
  then show ?case using Cons.IH [of r] r(1,2) r'(1,2) Cons.prems(3,4) d by simp
qed simp

lemma length_sort_deps [simp]: "length (sort_deps ds) = length ds"
  by (simp add: sort_deps_def)

lemma set_sort_deps [simp]: "set (sort_deps ds) = set ds"
  by (simp add: sort_deps_def)

lemma finish_key_Eligible: "finish_key sha hd0 body = (Eligible, k) \<longleftrightarrow> (\<exists>b. body = Some b \<and> ak_hex k = sha (hd0 @ b))"
  by (cases k) (auto simp: finish_key_def split: option.splits)

definition dep_inputs :: "(string \<Rightarrow> dep_state res) \<Rightarrow> (char \<times> redo_file) list \<Rightarrow> (char \<times> string \<times> dep_state res) list" where
  "dep_inputs look ds = map (\<lambda>(m, f). (m, f_name f, look (f_name f))) (sort_deps ds)"

definition inputs_short :: "(string \<Rightarrow> dep_state res) \<Rightarrow> string list \<Rightarrow> (char \<times> redo_file) list \<Rightarrow> bool" where
  "inputs_short look strs ds \<longleftrightarrow> list_all short strs \<and> length ds < 2 ^ 64 \<and>
     (\<forall>d \<in> set ds. short (f_name (snd d)) \<and> (\<forall>s. look (f_name (snd d)) = Inr s \<longrightarrow> state_short s))"

text \<open>C20. A remote action key identifies the action. If two actions, possibly on different machines, are given
  the same key, then version, operating system, architecture, policy and target are the same and so
  are the modes, names and observed contents of all dependencies. (No two texts have that digest;
  lengths fit 64 bits.)\<close>

theorem action_key_v1_faithful:
  assumes "compute_action_key_v1_remote_policy sha tag os arch look policy target ds = Inr (Eligible, k)"
    "compute_action_key_v1_remote_policy sha tag' os' arch' look' policy' target' ds' = Inr (Eligible, k)"
    "\<And>a b. sha a = ak_hex k \<Longrightarrow> sha b = ak_hex k \<Longrightarrow> a = b"
    "inputs_short look [''policy='' @ policy, tag, os, arch, target] ds"
    "inputs_short look' [''policy='' @ policy', tag', os', arch', target'] ds'"
  shows "tag = tag' \<and> os = os' \<and> arch = arch' \<and> policy = policy' \<and> target = target' \<and> dep_inputs look ds = dep_inputs look' ds'"
proof -
  let ?strs = "[''redo-action-key-v1-remote'', ''policy='' @ policy, tag, os, arch, target]"
  let ?strs' = "[''redo-action-key-v1-remote'', ''policy='' @ policy', tag', os', arch', target']"
  obtain b where b: "hash_deps_v1 look (sort_deps ds) = Inr (Some b)" "ak_hex k = sha (key_head_v0 ?strs (length ds) @ b)"
    using assms(1) by (auto simp: compute_action_key_v1_remote_policy_def rbind_Inr_iff finish_key_Eligible)
  obtain b' where b': "hash_deps_v1 look' (sort_deps ds') = Inr (Some b')" "ak_hex k = sha (key_head_v0 ?strs' (length ds') @ b')"
    using assms(2) by (auto simp: compute_action_key_v1_remote_policy_def rbind_Inr_iff finish_key_Eligible)
  have "key_head_v0 ?strs (length ds) @ b = key_head_v0 ?strs' (length ds') @ b'"
    using assms(3) b(2) b'(2) by metis
  then have eq: "?strs = ?strs' \<and> length ds = length ds' \<and> b = b'"
    using assms(4,5) by (subst (asm) key_head_append) (auto simp: inputs_short_def)
  have "dep_inputs look ds = dep_inputs look' ds'"
    unfolding dep_inputs_def
    using b(1) b'(1) eq assms(4,5) by (intro hash_deps_v1_inject [where b = b]) (auto simp: inputs_short_def)
  with eq show ?thesis by simp
qed

definition demo_dep :: "char \<times> redo_file" where
  "demo_dep = (CHR ''m'', \<lparr>f_id = 2, f_name = ''a.c'', f_is_generated = False, f_is_override = False,
      f_checked_runid = None, f_changed_runid = None, f_failed_runid = None, f_stamp = None, f_csum = None\<rparr>)"

theorem action_key_v1_faithful_witness:
  "dep_inputs (\<lambda>_. Inr DepDir) [demo_dep] = dep_inputs (\<lambda>_. Inr DepDir) [demo_dep]
   \<and> compute_action_key_v1_remote_policy id ''0'' ''linux'' ''x86'' (\<lambda>_. Inr DepDir) ''p'' ''t'' [demo_dep] =
     Inr (Eligible, \<lparr>ak_hex = key_head_v0 [''redo-action-key-v1-remote'', ''policy=p'', ''0'', ''linux'', ''x86'', ''t''] 1 @
        ''m'' @ hash_str ''a.c'' @ hash_str ''DIR''\<rparr>)"
proof -
  have k: "compute_action_key_v1_remote_policy id ''0'' ''linux'' ''x86'' (\<lambda>_. Inr DepDir) ''p'' ''t'' [demo_dep] =
     Inr (Eligible, \<lparr>ak_hex = key_head_v0 [''redo-action-key-v1-remote'', ''policy=p'', ''0'', ''linux'', ''x86'', ''t''] 1 @
        ''m'' @ hash_str ''a.c'' @ hash_str ''DIR''\<rparr>)" by code_simp
  have "inputs_short (\<lambda>_. Inr DepDir) [''policy='' @ ''p'', ''0'', ''linux'', ''x86'', ''t''] [demo_dep]"
    by (simp add: inputs_short_def demo_dep_def state_short_def)
  from action_key_v1_faithful [OF k k _ this this] k show ?thesis by simp
qed

text \<open>An action that depends on \<open>//ALWAYS\<close> is never cached.\<close>

lemma hash_deps_v0_None: "hash_deps_v0 fs e ds = None \<longleftrightarrow> (\<exists>d \<in> set ds. f_name (snd d) = ALWAYS)"
  by (induction fs e ds rule: hash_deps_v0.induct) auto

text \<open>The key does not depend on the order of the dependencies.\<close>

lemma sort_deps_perm:
  assumes "mset ds = mset ds'" "inj_on (\<lambda>(m, f). m # f_name f) (set ds)"
  shows "sort_deps ds = sort_deps ds'"
proof -
  let ?f = "\<lambda>(m, f). m # f_name f"
  have s: "map ?f (sort_deps xs) = sort (map ?f xs)" for xs
    by (rule properties_for_sort [symmetric]) (simp_all add: sort_deps_def)
  have "map ?f (sort_deps ds) = map ?f (sort_deps ds')"
    unfolding s using assms(1) by (intro properties_for_sort) simp_all
  moreover have "set ds' = set ds" using assms(1) by (metis set_mset_mset)
  ultimately show ?thesis using assms(2) by (auto dest!: map_inj_on simp: Un_absorb)
qed

text \<open>Local action keys: an action with a dependency on \<open>//ALWAYS\<close>, and no other, is marked as not cacheable,
  with a key that \<open>lookup\<close> never finds and \<open>store\<close> refuses; and the key does not depend on the order in
  which the dependencies come out of the database.\<close>

theorem action_key_v0_always:
  "(fst (compute_action_key_v0_policy sha tag fs e policy target ds) = SkipAlways \<longleftrightarrow> (\<exists>d \<in> set ds. f_name (snd d) = ALWAYS)) \<and>
   (\<forall>k. compute_action_key_v0_policy sha tag fs e policy target ds = (SkipAlways, k) \<longrightarrow>
      lookup e k o1 = None \<and> store sha e maxb rd pid now k src mode o1 = Inl (Msg ''empty action key'')) \<and>
   (mset ds = mset ds' \<longrightarrow> inj_on (\<lambda>(m, f). m # f_name f) (set ds) \<longrightarrow>
      compute_action_key_v0_policy sha tag fs e policy target ds = compute_action_key_v0_policy sha tag fs e policy target ds')"
proof (intro conjI allI impI)
  show "fst (compute_action_key_v0_policy sha tag fs e policy target ds) = SkipAlways \<longleftrightarrow> (\<exists>d \<in> set ds. f_name (snd d) = ALWAYS)"
    using hash_deps_v0_None [of fs e "sort_deps ds"]
    by (auto simp: compute_action_key_v0_policy_def finish_key_def split: option.splits)
  fix k assume "compute_action_key_v0_policy sha tag fs e policy target ds = (SkipAlways, k)"
  then have "ak_hex k = []"
    by (auto simp: Let_def compute_action_key_v0_policy_def finish_key_def split: option.splits)
  then show "lookup e k o1 = None" "store sha e maxb rd pid now k src mode o1 = Inl (Msg ''empty action key'')"
    by (simp_all add: lookup_def store_def)
next
  assume "mset ds = mset ds'" "inj_on (\<lambda>(m, f). m # f_name f) (set ds)"
  from sort_deps_perm [OF this] show "compute_action_key_v0_policy sha tag fs e policy target ds = compute_action_key_v0_policy sha tag fs e policy target ds'"
    by (simp add: compute_action_key_v0_policy_def)
qed

theorem action_key_v0_always_witness:
  "lookup (from_env Map.empty) (snd (compute_action_key_v0_policy id ''0'' \<lparr>fs_lstat = \<lambda>_. None, fs_stat = \<lambda>_. None\<rparr>
     (from_env Map.empty) ''p'' ''t'' [(CHR ''m'', (snd demo_dep)\<lparr>f_name := ALWAYS\<rparr>)])) Map.empty = None"
proof -
  let ?k = "compute_action_key_v0_policy id ''0'' \<lparr>fs_lstat = \<lambda>_. None, fs_stat = \<lambda>_. None\<rparr>
     (from_env Map.empty) ''p'' ''t'' [(CHR ''m'', (snd demo_dep)\<lparr>f_name := ALWAYS\<rparr>)]"
  have "?k = (SkipAlways, snd ?k)" by code_simp
  with action_key_v0_always show ?thesis by blast
qed

subsection \<open>Garbage collection keeps the bound\<close>

lemma mset_insert_obj [simp]: "mset (insert_obj x xs) = {#x#} + mset xs"
  by (induction xs) auto

lemma mset_sort_objs [simp]: "mset (sort_objs xs) = mset xs"
  by (induction xs) (auto simp: sort_objs_def)

lemma sorted_insert_obj: "sorted_wrt evict_before xs \<Longrightarrow> sorted_wrt evict_before (insert_obj x xs)"
proof (induction xs)
  case (Cons y ys)
  have set: "set (insert_obj x ys) = insert x (set ys)"
    using mset_insert_obj [of x ys] by (metis set_mset_add_mset_insert set_mset_mset add_mset_add_single add.commute)
  show ?case
  proof (cases "evict_before x y")
    case True
    then have "evict_before x z" if "z \<in> set ys" for z
      using Cons.prems that by (auto simp: evict_before_def)
    with True Cons.prems show ?thesis by simp
  next
    case False
    then have "evict_before y x" by (auto simp: evict_before_def)
    with Cons set False show ?thesis by simp
  qed
qed simp

lemma sorted_sort_objs: "sorted_wrt evict_before (sort_objs xs)"
  unfolding sort_objs_def by (induction xs) (simp_all add: sorted_insert_obj)

lemma evict_append: "evict maxb tot xs = (del, keep) \<Longrightarrow> xs = del @ keep"
  by (induction xs arbitrary: tot del) (auto split: if_splits prod.splits)

lemma evict_bound: "evict maxb tot xs = (del, keep) \<Longrightarrow> tot = total_size xs \<Longrightarrow> total_size keep \<le> maxb"
  by (induction xs arbitrary: tot del) (auto simp: total_size_def split: if_splits prod.splits)

lemma evict_minimal:
  "evict maxb tot xs = (del, keep) \<Longrightarrow> tot = total_size xs \<Longrightarrow> del \<noteq> [] \<Longrightarrow> maxb < oe_size (last del) + total_size keep"
proof (induction xs arbitrary: tot del)
  case (Cons x xs)
  then obtain d where d: "\<not> tot \<le> maxb" "evict maxb (tot - oe_size x) xs = (d, keep)" "del = x # d"
    by (auto split: if_splits prod.splits)
  show ?case
  proof (cases "d = []")
    case True
    then show ?thesis using evict_append [OF d(2)] d(1,3) Cons.prems(2) by (simp add: total_size_def)
  next
    case False
    then show ?thesis using Cons.IH [OF d(2) _ False] Cons.prems(2) d(3) by (simp add: total_size_def)
  qed
qed simp

lemma remove_entries:
  "fold remove_entry xs o1 p = (if \<exists>x \<in> set xs. p = oe_blob x \<or> p = oe_meta x then None else o1 p)"
  by (induction xs arbitrary: o1) (auto simp: remove_entry_def)

text \<open>What is collected after some files have disappeared.\<close>

lemma collect_bucket_mono:
  assumes "\<And>p. o2 p = None \<or> o2 p = o1 p"
  shows "collect_bucket r o2 d = filter (\<lambda>x. o2 (oe_blob x) \<noteq> None) (collect_bucket r o1 d)"
proof (cases "r d")
  case (Some names)
  let ?e = "\<lambda>ob name. if \<not> ends_with ''.blob'' name then []
      else case ob (path_join d name) of None \<Rightarrow> []
        | Some (b, mt) \<Rightarrow> [\<lparr>oe_blob = path_join d name, oe_meta = path_join d (trim_end_matches ''.blob'' name (length name) @ ''.meta''),
             oe_size = length b, oe_mtime = mt\<rparr>]"
  have "?e o2 n = filter (\<lambda>x. o2 (oe_blob x) \<noteq> None) (?e o1 n)" for n
    using assms [of "path_join d n"] by (auto split: option.splits)
  then show ?thesis by (simp add: collect_bucket_def Some filter_concat comp_def)
qed (simp add: collect_bucket_def)

lemma collect_objects_mono:
  assumes "\<And>p. o2 p = None \<or> o2 p = o1 p"
  shows "collect_objects e r o2 = filter (\<lambda>x. o2 (oe_blob x) \<noteq> None) (collect_objects e r o1)"
  by (auto simp: collect_objects_def collect_bucket_mono [OF assms] filter_concat comp_def split: option.splits)

lemma maybe_gc_removes: "maybe_gc e maxb rd o1 p = None \<or> maybe_gc e maxb rd o1 p = o1 p"
  by (simp add: maybe_gc_def Let_def remove_entries)

lemma total_size_filter:
  assumes "mset xs = mset (del @ keep)" "\<forall>x \<in> set del. \<not> P x"
  shows "total_size (filter P xs) \<le> total_size keep"
proof -
  have m: "total_size xs = sum_mset (image_mset oe_size (mset xs))" for xs
    unfolding total_size_def by (metis mset_map sum_mset_sum_list)
  have "mset (filter P xs) = filter_mset P (mset del) + filter_mset P (mset keep)" using assms(1) by simp
  also have "filter_mset P (mset del) = {#}" using assms(2) by simp
  finally have "mset (filter P xs) = filter_mset P (mset keep)" by simp
  then have "total_size (filter P xs) = total_size (filter P keep)" unfolding m by simp
  also have "\<dots> \<le> total_size keep" by (induction keep) (auto simp: total_size_def)
  finally show ?thesis .
qed

text \<open>C35. Garbage collection enforces the configured limit: afterwards the blobs in the object directories
  have at most \<open>maxb\<close> bytes together. It deletes the oldest objects first, the larger first among
  those of the same age, no more of them than needed, and touches no other file.\<close>

theorem gc_bound:
  assumes "0 < maxb" "xs = collect_objects e (rd o1) o1"
  shows "\<exists>del keep. mset xs = mset (del @ keep)
     \<and> total_size (collect_objects e (rd o1) (maybe_gc e maxb rd o1)) \<le> maxb
     \<and> (\<forall>d \<in> set del. \<forall>k \<in> set keep. evict_before d k)
     \<and> (del \<noteq> [] \<longrightarrow> maxb < oe_size (last del) + total_size keep)
     \<and> (\<forall>p. maybe_gc e maxb rd o1 p = (if \<exists>x \<in> set del. p = oe_blob x \<or> p = oe_meta x then None else o1 p))"
proof (cases "total_size xs \<le> maxb")
  case True
  then have "maybe_gc e maxb rd o1 = o1" using assms by (simp add: maybe_gc_def)
  then show ?thesis using True assms(2) by (intro exI [of _ "[]"] exI [of _ xs]) simp
next
  case False
  obtain del keep where e: "evict maxb (total_size xs) (sort_objs xs) = (del, keep)" by fastforce
  have t: "total_size xs = total_size (sort_objs xs)"
    unfolding total_size_def by (metis mset_map mset_sort_objs sum_mset_sum_list)
  have gc: "maybe_gc e maxb rd o1 = fold remove_entry del o1"
    using False assms e by (simp add: maybe_gc_def Let_def)
  have m: "mset xs = mset (del @ keep)" using evict_append [OF e] by (metis mset_sort_objs)
  have b: "total_size keep \<le> maxb" using evict_bound [OF e t] .
  have le: "total_size (collect_objects e (rd o1) (maybe_gc e maxb rd o1)) \<le> total_size keep"
    unfolding collect_objects_mono [OF maybe_gc_removes] assms(2) [symmetric]
    using m by (rule total_size_filter) (auto simp: gc remove_entries)
  have ord: "\<forall>d \<in> set del. \<forall>k \<in> set keep. evict_before d k"
    using sorted_sort_objs [of xs] unfolding evict_append [OF e] by (simp add: sorted_wrt_append)
  show ?thesis
  proof (intro exI conjI)
    show "mset xs = mset (del @ keep)" by (rule m)
    show "total_size (collect_objects e (rd o1) (maybe_gc e maxb rd o1)) \<le> maxb" using le b by simp
    show "\<forall>d \<in> set del. \<forall>k \<in> set keep. evict_before d k" by (rule ord)
    show "del \<noteq> [] \<longrightarrow> maxb < oe_size (last del) + total_size keep" using evict_minimal [OF e t] by blast
    show "\<forall>p. maybe_gc e maxb rd o1 p = (if \<exists>x \<in> set del. p = oe_blob x \<or> p = oe_meta x then None else o1 p)"
      unfolding gc remove_entries by blast
  qed
qed

definition demo_base :: env where
  "demo_base = (from_env Map.empty)\<lparr>e_base := ''/b''\<rparr>"

definition demo_objs :: objs where
  "demo_objs = [''/b/.redo/action_cache/objects/00/x.blob'' \<mapsto> (''abc'', 1),
                ''/b/.redo/action_cache/objects/00/y.blob'' \<mapsto> (''de'', 2)]"

definition demo_rd :: "objs \<Rightarrow> string \<Rightarrow> string list option" where
  "demo_rd o1 d = (if d = ''/b/.redo/action_cache/objects'' then Some [''00'']
     else if d = ''/b/.redo/action_cache/objects/00'' then Some [''y.blob'', ''x.blob''] else None)"

theorem gc_bound_witness:
  "total_size (collect_objects demo_base (demo_rd demo_objs) (maybe_gc demo_base 4 demo_rd demo_objs)) \<le> 4
   \<and> total_size (collect_objects demo_base (demo_rd demo_objs) demo_objs) = 5"
proof -
  have "0 < (4 :: nat)" by simp
  from gc_bound [OF this refl, of demo_base demo_rd demo_objs]
  have "total_size (collect_objects demo_base (demo_rd demo_objs) (maybe_gc demo_base 4 demo_rd demo_objs)) \<le> 4" by blast
  moreover have "total_size (collect_objects demo_base (demo_rd demo_objs) demo_objs) = 5" by code_simp
  ultimately show ?thesis ..
qed

subsection \<open>Storing and finding an object\<close>

lemma ac_paths:
  assumes "is_key hex"
  shows "ac_blob_path e hex = ac_bucket_dir e hex @ ''/'' @ hex @ ''.blob''"
    "ac_meta_path e hex = ac_bucket_dir e hex @ ''/'' @ hex @ ''.meta''"
proof -
  have h: "is_hex hex" "is_hex (take 2 hex)" using assms by (auto simp: is_key_def intro: is_hex_take)
  have "ac_bucket_dir e hex = root_prefix (objects_dir e) @ take 2 hex"
    using assms h(2) by (simp add: ac_bucket_dir_def is_key_def path_join_relative key_not_absolute)
  moreover have "take 2 hex \<noteq> []" "last (take 2 hex) \<noteq> CHR ''/''"
    using h(2) by (simp_all add: hex_last) (simp add: is_hex_def)
  ultimately have p: "root_prefix (ac_bucket_dir e hex) = ac_bucket_dir e hex @ ''/''" by (simp add: root_prefix_def)
  have "\<not> is_absolute (hex @ s)" for s
    using key_not_absolute [OF h(1)] h(1) by (cases hex) (auto simp: is_absolute_def is_hex_def)
  then show "ac_blob_path e hex = ac_bucket_dir e hex @ ''/'' @ hex @ ''.blob''"
    "ac_meta_path e hex = ac_bucket_dir e hex @ ''/'' @ hex @ ''.meta''"
    by (simp_all add: ac_blob_path_def ac_meta_path_def path_join_relative p)
qed

lemma tmp_near_eq:
  assumes "CHR ''/'' \<notin> set n"
  shows "tmp_path_near pid (d @ ''/'' @ n) sfx = d @ ''/.'' @ n @ ''.'' @ show_nat pid @ ''.'' @ sfx"
proof -
  have "rsplit_once (CHR ''/'') (d @ ''/'' @ n) = Some (d, n)" using assms by (simp add: rsplit_once_Some)
  then show ?thesis by (simp add: tmp_path_near_def)
qed

lemma ac_distinct:
  assumes "is_key hex" "sfx \<in> {''blob.tmp'', ''meta.tmp''}" "p \<in> {ac_blob_path e hex, ac_meta_path e hex}"
  shows "tmp_path_near pid p sfx \<noteq> ac_blob_path e hex" "tmp_path_near pid p sfx \<noteq> ac_meta_path e hex"
proof -
  have n: "CHR ''/'' \<notin> set hex" using assms(1) hex_not(3) by (auto simp: is_key_def is_hex_def list_all_iff)
  have c: "CHR ''.'' # y \<noteq> hex @ x" for x y
    using assms(1) hex_not(5) by (cases hex) (auto simp: is_key_def is_hex_def)
  have t: "tmp_path_near pid (ac_bucket_dir e hex @ ''/'' @ hex @ x) sfx = ac_bucket_dir e hex @ ''/.'' @ hex @ x @ ''.'' @ show_nat pid @ ''.'' @ sfx"
    if "CHR ''/'' \<notin> set x" for x using tmp_near_eq [of "hex @ x"] n that by simp
  show "tmp_path_near pid p sfx \<noteq> ac_blob_path e hex" "tmp_path_near pid p sfx \<noteq> ac_meta_path e hex"
    using assms(3) t [of "''.blob''"] t [of "''.meta''"] c by (auto simp: ac_paths [OF assms(1)] simp del: append_Cons)
qed

lemma ac_blob_meta: "is_key hex \<Longrightarrow> ac_blob_path e hex \<noteq> ac_meta_path e hex"
  by (simp add: ac_paths)

lemma meta_text_read:
  assumes "cm_mode m < 2 ^ 32" "cm_size m < 2 ^ 64" "is_key (cm_sha256 m)"
  shows "fold meta_line (str_lines (meta_text m)) (None, None, None) = (Some (cm_mode m), Some (cm_size m), Some (cm_sha256 m))"
proof -
  have w: "\<forall>c \<in> set (cm_sha256 m). \<not> is_ws c" "cm_sha256 m \<noteq> []"
    using assms(3) hex_not(1) by (auto simp: is_key_def is_hex_def list_all_iff)
  have nl: "CHR 0x0A \<notin> set (show_nat n)" "CHR 0x0D \<notin> set (show_nat n)" for n by (simp_all add: show_nat_notin is_digit_def)
  have h: "CHR 0x0A \<notin> set (cm_sha256 m)" "last (cm_sha256 m) \<noteq> CHR 0x0D" using w by (auto simp: is_ws_def)
  have l: "last (show_nat n) \<noteq> CHR 0x0D" for n using nl(2) [of n] by (metis last_in_set show_nat_not_Nil)
  have "str_lines (meta_text m) = [''mode='' @ show_nat (cm_mode m), ''size='' @ show_nat (cm_size m), ''sha256='' @ cm_sha256 m]"
    using str_lines_cons [of "''mode='' @ show_nat (cm_mode m)"] str_lines_cons [of "''size='' @ show_nat (cm_size m)"]
      str_lines_cons [of "''sha256='' @ cm_sha256 m" "[]"] nl h l w(2)
    by (simp add: meta_text_def strip_cr_id)
  moreover have "trim (show_nat n) = show_nat n" for n by simp
  moreover have "trim (cm_sha256 m) = cm_sha256 m" using w(1) by (rule trim_id)
  ultimately show ?thesis
    using assms(1,2) w(2) by (simp add: meta_line_def parse_uint_show)
qed

text \<open>The object store after the two writes, before garbage collection.\<close>

definition stored :: "(string \<Rightarrow> string) \<Rightarrow> env \<Rightarrow> nat \<Rightarrow> nat \<Rightarrow> string \<Rightarrow> string \<Rightarrow> nat \<Rightarrow> objs \<Rightarrow> objs" where
  "stored sha e pid now hex c mode o1 =
     (o1(ac_blob_path e hex \<mapsto> (c, now), tmp_path_near pid (ac_blob_path e hex) ''blob.tmp'' := None,
         ac_meta_path e hex \<mapsto> (meta_text \<lparr>cm_mode = mode, cm_size = length c, cm_sha256 = sha c\<rparr>, now),
         tmp_path_near pid (ac_meta_path e hex) ''meta.tmp'' := None))"

lemma stored_at:
  assumes "is_key hex"
  shows "stored sha e pid now hex c mode o1 (ac_blob_path e hex) = Some (c, now)"
    "stored sha e pid now hex c mode o1 (ac_meta_path e hex) =
       Some (meta_text \<lparr>cm_mode = mode, cm_size = length c, cm_sha256 = sha c\<rparr>, now)"
proof -
  let ?b = "ac_blob_path e hex" and ?m = "ac_meta_path e hex"
  have "?b \<noteq> tmp_path_near pid ?b ''blob.tmp''" "?b \<noteq> tmp_path_near pid ?m ''meta.tmp''" "?m \<noteq> tmp_path_near pid ?m ''meta.tmp''"
    using ac_distinct [OF assms] by (metis insertI1 insertI2)+
  with ac_blob_meta [OF assms, of e] show "stored sha e pid now hex c mode o1 ?b = Some (c, now)"
    "stored sha e pid now hex c mode o1 ?m = Some (meta_text \<lparr>cm_mode = mode, cm_size = length c, cm_sha256 = sha c\<rparr>, now)"
    by (simp_all add: stored_def)
qed

lemma store_eq:
  assumes "is_key hex" "o1 (ac_blob_path e hex) = None \<or> o1 (ac_meta_path e hex) = None"
    "o1 (tmp_path_near pid (ac_blob_path e hex) ''blob.tmp'') = None" "o1 (tmp_path_near pid (ac_meta_path e hex) ''meta.tmp'') = None"
  shows "store sha e maxb rd pid now \<lparr>ak_hex = hex\<rparr> (Some c) mode o1 =
     Inr (length c, maybe_gc e maxb rd (stored sha e pid now hex c mode o1))"
proof -
  have "hex \<noteq> []" using assms(1) by (auto simp: is_key_def)
  moreover have "tmp_path_near pid (ac_meta_path e hex) ''meta.tmp'' \<noteq> ac_blob_path e hex"
    using ac_distinct(1) [OF assms(1)] by blast
  ultimately show ?thesis
    using assms
    by (auto simp: store_def write_blob_from_file_atomically_def write_meta_atomically_def Let_def stored_def split: option.splits)
qed

lemma store_lookup_spec:
  assumes "is_key hex" "o1 (ac_blob_path e hex) = None \<or> o1 (ac_meta_path e hex) = None"
    "o1 (tmp_path_near pid (ac_blob_path e hex) ''blob.tmp'') = None" "o1 (tmp_path_near pid (ac_meta_path e hex) ''meta.tmp'') = None"
    "is_key (sha c)" "length c < 2 ^ 64" "mode < 2 ^ 32"
  shows "\<exists>o2. store sha e maxb rd pid now \<lparr>ak_hex = hex\<rparr> (Some c) mode o1 = Inr (length c, o2)
     \<and> (lookup e \<lparr>ak_hex = hex\<rparr> o2 = None \<or>
        (\<exists>m. lookup e \<lparr>ak_hex = hex\<rparr> o2 = Some (ac_blob_path e hex, m)
          \<and> m = \<lparr>cm_mode = mode, cm_size = length c, cm_sha256 = sha c\<rparr>
          \<and> materialize o2 (ac_blob_path e hex) m = Inr (length c, c, mode)))
     \<and> (maxb = 0 \<or> total_size (collect_objects e (rd (stored sha e pid now hex c mode o1)) (stored sha e pid now hex c mode o1)) \<le> maxb
        \<longrightarrow> lookup e \<lparr>ak_hex = hex\<rparr> o2 \<noteq> None)"
proof -
  let ?o = "stored sha e pid now hex c mode o1" and ?m = "\<lparr>cm_mode = mode, cm_size = length c, cm_sha256 = sha c\<rparr>"
  let ?o2 = "maybe_gc e maxb rd ?o"
  have ne: "hex \<noteq> []" using assms(1) by (auto simp: is_key_def)
  have b: "?o (ac_blob_path e hex) = Some (c, now)" and mt: "?o (ac_meta_path e hex) = Some (meta_text ?m, now)"
    using stored_at [OF assms(1)] by simp_all
  have found: "lookup e \<lparr>ak_hex = hex\<rparr> ob = Some (ac_blob_path e hex, ?m)"
    if "ob (ac_blob_path e hex) = Some (c, now)" "ob (ac_meta_path e hex) = Some (meta_text ?m, now)" for ob
    using that ne meta_text_read [of ?m] assms(5-7) by (simp add: lookup_def)
  have "lookup e \<lparr>ak_hex = hex\<rparr> ?o2 = None \<or>
      (\<exists>m. lookup e \<lparr>ak_hex = hex\<rparr> ?o2 = Some (ac_blob_path e hex, m) \<and> m = ?m
        \<and> materialize ?o2 (ac_blob_path e hex) m = Inr (length c, c, mode))"
  proof (cases "?o2 (ac_blob_path e hex) = None \<or> ?o2 (ac_meta_path e hex) = None")
    case True
    then show ?thesis by (auto simp: lookup_def split: option.splits)
  next
    case False
    then have "?o2 (ac_blob_path e hex) = Some (c, now)" "?o2 (ac_meta_path e hex) = Some (meta_text ?m, now)"
      using maybe_gc_removes [of e maxb rd ?o] b mt by metis+
    then show ?thesis using found by (simp add: materialize_def)
  qed
  moreover have "lookup e \<lparr>ak_hex = hex\<rparr> ?o2 \<noteq> None" if "maxb = 0 \<or> total_size (collect_objects e (rd ?o) ?o) \<le> maxb"
  proof -
    have "?o2 = ?o" using that by (auto simp: maybe_gc_def)
    then show ?thesis using found [of ?o] b mt by simp
  qed
  ultimately show ?thesis using store_eq [OF assms(1-4)] by blast
qed

text \<open>C30. What is stored under an action key is found again. Storing an output under a key that has no complete
  entry succeeds, and a later \<open>lookup\<close> finds the blob with exactly the bytes that were stored, their
  length and digest and the mode, or (when garbage collection has evicted it) nothing; it is
  found if the cache is within its limit.\<close>

theorem cache_store_lookup:
  assumes "is_key hex" "o1 (ac_blob_path e hex) = None \<or> o1 (ac_meta_path e hex) = None"
    "o1 (tmp_path_near pid (ac_blob_path e hex) ''blob.tmp'') = None" "o1 (tmp_path_near pid (ac_meta_path e hex) ''meta.tmp'') = None"
    "is_key (sha c)" "length c < 2 ^ 64" "mode < 2 ^ 32"
  shows "\<exists>o2. store sha e maxb rd pid now \<lparr>ak_hex = hex\<rparr> (Some c) mode o1 = Inr (length c, o2)
     \<and> (lookup e \<lparr>ak_hex = hex\<rparr> o2 = None \<or>
        (\<exists>m. lookup e \<lparr>ak_hex = hex\<rparr> o2 = Some (ac_blob_path e hex, m)
          \<and> m = \<lparr>cm_mode = mode, cm_size = length c, cm_sha256 = sha c\<rparr>
          \<and> materialize o2 (ac_blob_path e hex) m = Inr (length c, c, mode)))
     \<and> (maxb = 0 \<or> total_size (collect_objects e (rd (stored sha e pid now hex c mode o1)) (stored sha e pid now hex c mode o1)) \<le> maxb
        \<longrightarrow> lookup e \<lparr>ak_hex = hex\<rparr> o2 \<noteq> None)"
  using assms by (rule store_lookup_spec)

theorem cache_store_lookup_witness:
  "\<exists>o2. store (\<lambda>_. replicate 64 (CHR ''a'')) demo_base 0 demo_rd 7 100 \<lparr>ak_hex = replicate 64 (CHR ''0'')\<rparr> (Some ''out'') 420 Map.empty = Inr (3, o2)
     \<and> lookup demo_base \<lparr>ak_hex = replicate 64 (CHR ''0'')\<rparr> o2 \<noteq> None"
proof -
  have k: "is_key (replicate 64 (CHR ''0''))" "is_key (replicate 64 (CHR ''a''))"
    by (simp_all add: is_key_def is_hex_def list_all_iff is_ascii_hexdigit_def is_digit_def)
  show ?thesis
    using cache_store_lookup [OF k(1), of Map.empty demo_base 7 "\<lambda>_. replicate 64 (CHR ''a'')" "''out''" 420 0 demo_rd 100] k(2)
    by auto
qed

end
