(* ===== verification/Pools.thy ===== *)
theory Pools
  imports Locks "HOL-Library.Multiset"
begin

text \<open>
  Two small parts of the builder (\<open>redo_core/src/builder.rs\<close>) that compute with machine words: job
  pools, whose slots are locks on bytes chosen by a hash of the pool's name, and the shuffling of
  the list of targets.
\<close>

subsection \<open>Pool slots\<close>

record pool_spec =
  ps_name :: string
  ps_depth :: nat

definition POOL_LOCK_MAGIC :: int where "POOL_LOCK_MAGIC = 0x20000000"
definition POOL_LOCK_STRIDE :: int where "POOL_LOCK_STRIDE = 65536"

definition fnv_step :: "char \<Rightarrow> 64 word \<Rightarrow> 64 word" where
  "fnv_step b h = (h XOR word_of_nat (of_char b)) * 0x100000001b3"

definition fnv1a64 :: "string \<Rightarrow> 64 word" where
  "fnv1a64 s = fold fnv_step s 0xcbf29ce484222325"

text \<open>\<open>i64::saturating_mul\<close>.\<close>

definition saturating_mul :: "int \<Rightarrow> int \<Rightarrow> int" where
  "saturating_mul a b = max (- (2 ^ 63)) (min (2 ^ 63 - 1) (a * b))"

definition pool_bucket :: "string \<Rightarrow> int" where
  "pool_bucket name = uint (fnv1a64 name AND 0xffffffff)"

definition pool_slot_fid :: "string \<Rightarrow> nat \<Rightarrow> int res" where
  "pool_slot_fid name slot =
     (if int slot \<ge> POOL_LOCK_STRIDE then Inl (Msg ''pool depth too large'')
      else Inr (POOL_LOCK_MAGIC + saturating_mul (pool_bucket name) POOL_LOCK_STRIDE + int slot))"

text \<open>The directive \<open># redo-pool: name depth\<close>. \<open>txt\<close> is the text of the \<open>.do\<close> file (\<open>None\<close>: it cannot be
  read).\<close>

definition pool_directive :: "string \<Rightarrow> pool_spec option res" where
  "pool_directive line =
     (case strip_prefix ''#'' (trim_start line) of
        None \<Rightarrow> Inr None
      | Some r1 \<Rightarrow>
          (case strip_prefix ''redo-pool:'' (trim_start r1) of
             None \<Rightarrow> Inr None
           | Some r2 \<Rightarrow>
               (case split_ws r2 of
                  [] \<Rightarrow> Inl (Msg ''missing name'')
                | [_] \<Rightarrow> Inl (Msg ''missing depth'')
                | name # d # _ \<Rightarrow>
                    (case parse_uint 64 d of
                       None \<Rightarrow> Inl (Msg ''bad depth'')
                     | Some depth \<Rightarrow>
                         if depth = 0 then Inl (Msg ''depth must be > 0'')
                         else if int depth > POOL_LOCK_STRIDE then Inl (Msg ''depth exceeds max'')
                         else Inr (Some \<lparr>ps_name = name, ps_depth = depth\<rparr>)))))"

fun pool_directives :: "string list \<Rightarrow> pool_spec option res" where
  "pool_directives [] = Inr None"
| "pool_directives (l # ls) =
     rbind (pool_directive l) (\<lambda>r. case r of None \<Rightarrow> pool_directives ls | Some sp \<Rightarrow> Inr (Some sp))"

definition parse_redo_pool_directive :: "string option \<Rightarrow> pool_spec option res" where
  "parse_redo_pool_directive txt =
     (case txt of
        None \<Rightarrow> Inl (IoError ''open'')
      | Some s \<Rightarrow> pool_directives (take 64 (str_lines (take (16 * 1024) s))))"

text \<open>The loop over the slots: a slot for which this process has a lock is skipped, and the \<open>Lock\<close> object
  of a slot that is taken is dropped.\<close>

fun try_slots :: "vars \<Rightarrow> pid \<Rightarrow> string \<Rightarrow> nat list \<Rightarrow> klocks \<Rightarrow> state_inner \<Rightarrow> (lock option \<times> klocks \<times> state_inner) res" where
  "try_slots vs p name [] k s = Inr (None, k, s)"
| "try_slots vs p name (slot # slots) k s =
     rbind (pool_slot_fid name slot) (\<lambda>fid.
       case Lock_new fid s of
         Inl _ \<Rightarrow> try_slots vs p name slots k s
       | Inr (l, s1) \<Rightarrow>
           rbind (Lock_trylock vs p l k s1) (\<lambda>(got, l1, k1, s2).
             if got then Inr (Some l1, k1, s2)
             else case Lock_drop p l1 k1 s2 of (k2, s3) \<Rightarrow> try_slots vs p name slots k2 s3))"

definition try_acquire_pool ::
  "vars \<Rightarrow> pid \<Rightarrow> pool_spec \<Rightarrow> klocks \<Rightarrow> state_inner \<Rightarrow> (lock option \<times> klocks \<times> state_inner) res" where
  "try_acquire_pool vs p sp k s = try_slots vs p (ps_name sp) [0..<ps_depth sp] k s"

subsection \<open>Shuffling\<close>

definition xorshift :: "64 word \<Rightarrow> 64 word" where
  "xorshift x0 =
     (let x1 = x0 XOR drop_bit 12 x0; x2 = x1 XOR push_bit 25 x1; x3 = x2 XOR drop_bit 27 x2
      in x3 * 0x2545F4914F6CDD1D)"

definition swap_at :: "'a list \<Rightarrow> nat \<Rightarrow> nat \<Rightarrow> 'a list" where
  "swap_at v i j = v[i := v ! j, j := v ! i]"

fun shuffle_from :: "nat \<Rightarrow> 64 word \<Rightarrow> 'a list \<Rightarrow> 'a list" where
  "shuffle_from 0 x v = v"
| "shuffle_from (Suc i) x v =
     (let y = xorshift x in shuffle_from i y (swap_at v (Suc i) (unat y mod (Suc i + 1))))"

definition shuffle_in_place_with_seed :: "'a list \<Rightarrow> 64 word \<Rightarrow> 'a list" where
  "shuffle_in_place_with_seed v x =
     shuffle_from (length v - 1) (if x = 0 then 0x123456789abcdef0 else x) v"

definition shuffle_seed :: "64 word \<Rightarrow> 64 word \<Rightarrow> 64 word" where
  "shuffle_seed now_nanos pid = now_nanos XOR push_bit 1 pid"

definition shuffle_in_place :: "64 word \<Rightarrow> 64 word \<Rightarrow> 'a list \<Rightarrow> 'a list" where
  "shuffle_in_place now_nanos pid v = shuffle_in_place_with_seed v (shuffle_seed now_nanos pid)"

lemma length_swap_at [simp]: "length (swap_at v i j) = length v"
  by (simp add: swap_at_def)

lemma mset_swap_at: "i < length v \<Longrightarrow> j < length v \<Longrightarrow> mset (swap_at v i j) = mset v"
  by (simp add: swap_at_def mset_swap)

lemma mset_shuffle_from: "i < length v \<or> i = 0 \<Longrightarrow> mset (shuffle_from i x v) = mset v"
proof (induction i arbitrary: x v)
  case (Suc i)
  let ?y = "xorshift x"
  have "unat ?y mod (Suc i + 1) < Suc i + 1" by simp
  then have j: "unat ?y mod (Suc i + 1) < length v" using Suc.prems by linarith
  have "mset (shuffle_from (Suc i) x v) = mset (swap_at v (Suc i) (unat ?y mod (Suc i + 1)))"
    using Suc by (simp add: Let_def)
  also have "\<dots> = mset v" using Suc.prems j by (intro mset_swap_at) auto
  finally show ?case .
qed simp

text \<open>Shuffling the targets for \<open>--shuffle\<close> loses none and repeats none: the result is a permutation of
  the targets for every seed.\<close>

theorem shuffle_permutation: "mset (shuffle_in_place now_nanos pid v) = mset v"
  unfolding shuffle_in_place_def shuffle_in_place_with_seed_def by (rule mset_shuffle_from) auto

subsection \<open>Slots do not collide\<close>

lemma pool_bucket_range: "0 \<le> pool_bucket name" "pool_bucket name < 2 ^ 32"
proof -
  show "0 \<le> pool_bucket name" by (simp add: pool_bucket_def)
  have "pool_bucket name = take_bit 32 (uint (fnv1a64 name))"
    by (simp add: pool_bucket_def uint_and take_bit_eq_mask mask_eq_exp_minus_1)
  then show "pool_bucket name < 2 ^ 32" using take_bit_int_less_exp [of 32 "uint (fnv1a64 name)"] by simp
qed

lemma pool_slot_fid_Inr:
  "pool_slot_fid name slot = Inr fid \<longleftrightarrow> slot < 65536 \<and> fid = POOL_LOCK_MAGIC + pool_bucket name * 65536 + int slot"
proof -
  have "pool_bucket name * 65536 \<le> 2 ^ 32 * 65536" using pool_bucket_range [of name] by simp
  then have "saturating_mul (pool_bucket name) 65536 = pool_bucket name * 65536"
    using pool_bucket_range [of name] by (simp add: saturating_mul_def)
  then show ?thesis by (auto simp: pool_slot_fid_def POOL_LOCK_STRIDE_def)
qed

lemma stride_inject:
  fixes x y a b :: int
  assumes "0 \<le> a" "a < 65536" "0 \<le> b" "b < 65536"
  shows "x * 65536 + a = y * 65536 + b \<longleftrightarrow> x = y \<and> a = b"
  using assms by (cases x y rule: linorder_cases) linarith+

text \<open>The lock bytes of pools: the multiplication never saturates, a slot's byte lies between
  \<open>0x20000000\<close> and \<open>2^49\<close> (above every file id below that magic number and within a 64-bit offset),
  and two slots share a byte only if they have the same number and their pools the same 32-bit
  hash.\<close>

theorem pool_slot_bounds:
  assumes "pool_slot_fid a i = Inr fa" "pool_slot_fid b j = Inr fb"
  shows "0x20000000 \<le> fa \<and> fa < 2 ^ 49 \<and> (fa = fb \<longleftrightarrow> i = j \<and> pool_bucket a = pool_bucket b)"
proof -
  have f: "i < 65536" "fa = POOL_LOCK_MAGIC + pool_bucket a * 65536 + int i"
    "j < 65536" "fb = POOL_LOCK_MAGIC + pool_bucket b * 65536 + int j"
    using assms by (auto simp: pool_slot_fid_Inr)
  have r: "0 \<le> pool_bucket a" "pool_bucket a < 2 ^ 32" using pool_bucket_range by blast+
  have "pool_bucket a * 65536 \<le> (2 ^ 32 - 1) * 65536" using r by simp
  then have "0x20000000 \<le> fa" "fa < 2 ^ 49" using f(1,2) r by (simp_all add: POOL_LOCK_MAGIC_def)
  moreover have "fa = fb \<longleftrightarrow> i = j \<and> pool_bucket a = pool_bucket b" using f stride_inject [of "int i" "int j" "pool_bucket a" "pool_bucket b"] by auto
  ultimately show ?thesis by blast
qed

theorem pool_slot_bounds_witness:
  "\<exists>fa fb. pool_slot_fid ''link'' 0 = Inr fa \<and> pool_slot_fid ''link'' 1 = Inr fb \<and> fa \<noteq> fb \<and> fa < 2 ^ 49"
proof -
  have "pool_slot_fid ''link'' 0 = Inr (POOL_LOCK_MAGIC + pool_bucket ''link'' * 65536 + int 0)"
    "pool_slot_fid ''link'' 1 = Inr (POOL_LOCK_MAGIC + pool_bucket ''link'' * 65536 + int 1)"
    unfolding pool_slot_fid_Inr by simp_all
  with pool_slot_bounds [OF this] show ?thesis by (metis zero_neq_one)
qed

subsection \<open>Acquiring a slot\<close>

lemma pool_slot_inject: "pool_slot_fid name i = Inr f \<Longrightarrow> pool_slot_fid name j = Inr f \<Longrightarrow> i = j"
  by (auto simp: pool_slot_fid_Inr)

definition slot_taken :: "pid \<Rightarrow> int \<Rightarrow> klocks \<Rightarrow> state_inner \<Rightarrow> bool" where
  "slot_taken p fid k s \<longleftrightarrow> si_locks_held s fid = Some True \<or> conflicts k p fid False"

lemma trylock_cases:
  assumes "Lock_new fid s = Inr (l, s1)" "Lock_trylock vs p l k s1 = Inr (got, l1, k1, s2)"
  shows "l_fid l1 = fid" "got \<longleftrightarrow> \<not> conflicts k p fid False" "l_owned l1 = got"
    "got \<Longrightarrow> k1 = (fid, p, False) # without k p fid" "\<not> got \<Longrightarrow> k1 = k"
    "\<not> got \<Longrightarrow> Lock_drop p l1 k1 s2 = (k, s\<lparr>si_locks_held := (si_locks_held s)(fid := None)\<rparr>)"
  using assms
  by (auto simp: Lock_new_def Lock_trylock_def Lock_check_def lock_region_def rbind_Inr_iff Lock_drop_def Lock_unlock_def
      split: if_splits)

lemma try_slots_spec:
  assumes "try_slots vs p name slots k s = Inr (r, k1, s1)" "distinct slots"
  shows "case r of
     None \<Rightarrow> k1 = k \<and> (\<forall>i \<in> set slots. \<exists>fid. pool_slot_fid name i = Inr fid \<and> slot_taken p fid k s)
   | Some l \<Rightarrow> (\<exists>i \<in> set slots. pool_slot_fid name i = Inr (l_fid l)) \<and> l_owned l
        \<and> \<not> conflicts k p (l_fid l) False \<and> k1 = (l_fid l, p, False) # without k p (l_fid l)"
  using assms
proof (induction slots arbitrary: s)
  case (Cons i slots)
  obtain fid where fid: "pool_slot_fid name i = Inr fid" using Cons.prems(1) by (auto simp: rbind_Inr_iff)
  show ?case
  proof (cases "Lock_new fid s")
    case (Inl e)
    then have "slot_taken p fid k s" by (auto simp: Lock_new_def slot_taken_def split: if_splits)
    moreover have "try_slots vs p name slots k s = Inr (r, k1, s1)" using Cons.prems(1) fid Inl by simp
    ultimately show ?thesis using Cons.IH [of s] Cons.prems(2) fid by (auto split: option.splits)
  next
    case (Inr ls)
    obtain l s2 where ls: "Lock_new fid s = Inr (l, s2)" using Inr by (cases ls) auto
    obtain got l1 k2 s3 where t: "Lock_trylock vs p l k s2 = Inr (got, l1, k2, s3)"
      using Cons.prems(1) fid ls by (auto simp: rbind_Inr_iff)
    note c = trylock_cases [OF ls t]
    show ?thesis
    proof (cases got)
      case True
      then have "r = Some l1" "k1 = k2" using Cons.prems(1) fid ls t by auto
      then show ?thesis using c True fid by auto
    next
      case False
      let ?s = "s\<lparr>si_locks_held := (si_locks_held s)(fid := None)\<rparr>"
      have "try_slots vs p name slots k ?s = Inr (r, k1, s1)" using Cons.prems(1) fid ls t False c(6) by simp
      note ih = Cons.IH [OF this]
      have "slot_taken p f k ?s \<Longrightarrow> slot_taken p f k s" for f by (auto simp: slot_taken_def split: if_splits)
      moreover have "slot_taken p fid k s" using c(2) False by (simp add: slot_taken_def)
      ultimately show ?thesis using ih Cons.prems(2) fid by (auto split: option.splits)
    qed
  qed
qed simp

text \<open>C38. Acquiring a pool slot: the lock that is returned is a slot of the pool below its depth, now owned by
  this process and by no other; \<open>None\<close> is returned only if every slot is taken by another process or
  is already held here. In every reachable state at most \<open>depth\<close> processes hold slots of the pool.\<close>

theorem pool_capacity:
  assumes "lock_reach (k, procs)" "try_acquire_pool vs p sp k s = Inr (r, k1, s1)"
  shows "(case r of
     None \<Rightarrow> k1 = k \<and> (\<forall>i < ps_depth sp. \<exists>fid. pool_slot_fid (ps_name sp) i = Inr fid \<and> slot_taken p fid k s)
   | Some l \<Rightarrow> (\<exists>i < ps_depth sp. pool_slot_fid (ps_name sp) i = Inr (l_fid l)) \<and> l_owned l
        \<and> (l_fid l, p, False) \<in> set k1 \<and> (\<forall>q t. (l_fid l, q, t) \<in> set k1 \<longrightarrow> q = p))
   \<and> card {q. \<exists>i < ps_depth sp. \<exists>fid. pool_slot_fid (ps_name sp) i = Inr fid \<and> (fid, q, False) \<in> set k} \<le> ps_depth sp"
proof
  have spec: "case r of
     None \<Rightarrow> k1 = k \<and> (\<forall>i \<in> set [0..<ps_depth sp]. \<exists>fid. pool_slot_fid (ps_name sp) i = Inr fid \<and> slot_taken p fid k s)
   | Some l \<Rightarrow> (\<exists>i \<in> set [0..<ps_depth sp]. pool_slot_fid (ps_name sp) i = Inr (l_fid l)) \<and> l_owned l
        \<and> \<not> conflicts k p (l_fid l) False \<and> k1 = (l_fid l, p, False) # without k p (l_fid l)"
    using assms(2) unfolding try_acquire_pool_def by (rule try_slots_spec) simp
  then show "case r of
     None \<Rightarrow> k1 = k \<and> (\<forall>i < ps_depth sp. \<exists>fid. pool_slot_fid (ps_name sp) i = Inr fid \<and> slot_taken p fid k s)
   | Some l \<Rightarrow> (\<exists>i < ps_depth sp. pool_slot_fid (ps_name sp) i = Inr (l_fid l)) \<and> l_owned l
        \<and> (l_fid l, p, False) \<in> set k1 \<and> (\<forall>q t. (l_fid l, q, t) \<in> set k1 \<longrightarrow> q = p)"
    by (auto simp: set_without conflicts_iff split: option.splits)
next
  let ?h = "\<lambda>i. {q. \<exists>fid. pool_slot_fid (ps_name sp) i = Inr fid \<and> (fid, q, False) \<in> set k}"
  have ok: "k_ok k" using lock_reach_inv [OF assms(1)] by (simp add: lock_inv_def)
  have "card (?h i) \<le> 1" for i
  proof -
    have "q = q'" if "q \<in> ?h i" "q' \<in> ?h i" for q q'
      using that ok unfolding k_ok_def by fastforce
    then show ?thesis by (cases "finite (?h i)") (simp_all add: card_le_Suc0_iff_eq)
  qed
  then have "card (\<Union>i < ps_depth sp. ?h i) \<le> (\<Sum>i < ps_depth sp. 1)"
    by (intro order_trans [OF card_UN_le] sum_mono) auto
  moreover have "{q. \<exists>i < ps_depth sp. \<exists>fid. pool_slot_fid (ps_name sp) i = Inr fid \<and> (fid, q, False) \<in> set k} = (\<Union>i < ps_depth sp. ?h i)"
    by auto
  ultimately show "card {q. \<exists>i < ps_depth sp. \<exists>fid. pool_slot_fid (ps_name sp) i = Inr fid \<and> (fid, q, False) \<in> set k} \<le> ps_depth sp"
    by simp
qed

theorem pool_capacity_witness:
  "\<exists>l k1 s1. try_acquire_pool Map.empty 1 \<lparr>ps_name = ''link'', ps_depth = 2\<rparr> [] demo_state = Inr (Some l, k1, s1) \<and> l_owned l"
proof -
  let ?fid = "POOL_LOCK_MAGIC + pool_bucket ''link'' * 65536 + int 0"
  have fid: "pool_slot_fid ''link'' 0 = Inr ?fid" unfolding pool_slot_fid_Inr by simp
  have n: "Lock_new ?fid demo_state = Inr (\<lparr>l_fid = ?fid, l_owned = False\<rparr>, hold ?fid False demo_state)"
    by (simp add: Lock_new_def hold_def demo_state_def fresh_inner_def)
  have "Lock_check Map.empty \<lparr>l_fid = ?fid, l_owned = False\<rparr> = Inr ()"
    by (simp add: Lock_check_def cycles_check_def cycles_get_def var_or_def)
  then obtain l k1 s1 where t: "try_acquire_pool Map.empty 1 \<lparr>ps_name = ''link'', ps_depth = 2\<rparr> [] demo_state = Inr (Some l, k1, s1)"
    using fid n by (simp add: try_acquire_pool_def upt_rec [of 0 2] Lock_trylock_def lock_region_def conflicts_def)
  have "lock_reach ([], \<lambda>_. demo_lproc\<lparr>lp_locks := []\<rparr>)" by (rule lock_reach.start) simp
  from pool_capacity [OF this t] t show ?thesis by auto
qed

end
