(* ===== verification/Read_Trace.thy ===== *)
theory Read_Trace
  imports State_Props
begin

text \<open>
  Strict mode: the tracer of a script's file accesses (\<open>bins/src/redo_trace.rs\<close>, the Linux/x86-64 variant)
  and the comparison of what was read with what was declared (\<open>evaluate_strict_readtrace\<close> of
  \<open>redo_core/src/builder.rs\<close>).

  The tracer is a state machine over the results of \<open>waitpid\<close>, from the moment the command has been started and its
  options are set. What it asks \<open>ptrace\<close> for at a stop (the event
  message, the registers, words of the tracee's memory) comes with the stop. Sets of strings are
  lists; the code sorts them before they are used.
\<close>

subsection \<open>NUL-separated lists\<close>

definition parse_nul_separated_strings :: "string \<Rightarrow> string list" where
  "parse_nul_separated_strings bytes = filter (\<lambda>p. p \<noteq> []) (split_on (CHR 0x00) bytes)"

definition write_trace_out0 :: "string list \<Rightarrow> string" where
  "write_trace_out0 entries = concat (map (\<lambda>e. e @ [CHR 0x00]) entries)"

fun deps_pairs :: "string list \<Rightarrow> (char \<times> string) list" where
  "deps_pairs (m # d # parts) =
     (let mode = (case trim m of c # _ \<Rightarrow> c | [] \<Rightarrow> CHR ''?'') in
      (if mode = CHR ''m'' \<or> mode = CHR ''c'' then [(mode, d)] else []) @ deps_pairs parts)"
| "deps_pairs _ = []"

definition read_deps_out0 :: "string \<Rightarrow> (char \<times> string) list" where
  "read_deps_out0 bytes = deps_pairs (parse_nul_separated_strings bytes)"

lemma parse_write_out0:
  assumes "\<forall>e \<in> set entries. e \<noteq> [] \<and> CHR 0x00 \<notin> set e"
  shows "parse_nul_separated_strings (write_trace_out0 entries) = entries"
  using assms
  by (induction entries)
     (simp_all add: parse_nul_separated_strings_def write_trace_out0_def split_on_append_sep split_on_id)

subsection \<open>The environment of a traced script\<close>

definition env_keep_list :: "vars \<Rightarrow> string list" where
  "env_keep_list vs =
     [''REDO'', ''MAKEFLAGS'', ''REDO_CHEATFDS'', ''PATH'', ''TMPDIR'', ''TMP'', ''TEMP'', ''LANG'', ''LC_ALL'', ''TERM''] @
     (case vs ''REDO_STRICT_ENV_ALLOW'' of
        None \<Rightarrow> []
      | Some v \<Rightarrow> filter (\<lambda>k. k \<noteq> []) (map trim (split_on (CHR '','') v)))"

definition build_scrubbed_env :: "nat \<Rightarrow> string \<Rightarrow> vars \<Rightarrow> vars" where
  "build_scrubbed_env pid temp_dir vs =
     (let out = (\<lambda>k. if starts_with ''REDO_'' k \<or> k \<in> set (env_keep_list vs) then vs k else None) in
      if out ''HOME'' = None
      then out(''HOME'' \<mapsto> path_join (path_join (path_join (unwrap_or (vs ''REDO_BASE'') temp_dir) ''.redo'') ''strict-home'')
                              (show_nat pid))
      else out)"

subsection \<open>Wait statuses\<close>

definition wif_exited :: "32 word \<Rightarrow> bool" where "wif_exited st \<longleftrightarrow> st AND 0x7f = 0"
definition wexit_status :: "32 word \<Rightarrow> nat" where "wexit_status st = unat (drop_bit 8 st AND 0xff)"
definition wif_signaled :: "32 word \<Rightarrow> bool" where "wif_signaled st \<longleftrightarrow> st AND 0x7f \<noteq> 0 \<and> st AND 0x7f \<noteq> 0x7f"
definition wterm_sig :: "32 word \<Rightarrow> nat" where "wterm_sig st = unat (st AND 0x7f)"
definition wif_stopped :: "32 word \<Rightarrow> bool" where "wif_stopped st \<longleftrightarrow> st AND 0xff = 0x7f"
definition wstop_sig :: "32 word \<Rightarrow> nat" where "wstop_sig st = unat (drop_bit 8 st AND 0xff)"
definition wstop_event :: "32 word \<Rightarrow> nat" where "wstop_event st = unat (drop_bit 16 st AND 0xffff)"

subsection \<open>Reading the tracee's memory\<close>

text \<open>\<open>peek\<close> is \<open>PTRACE_PEEKDATA\<close>. \<open>n\<close> bounds the number of words; \<open>max\<close> bytes need at most \<open>max\<close> words.\<close>

fun read_words :: "(64 word \<Rightarrow> 64 word option) \<Rightarrow> nat \<Rightarrow> 64 word \<Rightarrow> string \<Rightarrow> nat \<Rightarrow> string option" where
  "read_words peek mx addr out 0 = Some out"
| "read_words peek mx addr out (Suc n) =
     (if \<not> length out < mx then Some out
      else case peek addr of
             None \<Rightarrow> None
           | Some w \<Rightarrow>
               let bs = le_bytes 8 (unat w); pre = takeWhile (\<lambda>b. b \<noteq> CHR 0x00) bs; out1 = take mx (out @ pre)
               in if length pre < 8 then Some out1 else read_words peek mx (addr + 8) out1 n)"

definition ptrace_read_cstring :: "(64 word \<Rightarrow> 64 word option) \<Rightarrow> 64 word \<Rightarrow> nat \<Rightarrow> string option" where
  "ptrace_read_cstring peek addr mx = (if addr = 0 then None else read_words peek mx addr [] (Suc mx))"

subsection \<open>The tracer\<close>

text \<open>Constants of the x86-64 Linux ABI.\<close>

definition SYS_open :: int where "SYS_open = 2"
definition SYS_stat :: int where "SYS_stat = 4"
definition SYS_lstat :: int where "SYS_lstat = 6"
definition SYS_access :: int where "SYS_access = 21"
definition SYS_execve :: int where "SYS_execve = 59"
definition SYS_chdir :: int where "SYS_chdir = 80"
definition SYS_openat :: int where "SYS_openat = 257"
definition SYS_newfstatat :: int where "SYS_newfstatat = 262"
definition SYS_faccessat :: int where "SYS_faccessat = 269"
definition SYS_statx :: int where "SYS_statx = 332"
definition AT_FDCWD :: int where "AT_FDCWD = -100"
definition SIGTRAP :: nat where "SIGTRAP = 5"

record proc_state =
  pst_cwd :: string
  pst_in_syscall :: bool

record regs =
  g_orig_rax :: "64 word"
  g_rdi :: "64 word"
  g_rsi :: "64 word"
  g_rdx :: "64 word"

text \<open>One result of \<open>waitpid(-1)\<close>, with what \<open>ptrace\<close> answers at that stop.\<close>

record stop =
  sp_pid :: int
  sp_status :: "32 word"
  sp_msg :: "int option"
  sp_regs :: "regs option"
  sp_peek :: "64 word \<Rightarrow> 64 word option"

record tracer =
  tr_markers :: "string list"
  tr_observed :: "string list"
  tr_procs :: "(int \<times> proc_state) list"
  tr_root_exit :: "int option"

definition set_proc :: "int \<Rightarrow> proc_state \<Rightarrow> tracer \<Rightarrow> tracer" where
  "set_proc pid ps t = t\<lparr>tr_procs := (pid, ps) # filter (\<lambda>(q, _). q \<noteq> pid) (tr_procs t)\<rparr>"

definition upd_proc :: "int \<Rightarrow> (proc_state \<Rightarrow> proc_state) \<Rightarrow> tracer \<Rightarrow> tracer" where
  "upd_proc pid f t = (case map_of (tr_procs t) pid of None \<Rightarrow> t | Some ps \<Rightarrow> set_proc pid (f ps) t)"

definition drop_proc :: "int \<Rightarrow> tracer \<Rightarrow> tracer" where
  "drop_proc pid t = t\<lparr>tr_procs := filter (\<lambda>(q, _). q \<noteq> pid) (tr_procs t)\<rparr>"

definition observe_path :: "string \<Rightarrow> string option \<Rightarrow> tracer \<Rightarrow> tracer" where
  "observe_path cwd s t =
     (case s of None \<Rightarrow> t | Some raw \<Rightarrow> t\<lparr>tr_observed := List.insert (resolve_path cwd raw) (tr_observed t)\<rparr>)"

definition mark :: "string \<Rightarrow> tracer \<Rightarrow> tracer" where
  "mark m t = t\<lparr>tr_markers := List.insert m (tr_markers t)\<rparr>"

text \<open>\<open>flags & O_ACCMODE != O_WRONLY\<close>.\<close>

definition reads_file :: "64 word \<Rightarrow> bool" where
  "reads_file flags \<longleftrightarrow> (ucast flags :: 32 word) AND 3 \<noteq> 1"

text \<open>A system call that takes a directory descriptor: the code compares the whole register with
  \<open>AT_FDCWD\<close>.\<close>

definition at_call :: "string \<Rightarrow> string \<Rightarrow> regs \<Rightarrow> (64 word \<Rightarrow> string option) \<Rightarrow> tracer \<Rightarrow> tracer" where
  "at_call m cwd g str t =
     (if sint (g_rdi g) \<noteq> AT_FDCWD then mark m t else observe_path cwd (str (g_rsi g)) t)"

definition enter_syscall :: "string \<Rightarrow> int \<Rightarrow> regs \<Rightarrow> (64 word \<Rightarrow> string option) \<Rightarrow> tracer \<Rightarrow> tracer" where
  "enter_syscall cwd pid g str t =
     (let scno = sint (g_orig_rax g) in
      if scno = SYS_chdir
      then (case str (g_rdi g) of
              None \<Rightarrow> t
            | Some s \<Rightarrow> upd_proc pid (\<lambda>ps. ps\<lparr>pst_cwd := resolve_path cwd s\<rparr>) t)
      else if scno = SYS_execve then observe_path cwd (str (g_rdi g)) t
      else if scno = SYS_open then (if reads_file (g_rsi g) then observe_path cwd (str (g_rdi g)) t else t)
      else if scno = SYS_openat
      then (if reads_file (g_rdx g) then at_call ''UNRESOLVED:openat_dirfd'' cwd g str t else t)
      else if scno = SYS_access then observe_path cwd (str (g_rdi g)) t
      else if scno = SYS_newfstatat then at_call ''UNRESOLVED:newfstatat_dirfd'' cwd g str t
      else if scno = SYS_faccessat then at_call ''UNRESOLVED:faccessat_dirfd'' cwd g str t
      else if scno = SYS_stat then observe_path cwd (str (g_rdi g)) t
      else if scno = SYS_lstat then observe_path cwd (str (g_rdi g)) t
      else if scno = SYS_statx then at_call ''UNRESOLVED:statx_dirfd'' cwd g str t
      else t)"

definition syscall_stop :: "string \<Rightarrow> stop \<Rightarrow> tracer \<Rightarrow> tracer" where
  "syscall_stop cwd0 sp t =
     (let pid = sp_pid sp;
          entering = (case map_of (tr_procs t) pid of Some ps \<Rightarrow> \<not> pst_in_syscall ps | None \<Rightarrow> True);
          t1 = upd_proc pid (\<lambda>ps. ps\<lparr>pst_in_syscall := entering\<rparr>) t
      in if entering
         then (case sp_regs sp of
                 None \<Rightarrow> mark ''TRACE_ERROR:getregs'' t1
               | Some g \<Rightarrow>
                   enter_syscall (case map_of (tr_procs t1) pid of Some ps \<Rightarrow> pst_cwd ps | None \<Rightarrow> cwd0) pid g
                     (\<lambda>a. ptrace_read_cstring (sp_peek sp) a 4096) t1)
         else t1)"

definition event_stop :: "stop \<Rightarrow> nat \<Rightarrow> tracer \<Rightarrow> tracer" where
  "event_stop sp event t =
     (if event \<in> {1, 2, 3}
      then (case (sp_msg sp, map_of (tr_procs t) (sp_pid sp)) of
              (Some new_pid, Some ps) \<Rightarrow> set_proc new_pid \<lparr>pst_cwd = pst_cwd ps, pst_in_syscall = False\<rparr> t
            | _ \<Rightarrow> t)
      else if event = 4 then upd_proc (sp_pid sp) (\<lambda>ps. ps\<lparr>pst_in_syscall := False\<rparr>) t
      else t)"

definition trace_step :: "string \<Rightarrow> int \<Rightarrow> stop \<Rightarrow> tracer \<Rightarrow> tracer" where
  "trace_step cwd0 root sp t =
     (let st = sp_status sp in
      if wif_exited st
      then drop_proc (sp_pid sp) (if sp_pid sp = root then t\<lparr>tr_root_exit := Some (int (wexit_status st))\<rparr> else t)
      else if wif_signaled st
      then drop_proc (sp_pid sp) (if sp_pid sp = root then t\<lparr>tr_root_exit := Some (128 + int (wterm_sig st))\<rparr> else t)
      else if \<not> wif_stopped st then t
      else if wstop_sig st = SIGTRAP \<and> wstop_event st \<noteq> 0 then event_stop sp (wstop_event st) t
      else if wstop_sig st = 0x85 then syscall_stop cwd0 sp t
      else t)"

text \<open>The loop over the results of \<open>waitpid\<close>: \<open>Inl True\<close> is an interrupted call, \<open>Inl False\<close> another error.\<close>

fun trace_loop :: "string \<Rightarrow> int \<Rightarrow> (bool + stop) list \<Rightarrow> tracer \<Rightarrow> tracer" where
  "trace_loop cwd0 root [] t = t"
| "trace_loop cwd0 root (ev # evs) t =
     (if tr_procs t = [] then t
      else case ev of
             Inl True \<Rightarrow> trace_loop cwd0 root evs t
           | Inl False \<Rightarrow> mark ''TRACE_ERROR:waitpid'' t
           | Inr sp \<Rightarrow> trace_loop cwd0 root evs (trace_step cwd0 root sp t))"

definition trace_init :: "string \<Rightarrow> int \<Rightarrow> bool \<Rightarrow> tracer" where
  "trace_init cwd0 root options_ok =
     \<lparr>tr_markers = (if options_ok then [] else [''TRACE_UNAVAILABLE:linux_setoptions'']), tr_observed = [],
      tr_procs = [(root, \<lparr>pst_cwd = cwd0, pst_in_syscall = False\<rparr>)], tr_root_exit = None\<rparr>"

definition trace_run_linux_x86_64 :: "string \<Rightarrow> int \<Rightarrow> bool \<Rightarrow> (bool + stop) list \<Rightarrow> string list \<times> int" where
  "trace_run_linux_x86_64 cwd0 root options_ok evs =
     (let t = trace_loop cwd0 root evs (trace_init cwd0 root options_ok)
      in (sort (tr_markers t @ tr_observed t), unwrap_or (tr_root_exit t) 201))"

text \<open>The command line of \<open>redo-trace\<close>: \<open>Inl\<close> is the exit code of an early end.\<close>

fun parse_trace_args :: "string list \<Rightarrow> string option \<times> string \<times> string list \<Rightarrow> int + string option \<times> string \<times> string list" where
  "parse_trace_args [] acc = Inr acc"
| "parse_trace_args (a # as) (out0, mode, argv) =
     (if a = ''--trace-out0''
      then (case as of [] \<Rightarrow> Inr (Some [], mode, argv) | v # as' \<Rightarrow> parse_trace_args as' (Some v, mode, argv))
      else if a = ''--mode''
      then (case as of [] \<Rightarrow> Inr (out0, ''read'', argv) | v # as' \<Rightarrow> parse_trace_args as' (out0, v, argv))
      else if a = ''--'' then Inr (out0, mode, argv @ as)
      else if a = ''--help'' \<or> a = ''-h'' then Inl 0
      else parse_trace_args as (out0, mode, argv))"

definition redo_trace_main :: "string list \<Rightarrow> int + string \<times> string list" where
  "redo_trace_main args =
     (case parse_trace_args args (None, ''read'', []) of
        Inl c \<Rightarrow> Inl c
      | Inr (None, _) \<Rightarrow> Inl 2
      | Inr (Some out0, mode, argv) \<Rightarrow> if argv = [] then Inl 2 else if mode \<noteq> ''read'' then Inl 2 else Inr (out0, argv))"

subsection \<open>Comparing reads with declarations\<close>

record strict_result =
  sr_trace_ok :: bool
  sr_trace_reason :: string
  sr_violations :: "string list"

definition allowed_reads :: "string \<Rightarrow> (char \<times> redo_file) list \<Rightarrow> string list" where
  "allowed_reads base declared =
     filter (\<lambda>a. \<not> path_starts_with a (normalize_path_lex (path_join base ''.redo'')))
       (map (\<lambda>(m, d). normalize_path_lex (path_join base (f_name d))) (filter (\<lambda>(m, d). f_name d \<noteq> ALWAYS) declared))"

definition trace_failure :: "string \<Rightarrow> string option" where
  "trace_failure e =
     (case strip_prefix ''TRACE_UNAVAILABLE:'' e of
        Some r \<Rightarrow> Some r
      | None \<Rightarrow>
          (case strip_prefix ''TRACE_ERROR:'' e of
             Some r \<Rightarrow> Some r
           | None \<Rightarrow> if starts_with ''UNRESOLVED:'' e then Some ''unresolved'' else None))"

definition observed_path :: "string \<Rightarrow> string \<Rightarrow> string list" where
  "observed_path base e =
     (let a = (if is_absolute e then normalize_path_lex e else normalize_path_lex (path_join base e)) in
      if path_starts_with a (normalize_path_lex (path_join base ''.redo'')) then []
      else if path_starts_with a base then [a] else [])"

definition trace_entry :: "string \<Rightarrow> string \<Rightarrow> bool \<times> string \<times> string list \<Rightarrow> bool \<times> string \<times> string list" where
  "trace_entry base e acc =
     (case acc of (ok, reason, observed) \<Rightarrow>
        if e = [] then acc
        else case trace_failure e of
               Some r \<Rightarrow> (False, if reason = [] then r else reason, observed)
             | None \<Rightarrow> (ok, reason, observed @ observed_path base e))"

definition evaluate_strict_readtrace :: "string \<Rightarrow> (char \<times> redo_file) list \<Rightarrow> string list \<Rightarrow> strict_result" where
  "evaluate_strict_readtrace base declared entries =
     (case fold (trace_entry base) entries (True, [], []) of
        (ok, reason, observed) \<Rightarrow>
          \<lparr>sr_trace_ok = ok, sr_trace_reason = reason,
           sr_violations = remdups_adj (sort (map (\<lambda>p. unwrap_or (path_strip_prefix p base) p)
             (filter (\<lambda>p. p \<notin> set (allowed_reads base declared)) observed)))\<rparr>)"

subsection \<open>Resolved paths\<close>

lemma path_part_chars: "Normal n \<in> set (path_components p) \<Longrightarrow> set n \<subseteq> set p"
proof -
  assume "Normal n \<in> set (path_components p)"
  then have "n \<in> set (split_on (CHR ''/'') p)"
    by (auto simp: path_components_def Let_def comp_of_def split: if_splits)
  then obtain a b where "split_on (CHR ''/'') p = a @ n # b" by (meson split_list)
  then have "join_with ''/'' (a @ n # b) = p" using join_split_on [of "CHR ''/''" p] by simp
  moreover have "set n \<subseteq> set (join_with ''/'' (a @ n # b))"
    by (induction a rule: induct_list012) (cases b; auto)+
  ultimately show "set n \<subseteq> set p" by simp
qed

lemma norm_step_chars:
  assumes "\<forall>x \<in> set parts. set x \<subseteq> insert (CHR ''/'') cs" "\<And>n. c = Normal n \<Longrightarrow> set n \<subseteq> cs"
  shows "\<forall>x \<in> set (norm_step parts c). set x \<subseteq> insert (CHR ''/'') cs"
  using assms by (cases c) (auto simp: norm_step_def dest: in_set_butlastD)

lemma norm_parts_chars:
  assumes "\<And>n. Normal n \<in> set cmps \<Longrightarrow> set n \<subseteq> cs" "\<forall>x \<in> set parts. set x \<subseteq> insert (CHR ''/'') cs"
  shows "\<forall>x \<in> set (foldl norm_step parts cmps). set x \<subseteq> insert (CHR ''/'') cs"
  using assms
proof (induction cmps arbitrary: parts)
  case (Cons c cmps)
  from Cons.prems have "\<forall>x \<in> set (norm_step parts c). set x \<subseteq> insert (CHR ''/'') cs"
    by (intro norm_step_chars) auto
  with Cons show ?case by simp
qed simp

lemma push_parts_chars:
  assumes "\<forall>x \<in> set parts. set x \<subseteq> insert (CHR ''/'') cs"
  shows "set (push_parts parts) \<subseteq> insert (CHR ''/'') cs"
proof -
  have "set (foldl path_join b parts) \<subseteq> insert (CHR ''/'') cs" if "set b \<subseteq> insert (CHR ''/'') cs" for b
    using assms that by (induction parts arbitrary: b) (auto simp: path_join_def)
  then show ?thesis by (simp add: push_parts_def)
qed

lemma resolve_path_chars: "set (resolve_path cwd raw) \<subseteq> insert (CHR ''/'') (set cwd \<union> set raw)"
proof -
  have "set (trace_normalize_path_lex p) \<subseteq> insert (CHR ''/'') (set p)" for p
    unfolding trace_normalize_path_lex_def
    by (intro push_parts_chars norm_parts_chars) (auto dest: path_part_chars)
  from this [of raw] this [of "path_join cwd raw"] show ?thesis
    by (auto simp: resolve_path_def path_join_def split: if_splits)
qed

lemma resolve_path_canonical:
  assumes "is_absolute cwd"
  shows "is_absolute (resolve_path cwd raw)" "normalize_path_lex (resolve_path cwd raw) = resolve_path cwd raw"
proof -
  define q where "q = (if is_absolute raw then raw else path_join cwd raw)"
  have q: "is_absolute q" using assms by (simp add: q_def path_join_absolute)
  have r: "resolve_path cwd raw = normalize_path q"
    by (simp add: q_def resolve_path_def trace_normalize_path_lex_def normalize_path_def norm_parts_def)
  obtain ns where ns: "normalize_path q = ''/'' @ join_with ''/'' ns" "\<forall>n \<in> set ns. good_name n" "norm_parts q = ''/'' # ns"
    using q by (rule normalize_path_abs)
  show "is_absolute (resolve_path cwd raw)" by (simp add: r ns(1) is_absolute_def)
  have "norm_parts (normalize_path q) = norm_parts q"
    unfolding ns(1,3) using ns(2) by (rule norm_parts_canonical)
  then show "normalize_path_lex (resolve_path cwd raw) = resolve_path cwd raw"
    by (simp add: r normalize_path_lex_def normalize_path_def flip: norm_parts_def)
qed

lemma read_words_no_nul:
  "CHR 0x00 \<notin> set out \<Longrightarrow> read_words peek mx addr out n = Some s \<Longrightarrow> CHR 0x00 \<notin> set s"
proof (induction peek mx addr out n rule: read_words.induct)
  case (2 peek mx addr out n)
  have pre: "CHR 0x00 \<notin> set (takeWhile (\<lambda>b. b \<noteq> CHR 0x00) bs)" for bs :: string by (auto dest: set_takeWhileD)
  show ?case
  proof (cases "length out < mx")
    case True
    then obtain w where w: "peek addr = Some w" using 2 by (auto split: option.splits)
    let ?pre = "takeWhile (\<lambda>b. b \<noteq> CHR 0x00) (le_bytes 8 (unat w))"
    have o: "CHR 0x00 \<notin> set (take mx (out @ ?pre))" using "2.prems"(1) pre by (auto dest: in_set_takeD)
    show ?thesis
    proof (cases "length ?pre < 8")
      case True
      then show ?thesis using "2.prems"(2) \<open>length out < mx\<close> w o by (simp add: Let_def)
    next
      case False
      then show ?thesis using "2.IH" [OF _ w refl refl refl False o] "2.prems"(2) \<open>length out < mx\<close> w by (simp add: Let_def)
    qed
  qed (use 2 in simp)
qed simp

lemma read_cstring_no_nul: "ptrace_read_cstring peek addr mx = Some s \<Longrightarrow> CHR 0x00 \<notin> set s"
  using read_words_no_nul [of "[]" peek mx addr "Suc mx" s] by (simp add: ptrace_read_cstring_def split: if_splits)

subsection \<open>What the tracer keeps\<close>

definition cwd_ok :: "string \<Rightarrow> bool" where
  "cwd_ok d \<longleftrightarrow> is_absolute d \<and> CHR 0x00 \<notin> set d"

definition entry_ok :: "string \<Rightarrow> bool" where
  "entry_ok e \<longleftrightarrow> e \<noteq> [] \<and> CHR 0x00 \<notin> set e"

definition tracer_ok :: "tracer \<Rightarrow> bool" where
  "tracer_ok t \<longleftrightarrow> (\<forall>ps \<in> snd ` set (tr_procs t). cwd_ok (pst_cwd ps)) \<and> list_all entry_ok (tr_markers t @ tr_observed t)"

definition tracer_le :: "tracer \<Rightarrow> tracer \<Rightarrow> bool" where
  "tracer_le t u \<longleftrightarrow> set (tr_markers t) \<subseteq> set (tr_markers u) \<and> set (tr_observed t) \<subseteq> set (tr_observed u)"

lemma tracer_le_refl [simp]: "tracer_le t t"
  by (simp add: tracer_le_def)

lemma tracer_le_trans: "tracer_le a b \<Longrightarrow> tracer_le b c \<Longrightarrow> tracer_le a c"
  unfolding tracer_le_def by blast

lemma resolve_path_ok: "cwd_ok cwd \<Longrightarrow> CHR 0x00 \<notin> set raw \<Longrightarrow> cwd_ok (resolve_path cwd raw) \<and> entry_ok (resolve_path cwd raw)"
  using resolve_path_chars [of cwd raw] resolve_path_canonical(1) [of cwd raw]
  by (auto simp: cwd_ok_def entry_ok_def is_absolute_def)

text \<open>Every operation of the tracer only adds to what it has seen, and keeps the state well-formed: the
  contract that the loop rests on.\<close>

locale trace_op =
  fixes opn :: "'a \<Rightarrow> tracer \<Rightarrow> tracer" and good :: "'a \<Rightarrow> bool"
  assumes op_le: "good x \<Longrightarrow> tracer_ok t \<Longrightarrow> tracer_le t (opn x t)"
    and op_ok: "good x \<Longrightarrow> tracer_ok t \<Longrightarrow> tracer_ok (opn x t)"
begin

lemma ops_le_ok: "list_all good xs \<Longrightarrow> tracer_ok t \<Longrightarrow> tracer_le t (fold opn xs t) \<and> tracer_ok (fold opn xs t)"
proof (induction xs arbitrary: t)
  case (Cons x xs)
  then have "tracer_le t (opn x t)" "tracer_ok (opn x t)" using op_le op_ok by auto
  with Cons show ?case by (auto intro: tracer_le_trans)
qed simp

end

interpretation mark_op: trace_op mark entry_ok
  by unfold_locales (auto simp: tracer_le_def mark_def tracer_ok_def List.insert_def)

interpretation drop_op: trace_op drop_proc "\<lambda>_. True"
  by unfold_locales (auto simp: tracer_le_def drop_proc_def tracer_ok_def)

interpretation set_op: trace_op "set_proc pid" "\<lambda>ps. cwd_ok (pst_cwd ps)" for pid
  by unfold_locales (auto simp: tracer_le_def set_proc_def tracer_ok_def)

lemma map_of_cwd_ok: "tracer_ok t \<Longrightarrow> map_of (tr_procs t) pid = Some ps \<Longrightarrow> cwd_ok (pst_cwd ps)"
  by (force simp: tracer_ok_def dest: map_of_SomeD)

interpretation upd_op: trace_op "upd_proc pid" "\<lambda>f. \<forall>ps. cwd_ok (pst_cwd ps) \<longrightarrow> cwd_ok (pst_cwd (f ps))" for pid
  using set_op.op_le set_op.op_ok map_of_cwd_ok by unfold_locales (auto simp: upd_proc_def split: option.splits)

interpretation observe_op: trace_op "observe_path cwd" "\<lambda>s. cwd_ok cwd \<and> (\<forall>raw. s = Some raw \<longrightarrow> CHR 0x00 \<notin> set raw)" for cwd
  using resolve_path_ok [of cwd]
  by unfold_locales (auto simp: tracer_le_def observe_path_def tracer_ok_def List.insert_def split: option.splits)

lemma marker_literals:
  "entry_ok ''UNRESOLVED:openat_dirfd''" "entry_ok ''UNRESOLVED:newfstatat_dirfd''" "entry_ok ''UNRESOLVED:faccessat_dirfd''"
  "entry_ok ''UNRESOLVED:statx_dirfd''" "entry_ok ''TRACE_ERROR:getregs''" "entry_ok ''TRACE_ERROR:waitpid''"
  "entry_ok ''TRACE_UNAVAILABLE:linux_setoptions''"
  by (simp_all add: entry_ok_def)

lemma enter_syscall_op:
  assumes "cwd_ok cwd" "\<And>a raw. str a = Some raw \<Longrightarrow> CHR 0x00 \<notin> set raw" "tracer_ok t"
  shows "tracer_le t (enter_syscall cwd pid g str t) \<and> tracer_ok (enter_syscall cwd pid g str t)"
proof -
  have ob: "tracer_le t (observe_path cwd (str a) t) \<and> tracer_ok (observe_path cwd (str a) t)" for a
    using observe_op.op_le [OF _ assms(3)] observe_op.op_ok [OF _ assms(3)] assms(1,2) by blast
  have chdir: "tracer_le t (upd_proc pid (\<lambda>ps. ps\<lparr>pst_cwd := resolve_path cwd raw\<rparr>) t)
      \<and> tracer_ok (upd_proc pid (\<lambda>ps. ps\<lparr>pst_cwd := resolve_path cwd raw\<rparr>) t)" if "str a = Some raw" for a raw
    using upd_op.op_le [OF _ assms(3)] upd_op.op_ok [OF _ assms(3)] resolve_path_ok [OF assms(1) assms(2) [OF that]] by simp
  have at: "tracer_le t (at_call m cwd g str t) \<and> tracer_ok (at_call m cwd g str t)" if "entry_ok m" for m
    using ob mark_op.op_le [OF that assms(3)] mark_op.op_ok [OF that assms(3)] by (auto simp: at_call_def)
  show ?thesis
    unfolding enter_syscall_def Let_def using ob chdir at [OF marker_literals(1)] at [OF marker_literals(2)]
      at [OF marker_literals(3)] at [OF marker_literals(4)] assms(3)
    by (auto split: option.splits)
qed

lemma syscall_stop_op:
  assumes "tracer_ok t" "cwd_ok cwd0"
  shows "tracer_le t (syscall_stop cwd0 sp t) \<and> tracer_ok (syscall_stop cwd0 sp t)"
proof -
  define t1 where "t1 = upd_proc (sp_pid sp) (\<lambda>ps. ps\<lparr>pst_in_syscall :=
      (case map_of (tr_procs t) (sp_pid sp) of Some ps \<Rightarrow> \<not> pst_in_syscall ps | None \<Rightarrow> True)\<rparr>) t"
  have t1: "tracer_le t t1" "tracer_ok t1"
    unfolding t1_def using upd_op.op_le [OF _ assms(1)] upd_op.op_ok [OF _ assms(1)] by simp_all
  have "cwd_ok (case map_of (tr_procs t1) (sp_pid sp) of Some ps \<Rightarrow> pst_cwd ps | None \<Rightarrow> cwd0)"
    using map_of_cwd_ok [OF t1(2)] assms(2) by (auto split: option.splits)
  from enter_syscall_op [where str = "\<lambda>a. ptrace_read_cstring (sp_peek sp) a 4096", OF this read_cstring_no_nul t1(2)]
  show ?thesis
    unfolding syscall_stop_def Let_def t1_def [symmetric]
    using t1 mark_op.op_le [OF marker_literals(5) t1(2)] mark_op.op_ok [OF marker_literals(5) t1(2)]
    by (auto split: option.splits intro: tracer_le_trans)
qed

lemma event_stop_op:
  assumes "tracer_ok t" shows "tracer_le t (event_stop sp n t) \<and> tracer_ok (event_stop sp n t)"
  using assms map_of_cwd_ok [OF assms] set_op.op_le [OF _ assms] set_op.op_ok [OF _ assms]
    upd_op.op_le [OF _ assms] upd_op.op_ok [OF _ assms]
  by (auto simp: event_stop_def split: option.splits)

interpretation step_op: trace_op "trace_step cwd0 root" "\<lambda>_. cwd_ok cwd0" for cwd0 root
proof
  fix sp t assume a: "cwd_ok cwd0" "tracer_ok t"
  have ex: "tracer_le t (drop_proc q (t\<lparr>tr_root_exit := x\<rparr>)) \<and> tracer_ok (drop_proc q (t\<lparr>tr_root_exit := x\<rparr>))" for q x
    using a(2) by (auto simp: drop_proc_def tracer_le_def tracer_ok_def)
  show "tracer_le t (trace_step cwd0 root sp t)" "tracer_ok (trace_step cwd0 root sp t)"
    using a ex drop_op.op_le [OF _ a(2)] drop_op.op_ok [OF _ a(2)] syscall_stop_op [OF a(2,1)] event_stop_op [OF a(2)]
    by (auto simp: trace_step_def Let_def)
qed

lemma trace_loop_op:
  assumes "cwd_ok cwd0" "tracer_ok t"
  shows "tracer_le t (trace_loop cwd0 root evs t) \<and> tracer_ok (trace_loop cwd0 root evs t)"
  using assms(2)
proof (induction evs arbitrary: t)
  case (Cons ev evs)
  note m = mark_op.op_le [OF marker_literals(6) Cons.prems] mark_op.op_ok [OF marker_literals(6) Cons.prems]
  show ?case
  proof (cases ev)
    case (Inl b)
    then show ?thesis using Cons m by (cases b) auto
  next
    case (Inr sp)
    note st = step_op.op_le [OF assms(1) Cons.prems] step_op.op_ok [OF assms(1) Cons.prems]
    have "tracer_le t (trace_loop cwd0 root evs (trace_step cwd0 root sp t))"
      using tracer_le_trans [OF st(1)] Cons.IH [OF st(2)] by blast
    with Cons.IH [OF st(2)] Inr Cons.prems show ?thesis by auto
  qed
qed simp

subsection \<open>The verdict\<close>

lemma fold_trace_entry:
  "fold (trace_entry base) es (ok, reason, obs) = (ok1, reason1, obs1) \<Longrightarrow>
     (ok1 \<longleftrightarrow> ok \<and> (\<forall>e \<in> set es. e \<noteq> [] \<longrightarrow> trace_failure e = None)) \<and>
     set obs1 = set obs \<union> (\<Union>e \<in> {e \<in> set es. e \<noteq> [] \<and> trace_failure e = None}. set (observed_path base e))"
proof (induction es arbitrary: ok reason obs)
  case (Cons e es)
  obtain ok' reason' obs' where st: "trace_entry base e (ok, reason, obs) = (ok', reason', obs')" by (metis prod.exhaust)
  with Cons.prems have "fold (trace_entry base) es (ok', reason', obs') = (ok1, reason1, obs1)" by simp
  from Cons.IH [OF this] st show ?case
    by (auto simp: trace_entry_def split: if_splits option.splits)
qed simp

lemma sort_Nil [simp]: "sort xs = [] \<longleftrightarrow> xs = []"
  by (metis length_0_conv length_sort)

lemma strict_verdict:
  assumes "res = evaluate_strict_readtrace base declared es"
  shows "sr_trace_ok res \<longleftrightarrow> (\<forall>e \<in> set es. e \<noteq> [] \<longrightarrow> trace_failure e = None)"
    and "sr_violations res = [] \<longleftrightarrow>
      (\<forall>e \<in> set es. e \<noteq> [] \<longrightarrow> trace_failure e = None \<longrightarrow> set (observed_path base e) \<subseteq> set (allowed_reads base declared))"
proof -
  obtain ok reason obs where f: "fold (trace_entry base) es (True, [], []) = (ok, reason, obs)" by (metis prod.exhaust)
  note v = fold_trace_entry [OF f]
  show "sr_trace_ok res \<longleftrightarrow> (\<forall>e \<in> set es. e \<noteq> [] \<longrightarrow> trace_failure e = None)"
    using v by (simp add: assms evaluate_strict_readtrace_def f)
  have "sr_violations res = [] \<longleftrightarrow> filter (\<lambda>p. p \<notin> set (allowed_reads base declared)) obs = []"
    using sort_Nil by (simp add: assms evaluate_strict_readtrace_def f)
  also have "\<dots> \<longleftrightarrow> set obs \<subseteq> set (allowed_reads base declared)" by (auto simp: filter_empty_conv)
  finally show "sr_violations res = [] \<longleftrightarrow>
      (\<forall>e \<in> set es. e \<noteq> [] \<longrightarrow> trace_failure e = None \<longrightarrow> set (observed_path base e) \<subseteq> set (allowed_reads base declared))"
    using v by auto
qed

text \<open>The system calls that read a path, and the register that points to it.\<close>

definition read_call :: "regs \<Rightarrow> 64 word option" where
  "read_call g =
     (let n = sint (g_orig_rax g) in
      if n \<in> {SYS_execve, SYS_access, SYS_stat, SYS_lstat} \<or> (n = SYS_open \<and> reads_file (g_rsi g)) then Some (g_rdi g)
      else if n \<in> {SYS_newfstatat, SYS_faccessat, SYS_statx} \<or> (n = SYS_openat \<and> reads_file (g_rdx g)) then Some (g_rsi g)
      else None)"

lemmas sys_numbers = SYS_open_def SYS_stat_def SYS_lstat_def SYS_access_def SYS_execve_def SYS_chdir_def
  SYS_openat_def SYS_newfstatat_def SYS_faccessat_def SYS_statx_def

lemma enter_syscall_read:
  assumes "read_call g = Some a" "str a = Some raw" "t1 = enter_syscall cwd pid g str t"
  shows "resolve_path cwd raw \<in> set (tr_observed t1) \<or> (\<exists>m \<in> set (tr_markers t1). starts_with ''UNRESOLVED:'' m)"
  using assms unfolding assms(3) enter_syscall_def read_call_def Let_def
  by (auto simp: sys_numbers at_call_def observe_path_def mark_def starts_with_iff split: if_splits)

subsection \<open>The calls of a script, as the kernel reports them\<close>

text \<open>
  The kernel stops a traced process twice for every system call, on entry and on exit, and does not say which of the two
  a stop is. The tracer keeps a flag to tell them apart; but it clears that flag when a process executes a program, and the
  exit stop of the \<open>execve\<close> comes after that: from then on it takes the exit of every call for the entry and the entry
  for the exit. What it sees is therefore stated over what the kernel reports, without the flag: a call is its two
  stops, the first and the next one of that process. The registers with the number and the arguments of a call are the same at
  both (the x86-64 ABI), and so is the path unless the call overwrote it.
\<close>

definition syscall_at :: "stop \<Rightarrow> regs \<Rightarrow> bool" where
  "syscall_at sp g \<longleftrightarrow> wif_stopped (sp_status sp) \<and> wstop_sig (sp_status sp) = 0x85 \<and> sp_regs sp = Some g"

text \<open>An event that is not about the process \<open>pid\<close>: neither a stop of it nor its announcement as a new one.\<close>

definition elsewhere :: "int \<Rightarrow> bool + stop \<Rightarrow> bool" where
  "elsewhere pid ev \<longleftrightarrow> (\<forall>sp. ev = Inr sp \<longrightarrow> sp_pid sp \<noteq> pid \<and> sp_msg sp \<noteq> Some pid)"

text \<open>A whole call that reads the path \<open>raw\<close>: its two stops, with \<open>mid\<close> between them.\<close>

definition reads_path :: "stop \<Rightarrow> (bool + stop) list \<Rightarrow> stop \<Rightarrow> string \<Rightarrow> bool" where
  "reads_path sp1 mid sp2 raw \<longleftrightarrow> sp_pid sp2 = sp_pid sp1 \<and> list_all (elsewhere (sp_pid sp1)) mid \<and>
     (\<exists>g a. syscall_at sp1 g \<and> syscall_at sp2 g \<and> read_call g = Some a \<and>
        ptrace_read_cstring (sp_peek sp1) a 4096 = Some raw \<and> ptrace_read_cstring (sp_peek sp2) a 4096 = Some raw)"

text \<open>The processes of the script: the command, and what a process of the script created, until they end.\<close>

definition procs_after :: "int set \<Rightarrow> bool + stop \<Rightarrow> int set" where
  "procs_after S ev =
     (case ev of
        Inl _ \<Rightarrow> S
      | Inr sp \<Rightarrow>
          let st = sp_status sp in
          if wif_exited st \<or> wif_signaled st then S - {sp_pid sp}
          else if wif_stopped st \<and> wstop_sig st = SIGTRAP \<and> wstop_event st \<in> {1, 2, 3} \<and> sp_pid sp \<in> S
          then S \<union> set_option (sp_msg sp)
          else S)"

definition script_procs :: "int \<Rightarrow> (bool + stop) list \<Rightarrow> int set" where
  "script_procs root evs = foldl procs_after {root} evs"

definition SYS_fchdir :: int where "SYS_fchdir = 81"

definition changes_dir :: "bool + stop \<Rightarrow> bool" where
  "changes_dir ev \<longleftrightarrow> (\<exists>sp g. ev = Inr sp \<and> sp_regs sp = Some g \<and> sint (g_orig_rax g) \<in> {SYS_chdir, SYS_fchdir})"

lemma stopped_not_ended: "wif_stopped st \<Longrightarrow> \<not> wif_exited st \<and> \<not> wif_signaled st"
proof -
  assume "wif_stopped st"
  then have "(st AND 0xff) AND 0x7f = 0x7f" by (simp add: wif_stopped_def)
  moreover have "(st AND 0xff) AND 0x7f = st AND (0xff AND 0x7f)" by (rule and.assoc)
  ultimately have "st AND 0x7f = 0x7f" by simp
  then show ?thesis by (simp add: wif_exited_def wif_signaled_def)
qed

subsection \<open>What the tracer knows of each process\<close>

definition proc_of :: "tracer \<Rightarrow> int \<Rightarrow> proc_state option" where
  "proc_of t = map_of (tr_procs t)"

lemma map_of_filter_key: "map_of (filter (\<lambda>(q, _). q \<noteq> pid) xs) = (map_of xs)(pid := None)"
  by (induction xs) (auto simp: fun_eq_iff)

lemma proc_of_ops [simp]:
  "proc_of (set_proc pid ps t) = (proc_of t)(pid \<mapsto> ps)"
  "proc_of (drop_proc pid t) = (proc_of t)(pid := None)"
  "proc_of (mark m t) = proc_of t"
  "proc_of (observe_path cwd s t) = proc_of t"
  "proc_of (at_call m cwd g str t) = proc_of t"
  "proc_of (t\<lparr>tr_root_exit := x\<rparr>) = proc_of t"
  by (auto simp: proc_of_def set_proc_def drop_proc_def mark_def observe_path_def at_call_def map_of_filter_key fun_eq_iff split: option.splits)

lemma proc_of_upd [simp]: "proc_of (upd_proc pid f t) = (proc_of t)(pid := map_option f (proc_of t pid))"
proof (cases "map_of (tr_procs t) pid")
  case (Some ps)
  then have "upd_proc pid f t = set_proc pid (f ps) t" by (simp add: upd_proc_def)
  with Some show ?thesis by (simp add: proc_of_def [of t])
qed (auto simp: upd_proc_def proc_of_def fun_eq_iff)

lemma proc_of_if: "proc_of (if b then t else u) = (if b then proc_of t else proc_of u)"
  by simp

lemma proc_of_enter_other: "sint (g_orig_rax g) \<noteq> SYS_chdir \<Longrightarrow> proc_of (enter_syscall cwd pid g str t) = proc_of t"
  unfolding enter_syscall_def Let_def by (simp only: proc_of_if if_False proc_of_ops if_cancel)

lemma proc_of_enter:
  "dom (proc_of (enter_syscall cwd pid g str t)) = dom (proc_of t)"
  "q \<noteq> pid \<Longrightarrow> proc_of (enter_syscall cwd pid g str t) q = proc_of t q"
proof -
  have c: "proc_of (enter_syscall cwd pid g str t) = (case str (g_rdi g) of
      None \<Rightarrow> proc_of t | Some s \<Rightarrow> (proc_of t)(pid := map_option (\<lambda>ps. ps\<lparr>pst_cwd := resolve_path cwd s\<rparr>) (proc_of t pid)))"
    if "sint (g_orig_rax g) = SYS_chdir" using that by (simp add: enter_syscall_def split: option.split)
  show "dom (proc_of (enter_syscall cwd pid g str t)) = dom (proc_of t)"
    using c proc_of_enter_other by (cases "sint (g_orig_rax g) = SYS_chdir") (auto split: option.split)
  show "q \<noteq> pid \<Longrightarrow> proc_of (enter_syscall cwd pid g str t) q = proc_of t q"
    using c proc_of_enter_other by (cases "sint (g_orig_rax g) = SYS_chdir") (auto split: option.split)
qed

lemma syscall_stop_proc_of:
  "syscall_stop cwd0 sp t =
     (let pid = sp_pid sp;
          entering = (case proc_of t pid of Some ps \<Rightarrow> \<not> pst_in_syscall ps | None \<Rightarrow> True);
          t1 = upd_proc pid (\<lambda>ps. ps\<lparr>pst_in_syscall := entering\<rparr>) t
      in if entering
         then (case sp_regs sp of
                 None \<Rightarrow> mark ''TRACE_ERROR:getregs'' t1
               | Some g \<Rightarrow>
                   enter_syscall (case proc_of t pid of Some ps \<Rightarrow> pst_cwd ps | None \<Rightarrow> cwd0) pid g
                     (\<lambda>a. ptrace_read_cstring (sp_peek sp) a 4096) t1)
         else t1)"
  unfolding syscall_stop_def proc_of_def [symmetric] Let_def by (auto simp: option.map_sel split: option.split)

lemma event_stop_proc_of:
  "event_stop sp event t =
     (if event \<in> {1, 2, 3}
      then (case (sp_msg sp, proc_of t (sp_pid sp)) of
              (Some new_pid, Some ps) \<Rightarrow> set_proc new_pid \<lparr>pst_cwd = pst_cwd ps, pst_in_syscall = False\<rparr> t
            | _ \<Rightarrow> t)
      else if event = 4 then upd_proc (sp_pid sp) (\<lambda>ps. ps\<lparr>pst_in_syscall := False\<rparr>) t
      else t)"
  by (simp add: event_stop_def proc_of_def)

lemma proc_of_syscall_stop:
  "dom (proc_of (syscall_stop cwd0 sp t)) = dom (proc_of t)"
  "q \<noteq> sp_pid sp \<Longrightarrow> proc_of (syscall_stop cwd0 sp t) q = proc_of t q"
  by (auto simp: syscall_stop_proc_of Let_def proc_of_enter split: option.splits)

lemma proc_of_event_stop:
  "dom (proc_of (event_stop sp n t)) =
     (if n \<in> {1, 2, 3} \<and> sp_pid sp \<in> dom (proc_of t) then dom (proc_of t) \<union> set_option (sp_msg sp) else dom (proc_of t))"
  "q \<noteq> sp_pid sp \<Longrightarrow> sp_msg sp \<noteq> Some q \<Longrightarrow> proc_of (event_stop sp n t) q = proc_of t q"
  by (auto simp: event_stop_proc_of split: option.splits)

lemma event_nonzero: "wstop_event st \<in> {1, 2, 3} \<Longrightarrow> wstop_event st \<noteq> 0"
  by auto

lemma proc_of_step:
  "dom (proc_of (trace_step cwd0 root sp t)) = procs_after (dom (proc_of t)) (Inr sp)"
  "q \<noteq> sp_pid sp \<Longrightarrow> sp_msg sp \<noteq> Some q \<Longrightarrow> proc_of (trace_step cwd0 root sp t) q = proc_of t q"
  using event_nonzero [of "sp_status sp"]
  by (auto simp: trace_step_def procs_after_def Let_def proc_of_syscall_stop proc_of_event_stop)

text \<open>While no process changes its directory, all are in the one the command was started in.\<close>

definition all_in :: "string \<Rightarrow> tracer \<Rightarrow> bool" where
  "all_in d t \<longleftrightarrow> (\<forall>q ps. proc_of t q = Some ps \<longrightarrow> pst_cwd ps = d)"

lemma step_all_in:
  assumes "all_in d t" "\<not> changes_dir (Inr sp)"
  shows "all_in d (trace_step cwd0 root sp t)"
proof -
  have "all_in d (syscall_stop cwd0 sp t)"
    using assms by (auto simp: all_in_def syscall_stop_proc_of Let_def changes_dir_def proc_of_enter_other split: option.splits if_splits)
  moreover have "all_in d (event_stop sp n t)" for n
    using assms(1) by (auto simp: all_in_def event_stop_proc_of split: option.splits)
  moreover have "all_in d (drop_proc q t)" "all_in d (drop_proc q (t\<lparr>tr_root_exit := x\<rparr>))" for q x
    using assms(1) by (auto simp: all_in_def)
  ultimately show ?thesis using assms(1) by (simp add: trace_step_def Let_def)
qed

lemma trace_init_ok: "cwd_ok cwd0 \<Longrightarrow> tracer_ok (trace_init cwd0 root b)"
  using marker_literals(7) by (simp add: trace_init_def tracer_ok_def)

lemma loop_ended: "tr_procs t = [] \<Longrightarrow> trace_loop cwd0 root evs t = t"
  by (cases evs) simp_all

lemma no_procs: "foldl procs_after {} evs = {}"
  by (induction evs) (auto simp: procs_after_def Let_def split: sum.split)

lemma proc_of_Nil: "tr_procs t = [] \<longleftrightarrow> dom (proc_of t) = {}"
  by (simp add: proc_of_def dom_map_of_conv_image_fst)

abbreviation waitpid_failed :: "tracer \<Rightarrow> bool" where
  "waitpid_failed t \<equiv> ''TRACE_ERROR:waitpid'' \<in> set (tr_markers t)"

lemma loop_split:
  "waitpid_failed (trace_loop cwd0 root (evs @ evs2) t) \<or>
     trace_loop cwd0 root (evs @ evs2) t = trace_loop cwd0 root evs2 (trace_loop cwd0 root evs t) \<and>
     dom (proc_of (trace_loop cwd0 root evs t)) = foldl procs_after (dom (proc_of t)) evs"
proof (induction evs arbitrary: t)
  case (Cons ev evs)
  show ?case
  proof (cases "tr_procs t = []")
    case True
    then have "dom (proc_of t) = {}" by (simp add: proc_of_Nil)
    with True show ?thesis using loop_ended [OF True] no_procs [of "ev # evs"] by simp
  next
    case False
    show ?thesis
    proof (cases ev)
      case (Inl b)
      then show ?thesis using Cons.IH [of t] False by (cases b) (auto simp: mark_def procs_after_def)
    next
      case (Inr sp)
      then show ?thesis using Cons.IH [of "trace_step cwd0 root sp t"] False by (simp add: proc_of_step(1))
    qed
  qed
qed simp

lemma loop_elsewhere:
  assumes "list_all (elsewhere pid) evs"
  shows "proc_of (trace_loop cwd0 root evs t) pid = proc_of t pid"
  using assms
proof (induction evs arbitrary: t)
  case (Cons ev evs)
  then show ?case using proc_of_step(2) [of pid] by (auto simp: elsewhere_def split: sum.split bool.split)
qed simp

lemma loop_all_in:
  assumes "all_in d t" "\<not> list_ex changes_dir evs"
  shows "all_in d (trace_loop cwd0 root evs t)"
  using assms
proof (induction evs arbitrary: t)
  case (Cons ev evs)
  moreover have "all_in d (mark m t)" for m using Cons.prems(1) by (simp add: all_in_def)
  ultimately show ?case using step_all_in [of d t] by (auto split: sum.split bool.split)
qed simp

text \<open>Whatever the flag says at the first stop of a call, the call is looked at at one of its two stops.\<close>

lemma syscall_step: "syscall_at sp g \<Longrightarrow> trace_step cwd0 root sp t = syscall_stop cwd0 sp t"
  using stopped_not_ended by (auto simp: syscall_at_def trace_step_def SIGTRAP_def)

lemma step_read:
  assumes "syscall_at sp g" "proc_of t (sp_pid sp) = Some ps" "\<not> pst_in_syscall ps"
    "read_call g = Some a" "ptrace_read_cstring (sp_peek sp) a 4096 = Some raw"
  shows "resolve_path (pst_cwd ps) raw \<in> set (tr_observed (trace_step cwd0 root sp t))
    \<or> (\<exists>m \<in> set (tr_markers (trace_step cwd0 root sp t)). starts_with ''UNRESOLVED:'' m)"
proof -
  let ?str = "\<lambda>a. ptrace_read_cstring (sp_peek sp) a 4096"
  have "trace_step cwd0 root sp t =
      enter_syscall (pst_cwd ps) (sp_pid sp) g ?str (upd_proc (sp_pid sp) (\<lambda>ps. ps\<lparr>pst_in_syscall := True\<rparr>) t)"
    using assms(1-3) syscall_step [OF assms(1)] by (simp add: syscall_at_def syscall_stop_proc_of Let_def)
  then show ?thesis using enter_syscall_read [OF assms(4), of ?str raw] assms(5) by simp
qed

lemma step_flip:
  assumes "syscall_at sp g" "proc_of t (sp_pid sp) = Some ps" "pst_in_syscall ps"
  shows "proc_of (trace_step cwd0 root sp t) (sp_pid sp) = Some (ps\<lparr>pst_in_syscall := False\<rparr>)"
  using assms(2,3) by (simp add: syscall_step [OF assms(1)] syscall_stop_proc_of Let_def)

lemma marker_failure: "starts_with ''UNRESOLVED:'' m \<Longrightarrow> trace_failure m \<noteq> None"
  by (auto simp: trace_failure_def split: option.split)

lemma waitpid_failure: "trace_failure ''TRACE_ERROR:waitpid'' \<noteq> None"
  by code_simp

lemma read_seen:
  assumes T: "T = trace_loop cwd0 root (evs @ Inr sp1 # mid @ Inr sp2 # rest) (trace_init cwd0 root b)"
    and r: "reads_path sp1 mid sp2 raw" "sp_pid sp1 \<in> script_procs root evs"
    and d: "is_absolute raw \<or> \<not> list_ex changes_dir (evs @ mid)" and c: "cwd_ok cwd0"
  shows "resolve_path cwd0 raw \<in> set (tr_observed T) \<or> (\<exists>m \<in> set (tr_markers T). trace_failure m \<noteq> None)"
proof (rule disjCI)
  assume ok: "\<not> (\<exists>m \<in> set (tr_markers T). trace_failure m \<noteq> None)"
  define t where "t = trace_loop cwd0 root evs (trace_init cwd0 root b)"
  let ?pid = "sp_pid sp1" and ?t1 = "trace_step cwd0 root sp1 t"
  let ?t2 = "trace_loop cwd0 root mid ?t1" and ?t0 = "trace_init cwd0 root b"
  obtain g a where g: "syscall_at sp1 g" "syscall_at sp2 g" "read_call g = Some a" "sp_pid sp2 = ?pid" "list_all (elsewhere ?pid) mid"
    "ptrace_read_cstring (sp_peek sp1) a 4096 = Some raw" "ptrace_read_cstring (sp_peek sp2) a 4096 = Some raw"
    using r(1) unfolding reads_path_def by blast
  have nf: "\<not> waitpid_failed T" using ok waitpid_failure by blast
  have dom0: "dom (proc_of ?t0) = {root}" "all_in cwd0 ?t0" by (auto simp: trace_init_def proc_of_def all_in_def)
  have T1: "T = trace_loop cwd0 root (Inr sp1 # mid @ Inr sp2 # rest) t" "dom (proc_of t) = script_procs root evs"
    using loop_split [of cwd0 root evs "Inr sp1 # mid @ Inr sp2 # rest" ?t0] nf by (simp_all add: T t_def dom0 script_procs_def)
  then obtain ps where ps: "proc_of t ?pid = Some ps" using r(2) by blast
  then have "tr_procs t \<noteq> []" by (auto simp: proc_of_def)
  then have T2: "T = trace_loop cwd0 root (Inr sp2 # rest) ?t2"
    using loop_split [of cwd0 root mid "Inr sp2 # rest" ?t1] nf T1(1) by auto
  have "cwd_ok cwd0 \<Longrightarrow> tracer_ok t" unfolding t_def using trace_loop_op trace_init_ok by blast
  with c have tok: "tracer_ok t" "tracer_ok ?t1" "tracer_ok ?t2" using step_op.op_ok trace_loop_op by blast+
  have p: "resolve_path (pst_cwd ps) raw = resolve_path cwd0 raw"
  proof (cases "is_absolute raw")
    case False
    then have "all_in cwd0 t" unfolding t_def using d dom0(2) by (intro loop_all_in) auto
    with ps show ?thesis by (simp add: all_in_def)
  qed (simp add: resolve_path_def)
  have seen: "resolve_path cwd0 raw \<in> set (tr_observed T)"
    if "tracer_le u T" "resolve_path cwd0 raw \<in> set (tr_observed u) \<or> (\<exists>m \<in> set (tr_markers u). starts_with ''UNRESOLVED:'' m)" for u
    using that ok marker_failure unfolding tracer_le_def by blast
  show "resolve_path cwd0 raw \<in> set (tr_observed T)"
  proof (cases "pst_in_syscall ps")
    case False
    have "T = trace_loop cwd0 root (mid @ Inr sp2 # rest) ?t1" using T1(1) \<open>tr_procs t \<noteq> []\<close> by simp
    then have "tracer_le ?t1 T" using trace_loop_op [OF c tok(2)] by simp
    then show ?thesis using seen step_read [OF g(1) ps False g(3,6), of cwd0 root] unfolding p by blast
  next
    case True
    let ?ps = "ps\<lparr>pst_in_syscall := False\<rparr>"
    have k: "proc_of ?t2 (sp_pid sp2) = Some ?ps" using step_flip [OF g(1) ps True] loop_elsewhere [OF g(5)] g(4) by simp
    then have "tr_procs ?t2 \<noteq> []" by (auto simp: proc_of_def)
    then have "T = trace_loop cwd0 root rest (trace_step cwd0 root sp2 ?t2)" using T2 by simp
    then have "tracer_le (trace_step cwd0 root sp2 ?t2) T" using trace_loop_op [OF c step_op.op_ok [OF c tok(3)]] by simp
    then show ?thesis using seen step_read [OF g(2) k _ g(3,7), of cwd0 root] p by simp
  qed
qed

text \<open>C32. Strict mode is sound for the calls the tracer knows. Take any system call of any process of the script (the command
  and the processes announced as created by one), by its two stops as the kernel reports them, that reads a path: an \<open>open\<close> or \<open>openat\<close> not only for writing, \<open>stat\<close>, \<open>lstat\<close>,
  \<open>newfstatat\<close>, \<open>statx\<close>, \<open>access\<close>, \<open>faccessat\<close>, or an \<open>execve\<close> that fails, whose registers and path are the same at both
  stops, the path being absolute or the script not having changed its directory before. If the trace file is accepted and
  shows no violation, the path, when it is below the project and outside \<open>.redo\<close>, is a declared dependency, whatever
  interleaving the stops of the other processes have and whether or not the tracer's idea of entry and exit is the kernel's.
  An \<open>execve\<close> that succeeds is not such a call; see \<open>second_exec_unseen\<close>.\<close>

theorem strict_mode_sound:
  assumes run: "trace_run_linux_x86_64 cwd0 root options_ok (evs @ Inr sp1 # mid @ Inr sp2 # rest) = (out, rv)"
    and call: "reads_path sp1 mid sp2 raw" "sp_pid sp1 \<in> script_procs root evs"
    and dir: "is_absolute raw \<or> \<not> list_ex changes_dir (evs @ mid)" "is_absolute cwd0" "CHR 0x00 \<notin> set cwd0"
    and res: "res = evaluate_strict_readtrace base declared (parse_nul_separated_strings (write_trace_out0 out))"
      "sr_trace_ok res" "sr_violations res = []"
    and p: "p = resolve_path cwd0 raw" "path_starts_with p base" "\<not> path_starts_with p (normalize_path_lex (path_join base ''.redo''))"
  shows "\<exists>(m, d) \<in> set declared. f_name d \<noteq> ALWAYS \<and> p = normalize_path_lex (path_join base (f_name d))"
proof -
  define T where "T = trace_loop cwd0 root (evs @ Inr sp1 # mid @ Inr sp2 # rest) (trace_init cwd0 root options_ok)"
  have c: "cwd_ok cwd0" using dir(2,3) by (simp add: cwd_ok_def)
  have Tok: "tracer_ok T" using trace_loop_op [OF c trace_init_ok [OF c]] by (simp add: T_def)
  have out: "set out = set (tr_markers T) \<union> set (tr_observed T)" using run by (auto simp: trace_run_linux_x86_64_def Let_def T_def)
  then have ne: "\<forall>e \<in> set out. e \<noteq> [] \<and> CHR 0x00 \<notin> set e" using Tok by (auto simp: tracer_ok_def list_all_iff entry_ok_def)
  then have es: "parse_nul_separated_strings (write_trace_out0 out) = out" by (rule parse_write_out0)
  note v = strict_verdict [OF res(1), unfolded es]
  have ok: "trace_failure e = None" if "e \<in> set out" for e using v(1) res(2) that ne by simp
  have pout: "p \<in> set out" using read_seen [OF T_def call dir(1) c] ok out unfolding p(1) by auto
  then have "set (observed_path base p) \<subseteq> set (allowed_reads base declared)" using v(2) res(3) ok ne by simp
  moreover have "is_absolute p" "normalize_path_lex p = p" using resolve_path_canonical [OF dir(2)] p(1) by simp_all
  ultimately have "p \<in> set (allowed_reads base declared)" using p(2,3) by (simp add: observed_path_def)
  then show ?thesis by (auto simp: allowed_reads_def)
qed

text \<open>The stops of a shell script that opens \<open>a\<close>, in the order of the kernel: the command's \<open>execve\<close>, the event that it succeeded and
  its exit, where the registers are those of the new program; then the call. It is seen at its exit.\<close>

definition call_stop :: "64 word \<Rightarrow> 64 word \<Rightarrow> stop" where
  "call_stop nr ptr = \<lparr>sp_pid = 7, sp_status = 0x857f, sp_msg = None, sp_regs = Some \<lparr>g_orig_rax = nr, g_rdi = ptr, g_rsi = 0, g_rdx = 0\<rparr>,
     sp_peek = (\<lambda>a. if a = 4096 then Some 0x61 else if a = 8192 then Some 0x6C6F6F742F622F else None)\<rparr>"

definition exec_event :: stop where
  "exec_event = \<lparr>sp_pid = 7, sp_status = 0x4057f, sp_msg = Some 7, sp_regs = None, sp_peek = (\<lambda>_. None)\<rparr>"

definition exec_stops :: "64 word \<Rightarrow> (bool + stop) list" where
  "exec_stops ptr = [Inr (call_stop 59 ptr), Inr exec_event, Inr (call_stop 59 0)]"

lemma open_seen_at_exit:
  "tr_observed (trace_loop ''/b'' 7 (exec_stops 0 @ [Inr (call_stop 2 4096)]) (trace_init ''/b'' 7 True)) = []"
  "tr_observed (trace_loop ''/b'' 7 (exec_stops 0 @ [Inr (call_stop 2 4096), Inr (call_stop 2 4096)]) (trace_init ''/b'' 7 True)) = [''/b/a'']"
  by code_simp+

theorem strict_mode_sound_witness:
  "fst (trace_run_linux_x86_64 ''/b'' 7 True (exec_stops 0 @ Inr (call_stop 2 4096) # [] @ Inr (call_stop 2 4096) # [])) = [''/b/a'']
   \<and> (\<exists>(m, d) \<in> set [(CHR ''m'', demo_file\<lparr>f_name := ''a''\<rparr>)]. f_name d \<noteq> ALWAYS \<and>
        ''/b/a'' = normalize_path_lex (path_join ''/b'' (f_name d)))"
proof -
  let ?s = "call_stop 2 4096" and ?ds = "[(CHR ''m'', demo_file\<lparr>f_name := ''a''\<rparr>)]"
  have r: "trace_run_linux_x86_64 ''/b'' 7 True (exec_stops 0 @ Inr ?s # [] @ Inr ?s # []) = ([''/b/a''], 201)" by code_simp
  have "syscall_at ?s (the (sp_regs ?s))" "read_call (the (sp_regs ?s)) = Some 4096" "ptrace_read_cstring (sp_peek ?s) 4096 4096 = Some ''a''"
    by code_simp+
  then have c: "reads_path ?s [] ?s ''a''" unfolding reads_path_def by auto
  have k: "sp_pid ?s \<in> script_procs 7 (exec_stops 0)" by code_simp
  have d: "is_absolute ''a'' \<or> \<not> list_ex changes_dir (exec_stops 0 @ [])"
    by (simp add: exec_stops_def changes_dir_def call_stop_def exec_event_def SYS_chdir_def SYS_fchdir_def)
  have a: "is_absolute ''/b''" "CHR 0x00 \<notin> set ''/b''" by (simp_all add: is_absolute_def)
  have v: "sr_trace_ok (evaluate_strict_readtrace ''/b'' ?ds (parse_nul_separated_strings (write_trace_out0 [''/b/a''])))"
    "sr_violations (evaluate_strict_readtrace ''/b'' ?ds (parse_nul_separated_strings (write_trace_out0 [''/b/a'']))) = []" by code_simp+
  have p: "''/b/a'' = resolve_path ''/b'' ''a''" "path_starts_with ''/b/a'' ''/b''"
    "\<not> path_starts_with ''/b/a'' (normalize_path_lex (path_join ''/b'' ''.redo''))" by code_simp+
  from strict_mode_sound [OF r c k d a refl v p] r show ?thesis by simp
qed

text \<open>
  A process that executes a second program, as a shell does with \<open>exec /b/tool\<close>, is not seen to read it: the entry of that
  \<open>execve\<close> is taken for an exit, and at its exit the path is gone. Strict mode accepts the build although \<open>tool\<close> is not declared.
\<close>

lemma second_exec_unseen:
  "trace_run_linux_x86_64 ''/b'' 7 True (exec_stops 0 @ exec_stops 8192) = ([], 201)"
  "fst (trace_run_linux_x86_64 ''/b'' 7 True (exec_stops 8192)) = [''/b/tool'']"
  by code_simp+

subsection \<open>\<open>AT_FDCWD\<close> in a 32-bit register\<close>

text \<open>
  The directory descriptor is an \<open>int\<close>: callers may leave the upper half of the register zero, and the
  kernel looks at the lower half only. The comparison with the sign-extended constant then fails and
  an ordinary \<open>open\<close> through \<open>openat(AT_FDCWD, ..)\<close> is reported as unresolved.
\<close>

lemma openat_zero_extended:
  assumes "g_rdi g = 0xffffff9c"
  shows "(scast (ucast (g_rdi g) :: 32 word) :: 64 word) = word_of_int AT_FDCWD"
    "at_call m cwd g str t = mark m t"
  using assms by (simp_all add: at_call_def AT_FDCWD_def)

end
