(* ===== verification/Builder.thy ===== *)
theory Builder
  imports Pools Read_Trace Action_Cache
begin

text \<open>
  The build of one target (\<open>build_one\<close> and the helpers it uses, \<open>redo_core/src/builder.rs\<close>), the jobs of the
  scheduler (\<open>schedule_build_one\<close>) and \<open>run_redo\<close>.

  The world is the files, the state database of the process and the kernel's lock table. Files are a
  map from paths to metadata and content; symbolic links among targets are not modelled. A \<open>.do\<close>
  script is the parameter \<open>bc_run\<close>: from the job, the files and the database to its exit code, what it
  wrote to standard output, and the files and database afterwards (it may run other builds). \<open>None\<close>
  as a result means that the call waits for a lock; \<open>Inl\<close> ends the process. Log lines are not
  modelled.
\<close>

type_synonym disk = "string \<rightharpoonup> meta \<times> string"

definition view :: "disk \<Rightarrow> fsview" where
  "view d = \<lparr>fs_lstat = (\<lambda>p. map_option fst (d p)), fs_stat = (\<lambda>p. map_option fst (d p))\<rparr>"

definition file_exists :: "disk \<Rightarrow> string \<Rightarrow> bool" where
  "file_exists d p \<longleftrightarrow> d p \<noteq> None"

definition unlink_best_effort :: "string \<Rightarrow> disk \<Rightarrow> disk" where
  "unlink_best_effort p d = (case d p of Some (m, _) \<Rightarrow> if m_is_dir m then d else d(p := None) | None \<Rightarrow> d)"

definition durable_rename :: "string \<Rightarrow> string \<Rightarrow> disk \<Rightarrow> disk res" where
  "durable_rename tmp target d =
     (case (d tmp, d target) of
        (None, _) \<Rightarrow> Inl (IoError tmp)
      | (Some (m, c), Some (m', _)) \<Rightarrow>
          if m_is_dir m' \<noteq> m_is_dir m then Inl (IoError target) else Inr ((d(tmp := None))(target \<mapsto> (m, c)))
      | (Some x, None) \<Rightarrow> Inr ((d(tmp := None))(target \<mapsto> x)))"

record job_spec =
  jb_target :: string
  jb_dodir :: string
  jb_dofile :: string
  jb_arg1 :: string
  jb_arg2 :: string
  jb_arg3 :: string
  jb_fid :: int
  jb_trace :: "string option"

record build_ctx =
  bc_ext :: ext_fns
  bc_env :: env
  bc_vars :: vars
  bc_pid :: pid
  bc_run :: "job_spec \<Rightarrow> disk \<times> database \<Rightarrow> int \<times> string \<times> disk \<times> database"
  bc_mkmeta :: "string \<Rightarrow> meta"
  bc_creatable :: "disk \<Rightarrow> string \<Rightarrow> bool"
  bc_crash :: bool

record world =
  w_disk :: disk
  w_st :: state_inner
  w_locks :: klocks

definition abs_target :: "env \<Rightarrow> redo_file \<Rightarrow> string" where
  "abs_target e sf = path_join (e_base e) (f_name sf)"

subsection \<open>Before the script\<close>

definition persist_new_target_intent :: "env \<Rightarrow> disk \<Rightarrow> redo_file \<Rightarrow> state_inner \<Rightarrow> redo_file \<times> state_inner" where
  "persist_new_target_intent e d sf s =
     (if file_exists d (abs_target e sf) \<or> f_is_generated sf then (sf, s)
      else let sf1 = sf\<lparr>f_is_generated := True, f_is_override := False\<rparr> in (sf1, st_commit (save sf1 s)))"

definition override_detected :: "env \<Rightarrow> disk \<Rightarrow> redo_file \<Rightarrow> bool" where
  "override_detected e d sf =
     (let newstamp = read_stamp (view d) e sf in
      f_is_generated sf \<and> newstamp \<noteq> STAMP_MISSING \<and>
      (f_is_override sf \<or> (f_stamp sf \<noteq> None \<and> detect_override (unwrap_or (f_stamp sf) []) newstamp)))"

text \<open>The two early ends: a file the user has overridden, and a source file. \<open>Some\<close> is the state to end with.\<close>

definition check_not_ours :: "env \<Rightarrow> disk \<Rightarrow> redo_file \<Rightarrow> state_inner \<Rightarrow> state_inner option res" where
  "check_not_ours e d sf s =
     (if override_detected e d sf
      then (if f_is_override sf then Inr (Some s)
            else rbind (set_override (view d) e sf) (\<lambda>f. Inr (Some (st_commit (save f s)))))
      else if file_exists d (abs_target e sf) \<and> \<not> f_is_generated sf
      then rbind (set_static (view d) e sf) (\<lambda>f. Inr (Some (st_commit (save f s))))
      else Inr None)"

text \<open>The search for the rule: every candidate that does not exist becomes a dependency on its
  non-existence, the one that does a dependency on its content.\<close>

fun find_do_loop :: "ext_fns \<Rightarrow> env \<Rightarrow> disk \<Rightarrow> redo_file \<Rightarrow> do_file list \<Rightarrow> state_inner \<Rightarrow> (do_file option \<times> state_inner) res" where
  "find_do_loop x e d sf [] s = Inr (None, s)"
| "find_do_loop x e d sf (cand # cands) s =
     (let dopath = path_join (dodir cand) (dofile cand) in
      if file_exists d dopath
      then rbind (add_dep x e sf (CHR ''m'') dopath s) (\<lambda>s1.
           rbind (by_name x e dopath True s1) (\<lambda>(dof, s2).
           rbind (set_static (view d) e dof) (\<lambda>dof1.
             Inr (Some cand, save dof1 s2))))
      else rbind (add_dep x e sf (CHR ''c'') dopath s) (\<lambda>s1. find_do_loop x e d sf cands s1))"

definition find_do_for_target :: "ext_fns \<Rightarrow> env \<Rightarrow> disk \<Rightarrow> redo_file \<Rightarrow> state_inner \<Rightarrow> (do_file option \<times> state_inner) res" where
  "find_do_for_target x e d sf s = find_do_loop x e d sf (possible_do_files (f_name sf) (e_base e)) s"

definition find_do_for_target_no_deps :: "env \<Rightarrow> disk \<Rightarrow> redo_file \<Rightarrow> do_file option" where
  "find_do_for_target_no_deps e d sf =
     List.find (\<lambda>c. file_exists d (path_join (dodir c) (dofile c))) (possible_do_files (f_name sf) (e_base e))"

text \<open>No rule: a file that exists is a source after all, otherwise the target has failed.\<close>

definition no_rule :: "env \<Rightarrow> disk \<Rightarrow> redo_file \<Rightarrow> state_inner \<Rightarrow> (int \<times> state_inner) res" where
  "no_rule e d sf s =
     (if file_exists d (abs_target e sf)
      then rbind (set_static (view d) e sf) (\<lambda>f. Inr (0, st_commit (save f s)))
      else rbind (set_failed (view d) e sf) (\<lambda>f. Inr (1, st_commit (save f s))))"

subsection \<open>The child process\<close>

definition shell_argv :: "env \<Rightarrow> job_spec \<Rightarrow> string option \<Rightarrow> string list" where
  "shell_argv e jb line1 =
     (let shflag = ''-e'' @ (if e_verbose e > 0 then ''v'' else []) @ (if e_xtrace e > 0 then ''x'' else []);
          args = [jb_dofile jb, jb_arg1 jb, jb_arg2 jb, jb_arg3 jb]
      in case Option.bind line1 (strip_prefix ''#!'') of
           None \<Rightarrow> ''/bin/sh'' # shflag # args
         | Some rest \<Rightarrow>
             (case split_ws (trim rest) of
                [] \<Rightarrow> ''/bin/sh'' # shflag # args
              | interp # opts \<Rightarrow> interp # opts @ args))"

definition wrap_trace :: "env \<Rightarrow> string option \<Rightarrow> string list \<Rightarrow> string list" where
  "wrap_trace e trace argv =
     (case trace of
        Some p \<Rightarrow> if e_strict e
                  then [''redo-trace'', ''--trace-out0'', p, ''--mode'', ''read'', ''--''] @ argv else argv
      | None \<Rightarrow> argv)"

definition child_argv :: "env \<Rightarrow> job_spec \<Rightarrow> string option \<Rightarrow> string list option \<Rightarrow> string list" where
  "child_argv e jb line1 argv_override =
     wrap_trace e (jb_trace jb) (case argv_override of Some v \<Rightarrow> v | None \<Rightarrow> shell_argv e jb line1)"

text \<open>The variables set for the script; \<open>pwd_rel\<close> is the directory of the rule relative to the start
  directory, \<open>log_inode\<close> the inode of the target's log file when standard error is redirected there
  (\<open>None\<close>: it is not).\<close>

definition child_vars :: "(string list \<Rightarrow> string list) \<Rightarrow> env \<Rightarrow> job_spec \<Rightarrow> string \<Rightarrow> nat option \<Rightarrow> vars \<Rightarrow> vars" where
  "child_vars order e jb pwd_rel log_inode vs =
     (let v1 = vs(''CDPATH'' := None, ''REDO_PWD'' \<mapsto> pwd_rel, ''REDO_TARGET'' \<mapsto> jb_arg1 jb, ''REDO_DEPTH'' \<mapsto> e_depth e @ ''  '');
          v2 = cycles_add order (jb_fid jb) v1;
          v3 = (if e_xtrace e = 1 then v2(''REDO_XTRACE'' \<mapsto> ''0'') else v2);
          v4 = (if e_verbose e = 1 then v3(''REDO_VERBOSE'' \<mapsto> ''0'') else v3)
      in if e_log e \<noteq> 0
         then (case log_inode of
                 Some i \<Rightarrow> v4(''REDO_LOG'' \<mapsto> ''1'', ''REDO_LOG_INODE'' \<mapsto> show_nat i)
               | None \<Rightarrow> v4)
         else v4(''REDO_LOG_INODE'' := None, ''REDO_LOG'' \<mapsto> []))"

definition make_job :: "env \<Rightarrow> redo_file \<Rightarrow> string \<Rightarrow> do_file \<Rightarrow> string \<Rightarrow> string option \<Rightarrow> job_spec" where
  "make_job e sf t df arg3 trace =
     \<lparr>jb_target = t, jb_dodir = dodir df, jb_dofile = dofile df, jb_arg1 = basename df @ ext df, jb_arg2 = basename df,
      jb_arg3 = arg3, jb_fid = f_id sf, jb_trace = trace\<rparr>"

definition tmpname :: "do_file \<Rightarrow> string" where
  "tmpname df = path_join (dodir df) (basename df @ ext df @ ''.redo.tmp'')"

definition trace_path :: "env \<Rightarrow> pid \<Rightarrow> redo_file \<Rightarrow> string option" where
  "trace_path e p sf =
     (if e_strict e
      then Some (path_join (path_join (path_join (e_base e) ''.redo'') ''trace'')
             (''readtrace.'' @ show_int (unwrap_or (e_runid e) 0) @ ''.'' @ show_int (f_id sf) @ ''.'' @ show_nat p @ ''.out0''))
      else None)"

subsection \<open>After the script\<close>

text \<open>The exit codes 206 (the script wrote to the target itself) and 207 (it wrote to both outputs).\<close>

definition check_outputs :: "int \<Rightarrow> meta option \<Rightarrow> meta option \<Rightarrow> bool \<Rightarrow> nat \<Rightarrow> int" where
  "check_outputs rv before_t after_t tmp_there out_size =
     (if rv \<noteq> 0 then rv
      else let rv1 = (case after_t of
                        Some a \<Rightarrow>
                          if (case before_t of Some b \<Rightarrow> m_mtime b \<noteq> m_mtime a | None \<Rightarrow> True) \<and> \<not> m_is_dir a then 206 else 0
                      | None \<Rightarrow> 0)
           in if tmp_there \<and> out_size > 0 then 207 else rv1)"

text \<open>Standard output becomes the temporary file if there is none; 209 if it cannot be created.\<close>

definition copy_stdout :: "build_ctx \<Rightarrow> string \<Rightarrow> string \<Rightarrow> disk \<Rightarrow> int \<times> disk" where
  "copy_stdout c tmp out d =
     (if out \<noteq> [] \<and> \<not> file_exists d tmp
      then if bc_creatable c d tmp then (0, d(tmp \<mapsto> (bc_mkmeta c out, out))) else (209, d)
      else (0, d))"

text \<open>\<open>build_one\<close>: note that the target is removed also when standard output could not be copied.\<close>

definition install_output :: "build_ctx \<Rightarrow> string \<Rightarrow> string \<Rightarrow> string \<Rightarrow> disk \<Rightarrow> int \<times> disk" where
  "install_output c tmp target out d =
     (case copy_stdout c tmp out d of (rv, d1) \<Rightarrow>
        if rv = 0 \<and> file_exists d1 tmp
        then (case durable_rename tmp target d1 of Inl _ \<Rightarrow> (209, d1) | Inr d2 \<Rightarrow> (0, d2))
        else (rv, unlink_best_effort target d1))"

text \<open>The scheduler's job: the target is left alone then.\<close>

definition install_output_job :: "build_ctx \<Rightarrow> string \<Rightarrow> string \<Rightarrow> string \<Rightarrow> disk \<Rightarrow> int \<times> disk" where
  "install_output_job c tmp target out d =
     (case copy_stdout c tmp out d of (rv, d1) \<Rightarrow>
        if rv \<noteq> 0 then (rv, d1)
        else if file_exists d1 tmp
        then (case durable_rename tmp target d1 of Inl _ \<Rightarrow> (209, d1) | Inr d2 \<Rightarrow> (0, d2))
        else (0, unlink_best_effort target d1))"

definition new_file_state :: "env \<Rightarrow> disk \<Rightarrow> redo_file \<Rightarrow> redo_file res" where
  "new_file_state e d f0 =
     (let f1 = f0\<lparr>f_is_generated := True, f_is_override := False\<rparr> in
      if is_checked e f1 \<or> is_changed e f1 then Inr (f1\<lparr>f_stamp := Some (read_stamp (view d) e f1)\<rparr>)
      else rbind (update_stamp (view d) e False (f1\<lparr>f_csum := None\<rparr>)) (\<lambda>f2. Inr (set_changed e f2)))"

definition trace_entries :: "string option \<Rightarrow> disk \<Rightarrow> string list" where
  "trace_entries trace d =
     (case trace of
        None \<Rightarrow> [''TRACE_UNAVAILABLE:missing_path'']
      | Some p \<Rightarrow>
          (case d p of
             None \<Rightarrow> [''TRACE_UNAVAILABLE:read_failed'']
           | Some (_, b) \<Rightarrow> parse_nul_separated_strings b))"

definition remove_trace :: "string option \<Rightarrow> disk \<Rightarrow> disk" where
  "remove_trace trace d = (case trace of None \<Rightarrow> d | Some p \<Rightarrow> unlink_best_effort p d)"

definition strict_bad :: "strict_result \<Rightarrow> bool" where
  "strict_bad r \<longleftrightarrow> \<not> sr_trace_ok r \<or> sr_violations r \<noteq> []"

definition strict_rv :: "env \<Rightarrow> string option \<Rightarrow> disk \<Rightarrow> redo_file \<Rightarrow> state_inner \<Rightarrow> int \<Rightarrow> int" where
  "strict_rv e trace d sf s rv =
     (if e_strict e \<and> e_strict_fail e \<and>
         strict_bad (evaluate_strict_readtrace (e_base e) (file_deps e s sf) (trace_entries trace d))
      then 218 else rv)"

definition record_failure :: "env \<Rightarrow> string \<Rightarrow> disk \<Rightarrow> redo_file \<Rightarrow> state_inner \<Rightarrow> (disk \<times> state_inner) res" where
  "record_failure e tmp d sf s =
     (let d1 = unlink_best_effort tmp d in
      rbind (set_failed (view d1) e sf) (\<lambda>f. Inr (d1, st_commit (save f (zap_deps2 f s)))))"

datatype outcome = Rv int | Crashed

text \<open>The end of \<open>build_one\<close>, from the exit code \<open>rv\<close> of the script on; \<open>before_t\<close> is the target before the script.\<close>

definition finish_build ::
  "build_ctx \<Rightarrow> redo_file \<Rightarrow> string \<Rightarrow> string option \<Rightarrow> meta option \<Rightarrow> int \<Rightarrow> string \<Rightarrow> disk \<Rightarrow> state_inner
   \<Rightarrow> (outcome \<times> disk \<times> state_inner) res" where
  "finish_build c sf tmp trace before_t rv out d s =
     (let e = bc_env c; target = abs_target e sf;
          rv1 = check_outputs rv before_t (map_option fst (d target)) (file_exists d tmp) (length out)
      in if rv1 \<noteq> 0
         then rbind (record_failure e tmp d sf s) (\<lambda>(d1, s1). Inr (Rv rv1, d1, s1))
         else case install_output c tmp target out d of (rv2, d1) \<Rightarrow>
           if rv2 = 0 \<and> bc_crash c then Inr (Crashed, d1, s)
           else rbind (if rv2 = 0 then refresh e s sf else Inr sf) (\<lambda>f0.
                rbind (new_file_state e d1 f0) (\<lambda>f1.
                  let s1 = zap_deps2 f1 s;
                      rv3 = strict_rv e trace d1 f1 s1 rv2;
                      d2 = (if e_strict e then remove_trace trace d1 else d1)
                  in if rv3 = 0 then Inr (Rv 0, d2, st_commit (save f1 s1))
                     else rbind (record_failure e tmp d2 f1 s1) (\<lambda>(d3, s2). Inr (Rv rv3, d3, s2)))))"

subsection \<open>\<open>build_one\<close>\<close>

text \<open>The script runs on a flushed database; what it commits is what the process sees afterwards.\<close>

definition run_script :: "build_ctx \<Rightarrow> job_spec \<Rightarrow> disk \<Rightarrow> state_inner \<Rightarrow> int \<times> string \<times> disk \<times> state_inner" where
  "run_script c jb d s =
     (let s1 = st_commit s in
      case bc_run c jb (d, si_db s1) of (rv, out, d1, db1) \<Rightarrow> (rv, out, d1, s1\<lparr>si_db := db1\<rparr>))"

definition text_of :: "disk \<Rightarrow> string \<Rightarrow> string option" where
  "text_of d p = map_option snd (d p)"

text \<open>The pool slot of a rule: taken, not needed, or not free (\<open>None\<close> with a pool).\<close>

definition acquire :: "build_ctx \<Rightarrow> pool_spec option \<Rightarrow> world \<Rightarrow> (lock option \<times> klocks \<times> state_inner) res" where
  "acquire c spec w = (case spec of None \<Rightarrow> Inr (None, w_locks w, w_st w)
     | Some sp \<Rightarrow> try_acquire_pool (bc_vars c) (bc_pid c) sp (w_locks w) (st_commit (w_st w)))"

definition release_pool :: "build_ctx \<Rightarrow> lock option \<Rightarrow> klocks \<Rightarrow> state_inner \<Rightarrow> klocks \<times> state_inner" where
  "release_pool c pool k s = (case pool of None \<Rightarrow> (k, s) | Some l \<Rightarrow> Lock_drop (bc_pid c) l k s)"

text \<open>From the choice of the rule on. The pool slot is taken before the script and dropped at the end.\<close>

definition build_with_rule ::
  "build_ctx \<Rightarrow> string \<Rightarrow> redo_file \<Rightarrow> do_file \<Rightarrow> meta option \<Rightarrow> world \<Rightarrow> (outcome \<times> world) res option" where
  "build_with_rule c t sf df before_t w =
     (let e = bc_env c; tmp = tmpname df; trace = trace_path e (bc_pid c) sf;
          arg3 = unwrap_or (x_diff_paths (bc_ext c) tmp (dodir df)) tmp
      in case parse_redo_pool_directive (text_of (w_disk w) (path_join (dodir df) (dofile df))) of
           Inl err \<Rightarrow> Some (Inl err)
         | Inr spec \<Rightarrow>
             (case acquire c spec w of
                Inl err \<Rightarrow> Some (Inl err)
              | Inr (pool, k1, s1) \<Rightarrow>
                  if spec \<noteq> None \<and> pool = None then None
                  else let d1 = remove_trace trace (unlink_best_effort tmp (w_disk w)) in
                       case run_script c (make_job e sf t df arg3 trace) d1 s1 of
                         (rv, out, d2, s2) \<Rightarrow>
                           Some (rbind (finish_build c sf tmp trace before_t rv out d2 s2) (\<lambda>(oc, d3, s3).
                             case release_pool c pool k1 s3 of (k2, s4) \<Rightarrow>
                               Inr (oc, \<lparr>w_disk = d3, w_st = s4, w_locks = k2\<rparr>)))))"

definition build_target :: "build_ctx \<Rightarrow> string \<Rightarrow> redo_file \<Rightarrow> world \<Rightarrow> (outcome \<times> world) res option" where
  "build_target c t sf w =
     (let e = bc_env c; d = w_disk w in
      case check_not_ours e d sf (w_st w) of
        Inl err \<Rightarrow> Some (Inl err)
      | Inr (Some s1) \<Rightarrow> Some (Inr (Rv 0, w\<lparr>w_st := s1\<rparr>))
      | Inr None \<Rightarrow>
          (case persist_new_target_intent e d sf (w_st w) of (sf1, s1) \<Rightarrow>
             (case find_do_for_target (bc_ext c) e d sf1 (zap_deps1 sf1 s1) of
                Inl err \<Rightarrow> Some (Inl err)
              | Inr (None, s2) \<Rightarrow> Some (rbind (no_rule e d sf1 s2) (\<lambda>(rv, s3). Inr (Rv rv, w\<lparr>w_st := s3\<rparr>)))
              | Inr (Some df, s2) \<Rightarrow>
                  build_with_rule c t sf1 df (map_option fst (d (abs_target e sf1))) (w\<lparr>w_st := s2\<rparr>))))"

text \<open>With the target's lock, unless the caller holds it (\<open>redo-unlocked\<close>). 208 reports a cycle.\<close>

definition build_one :: "build_ctx \<Rightarrow> string \<Rightarrow> world \<Rightarrow> (outcome \<times> world) res option" where
  "build_one c t w =
     (let e = bc_env c in
      case by_name (bc_ext c) e t True (w_st w) of
        Inl err \<Rightarrow> Some (Inl err)
      | Inr (sf, s1) \<Rightarrow>
          if e_unlocked e then build_target c t sf (w\<lparr>w_st := s1\<rparr>)
          else (case Lock_new (f_id sf) s1 of
                  Inl err \<Rightarrow> Some (Inl err)
                | Inr (l, s2) \<Rightarrow>
                    (case Lock_waitlock (bc_vars c) (bc_pid c) False l (w_locks w) s2 of
                       None \<Rightarrow> None
                     | Some (Inl err) \<Rightarrow>
                         if err = CyclicDependency
                         then (case Lock_drop (bc_pid c) l (w_locks w) s2 of
                                 (k1, s3) \<Rightarrow> Some (Inr (Rv 208, \<lparr>w_disk = w_disk w, w_st = s3, w_locks = k1\<rparr>)))
                         else Some (Inl err)
                     | Some (Inr (l1, k1, s3)) \<Rightarrow>
                         (case refresh e s3 sf of
                            Inl err \<Rightarrow> Some (Inl err)
                          | Inr sf1 \<Rightarrow>
                              (case build_target c t sf1 \<lparr>w_disk = w_disk w, w_st = s3, w_locks = k1\<rparr> of
                                 None \<Rightarrow> None
                               | Some (Inl err) \<Rightarrow> Some (Inl err)
                               | Some (Inr (Crashed, w1)) \<Rightarrow> Some (Inr (Crashed, w1))
                               | Some (Inr (Rv rv, w1)) \<Rightarrow>
                                   (case Lock_drop (bc_pid c) l1 (w_locks w1) (w_st w1) of
                                      (k2, s4) \<Rightarrow> Some (Inr (Rv rv, w1\<lparr>w_st := s4, w_locks := k2\<rparr>))))))))"

subsection \<open>\<open>run_redo\<close>\<close>

definition default_targets :: "bool \<Rightarrow> string list \<Rightarrow> string list" where
  "default_targets toplevel targets = (if targets = [] then (if toplevel then [''all''] else []) else targets)"

text \<open>A requested target that exists and was not generated is left alone.\<close>

definition skip_source :: "build_ctx \<Rightarrow> string \<Rightarrow> world \<Rightarrow> (bool \<times> world) res" where
  "skip_source c t w =
     (if file_exists (w_disk w) (path_join (e_base (bc_env c)) t)
      then rbind (by_name (bc_ext c) (bc_env c) t True (w_st w)) (\<lambda>(f, s1). Inr (\<not> f_is_generated f, w\<lparr>w_st := s1\<rparr>))
      else Inr (False, w))"

fun redo_loop :: "build_ctx \<Rightarrow> string list \<Rightarrow> int \<Rightarrow> world \<Rightarrow> (outcome \<times> world) res option" where
  "redo_loop c [] rc w = Some (Inr (Rv rc, w))"
| "redo_loop c (t # ts) rc w =
     (if CHR 0x0A \<in> set t \<or> t = [] then Some (Inr (Rv 204, w))
      else case skip_source c t w of
             Inl err \<Rightarrow> Some (Inl err)
           | Inr (True, w1) \<Rightarrow> redo_loop c ts rc w1
           | Inr (False, w1) \<Rightarrow>
               (case build_one c t w1 of
                  None \<Rightarrow> None
                | Some (Inl err) \<Rightarrow> Some (Inl err)
                | Some (Inr (Crashed, w2)) \<Rightarrow> Some (Inr (Crashed, w2))
                | Some (Inr (Rv rv, w2)) \<Rightarrow>
                    if rv \<noteq> 0
                    then if e_keep_going (bc_env c) then redo_loop c ts 1 w2 else Some (Inr (Rv 1, w2))
                    else redo_loop c ts rc w2))"

text \<open>The sequential part of \<open>run_redo\<close>; with several targets and \<open>-j\<close> it starts one child process per
  target instead.\<close>

definition run_redo_seq :: "build_ctx \<Rightarrow> bool \<Rightarrow> string list \<Rightarrow> 64 word \<Rightarrow> 64 word \<Rightarrow> world \<Rightarrow> (outcome \<times> world) res option" where
  "run_redo_seq c toplevel targets now_nanos pid w =
     (let ts = default_targets toplevel targets;
          ts1 = (if e_shuffle (bc_env c) \<and> length ts > 1 then shuffle_in_place now_nanos pid ts else ts)
      in redo_loop c ts1 0 w)"

end
