(* ===== verification/Builder_Props.thy ===== *)
theory Builder_Props
  imports Builder
begin

text \<open>
  What the build of one target guarantees: files that are not redo's are left alone, a failed script
  does not change the target, a successful one installs exactly its output and records it, the rule
  search records what it depended on, the exit code of \<open>run_redo\<close>, and the invariants of the database
  and of the lock table.
\<close>

subsection \<open>Files and stamps\<close>

lemma read_stamp_nonempty: "read_stamp fs e f \<noteq> []"
  by (auto simp: read_stamp_def read_stamp_st_def STAMP_MISSING_def STAMP_DIR_def stamp_of_def Let_def
      split: option.splits if_splits)

lemma update_stamp_any:
  "update_stamp fs e False f =
     Inr (if f_stamp f = Some (read_stamp fs e f) then f
          else set_changed e (f\<lparr>f_stamp := Some (read_stamp fs e f)\<rparr>))"
  using read_stamp_nonempty [of fs e f]
  by (cases "f_stamp f") (auto simp: update_stamp_def Let_def)

lemma set_failed_Inr:
  obtains g where "set_failed fs e f = Inr g" "f_id g = f_id f" "f_name g = f_name f"
    "f_failed_runid g = e_runid e" "f_stamp g = Some (read_stamp fs e f)"
    "f_is_generated g \<longleftrightarrow> read_stamp fs e f \<noteq> STAMP_MISSING"
  by (auto simp: set_failed_def update_stamp_any set_changed_def)

lemma unlink_other [simp]: "q \<noteq> p \<Longrightarrow> unlink_best_effort p d q = d q"
  by (auto simp: unlink_best_effort_def split: option.splits)

lemma unlink_no_new: "unlink_best_effort p d q \<noteq> None \<Longrightarrow> unlink_best_effort p d q = d q"
  by (auto simp: unlink_best_effort_def split: option.splits if_splits)

lemma commit_frame [simp]:
  "si_db (st_commit s) = si_db s" "si_insane (st_commit s) = si_insane s"
  "si_locks_held (st_commit s) = si_locks_held s"
  by (auto simp: st_commit_def)

lemma commit_flushed: "\<not> si_insane s \<Longrightarrow> is_flushed (st_commit s)"
  by (auto simp: st_commit_def is_flushed_def)

lemma refresh_commit [simp]: "refresh e (st_commit s) f = refresh e s f"
  by (simp add: refresh_def)

lemma refresh_zap [simp]: "refresh e (zap_deps2 g s) f = refresh e s f"
  by (simp add: refresh_def zap_deps2_def st_write_def Let_def sql_zap_deps2_def sql_file_by_id_def)

lemma refresh_fields:
  "refresh e s f = Inr g \<Longrightarrow> f_id g = f_id f"
  using find_id_Some by (fastforce simp: refresh_def from_row_def split: option.splits)

lemma save_then_refresh:
  assumes "\<not> si_insane s" "refresh e s f = Inr g" "f_id h = f_id f" "f_name h = f_name g" "f_name h \<noteq> ALWAYS"
  shows "refresh e (save h s) f = Inr h"
proof -
  obtain r where r: "sql_file_by_id (si_db s) (f_id f) = Some r" "g = from_row e r"
    using assms(2) by (auto simp: refresh_def split: option.splits)
  have "from_row e (row_update h r) = h"
    using assms(3-5) r find_id_Some [OF r(1)] by (intro from_row_update) (auto simp: from_row_def)
  then show ?thesis using r(1) assms(1,3) by (simp add: refresh_def save_def st_write_db update_file_by_id)
qed

lemma save_deps [simp]: "db_deps (si_db (save f s)) = db_deps (si_db s)"
  by (simp add: save_def st_write_def Let_def sql_update_file_def)

lemma zap_commit_deps:
  assumes "\<not> si_insane s" "f_id g = i" "f_id h = i"
  shows "all_deps (si_db (st_commit (save h (zap_deps2 g s)))) i = live_deps (si_db s) i"
    and "other_deps (si_db (st_commit (save h (zap_deps2 g s)))) i = other_deps (si_db s) i"
proof -
  have "db_deps (si_db (st_commit (save h (zap_deps2 g s)))) = db_deps (sql_zap_deps2 i (si_db s))"
    using assms by (simp add: zap_deps2_def st_write_db)
  then show "all_deps (si_db (st_commit (save h (zap_deps2 g s)))) i = live_deps (si_db s) i"
    "other_deps (si_db (st_commit (save h (zap_deps2 g s)))) i = other_deps (si_db s) i"
    using zap2_all [of i "si_db s"] zap2_other [of i "si_db s"] by (simp_all add: all_deps_def other_deps_def)
qed

subsection \<open>A failed build\<close>

lemma record_failure_spec:
  assumes "\<not> si_insane s" "refresh e s sf = Inr g" "f_name sf = f_name g" "f_name sf \<noteq> ALWAYS"
  obtains s' f where "record_failure e tmp d sf s = Inr (unlink_best_effort tmp d, s')" "is_flushed s'" "\<not> si_insane s'"
    "refresh e s' sf = Inr f" "f_failed_runid f = e_runid e"
    "f_stamp f = Some (read_stamp (view (unlink_best_effort tmp d)) e sf)"
    "all_deps (si_db s') (f_id sf) = live_deps (si_db s) (f_id sf)"
    "other_deps (si_db s') (f_id sf) = other_deps (si_db s) (f_id sf)"
proof -
  let ?d = "unlink_best_effort tmp d"
  obtain f where f: "set_failed (view ?d) e sf = Inr f" "f_id f = f_id sf" "f_name f = f_name sf"
    "f_failed_runid f = e_runid e" "f_stamp f = Some (read_stamp (view ?d) e sf)"
    by (rule set_failed_Inr)
  let ?s = "st_commit (save f (zap_deps2 f s))"
  have i: "\<not> si_insane (zap_deps2 f s)" "\<not> si_insane (save f (zap_deps2 f s))"
    using assms(1) by (simp_all add: zap_deps2_def save_def)
  have "refresh e (save f (zap_deps2 f s)) sf = Inr f"
    by (rule save_then_refresh [OF i(1)]) (use assms f in auto)
  then show thesis
    using that [of ?s f] f i commit_flushed [OF i(2)] zap_commit_deps [OF assms(1) f(2) f(2)]
    by (simp add: record_failure_def Let_def)
qed

text \<open>C8. A failed build leaves the target alone. When the script ends with a non-zero exit code, writes to
  the target itself (206) or both to standard output and to \<open>$3\<close> (207), the build ends with that code;
  the only file that changes is the temporary file, which is removed; the target's row records the
  failure in this run with the stamp the file has now, the dependencies declared so far replace
  those of the earlier build, and everything is committed.\<close>

theorem failed_build_keeps_target:
  assumes "\<not> si_insane s" "refresh (bc_env c) s sf = Inr g" "f_name sf = f_name g" "f_name sf \<noteq> ALWAYS"
    "rv1 = check_outputs rv before_t (map_option fst (d (abs_target (bc_env c) sf))) (file_exists d tmp) (length out)"
    "rv1 \<noteq> 0"
  shows "\<exists>d' s' f. finish_build c sf tmp trace before_t rv out d s = Inr (Rv rv1, d', s') \<and>
     (\<forall>p. p \<noteq> tmp \<longrightarrow> d' p = d p) \<and> (d' tmp = None \<or> (\<exists>m x. d tmp = Some (m, x) \<and> m_is_dir m)) \<and>
     is_flushed s' \<and> refresh (bc_env c) s' sf = Inr f \<and>
     f_failed_runid f = e_runid (bc_env c) \<and> f_stamp f = Some (read_stamp (view d') (bc_env c) sf) \<and>
     all_deps (si_db s') (f_id sf) = live_deps (si_db s) (f_id sf) \<and>
     other_deps (si_db s') (f_id sf) = other_deps (si_db s) (f_id sf)"
proof -
  obtain s' f where r: "record_failure (bc_env c) tmp d sf s = Inr (unlink_best_effort tmp d, s')" "is_flushed s'" "\<not> si_insane s'"
    "refresh (bc_env c) s' sf = Inr f" "f_failed_runid f = e_runid (bc_env c)"
    "f_stamp f = Some (read_stamp (view (unlink_best_effort tmp d)) (bc_env c) sf)"
    "all_deps (si_db s') (f_id sf) = live_deps (si_db s) (f_id sf)"
    "other_deps (si_db s') (f_id sf) = other_deps (si_db s) (f_id sf)"
    using record_failure_spec [OF assms(1-4)] by metis
  have "finish_build c sf tmp trace before_t rv out d s = Inr (Rv rv1, unlink_best_effort tmp d, s')"
    using assms(5,6) r(1) by (simp add: finish_build_def Let_def)
  moreover have "unlink_best_effort tmp d tmp = None \<or> (\<exists>m x. d tmp = Some (m, x) \<and> m_is_dir m)"
    by (auto simp: unlink_best_effort_def split: option.splits if_splits)
  moreover have "\<forall>p. p \<noteq> tmp \<longrightarrow> unlink_best_effort tmp d p = d p" by simp
  ultimately show ?thesis using r(2,4-8) by blast
qed

definition demo_run :: "job_spec \<Rightarrow> disk \<times> database \<Rightarrow> int \<times> string \<times> disk \<times> database" where
  "demo_run jb x = (case x of (d, db) \<Rightarrow> (0, ''hello'', d, db))"

definition file_meta :: "string \<Rightarrow> meta" where
  "file_meta b =
     \<lparr>m_is_dir = False, m_is_symlink = False, m_is_file = True, m_mtime = 7, m_mtime_nsec = 0,
      m_size = length b, m_ino = 5, m_mode = 420, m_uid = 0, m_gid = 0\<rparr>"

definition demo_ctx :: build_ctx where
  "demo_ctx = \<lparr>bc_ext = demo_ext, bc_env = demo_env, bc_vars = Map.empty, bc_pid = 1, bc_run = demo_run,
     bc_mkmeta = file_meta, bc_creatable = (\<lambda>_ _. True), bc_crash = False\<rparr>"

definition demo_disk :: disk where
  "demo_disk = [''/w/a.do'' \<mapsto> (file_meta ''x'', ''echo hello''), ''/w/a.redo.tmp'' \<mapsto> (file_meta ''y'', ''y'')]"

definition demo_st :: state_inner where
  "demo_st = st_commit (st_write (sql_insert_or_ignore_file ''a'') demo_state)"

lemma demo_st_wf: "st_wf demo_st" "is_flushed demo_st" "\<not> si_insane demo_st"
  using demo_state_wf
  by (simp_all add: demo_st_def commit_wf insert_file.write_wf commit_flushed)

theorem failed_build_keeps_target_witness:
  "\<exists>d' s'. finish_build demo_ctx demo_file ''/w/a.redo.tmp'' None None 0 ''out'' demo_disk demo_st = Inr (Rv 207, d', s')
     \<and> d' ''/w/a.redo.tmp'' = None"
proof -
  have r: "refresh (bc_env demo_ctx) demo_st demo_file = Inr demo_file" "f_name demo_file \<noteq> ALWAYS" by code_simp+
  have "207 = check_outputs 0 None (map_option fst (demo_disk (abs_target (bc_env demo_ctx) demo_file)))
      (file_exists demo_disk ''/w/a.redo.tmp'') (length ''out'')" by code_simp
  from failed_build_keeps_target [where d = demo_disk, OF demo_st_wf(3) r(1) refl r(2) this, where trace = None]
  show ?thesis by (auto simp: demo_disk_def file_meta_def)
qed

subsection \<open>A successful build\<close>

lemma check_outputs_0:
  "check_outputs rv b a tmp_there n = 0 \<Longrightarrow> rv = 0 \<and> (tmp_there \<longrightarrow> n = 0)"
  by (auto simp: check_outputs_def Let_def split: if_splits)

text \<open>What the script produced: its standard output, or the file \<open>$3\<close>, or nothing.\<close>

definition produced :: "string \<Rightarrow> string option \<Rightarrow> string option" where
  "produced out tmp_text = (if out \<noteq> [] then Some out else tmp_text)"

definition no_dir :: "disk \<Rightarrow> string \<Rightarrow> bool" where
  "no_dir d p \<longleftrightarrow> (case d p of Some (m, _) \<Rightarrow> \<not> m_is_dir m | None \<Rightarrow> True)"

lemma install_output_ok:
  assumes "tmp \<noteq> target" "no_dir d tmp" "no_dir d target" "file_exists d tmp \<longrightarrow> out = []"
    "bc_creatable c d tmp" "\<not> m_is_dir (bc_mkmeta c out)"
  obtains d' where "install_output c tmp target out d = (0, d')"
    "text_of d' target = produced out (text_of d tmp)" "d' tmp = None" "\<And>p. p \<noteq> tmp \<Longrightarrow> p \<noteq> target \<Longrightarrow> d' p = d p"
proof -
  let ?x = "(case d tmp of Some x \<Rightarrow> x | None \<Rightarrow> (bc_mkmeta c out, out))"
  let ?d = "if out = [] \<and> d tmp = None then d(target := None) else d(tmp := None, target \<mapsto> ?x)"
  have "install_output c tmp target out d = (0, ?d)"
    using assms
    by (cases "d tmp"; cases "d target")
       (auto simp: install_output_def copy_stdout_def file_exists_def no_dir_def durable_rename_def
         unlink_best_effort_def fun_upd_idem)
  then show thesis
    by (rule that) (use assms in \<open>auto simp: text_of_def produced_def file_exists_def\<close>)
qed

lemma new_file_state_ok:
  assumes "e_runid e \<noteq> None"
  obtains f where "new_file_state e d f0 = Inr f" "f_id f = f_id f0" "f_name f = f_name f0" "f_is_generated f"
    "\<not> f_is_override f" "f_stamp f = Some (read_stamp (view d) e f0)" "is_checked e f \<or> is_changed e f"
proof -
  have rs: "read_stamp (view d) e (f0\<lparr>f_is_generated := a, f_is_override := b\<rparr>) = read_stamp (view d) e f0"
    "read_stamp (view d) e (f0\<lparr>f_is_generated := a, f_is_override := b, f_csum := x\<rparr>) = read_stamp (view d) e f0" for a b x
    by (simp_all add: read_stamp_def)
  show thesis
    by (rule that [of "case new_file_state e d f0 of Inr f \<Rightarrow> f"])
       (use assms in \<open>auto simp: new_file_state_def Let_def update_stamp_any set_changed_def is_checked_def
          is_changed_def run_reached_def rs split: option.splits\<close>)
qed

lemma remove_trace_other: "trace \<noteq> Some p \<Longrightarrow> remove_trace trace d p = d p"
  by (cases trace) (auto simp: remove_trace_def)

lemma remove_trace_None: "d p = None \<Longrightarrow> remove_trace trace d p = None"
  by (cases trace) (auto simp: remove_trace_def unlink_best_effort_def split: option.splits)

lemma read_stamp_cong:
  "d (abs_target e f) = d' (abs_target e f) \<Longrightarrow> read_stamp (view d) e f = read_stamp (view d') e f"
proof -
  assume "d (abs_target e f) = d' (abs_target e f)"
  then have "read_stamp_st (view d) (path_join (e_base e) (f_name f)) b = read_stamp_st (view d') (path_join (e_base e) (f_name f)) b" for b
    by (simp add: read_stamp_st_def view_def abs_target_def)
  then show "read_stamp (view d) e f = read_stamp (view d') e f" by (simp add: read_stamp_def Let_def split_beta)
qed

lemma finish_build_ok:
  assumes "\<not> si_insane s" "refresh (bc_env c) s sf = Inr g" "f_name sf = f_name g" "f_name sf \<noteq> ALWAYS"
    "target = abs_target (bc_env c) sf"
    "check_outputs rv before_t (map_option fst (d target)) (file_exists d tmp) (length out) = 0"
    "tmp \<noteq> target" "no_dir d tmp" "no_dir d target" "bc_creatable c d tmp" "\<not> m_is_dir (bc_mkmeta c out)"
    "\<not> bc_crash c" "\<not> e_strict_fail (bc_env c)" "trace \<noteq> Some target" "e_runid (bc_env c) \<noteq> None"
  obtains d' f d1 where
    "finish_build c sf tmp trace before_t rv out d s = Inr (Rv 0, d', st_commit (save f (zap_deps2 f s)))"
    "text_of d' target = produced out (text_of d tmp)" "d' tmp = None"
    "\<forall>p. p \<noteq> tmp \<and> p \<noteq> target \<and> trace \<noteq> Some p \<longrightarrow> d' p = d p" "d' target = d1 target"
    "new_file_state (bc_env c) d1 g = Inr f" "f_id f = f_id sf" "f_name f = f_name g"
    "refresh (bc_env c) (st_commit (save f (zap_deps2 f s))) sf = Inr f"
proof -
  let ?e = "bc_env c"
  have "file_exists d tmp \<longrightarrow> out = []" using check_outputs_0 [OF assms(6)] by simp
  then obtain d1 where d1: "install_output c tmp target out d = (0, d1)"
    "text_of d1 target = produced out (text_of d tmp)" "d1 tmp = None" "\<And>p. p \<noteq> tmp \<Longrightarrow> p \<noteq> target \<Longrightarrow> d1 p = d p"
    using install_output_ok [OF assms(7-9) _ assms(10,11)] by metis
  obtain f where f: "new_file_state ?e d1 g = Inr f" "f_id f = f_id g" "f_name f = f_name g"
    using new_file_state_ok [OF assms(15)] by metis
  let ?d = "if e_strict ?e then remove_trace trace d1 else d1"
  let ?s' = "st_commit (save f (zap_deps2 f s))"
  have id: "f_id f = f_id sf" using f(2) refresh_fields [OF assms(2)] by simp
  have i: "\<not> si_insane (zap_deps2 f s)" using assms(1) by (simp add: zap_deps2_def)
  show thesis
  proof (rule that [of ?d f d1])
    show "finish_build c sf tmp trace before_t rv out d s = Inr (Rv 0, ?d, ?s')"
      using assms(5,6,12,13) d1(1) assms(2) f(1)
      by (simp add: finish_build_def Let_def strict_rv_def)
    show "text_of ?d target = produced out (text_of d tmp)"
      using assms(14) d1(2) by (simp add: text_of_def remove_trace_other)
    show "refresh ?e ?s' sf = Inr f"
      using save_then_refresh [OF i, of ?e sf g f] assms(2-4) f(3) id by simp
  qed (use d1 assms(14) f id in \<open>simp_all add: remove_trace_other remove_trace_None\<close>)
qed

text \<open>C3. A successful build installs exactly what the script produced and records it. When the script
  succeeds and did not write to the target itself or twice, the target's content becomes its standard
  output or the content of \<open>$3\<close>, or the target is gone if there was neither; the temporary file is gone
  and no other file changes (the read trace of strict mode apart). The row is that of a generated
  file with the stamp of the installed file, checked or changed in this run; its dependencies are
  exactly those declared during the build; everything is committed.\<close>

theorem successful_build_installs_output:
  assumes "\<not> si_insane s" "refresh (bc_env c) s sf = Inr g" "f_name sf = f_name g" "f_name sf \<noteq> ALWAYS"
    "target = abs_target (bc_env c) sf"
    "check_outputs rv before_t (map_option fst (d target)) (file_exists d tmp) (length out) = 0"
    "tmp \<noteq> target" "no_dir d tmp" "no_dir d target" "bc_creatable c d tmp" "\<not> m_is_dir (bc_mkmeta c out)"
    "\<not> bc_crash c" "\<not> e_strict_fail (bc_env c)" "trace \<noteq> Some target" "e_runid (bc_env c) \<noteq> None"
  shows "\<exists>d' s' f. finish_build c sf tmp trace before_t rv out d s = Inr (Rv 0, d', s') \<and>
     text_of d' target = produced out (text_of d tmp) \<and> d' tmp = None \<and>
     (\<forall>p. p \<noteq> tmp \<and> p \<noteq> target \<and> trace \<noteq> Some p \<longrightarrow> d' p = d p) \<and>
     is_flushed s' \<and> refresh (bc_env c) s' sf = Inr f \<and> f_is_generated f \<and> \<not> f_is_override f \<and>
     f_stamp f = Some (read_stamp (view d') (bc_env c) sf) \<and> (is_checked (bc_env c) f \<or> is_changed (bc_env c) f) \<and>
     all_deps (si_db s') (f_id sf) = live_deps (si_db s) (f_id sf) \<and>
     other_deps (si_db s') (f_id sf) = other_deps (si_db s) (f_id sf)"
proof -
  let ?e = "bc_env c"
  obtain d1 d' f where r: "finish_build c sf tmp trace before_t rv out d s = Inr (Rv 0, d', st_commit (save f (zap_deps2 f s)))"
    and d': "text_of d' target = produced out (text_of d tmp)" "d' tmp = None"
      "\<forall>p. p \<noteq> tmp \<and> p \<noteq> target \<and> trace \<noteq> Some p \<longrightarrow> d' p = d p" "d' target = d1 target"
    and f: "new_file_state ?e d1 g = Inr f" "f_id f = f_id sf" "f_name f = f_name g"
      "refresh ?e (st_commit (save f (zap_deps2 f s))) sf = Inr f"
    using assms by (rule finish_build_ok)
  have g: "f_is_generated f" "\<not> f_is_override f" "f_stamp f = Some (read_stamp (view d1) ?e g)" "is_checked ?e f \<or> is_changed ?e f"
    using new_file_state_ok [OF assms(15), of d1 g] f(1) by (metis sum.inject(2))+
  have i: "\<not> si_insane (save f (zap_deps2 f s))" using assms(1) by (simp add: zap_deps2_def save_def)
  have "f_stamp f = Some (read_stamp (view d') ?e sf)"
    using g(3) d'(4) assms(3,5) read_stamp_cong [of d' ?e sf d1] by (simp add: read_stamp_def Let_def split_beta)
  then show ?thesis
    using r d' f(4) g commit_flushed [OF i] zap_commit_deps [OF assms(1) f(2) f(2)] by blast
qed

theorem successful_build_installs_output_witness:
  "\<exists>d' s'. finish_build demo_ctx demo_file ''/w/a.redo.tmp'' None None 0 [] demo_disk demo_st = Inr (Rv 0, d', s') \<and>
     text_of d' ''/w/a'' = Some ''y'' \<and> d' ''/w/a.redo.tmp'' = None"
proof -
  have r: "refresh (bc_env demo_ctx) demo_st demo_file = Inr demo_file" "f_name demo_file \<noteq> ALWAYS"
    "''/w/a'' = abs_target (bc_env demo_ctx) demo_file" by code_simp+
  have o: "check_outputs 0 None (map_option fst (demo_disk ''/w/a'')) (file_exists demo_disk ''/w/a.redo.tmp'') (length []) = 0"
    "''/w/a.redo.tmp'' \<noteq> ''/w/a''" "no_dir demo_disk ''/w/a.redo.tmp''" "no_dir demo_disk ''/w/a''"
    "bc_creatable demo_ctx demo_disk ''/w/a.redo.tmp''" "\<not> m_is_dir (bc_mkmeta demo_ctx [])"
    "\<not> bc_crash demo_ctx" "\<not> e_strict_fail (bc_env demo_ctx)" "None \<noteq> Some ''/w/a''" "e_runid (bc_env demo_ctx) \<noteq> None"
    by code_simp+
  from successful_build_installs_output [where d = demo_disk, OF demo_st_wf(3) r(1) refl r(2,3) o]
  show ?thesis by (auto simp: demo_disk_def text_of_def produced_def)
qed

subsection \<open>The rule search\<close>

text \<open>The dependencies that justify a search: every candidate looked for in vain, then the rule found.\<close>

fun searched :: "disk \<Rightarrow> do_file list \<Rightarrow> (char \<times> string) list" where
  "searched d [] = []"
| "searched d (cand # cands) =
     (let p = path_join (dodir cand) (dofile cand) in
      if file_exists d p then [(CHR ''m'', p)] else (CHR ''c'', p) # searched d cands)"

lemma by_name_known:
  "dep_id x e s name \<noteq> None \<Longrightarrow> by_name x e name True s = Inr (f, s2) \<Longrightarrow> s2 = s"
  by (auto simp: dep_id_def by_name_def rbind_Inr_iff Let_def split: sum.splits option.splits)

lemma dep_id_save [simp]: "dep_id x e (save f s) = dep_id x e s"
proof -
  have "map_option r_id (List.find (\<lambda>r. r_name r = n) (map (\<lambda>r. if r_id r = i then row_update f r else r) rs))
      = map_option r_id (List.find (\<lambda>r. r_name r = n) rs)" for n i rs
    by (induction rs) auto
  then have "map_option r_id (sql_file_by_name (sql_update_file i (row_update f) db) n) = map_option r_id (sql_file_by_name db n)" for i db n
    by (simp add: sql_file_by_name_def sql_update_file_def)
  then show ?thesis by (auto simp: fun_eq_iff dep_id_def save_def st_write_def Let_def split: sum.splits)
qed

lemma live_deps_save [simp]: "live_deps (si_db (save f s)) i = live_deps (si_db s) i"
  "other_deps (si_db (save f s)) i = other_deps (si_db s) i"
  by (simp_all add: live_deps_def other_deps_def)

lemma find_do_loop_spec:
  assumes "find_do_loop x e d sf cands s = Inr (r, s')" "\<not> si_insane s"
  shows "r = List.find (\<lambda>c. file_exists d (path_join (dodir c) (dofile c))) cands \<and>
    (\<exists>s1. add_deps x e sf (searched d cands) s = Inr s1 \<and> dep_id x e s' = dep_id x e s1 \<and>
       live_deps (si_db s') (f_id sf) = live_deps (si_db s1) (f_id sf) \<and>
       other_deps (si_db s') (f_id sf) = other_deps (si_db s1) (f_id sf))"
  using assms
proof (induction cands arbitrary: s)
  case Nil
  then show ?case by (simp add: add_deps_def)
next
  case (Cons cand cands)
  let ?p = "path_join (dodir cand) (dofile cand)"
  show ?case
  proof (cases "file_exists d ?p")
    case True
    obtain s1 dof s2 dof1 where s1: "add_dep x e sf (CHR ''m'') ?p s = Inr s1"
      and s2: "by_name x e ?p True s1 = Inr (dof, s2)" and s': "s' = save dof1 s2" and r: "r = Some cand"
      using Cons.prems(1) True by (auto simp: Let_def rbind_Inr_iff)
    obtain i where "dep_id x e s1 ?p = Some i" using s1 Cons.prems(2) by (rule add_dep_Inr)
    then have "s2 = s1" using by_name_known s2 by fastforce
    then show ?thesis using True s1 by (simp add: r s' add_deps_def)
  next
    case False
    obtain s1 where s1: "add_dep x e sf (CHR ''c'') ?p s = Inr s1" "find_do_loop x e d sf cands s1 = Inr (r, s')"
      using Cons.prems(1) False by (auto simp: Let_def rbind_Inr_iff)
    have "\<not> si_insane s1" using s1(1) Cons.prems(2) by (rule add_dep_Inr)
    from Cons.IH [OF s1(2) this] False s1(1) show ?thesis by (simp add: add_deps_def)
  qed
qed

lemma zap_deps1_db:
  "\<not> si_insane s \<Longrightarrow> live_deps (si_db (zap_deps1 f s)) (f_id f) = {} \<and>
     other_deps (si_db (zap_deps1 f s)) (f_id f) = other_deps (si_db s) (f_id f) \<and> \<not> si_insane (zap_deps1 f s)"
  by (simp add: zap_deps1_def st_write_db zap1_live zap1_other)

text \<open>C21. The rule search finds the rule the dependency-free search (\<open>redo-whichdo\<close>'s order) finds, and
  leaves as the target's live dependencies exactly the candidates it looked for in vain and the rule
  it found, so that creating an earlier candidate or changing the rule makes the target dirty; the
  dependencies of other targets are untouched.\<close>

theorem rule_search_recorded:
  assumes "\<not> si_insane s" "find_do_for_target x e d sf (zap_deps1 sf s) = Inr (r, s')"
  defines "looked \<equiv> searched d (possible_do_files (f_name sf) (e_base e))"
  shows "r = find_do_for_target_no_deps e d sf \<and> r = find_do_file (file_exists d) (f_name sf) (e_base e) \<and>
    fst ` live_deps (si_db s') (f_id sf) = fst ` dep_entries x e s' looked \<and>
    live_deps (si_db s') (f_id sf) \<subseteq> dep_entries x e s' looked \<and>
    (\<forall>(m, p) \<in> set looked. dep_id x e s' p \<noteq> None) \<and>
    other_deps (si_db s') (f_id sf) = other_deps (si_db s) (f_id sf)"
proof -
  note z = zap_deps1_db [OF assms(1), of sf]
  obtain s1 where s1: "r = List.find (\<lambda>c. file_exists d (path_join (dodir c) (dofile c))) (possible_do_files (f_name sf) (e_base e))"
    "add_deps x e sf looked (zap_deps1 sf s) = Inr s1" "dep_id x e s' = dep_id x e s1"
    "live_deps (si_db s') (f_id sf) = live_deps (si_db s1) (f_id sf)"
    "other_deps (si_db s') (f_id sf) = other_deps (si_db s1) (f_id sf)"
    using find_do_loop_spec [OF assms(2) [unfolded find_do_for_target_def]] z unfolding looked_def by blast
  have "dep_entries x e s' looked = dep_entries x e s1 looked" using s1(3) by (simp add: dep_entries_def)
  then show ?thesis
    using add_deps_Inr [OF s1(2)] z s1 by (auto simp: find_do_for_target_no_deps_def find_do_file_def)
qed

theorem rule_search_recorded_witness:
  "\<exists>s'. find_do_for_target demo_ext demo_env Map.empty demo_file (zap_deps1 demo_file demo_st) = Inr (None, s') \<and>
     live_deps (si_db s') 2 \<noteq> {} \<and> find_do_for_target_no_deps demo_env Map.empty demo_file = None"
proof -
  let ?r = "find_do_for_target demo_ext demo_env Map.empty demo_file (zap_deps1 demo_file demo_st)"
  have "\<not> isl ?r \<and> fst (projr ?r) = None" by code_simp
  then obtain s' where r: "?r = Inr (None, s')" by (metis isl_def surj_pair sum.exhaust fst_conv sum.sel(2))
  have "(CHR ''c'', ''/w/a.do'') \<in> set (searched Map.empty (possible_do_files (f_name demo_file) (e_base demo_env)))"
    "f_id demo_file = 2"
    by code_simp+
  then show ?thesis using rule_search_recorded [OF demo_st_wf(3) r] r by (fastforce simp: dep_entries_def)
qed

subsection \<open>Files that are not redo's\<close>

definition not_ours :: "env \<Rightarrow> disk \<Rightarrow> redo_file \<Rightarrow> bool" where
  "not_ours e d sf \<longleftrightarrow> override_detected e d sf \<or> (file_exists d (abs_target e sf) \<and> \<not> f_is_generated sf)"

lemma stamp_of_neq_missing: "stamp_of m \<noteq> STAMP_MISSING"
proof
  assume "stamp_of m = STAMP_MISSING"
  then have "CHR ''-'' \<in> set STAMP_MISSING" by (metis stamp_of_def append_Cons in_set_conv_decomp)
  then show False by (simp add: STAMP_MISSING_def)
qed

lemma read_stamp_exists:
  assumes "file_exists d (abs_target e sf)"
  shows "read_stamp (view d) e sf \<noteq> STAMP_MISSING"
proof -
  obtain m x where "d (path_join (e_base e) (f_name sf)) = Some (m, x)"
    using assms by (auto simp: file_exists_def abs_target_def)
  then have r: "read_stamp_st (view d) (path_join (e_base e) (f_name sf)) b = (if m_is_dir m then (False, STAMP_DIR) else (m_is_symlink m, stamp_of m))" for b
    by (simp add: read_stamp_st_def view_def)
  have "stamp_of m @ ''+'' @ s \<noteq> STAMP_MISSING" for s
  proof
    assume "stamp_of m @ ''+'' @ s = STAMP_MISSING"
    then have "CHR ''+'' \<in> set STAMP_MISSING" by (metis append_Cons in_set_conv_decomp)
    then show False by (simp add: STAMP_MISSING_def)
  qed
  then show ?thesis
    using stamp_of_neq_missing [of m]
    by (simp add: read_stamp_def Let_def r STAMP_DIR_def) (simp add: STAMP_MISSING_def)
qed

lemma set_static_exists:
  "file_exists d (abs_target e sf) \<Longrightarrow> \<exists>f. set_static (view d) e sf = Inr f"
  using read_stamp_exists [of d e sf] by (auto simp: set_static_def update_stamp_def Let_def)

lemma check_not_ours_stops:
  assumes "not_ours e d sf"
  obtains s' where "check_not_ours e d sf s = Inr (Some s')" "si_locks_held s' = si_locks_held s"
proof (cases "override_detected e d sf")
  case True
  then show thesis
    by (cases "f_is_override sf")
       (auto intro!: that simp: check_not_ours_def set_override_def update_stamp_any save_def)
next
  case False
  then have "file_exists d (abs_target e sf)" "\<not> f_is_generated sf" using assms by (auto simp: not_ours_def)
  then show thesis using False that set_static_exists [of d e sf] by (auto simp: check_not_ours_def save_def)
qed

lemma by_name_refresh:
  assumes "by_name x e t True s = Inr (sf, s1)" "st_wf s"
  shows "refresh e s1 sf = Inr sf"
proof -
  obtain n r where r: "sql_file_by_name (si_db s1) n = Some r" "sf = from_row e r" using assms(1) by (rule by_name_Inr)
  have "sql_file_by_id (si_db s1) (r_id r) = Some r"
    using by_name_wf [OF assms] find_name_Some [OF r(1)] by (intro find_id_unique) (auto simp: st_wf_def)
  then show ?thesis by (simp add: refresh_def r(2) from_row_def)
qed

lemma Lock_drop_frame: "si_db (snd (Lock_drop p l k s)) = si_db s"
  by (simp add: Lock_drop_def Lock_unlock_def hold_def Let_def)

lemma build_target_not_ours:
  assumes "not_ours (bc_env c) (w_disk w) sf"
  obtains s' where "\<And>run. build_target (c\<lparr>bc_run := run\<rparr>) t sf w = Some (Inr (Rv 0, w\<lparr>w_st := s'\<rparr>))"
proof -
  obtain s' where "check_not_ours (bc_env c) (w_disk w) sf (w_st w) = Inr (Some s')"
    using assms by (rule check_not_ours_stops)
  then show thesis by (intro that [of s']) (simp add: build_target_def Let_def)
qed

lemma by_name_locks_held: "by_name x e t b s = Inr (f, s1) \<Longrightarrow> si_locks_held s1 = si_locks_held s"
  by (erule by_name_Inr) auto

lemma refresh_db: "si_db s = si_db s' \<Longrightarrow> refresh e s f = refresh e s' f"
  by (simp add: refresh_def)

text \<open>Taking the free lock of a target, and dropping it again.\<close>

lemma lock_free:
  assumes "si_locks_held s fid \<noteq> Some True" "cycles_check vs fid = Inr ()" "\<not> conflicts k p fid False"
  obtains l s2 s3 where "Lock_new fid s = Inr (l, s2)"
    "Lock_waitlock vs p False l k s2 = Some (Inr (\<lparr>l_fid = fid, l_owned = True\<rparr>, (fid, p, False) # without k p fid, s3))"
    "si_db s3 = si_db s"
  by (rule that [of "\<lparr>l_fid = fid, l_owned = False\<rparr>" "hold fid False s" "hold fid True (hold fid False s)"])
     (use assms in \<open>auto simp: Lock_new_def Lock_waitlock_def Lock_check_def lock_region_def hold_def\<close>)

lemma Lock_drop_owned:
  "Lock_drop p \<lparr>l_fid = fid, l_owned = True\<rparr> ((fid, p, False) # k) s =
     (without k p fid, s\<lparr>si_locks_held := (si_locks_held s)(fid := None)\<rparr>)"
  by (simp add: Lock_drop_def Lock_unlock_def unlock_region_def without_def hold_def)

lemma without_idem [simp]: "without (without k p i) p i = without k p i"
  by (simp add: without_def)

text \<open>C9. Files that are not redo's are left alone. If the target exists and was not generated by redo, or
  was changed by hand since, \<open>build_one\<close> succeeds without running any script and without changing any
  file, and gives the target's lock back; the locks of others are untouched.\<close>

theorem build_one_protects_sources:
  assumes "st_wf (w_st w)" "by_name (bc_ext c) (bc_env c) t True (w_st w) = Inr (sf, s1)"
    "not_ours (bc_env c) (w_disk w) sf"
    "si_locks_held (w_st w) (f_id sf) \<noteq> Some True" "cycles_check (bc_vars c) (f_id sf) = Inr ()"
    "\<not> conflicts (w_locks w) (bc_pid c) (f_id sf) False"
  shows "\<exists>w'. (\<forall>run. build_one (c\<lparr>bc_run := run\<rparr>) t w = Some (Inr (Rv 0, w'))) \<and> w_disk w' = w_disk w \<and>
     (w_locks w' = (if e_unlocked (bc_env c) then w_locks w else without (w_locks w) (bc_pid c) (f_id sf)))"
proof (cases "e_unlocked (bc_env c)")
  case True
  obtain s' where "\<And>run. build_target (c\<lparr>bc_run := run\<rparr>) t sf (w\<lparr>w_st := s1\<rparr>) = Some (Inr (Rv 0, w\<lparr>w_st := s'\<rparr>))"
    using build_target_not_ours [of c "w\<lparr>w_st := s1\<rparr>" sf t] assms(3) by auto
  then show ?thesis using True assms(2) by (intro exI [of _ "w\<lparr>w_st := s'\<rparr>"]) (simp add: build_one_def)
next
  case False
  let ?l1 = "\<lparr>l_fid = f_id sf, l_owned = True\<rparr>" and ?k = "without (w_locks w) (bc_pid c) (f_id sf)"
  have held: "si_locks_held s1 (f_id sf) \<noteq> Some True" using assms(4) by_name_locks_held [OF assms(2)] by simp
  obtain l s2 s3 where l: "Lock_new (f_id sf) s1 = Inr (l, s2)"
    "Lock_waitlock (bc_vars c) (bc_pid c) False l (w_locks w) s2 = Some (Inr (?l1, (f_id sf, bc_pid c, False) # ?k, s3))"
    "si_db s3 = si_db s1"
    by (rule lock_free [OF held assms(5,6)])
  let ?w = "\<lparr>w_disk = w_disk w, w_st = s3, w_locks = (f_id sf, bc_pid c, False) # ?k\<rparr>"
  have r: "refresh (bc_env c) s3 sf = Inr sf" using by_name_refresh [OF assms(2,1)] refresh_db [OF l(3)] by simp
  obtain s' where b: "\<And>run. build_target (c\<lparr>bc_run := run\<rparr>) t sf ?w = Some (Inr (Rv 0, ?w\<lparr>w_st := s'\<rparr>))"
    using build_target_not_ours [of c ?w sf t] assms(3) by auto
  let ?w' = "\<lparr>w_disk = w_disk w, w_st = s'\<lparr>si_locks_held := (si_locks_held s')(f_id sf := None)\<rparr>, w_locks = ?k\<rparr>"
  have "build_one (c\<lparr>bc_run := run\<rparr>) t w = Some (Inr (Rv 0, ?w'))" for run
    using False assms(2) l r b by (simp add: build_one_def Lock_drop_owned)
  then show ?thesis using False by (intro exI [of _ ?w'] conjI allI) simp_all
qed

theorem build_one_protects_sources_witness:
  "\<exists>w'. build_one demo_ctx ''a'' \<lparr>w_disk = demo_disk(''/w/a'' \<mapsto> (file_meta ''src'', ''src'')), w_st = demo_st, w_locks = []\<rparr>
      = Some (Inr (Rv 0, w')) \<and> w_disk w' = demo_disk(''/w/a'' \<mapsto> (file_meta ''src'', ''src''))"
proof -
  let ?w = "\<lparr>w_disk = demo_disk(''/w/a'' \<mapsto> (file_meta ''src'', ''src'')), w_st = demo_st, w_locks = []\<rparr>"
  let ?r = "by_name (bc_ext demo_ctx) (bc_env demo_ctx) ''a'' True (w_st ?w)"
  have "\<not> isl ?r \<and> fst (projr ?r) = demo_file" by code_simp
  then obtain s1 where r: "?r = Inr (demo_file, s1)" by (metis isl_def surj_pair sum.exhaust fst_conv sum.sel(2))
  have "not_ours (bc_env demo_ctx) (w_disk ?w) demo_file"
    by (simp add: not_ours_def demo_ctx_def demo_env_def abs_target_def demo_file_def file_exists_def from_row_def new_file_row_def path_join_def is_absolute_def)
  moreover have "si_locks_held (w_st ?w) (f_id demo_file) \<noteq> Some True" "cycles_check (bc_vars demo_ctx) (f_id demo_file) = Inr ()"
    "\<not> conflicts (w_locks ?w) (bc_pid demo_ctx) (f_id demo_file) False"
    by code_simp+
  moreover have "st_wf (w_st ?w)" using demo_st_wf by simp
  ultimately obtain w' where "\<forall>run. build_one (demo_ctx\<lparr>bc_run := run\<rparr>) ''a'' ?w = Some (Inr (Rv 0, w'))" "w_disk w' = w_disk ?w"
    using build_one_protects_sources [OF _ r] by blast
  then show ?thesis using spec [of _ demo_run] by (fastforce simp: demo_ctx_def)
qed

subsection \<open>The targets of one \<open>redo\<close>\<close>

text \<open>A sequence of targets handled one after the other, with the exit code of each (0 for a source that
  is skipped).\<close>

inductive attempts :: "build_ctx \<Rightarrow> string list \<Rightarrow> int list \<Rightarrow> world \<Rightarrow> world \<Rightarrow> bool" for c where
  nil: "attempts c [] [] w w"
| skip: "skip_source c t w = Inr (True, w1) \<Longrightarrow> attempts c ts rs w1 w' \<Longrightarrow> attempts c (t # ts) (0 # rs) w w'"
| build: "skip_source c t w = Inr (False, w1) \<Longrightarrow> build_one c t w1 = Some (Inr (Rv r, w2)) \<Longrightarrow>
    attempts c ts rs w2 w' \<Longrightarrow> attempts c (t # ts) (r # rs) w w'"

text \<open>Which targets were attempted, given the exit code \<open>rc\<close> so far.\<close>

definition run_shape :: "bool \<Rightarrow> string list \<Rightarrow> int \<Rightarrow> int list \<Rightarrow> int \<Rightarrow> bool" where
  "run_shape keep_going ts rc rs r \<longleftrightarrow>
     length rs \<le> length ts \<and> r = (if set rs \<subseteq> {0} then rc else 1) \<and>
     (if keep_going \<or> (set rs \<subseteq> {0}) then length rs = length ts
      else set (butlast rs) \<subseteq> {0})"

lemma run_shape_ok: "run_shape kg ts rc rs r \<Longrightarrow> run_shape kg (t # ts) rc (0 # rs) r"
  by (cases rs) (auto simp: run_shape_def split: if_splits)

lemma run_shape_bad: "x \<noteq> 0 \<Longrightarrow> run_shape True ts 1 rs r \<Longrightarrow> run_shape True (t # ts) rc (x # rs) r"
  by (simp add: run_shape_def)

lemma redo_loop_spec:
  assumes "redo_loop c ts rc w = Some (Inr (Rv r, w'))" "\<forall>t \<in> set ts. t \<noteq> [] \<and> CHR 0x0A \<notin> set t"
  shows "\<exists>rs. attempts c (take (length rs) ts) rs w w' \<and> run_shape (e_keep_going (bc_env c)) ts rc rs r"
  using assms
proof (induction ts arbitrary: rc w)
  case Nil
  then show ?case by (intro exI [of _ "[]"]) (auto simp: run_shape_def intro: attempts.nil)
next
  case (Cons t ts)
  have ok: "t \<noteq> []" "CHR 0x0A \<notin> set t" using Cons.prems(2) by auto
  note prem = Cons.prems(1) [unfolded redo_loop.simps]
  obtain sk w1 where sk: "skip_source c t w = Inr (sk, w1)"
    using prem ok by (cases "skip_source c t w") auto
  show ?case
  proof (cases sk)
    case True
    then have "redo_loop c ts rc w1 = Some (Inr (Rv r, w'))" using prem ok sk by simp
    then obtain rs where "attempts c (take (length rs) ts) rs w1 w'" "run_shape (e_keep_going (bc_env c)) ts rc rs r"
      using Cons by (metis list.set_intros(2))
    then show ?thesis using attempts.skip [of c t w w1] True sk run_shape_ok by (intro exI [of _ "0 # rs"]) simp
  next
    case False
    then obtain rv w2 where b: "build_one c t w1 = Some (Inr (Rv rv, w2))"
      using prem ok sk by (auto split: option.splits sum.splits outcome.splits)
    have "skip_source c t w = Inr (False, w1)" using sk False by simp
    note step = attempts.build [OF this b]
    consider (stop) "rv \<noteq> 0" "\<not> e_keep_going (bc_env c)" | (go) rc' where "redo_loop c ts rc' w2 = Some (Inr (Rv r, w'))"
        "if rv = 0 then rc' = rc else rc' = 1 \<and> e_keep_going (bc_env c)"
      using prem ok sk False b by (auto split: if_splits)
    then show ?thesis
    proof cases
      case stop
      then have "r = 1" "w' = w2" using prem ok sk False b by auto
      then show ?thesis
        using stop step [OF attempts.nil] by (intro exI [of _ "[rv]"]) (auto simp: run_shape_def)
    next
      case go
      then obtain rs where "attempts c (take (length rs) ts) rs w2 w'" "run_shape (e_keep_going (bc_env c)) ts rc' rs r"
        using Cons by (metis list.set_intros(2))
      then show ?thesis
        using go(2) step run_shape_ok run_shape_bad by (intro exI [of _ "rv # rs"]) (auto split: if_splits)
    qed
  qed
qed

text \<open>C13. The exit code of \<open>redo\<close>. The targets are handled in some order (the given one, or a permutation of
  it for \<open>--shuffle\<close>); the command succeeds exactly when every target was built or is a source, and
  its exit code is 1 otherwise. With \<open>--keep-going\<close> every target is attempted, without it the first
  failure is the last one attempted.\<close>

theorem run_redo_exit_code:
  assumes "run_redo_seq c toplevel targets now_nanos pid w = Some (Inr (Rv r, w'))"
    "\<forall>t \<in> set (default_targets toplevel targets). t \<noteq> [] \<and> CHR 0x0A \<notin> set t"
  shows "\<exists>ts rs. mset ts = mset (default_targets toplevel targets) \<and>
     (\<not> e_shuffle (bc_env c) \<longrightarrow> ts = default_targets toplevel targets) \<and>
     attempts c (take (length rs) ts) rs w w' \<and> length rs \<le> length ts \<and>
     r \<in> {0, 1} \<and> (r = 0 \<longleftrightarrow> set rs \<subseteq> {0}) \<and>
     (if e_keep_going (bc_env c) \<or> r = 0 then length rs = length ts else set (butlast rs) \<subseteq> {0})"
proof -
  let ?d = "default_targets toplevel targets"
  define ts where "ts = (if e_shuffle (bc_env c) \<and> length ?d > 1 then shuffle_in_place now_nanos pid ?d else ?d)"
  have m: "mset ts = mset ?d"
    by (auto simp: ts_def shuffle_in_place_def shuffle_in_place_with_seed_def intro: mset_shuffle_from)
  have plain: "\<not> e_shuffle (bc_env c) \<longrightarrow> ts = ?d" by (simp add: ts_def)
  have loop: "redo_loop c ts 0 w = Some (Inr (Rv r, w'))" using assms(1) by (simp add: run_redo_seq_def Let_def ts_def)
  have "\<forall>t \<in> set ts. t \<noteq> [] \<and> CHR 0x0A \<notin> set t" using assms(2) mset_eq_setD [OF m] by simp
  from redo_loop_spec [OF loop this] obtain rs where
    "attempts c (take (length rs) ts) rs w w'" "run_shape (e_keep_going (bc_env c)) ts 0 rs r"
    by (elim exE conjE)
  moreover from this(2) have "length rs \<le> length ts" "r \<in> {0, 1}" "r = 0 \<longleftrightarrow> set rs \<subseteq> {0}"
    "if e_keep_going (bc_env c) \<or> r = 0 then length rs = length ts else set (butlast rs) \<subseteq> {0}"
    by (cases "set rs \<subseteq> {0}"; simp add: run_shape_def)+
  ultimately show ?thesis using m plain by blast
qed

theorem run_redo_exit_code_witness:
  "\<exists>w' ts rs. run_redo_seq (demo_ctx\<lparr>bc_env := demo_env\<lparr>e_keep_going := True\<rparr>\<rparr>) True [''b'', ''c''] 1 1
      \<lparr>w_disk = Map.empty, w_st = demo_st, w_locks = []\<rparr> = Some (Inr (Rv 1, w')) \<and>
     mset ts = {#''b'', ''c''#} \<and> length rs = 2 \<and> \<not> set rs \<subseteq> {0::int}"
proof -
  let ?c = "demo_ctx\<lparr>bc_env := demo_env\<lparr>e_keep_going := True\<rparr>\<rparr>"
  let ?w = "\<lparr>w_disk = Map.empty, w_st = demo_st, w_locks = []\<rparr>"
  have "map_option (map_sum id fst) (run_redo_seq ?c True [''b'', ''c''] 1 1 ?w) = Some (Inr (Rv 1))" by code_simp
  from map_fst_Inr [OF this] obtain w' where r: "run_redo_seq ?c True [''b'', ''c''] 1 1 ?w = Some (Inr (Rv 1, w'))"
    by (elim exE)
  have ok: "\<forall>t \<in> set (default_targets True [''b'', ''c'']). t \<noteq> [] \<and> CHR 0x0A \<notin> set t" by code_simp
  have "e_keep_going (bc_env ?c)" "default_targets True [''b'', ''c''] = [''b'', ''c'']"
    by (simp_all add: demo_ctx_def default_targets_def)
  moreover from run_redo_exit_code [OF r ok] obtain ts rs where "mset ts = mset (default_targets True [''b'', ''c''])"
      "(1::int) = 0 \<longleftrightarrow> set rs \<subseteq> {0::int}"
      "if e_keep_going (bc_env ?c) \<or> (1::int) = 0 then length rs = length ts else set (butlast rs) \<subseteq> {0}"
    by (elim exE conjE) (rule that; assumption)
  ultimately have "mset ts = mset [''b'', ''c'']" "length rs = length ts" "\<not> set rs \<subseteq> {0}" by simp_all
  then show ?thesis using r mset_eq_length [of ts "[''b'', ''c'']"]
    by (intro exI [of _ w'] exI [of _ ts] exI [of _ rs]) simp
qed

subsection \<open>Invariants of a build\<close>

text \<open>What every step of a build keeps: the tables stay well-formed and no file row is dropped or renamed;
  the lock table stays consistent and the locks of other processes are untouched.\<close>

definition st_keeps :: "state_inner \<Rightarrow> state_inner \<Rightarrow> bool" where
  "st_keeps s s' \<longleftrightarrow> (st_wf s \<longrightarrow> st_wf s') \<and> set (file_ids (si_db s)) \<subseteq> set (file_ids (si_db s'))"

definition locks_keep :: "pid \<Rightarrow> klocks \<Rightarrow> klocks \<Rightarrow> bool" where
  "locks_keep p k k' \<longleftrightarrow> (k_ok k \<longrightarrow> k_ok k') \<and> (\<forall>q i. q \<noteq> p \<longrightarrow> holds k' q i = holds k q i)"

definition world_keeps :: "pid \<Rightarrow> world \<Rightarrow> world \<Rightarrow> bool" where
  "world_keeps p w w' \<longleftrightarrow> st_keeps (w_st w) (w_st w') \<and> locks_keep p (w_locks w) (w_locks w')"

lemma st_keeps_refl [intro, simp]: "st_keeps s s"
  by (simp add: st_keeps_def)

lemma st_keeps_trans [trans]: "st_keeps a b \<Longrightarrow> st_keeps b c \<Longrightarrow> st_keeps a c"
  by (auto simp: st_keeps_def)

lemma locks_keep_refl [intro, simp]: "locks_keep p k k"
  by (simp add: locks_keep_def)

lemma locks_keep_trans [trans]: "locks_keep p a b \<Longrightarrow> locks_keep p b c \<Longrightarrow> locks_keep p a c"
  by (simp add: locks_keep_def)

lemma world_keeps_trans [trans]: "world_keeps p a b \<Longrightarrow> world_keeps p b c \<Longrightarrow> world_keeps p a c"
  by (auto simp: world_keeps_def intro: st_keeps_trans locks_keep_trans)

context db_statement
begin

lemma keeps: "st_keeps s (st_write stmt s)"
  using write_wf write_keeps_files by (simp add: st_keeps_def)

end

lemma commit_keeps: "st_keeps s (st_commit s)"
  by (simp add: st_keeps_def commit_wf)

lemma save_keeps: "st_keeps s (save f s)"
  unfolding save_def by (rule update_file.keeps)

lemma zap_keeps: "st_keeps s (zap_deps1 f s)" "st_keeps s (zap_deps2 f s)"
  unfolding zap_deps1_def zap_deps2_def by (rule zap1.keeps zap2.keeps)+

lemma save_commit_keeps: "st_keeps s (st_commit (save f s))"
  by (rule st_keeps_trans [OF save_keeps commit_keeps])

lemma by_name_keeps: "by_name x e t b s = Inr (f, s') \<Longrightarrow> st_keeps s s'"
  by (erule by_name_Inr) (auto intro: insert_file.keeps)

lemma add_dep_keeps: "add_dep x e f m d s = Inr s' \<Longrightarrow> st_keeps s s'"
  by (auto simp: add_dep_def rbind_Inr_iff intro: st_keeps_trans [OF by_name_keeps] insert_dep.keeps)

lemma find_do_loop_keeps: "find_do_loop x e d sf cands s = Inr (r, s') \<Longrightarrow> st_keeps s s'"
proof (induction cands arbitrary: s)
  case (Cons cand cands)
  show ?case
  proof (cases "file_exists d (path_join (dodir cand) (dofile cand))")
    case True
    then obtain s1 dof s2 dof1 where s1: "add_dep x e sf (CHR ''m'') (path_join (dodir cand) (dofile cand)) s = Inr s1"
      "by_name x e (path_join (dodir cand) (dofile cand)) True s1 = Inr (dof, s2)" "s' = save dof1 s2"
      using Cons.prems by (auto simp: Let_def rbind_Inr_iff)
    then show ?thesis
      using st_keeps_trans [OF add_dep_keeps [OF s1(1)] st_keeps_trans [OF by_name_keeps [OF s1(2)] save_keeps]] by simp
  next
    case False
    then show ?thesis
      using Cons by (auto simp: Let_def rbind_Inr_iff intro: st_keeps_trans [OF add_dep_keeps])
  qed
qed auto

lemma check_not_ours_keeps: "check_not_ours e d sf s = Inr (Some s') \<Longrightarrow> st_keeps s s'"
  by (auto simp: check_not_ours_def rbind_Inr_iff save_commit_keeps split: if_splits)

lemma persist_keeps: "persist_new_target_intent e d sf s = (sf', s') \<Longrightarrow> st_keeps s s'"
  by (auto simp: persist_new_target_intent_def Let_def save_commit_keeps split: if_splits)

lemma no_rule_keeps: "no_rule e d sf s = Inr (rv, s') \<Longrightarrow> st_keeps s s'"
  by (auto simp: no_rule_def rbind_Inr_iff save_commit_keeps split: if_splits)

lemma record_failure_keeps: "record_failure e tmp d sf s = Inr (d', s') \<Longrightarrow> st_keeps s s'"
  by (auto simp: record_failure_def Let_def rbind_Inr_iff intro: st_keeps_trans [OF zap_keeps(2) save_commit_keeps])

lemma finish_build_keeps:
  assumes "finish_build c sf tmp trace b rv out d s = Inr (oc, d', s')"
  shows "st_keeps s s'"
proof -
  consider "oc = Crashed" "s' = s" | sf1 d1 d2 where "record_failure (bc_env c) tmp d1 sf1 s = Inr (d2, s')"
    | f1 where "s' = st_commit (save f1 (zap_deps2 f1 s))"
    | f1 sf1 d1 d2 where "record_failure (bc_env c) tmp d1 sf1 (zap_deps2 f1 s) = Inr (d2, s')"
    using assms
    by (auto simp: finish_build_def Let_def rbind_Inr_iff split: if_splits prod.splits)
  then show ?thesis
    by cases (auto intro: record_failure_keeps st_keeps_trans [OF zap_keeps(2) save_commit_keeps]
        st_keeps_trans [OF zap_keeps(2) record_failure_keeps])
qed

lemma held_keeps [simp]: "st_keeps s (s\<lparr>si_locks_held := h\<rparr>)" "st_keeps s (hold i b s)"
  by (simp_all add: st_keeps_def st_wf_def hold_def)

lemma without_keeps: "locks_keep p k (without k p fid)"
  using unlock_op.op_ok unlock_op.op_others unfolding locks_keep_def unlock_region_def by blast

lemma relock_keeps: "lock_region p fid sh nb k = Some (got, k1) \<Longrightarrow> locks_keep p k k1"
  using lock_region_Some [of p fid sh nb k got k1] lock_op.op_ok lock_op.op_others unfolding locks_keep_def by blast

lemma Lock_new_keeps: "Lock_new fid s = Inr (l, s') \<Longrightarrow> st_keeps s s'"
  by (auto simp: Lock_new_def split: if_splits)

lemma Lock_drop_keeps: "Lock_drop p l k s = (k', s') \<Longrightarrow> st_keeps s s' \<and> locks_keep p k k'"
  by (auto simp: Lock_drop_def Lock_unlock_def unlock_region_def without_keeps intro: st_keeps_trans [OF held_keeps(2) held_keeps(1)]
      split: if_splits)

lemma Lock_waitlock_keeps:
  "Lock_waitlock vs p sh l k s = Some (Inr (l', k', s')) \<Longrightarrow> st_keeps s s' \<and> locks_keep p k k'"
  by (auto simp: Lock_waitlock_def relock_keeps split: sum.splits option.splits)

lemma Lock_trylock_keeps:
  "Lock_trylock vs p l k s = Inr (got, l', k', s') \<Longrightarrow> st_keeps s s' \<and> locks_keep p k k'"
  by (auto simp: Lock_trylock_def rbind_Inr_iff relock_keeps split: option.splits)

lemma try_slots_keeps:
  "try_slots vs p name slots k s = Inr (r, k', s') \<Longrightarrow> st_keeps s s' \<and> locks_keep p k k'"
proof (induction slots arbitrary: k s)
  case (Cons i slots)
  obtain fid where fid: "pool_slot_fid name i = Inr fid" using Cons.prems by (auto simp: rbind_Inr_iff)
  show ?case
  proof (cases "Lock_new fid s")
    case (Inl e)
    then show ?thesis using Cons fid by simp
  next
    case (Inr ls)
    obtain l s1 where l: "Lock_new fid s = Inr (l, s1)" using Inr by (cases ls) auto
    obtain got l1 k1 s2 where t: "Lock_trylock vs p l k s1 = Inr (got, l1, k1, s2)"
      using Cons.prems fid l by (auto simp: rbind_Inr_iff)
    obtain k2 s3 where d: "Lock_drop p l1 k1 s2 = (k2, s3)" by fastforce
    have "st_keeps s s2" "locks_keep p k k1"
      using Lock_trylock_keeps [OF t] st_keeps_trans [OF Lock_new_keeps [OF l]] by auto
    moreover have "(s' = s2 \<and> k' = k1) \<or> (st_keeps s2 s' \<and> locks_keep p k1 k')"
      using Cons.prems fid l t d Cons.IH Lock_drop_keeps [OF d]
      by (auto split: if_splits intro: st_keeps_trans locks_keep_trans)
    ultimately show ?thesis by (auto intro: st_keeps_trans locks_keep_trans)
  qed
qed auto

text \<open>What is assumed of a script: the builds it runs keep the tables well-formed and the rows of known files.\<close>

definition script_keeps :: "build_ctx \<Rightarrow> bool" where
  "script_keeps c \<longleftrightarrow> (\<forall>jb d db. let db' = snd (snd (snd (bc_run c jb (d, db)))) in
     (db_wf db \<longrightarrow> db_wf db') \<and> set (file_ids db) \<subseteq> set (file_ids db'))"

lemma run_script_keeps:
  assumes "script_keeps c" "run_script c jb d s = (rv, out, d', s')"
  shows "st_keeps s s'"
proof -
  obtain db where "s' = st_commit s\<lparr>si_db := db\<rparr>" "db = snd (snd (snd (bc_run c jb (d, si_db (st_commit s)))))"
    using assms(2) by (auto simp: run_script_def Let_def split: prod.splits)
  then show ?thesis
    using assms(1) commit_wf [of s] by (auto simp: script_keeps_def Let_def st_keeps_def st_wf_def)
qed

lemma build_with_rule_Inr:
  assumes "build_with_rule c t sf df b w = Some (Inr (oc, w'))"
  obtains spec pool k1 s1 jb d1 rv out d2 s2 s3 where "acquire c spec w = Inr (pool, k1, s1)"
    "run_script c jb d1 s1 = (rv, out, d2, s2)"
    "finish_build c sf (tmpname df) (trace_path (bc_env c) (bc_pid c) sf) b rv out d2 s2 = Inr (oc, w_disk w', s3)"
    "release_pool c pool k1 s3 = (w_locks w', w_st w')"
proof -
  let ?pd = "parse_redo_pool_directive (text_of (w_disk w) (path_join (dodir df) (dofile df)))"
  let ?trace = "trace_path (bc_env c) (bc_pid c) sf"
  let ?jb = "make_job (bc_env c) sf t df (unwrap_or (x_diff_paths (bc_ext c) (tmpname df) (dodir df)) (tmpname df)) ?trace"
  let ?d1 = "remove_trace ?trace (unlink_best_effort (tmpname df) (w_disk w))"
  note defs = build_with_rule_def Let_def
  obtain spec where spec: "?pd = Inr spec" using assms by (cases ?pd) (simp_all add: defs)
  obtain pool k1 s1 where a: "acquire c spec w = Inr (pool, k1, s1)"
    using assms spec by (cases "acquire c spec w") (auto simp: defs)
  obtain rv out d2 s2 where r: "run_script c ?jb ?d1 s1 = (rv, out, d2, s2)" by (metis prod_cases4)
  let ?f = "finish_build c sf (tmpname df) ?trace b rv out d2 s2"
  have res: "rbind ?f (\<lambda>(oc, d3, s3). case release_pool c pool k1 s3 of (k2, s4) \<Rightarrow>
      Inr (oc, \<lparr>w_disk = d3, w_st = s4, w_locks = k2\<rparr>)) = Inr (oc, w')"
    using assms spec a r unfolding defs by (simp split: if_splits)
  then obtain d3 s3 where f: "?f = Inr (oc, d3, s3)" by (auto simp: rbind_Inr_iff split_beta)
  then have "release_pool c pool k1 s3 = (w_locks w', w_st w')" "d3 = w_disk w'"
    using res by (auto split: prod.splits)
  then show thesis using that [OF a r] f by simp
qed

lemma build_with_rule_keeps:
  assumes "script_keeps c" "build_with_rule c t sf df b w = Some (Inr (oc, w'))"
  shows "world_keeps (bc_pid c) w w'"
  using assms(2)
proof (rule build_with_rule_Inr)
  fix spec pool k1 s1 jb d1 rv out d2 s2 s3
  assume a: "acquire c spec w = Inr (pool, k1, s1)" and r: "run_script c jb d1 s1 = (rv, out, d2, s2)"
    and f: "finish_build c sf (tmpname df) (trace_path (bc_env c) (bc_pid c) sf) b rv out d2 s2 = Inr (oc, w_disk w', s3)"
    and p: "release_pool c pool k1 s3 = (w_locks w', w_st w')"
  have "st_keeps (w_st w) s1 \<and> locks_keep (bc_pid c) (w_locks w) k1"
    using a try_slots_keeps st_keeps_trans [OF commit_keeps] by (auto simp: acquire_def try_acquire_pool_def split: option.splits)
  moreover have "st_keeps s1 s3"
    using run_script_keeps [OF assms(1) r] finish_build_keeps [OF f] by (rule st_keeps_trans)
  moreover have "st_keeps s3 (w_st w') \<and> locks_keep (bc_pid c) k1 (w_locks w')"
    using p Lock_drop_keeps by (auto simp: release_pool_def split: option.splits)
  ultimately show ?thesis unfolding world_keeps_def by (meson st_keeps_trans locks_keep_trans)
qed

lemma world_keeps_st: "st_keeps (w_st w) s \<Longrightarrow> world_keeps p w (w\<lparr>w_st := s\<rparr>)"
  by (simp add: world_keeps_def)

lemma build_target_keeps:
  assumes "script_keeps c" "build_target c t sf w = Some (Inr (oc, w'))"
  shows "world_keeps (bc_pid c) w w'"
proof -
  let ?e = "bc_env c" and ?d = "w_disk w"
  obtain r where r: "check_not_ours ?e ?d sf (w_st w) = Inr r"
    using assms(2) by (cases "check_not_ours ?e ?d sf (w_st w)") (simp_all add: build_target_def Let_def)
  show ?thesis
  proof (cases r)
    case (Some s1)
    then have "w' = w\<lparr>w_st := s1\<rparr>" using assms(2) r by (simp add: build_target_def Let_def)
    then show ?thesis using check_not_ours_keeps r Some by (simp add: world_keeps_def)
  next
    case None
    obtain sf1 s1 where p: "persist_new_target_intent ?e ?d sf (w_st w) = (sf1, s1)" by fastforce
    obtain rule s2 where f: "find_do_for_target (bc_ext c) ?e ?d sf1 (zap_deps1 sf1 s1) = Inr (rule, s2)"
      using assms(2) r None p
      by (cases "find_do_for_target (bc_ext c) ?e ?d sf1 (zap_deps1 sf1 s1)") (auto simp: build_target_def Let_def)
    have k: "st_keeps (w_st w) s2"
      using persist_keeps [OF p] zap_keeps(1) find_do_loop_keeps f unfolding find_do_for_target_def
      by (meson st_keeps_trans)
    show ?thesis
    proof (cases rule)
      case rNone: None
      then obtain rv s3 where n: "no_rule ?e ?d sf1 s2 = Inr (rv, s3)" and w': "w' = w\<lparr>w_st := s3\<rparr>"
        using assms(2) r None p f by (auto simp: build_target_def Let_def rbind_Inr_iff)
      show ?thesis unfolding w' by (rule world_keeps_st) (rule st_keeps_trans [OF k no_rule_keeps [OF n]])
    next
      case (Some df)
      then have "build_with_rule c t sf1 df (map_option fst (?d (abs_target ?e sf1))) (w\<lparr>w_st := s2\<rparr>) = Some (Inr (oc, w'))"
        using assms(2) r None p f by (simp add: build_target_def Let_def)
      from build_with_rule_keeps [OF assms(1) this] show ?thesis
        by (rule world_keeps_trans [OF world_keeps_st [OF k]])
    qed
  qed
qed

lemma build_one_keeps:
  assumes "script_keeps c" "build_one c t w = Some (Inr (oc, w'))"
  shows "world_keeps (bc_pid c) w w'"
proof -
  let ?e = "bc_env c" and ?p = "bc_pid c"
  note defs = build_one_def Let_def
  obtain sf s1 where b: "by_name (bc_ext c) ?e t True (w_st w) = Inr (sf, s1)"
    using assms(2) by (cases "by_name (bc_ext c) ?e t True (w_st w)") (auto simp: defs)
  note kb = by_name_keeps [OF b]
  show ?thesis
  proof (cases "e_unlocked ?e")
    case True
    then have "build_target c t sf (w\<lparr>w_st := s1\<rparr>) = Some (Inr (oc, w'))" using assms(2) b by (simp add: defs)
    from build_target_keeps [OF assms(1) this] show ?thesis by (rule world_keeps_trans [OF world_keeps_st [OF kb]])
  next
    case False
    obtain l s2 where l: "Lock_new (f_id sf) s1 = Inr (l, s2)"
      using assms(2) b False by (cases "Lock_new (f_id sf) s1") (auto simp: defs)
    have k2: "st_keeps (w_st w) s2" using kb Lock_new_keeps [OF l] by (rule st_keeps_trans)
    let ?wait = "Lock_waitlock (bc_vars c) ?p False l (w_locks w) s2"
    obtain y where y: "?wait = Some y" using assms(2) b False l by (cases ?wait) (simp_all add: defs)
    show ?thesis
    proof (cases y)
      case (Inl err)
      obtain k1 s3 where d: "Lock_drop ?p l (w_locks w) s2 = (k1, s3)" by fastforce
      then have "w' = \<lparr>w_disk = w_disk w, w_st = s3, w_locks = k1\<rparr>"
        using assms(2) b False l y Inl by (simp add: defs split: if_splits)
      then show ?thesis using Lock_drop_keeps [OF d] k2 by (auto simp: world_keeps_def intro: st_keeps_trans)
    next
      case (Inr x)
      obtain l1 k1 s3 where x: "x = (l1, k1, s3)" by (cases x)
      let ?w = "\<lparr>w_disk = w_disk w, w_st = s3, w_locks = k1\<rparr>"
      have "world_keeps ?p w ?w"
        using Lock_waitlock_keeps y Inr x st_keeps_trans [OF k2] by (simp add: world_keeps_def)
      moreover obtain sf1 where r: "refresh ?e s3 sf = Inr sf1"
        using assms(2) b False l y Inr x by (cases "refresh ?e s3 sf") (simp_all add: defs)
      moreover obtain oc' w1 where t: "build_target c t sf1 ?w = Some (Inr (oc', w1))"
        using assms(2) b False l y Inr x r by (auto simp: defs split: option.splits sum.splits)
      moreover have "world_keeps ?p w1 w'"
      proof (cases oc')
        case (Rv rv)
        obtain k2 s4 where d: "Lock_drop ?p l1 (w_locks w1) (w_st w1) = (k2, s4)" by fastforce
        then show ?thesis
          using assms(2) b False l y Inr x r t Rv Lock_drop_keeps [OF d] by (auto simp: defs world_keeps_def)
      next
        case Crashed
        then show ?thesis using assms(2) b False l y Inr x r t by (simp add: defs world_keeps_def)
      qed
      ultimately show ?thesis using build_target_keeps [OF assms(1) t] world_keeps_trans by blast
    qed
  qed
qed

lemma skip_source_keeps: "skip_source c t w = Inr (b, w1) \<Longrightarrow> world_keeps p w w1"
  using by_name_keeps by (auto simp: skip_source_def rbind_Inr_iff world_keeps_def split: if_splits)

lemma redo_loop_keeps:
  assumes "script_keeps c" "redo_loop c ts rc w = Some (Inr (oc, w'))"
  shows "world_keeps (bc_pid c) w w'"
  using assms(2)
proof (induction ts arbitrary: rc w)
  case Nil
  then show ?case by (simp add: world_keeps_def)
next
  case (Cons t ts)
  show ?case
  proof (cases "CHR 0x0A \<in> set t \<or> t = []")
    case True
    then show ?thesis using Cons.prems by (auto simp: world_keeps_def)
  next
    case False
    obtain sk w1 where sk: "skip_source c t w = Inr (sk, w1)"
      using Cons.prems False by (cases "skip_source c t w") auto
    have "world_keeps (bc_pid c) w1 w'"
    proof (cases sk)
      case True
      then show ?thesis using Cons False sk by simp
    next
      case b: False
      obtain oc1 w2 where o: "build_one c t w1 = Some (Inr (oc1, w2))"
        using Cons.prems False sk b by (auto split: option.splits sum.splits)
      have "w' = w2 \<or> (\<exists>rc'. redo_loop c ts rc' w2 = Some (Inr (oc, w')))"
        using Cons.prems False sk b o by (auto split: outcome.splits if_splits)
      then show ?thesis
        using build_one_keeps [OF assms(1) o] Cons.IH world_keeps_trans by blast
    qed
    then show ?thesis by (rule world_keeps_trans [OF skip_source_keeps [OF sk]])
  qed
qed

text \<open>The invariants of a sequential run. Whatever the targets, the scripts and the outcome, \<open>redo\<close> keeps the
  tables of the database well-formed (provided the commands the scripts run do), drops and renames
  no file row, keeps the lock table consistent and does not touch the locks of other processes.\<close>

theorem run_redo_invariants:
  assumes "script_keeps c" "st_wf (w_st w)" "k_ok (w_locks w)"
    "run_redo_seq c toplevel targets now_nanos pid w = Some (Inr (oc, w'))"
  shows "st_wf (w_st w') \<and> set (file_ids (si_db (w_st w))) \<subseteq> set (file_ids (si_db (w_st w'))) \<and>
     k_ok (w_locks w') \<and> (\<forall>q i. q \<noteq> bc_pid c \<longrightarrow> holds (w_locks w') q i = holds (w_locks w) q i)"
  using assms redo_loop_keeps [OF assms(1)]
  by (fastforce simp: run_redo_seq_def Let_def world_keeps_def st_keeps_def locks_keep_def)

theorem run_redo_invariants_witness:
  "\<exists>w'. run_redo_seq demo_ctx True [''b''] 1 1 \<lparr>w_disk = Map.empty, w_st = demo_st, w_locks = [(9, 7, False)]\<rparr>
       = Some (Inr (Rv 1, w')) \<and> st_wf (w_st w') \<and> holds (w_locks w') 7 9"
proof -
  let ?w = "\<lparr>w_disk = Map.empty, w_st = demo_st, w_locks = [(9, 7, False)]\<rparr>"
  have "map_option (map_sum id fst) (run_redo_seq demo_ctx True [''b''] 1 1 ?w) = Some (Inr (Rv 1))" by code_simp
  from map_fst_Inr [OF this] obtain w' where r: "run_redo_seq demo_ctx True [''b''] 1 1 ?w = Some (Inr (Rv 1, w'))"
    by (elim exE)
  have "script_keeps demo_ctx" by (simp add: script_keeps_def demo_ctx_def demo_run_def)
  moreover have "st_wf (w_st ?w)" "k_ok (w_locks ?w)" using demo_st_wf by (simp_all add: k_ok_def)
  ultimately have "st_wf (w_st w') \<and> (\<forall>q i. q \<noteq> bc_pid demo_ctx \<longrightarrow> holds (w_locks w') q i = holds (w_locks ?w) q i)"
    using run_redo_invariants [OF _ _ _ r] by blast
  moreover have "holds (w_locks ?w) 7 9" "bc_pid demo_ctx = 1" by (auto simp: holds_def demo_ctx_def)
  ultimately show ?thesis using r by auto
qed

subsection \<open>A target below the base directory\<close>

text \<open>\<open>run_redo\<close> looks for the requested name below the base directory, not below the current one. In
  \<open>/w/sub\<close>, with a source file \<open>/w/a\<close> and a rule \<open>/w/sub/a.do\<close>, the command \<open>redo a\<close> ends with 0 without
  running the script.\<close>

definition sub_ctx :: build_ctx where
  "sub_ctx = demo_ctx\<lparr>bc_ext := demo_ext\<lparr>x_current_dir := Inr ''/w/sub''\<rparr>, bc_env := demo_env\<lparr>e_unlocked := True\<rparr>,
     bc_run := (\<lambda>jb (d, db). (3, [], d, db))\<rparr>"

definition sub_world :: "disk \<Rightarrow> world" where
  "sub_world d = \<lparr>w_disk = d(''/w/sub/a.do'' \<mapsto> (file_meta ''x''\<lparr>m_is_dir := True\<rparr>, ''echo'')), w_st = demo_state, w_locks = []\<rparr>"

lemma redo_skips_other_file:
  "map_option (map_sum id fst) (run_redo_seq sub_ctx True [''a''] 1 1 (sub_world [''/w/a'' \<mapsto> (file_meta ''y'', ''y'')])) = Some (Inr (Rv 0))"
  by code_simp

lemma redo_skipped_rule:
  "map_option dofile (find_do_for_target_no_deps (bc_env sub_ctx) (w_disk (sub_world [''/w/a'' \<mapsto> (file_meta ''y'', ''y'')]))
     (demo_file\<lparr>f_name := ''sub/a''\<rparr>)) = Some ''a.do''"
  by code_simp

end
