(* ===== verification/Commands.thy ===== *)
theory Commands
  imports Builder_Props Deps_Sound
begin

text \<open>
  The small commands a \<open>.do\<close> script calls (\<open>redo-stamp\<close>, \<open>redo-always\<close>, \<open>redo-ifcreate\<close>) and the ones
  that report on the database (\<open>redo-sources\<close>, \<open>redo-targets\<close>, \<open>redo-whichdo\<close>), the arguments of
  \<open>redo-ifchange\<close> and the two steps of \<open>redo-unlocked\<close> (\<open>bins/src\<close>). A command starts on an open
  database; \<open>Inl\<close> ends it without a commit. \<open>sha1\<close> is a parameter.
\<close>

subsection \<open>Commands of a script\<close>

definition current_target_abs :: "env \<Rightarrow> string res" where
  "current_target_abs e =
     (if e_startdir e = [] \<or> e_target e = [] then Inl (Msg ''missing REDO_STARTDIR/REDO_TARGET'')
      else Inr (path_join (path_join (e_startdir e) (e_pwd e)) (e_target e)))"

definition stamp_file :: "env \<Rightarrow> string \<Rightarrow> redo_file \<Rightarrow> redo_file" where
  "stamp_file e csum f =
     (let f1 = f\<lparr>f_is_generated := True, f_is_override := False, f_failed_runid := None\<rparr> in
      if f_csum f \<noteq> Some csum then (set_changed e f1)\<lparr>f_csum := Some csum\<rparr> else set_checked e f1)"

definition redo_stamp :: "(string \<Rightarrow> string) \<Rightarrow> ext_fns \<Rightarrow> env \<Rightarrow> string \<Rightarrow> state_inner \<Rightarrow> state_inner res" where
  "redo_stamp sha1 x e stdin s =
     (if e_target e = [] then Inr s
      else rbind (current_target_abs e) (\<lambda>me.
           rbind (by_name x e me True s) (\<lambda>(f, s1).
             Inr (st_commit (save (stamp_file e (sha1 stdin) f) s1)))))"

definition redo_always :: "ext_fns \<Rightarrow> env \<Rightarrow> state_inner \<Rightarrow> state_inner res" where
  "redo_always x e s =
     rbind (current_target_abs e) (\<lambda>me.
     rbind (by_name x e me True s) (\<lambda>(f, s1).
     rbind (add_dep x e f (CHR ''m'') ALWAYS s1) (\<lambda>s2.
     rbind (by_name x e ALWAYS True (save f s2)) (\<lambda>(a, s3).
       Inr (st_commit (save (set_changed e (a\<lparr>f_stamp := Some STAMP_MISSING, f_is_generated := False\<rparr>)) s3))))))"

fun ifcreate_loop :: "ext_fns \<Rightarrow> env \<Rightarrow> (string \<Rightarrow> bool) \<Rightarrow> redo_file \<Rightarrow> string list \<Rightarrow> state_inner \<Rightarrow> state_inner res" where
  "ifcreate_loop x e ex f [] s = Inr s"
| "ifcreate_loop x e ex f (t # ts) s =
     (if t = [] then Inl (Exit 204)
      else if ex t then Inl (Exit 1)
      else rbind (add_dep x e f (CHR ''c'') t s) (ifcreate_loop x e ex f ts))"

definition redo_ifcreate :: "ext_fns \<Rightarrow> env \<Rightarrow> (string \<Rightarrow> bool) \<Rightarrow> string list \<Rightarrow> state_inner \<Rightarrow> state_inner res" where
  "redo_ifcreate x e ex args s =
     rbind (current_target_abs e) (\<lambda>me.
     rbind (by_name x e me True s) (\<lambda>(f, s1).
     rbind (ifcreate_loop x e ex f args s1) (\<lambda>s2. Inr (st_commit s2))))"

subsection \<open>Reports\<close>

definition show_file :: "ext_fns \<Rightarrow> env \<Rightarrow> string \<Rightarrow> redo_file \<Rightarrow> string" where
  "show_file x e cwd f = unwrap_or (x_diff_paths x (path_join (e_base e) (f_name f)) cwd) (f_name f)"

definition redo_sources :: "ext_fns \<Rightarrow> fsview \<Rightarrow> env \<Rightarrow> state_inner \<Rightarrow> string list res" where
  "redo_sources x fs e s =
     rbind (x_current_dir x) (\<lambda>cwd. Inr (map (show_file x e cwd) (filter (is_source fs e) (files e s))))"

definition redo_targets :: "ext_fns \<Rightarrow> fsview \<Rightarrow> env \<Rightarrow> state_inner \<Rightarrow> string list res" where
  "redo_targets x fs e s =
     rbind (x_current_dir x) (\<lambda>cwd. Inr (map (show_file x e cwd) (filter (is_target fs e) (files e s))))"

text \<open>The candidates printed, up to the first that exists, and whether there is one.\<close>

fun whichdo_loop :: "(string \<Rightarrow> bool) \<Rightarrow> do_file list \<Rightarrow> string list \<times> bool" where
  "whichdo_loop ex [] = ([], False)"
| "whichdo_loop ex (df # dfs) =
     (let p = path_join (dodir df) (dofile df) in
      if ex p then ([p], True) else (case whichdo_loop ex dfs of (ps, found) \<Rightarrow> (p # ps, found)))"

definition redo_whichdo :: "ext_fns \<Rightarrow> (string \<Rightarrow> bool) \<Rightarrow> string \<Rightarrow> string list \<Rightarrow> int \<times> string list" where
  "redo_whichdo x ex base args =
     (case args of
        [want] \<Rightarrow>
          if want = [] then (204, [])
          else let cwd = (case x_current_dir x of Inl _ \<Rightarrow> ''.'' | Inr d \<Rightarrow> d);
                   (ps, found) = whichdo_loop ex (possible_do_files (path_join cwd want) base)
               in (if found then 0 else 1, map (\<lambda>p. unwrap_or (x_diff_paths x p cwd) p) ps)
      | _ \<Rightarrow> (1, []))"

subsection \<open>The arguments of \<open>redo-ifchange\<close>\<close>

text \<open>\<open>String::from_utf8\<close> on bytes.\<close>

definition utf8_cont :: "nat \<Rightarrow> bool" where
  "utf8_cont b \<longleftrightarrow> 0x80 \<le> b \<and> b < 0xC0"

fun utf8_valid :: "nat list \<Rightarrow> bool" where
  "utf8_valid [] \<longleftrightarrow> True"
| "utf8_valid (b # bs) \<longleftrightarrow>
     (if b < 0x80 then utf8_valid bs
      else if 0xC2 \<le> b \<and> b < 0xE0
      then (case bs of c1 # r \<Rightarrow> utf8_cont c1 \<and> utf8_valid r | _ \<Rightarrow> False)
      else if 0xE0 \<le> b \<and> b < 0xF0
      then (case bs of c1 # c2 # r \<Rightarrow>
              utf8_cont c1 \<and> utf8_cont c2 \<and> (b = 0xE0 \<longrightarrow> 0xA0 \<le> c1) \<and> (b = 0xED \<longrightarrow> c1 < 0xA0) \<and> utf8_valid r
            | _ \<Rightarrow> False)
      else if 0xF0 \<le> b \<and> b < 0xF5
      then (case bs of c1 # c2 # c3 # r \<Rightarrow>
              utf8_cont c1 \<and> utf8_cont c2 \<and> utf8_cont c3 \<and> (b = 0xF0 \<longrightarrow> 0x90 \<le> c1) \<and> (b = 0xF4 \<longrightarrow> c1 < 0x90) \<and> utf8_valid r
            | _ \<Rightarrow> False)
      else False)"

definition from_utf8 :: "string \<Rightarrow> string res" where
  "from_utf8 b = (if utf8_valid (map of_char b) then Inr b else Inl (Msg ''invalid utf-8''))"

definition chomp_cr :: "string \<Rightarrow> string" where
  "chomp_cr l = (if l \<noteq> [] \<and> last l = CHR 0x0D then butlast l else l)"

fun collect_utf8 :: "string list \<Rightarrow> string list res" where
  "collect_utf8 [] = Inr []"
| "collect_utf8 (b # bs) =
     (if b = [] then collect_utf8 bs else rbind (from_utf8 b) (\<lambda>s. rbind (collect_utf8 bs) (\<lambda>r. Inr (s # r))))"

definition parse_newline_separated_targets :: "string \<Rightarrow> string list res" where
  "parse_newline_separated_targets b = collect_utf8 (map chomp_cr (split_on (CHR 0x0A) b))"

definition parse_nul_separated_targets :: "string \<Rightarrow> string list res" where
  "parse_nul_separated_targets b = collect_utf8 (split_on (CHR 0x00) b)"

text \<open>\<open>rd\<close> reads a dependency file or, for \<open>-\<close>, standard input (\<open>read_depfile_bytes\<close>).\<close>

fun parse_targets :: "(string \<Rightarrow> string res) \<Rightarrow> string list \<Rightarrow> string list res" where
  "parse_targets rd [] = Inr []"
| "parse_targets rd (a # args) =
     (if a = ''--'' then Inr args
      else if a = ''--from-file'' \<or> a = ''--from-file0''
      then (case args of
              [] \<Rightarrow> Inl (Msg (a @ '' requires a path''))
            | path # rest \<Rightarrow>
                rbind (rd path) (\<lambda>b.
                rbind ((if a = ''--from-file'' then parse_newline_separated_targets else parse_nul_separated_targets) b) (\<lambda>ts.
                rbind (parse_targets rd rest) (\<lambda>us. Inr (ts @ us)))))
      else rbind (parse_targets rd args) (\<lambda>us. Inr (a # us)))"

subsection \<open>\<open>redo-unlocked\<close>\<close>

text \<open>\<open>ifchange\<close> runs \<open>redo-ifchange\<close> with the given variables and arguments and returns its exit status
  (\<open>None\<close>: killed by a signal). The exit code, and the calls made.\<close>

definition redo_unlocked :: "(vars \<Rightarrow> string list \<Rightarrow> int option) \<Rightarrow> vars \<Rightarrow> string list \<Rightarrow> int \<times> (vars \<times> string list) list" where
  "redo_unlocked ifchange vs args =
     (case args of
        target # d # ds \<Rightarrow>
          let deps = filter (\<lambda>d. d \<noteq> target) (d # ds);
              v1 = vs(''REDO_NO_OOB'' \<mapsto> ''1'');
              v2 = v1(''REDO_UNLOCKED'' \<mapsto> ''1'')
          in if ifchange v1 deps \<noteq> Some 0 then (unwrap_or (ifchange v1 deps) 1, [(v1, deps)])
             else (unwrap_or (ifchange v2 [target]) 1, [(v1, deps), (v2, [target])])
      | _ \<Rightarrow> (1, []))"

subsection \<open>Checksums\<close>

lemma stamp_file_fields [simp]:
  "f_id (stamp_file e cs f) = f_id f" "f_name (stamp_file e cs f) = f_name f" "f_csum (stamp_file e cs f) = Some cs"
  "f_is_generated (stamp_file e cs f)" "\<not> f_is_override (stamp_file e cs f)" "f_failed_runid (stamp_file e cs f) = None"
  "f_changed_runid (stamp_file e cs f) = (if f_csum f = Some cs then f_changed_runid f else e_runid e)"
  by (simp_all add: stamp_file_def set_changed_def set_checked_def Let_def)

lemma stamp_file_settled: "e_runid e \<noteq> None \<Longrightarrow> is_checked e (stamp_file e cs f) \<or> is_changed e (stamp_file e cs f)"
  by (auto simp: stamp_file_def set_changed_def set_checked_def Let_def is_checked_def is_changed_def run_reached_def)

lemma new_file_state_settled:
  assumes "is_checked e f \<or> is_changed e f" "f_is_generated f" "\<not> f_is_override f"
  shows "new_file_state e d f = Inr (f\<lparr>f_stamp := Some (read_stamp (view d) e f)\<rparr>)"
proof -
  have "f\<lparr>f_is_generated := True, f_is_override := False\<rparr> = f" using assms(2,3) by (cases f) simp
  then show ?thesis using assms(1) by (simp add: new_file_state_def)
qed

lemma redo_stamp_row:
  assumes "redo_stamp sha1 x e stdin s = Inr s1" "current_target_abs e = Inr me" "by_name x e me True s = Inr (g, s0)"
    "st_wf s" "\<not> si_insane s" "f_name g \<noteq> ALWAYS"
  shows "refresh e s1 g = Inr (stamp_file e (sha1 stdin) g)" "\<not> si_insane s1"
proof -
  have "e_target e \<noteq> []" using assms(2) by (auto simp: current_target_abs_def split: if_splits)
  then have s1: "s1 = st_commit (save (stamp_file e (sha1 stdin) g) s0)"
    using assms(1-3) by (simp add: redo_stamp_def)
  have i: "\<not> si_insane s0" using by_name_insane [OF assms(3)] assms(5) by simp
  show "refresh e s1 g = Inr (stamp_file e (sha1 stdin) g)"
    unfolding s1 using save_then_refresh [OF i by_name_refresh [OF assms(3,4)]] assms(6) by simp
  show "\<not> si_insane s1" using i by (simp add: s1 save_def)
qed

text \<open>C27. \<open>redo-stamp\<close> shields dependents. When a script stamps its output and its build succeeds, the row
  carries the checksum, is not failed and has the stamp of the new file; and it counts as changed in
  this run only if the checksum differs from the recorded one. With the same checksum the run in
  which the target last changed stays what it was, so targets that depend on it are not rebuilt.\<close>

theorem stamp_shields_dependents:
  assumes "redo_stamp sha1 (bc_ext c) (bc_env c) stdin s = Inr s1" "current_target_abs (bc_env c) = Inr me"
    "by_name (bc_ext c) (bc_env c) me True s = Inr (g, s0)" "st_wf s" "\<not> si_insane s" "f_name g \<noteq> ALWAYS"
    "target = abs_target (bc_env c) g"
    "check_outputs rv before_t (map_option fst (d target)) (file_exists d tmp) (length out) = 0"
    "tmp \<noteq> target" "no_dir d tmp" "no_dir d target" "bc_creatable c d tmp" "\<not> m_is_dir (bc_mkmeta c out)"
    "\<not> bc_crash c" "\<not> e_strict_fail (bc_env c)" "trace \<noteq> Some target" "e_runid (bc_env c) = Some r"
  shows "\<exists>d' s' f. finish_build c g tmp trace before_t rv out d s1 = Inr (Rv 0, d', s') \<and>
     refresh (bc_env c) s' g = Inr f \<and> f_csum f = Some (sha1 stdin) \<and> f_failed_runid f = None \<and>
     f_stamp f = Some (read_stamp (view d') (bc_env c) g) \<and>
     f_changed_runid f = (if f_csum g = Some (sha1 stdin) then f_changed_runid g else Some r)"
proof -
  let ?e = "bc_env c" and ?h = "stamp_file (bc_env c) (sha1 stdin) g"
  note row = redo_stamp_row [OF assms(1-6)]
  have run: "e_runid ?e \<noteq> None" using assms(17) by simp
  have name: "f_name g = f_name ?h" by simp
  obtain d' f d1 where fb: "finish_build c g tmp trace before_t rv out d s1 = Inr (Rv 0, d', st_commit (save f (zap_deps2 f s1)))"
    and t: "d' target = d1 target" and f: "new_file_state ?e d1 ?h = Inr f"
    and r: "refresh ?e (st_commit (save f (zap_deps2 f s1))) g = Inr f"
    by (rule finish_build_ok [OF row(2,1) name assms(6,7-16) run])
  have ff: "f = ?h\<lparr>f_stamp := Some (read_stamp (view d1) ?e ?h)\<rparr>"
    using f new_file_state_settled [OF stamp_file_settled [OF run], of "sha1 stdin" g d1] by simp
  have "read_stamp (view d1) ?e ?h = read_stamp (view d') ?e g"
    using read_stamp_cong [of d' ?e g d1] t assms(7) by (simp add: read_stamp_def)
  then have "f_csum f = Some (sha1 stdin)" "f_failed_runid f = None" "f_stamp f = Some (read_stamp (view d') ?e g)"
    "f_changed_runid f = (if f_csum g = Some (sha1 stdin) then f_changed_runid g else Some r)"
    using assms(17) by (simp_all add: ff)
  then show ?thesis using fb r by blast
qed

definition demo_script_env :: env where
  "demo_script_env = demo_env\<lparr>e_startdir := ''/w'', e_target := ''a''\<rparr>"

definition demo_script_ctx :: build_ctx where
  "demo_script_ctx = demo_ctx\<lparr>bc_env := demo_script_env\<rparr>"

theorem stamp_shields_dependents_witness:
  "\<exists>s1 d' s' f. redo_stamp (\<lambda>_. ''abc'') demo_ext demo_script_env ''data'' demo_st = Inr s1 \<and>
     finish_build demo_script_ctx demo_file ''/w/a.redo.tmp'' None None 0 [] demo_disk s1 = Inr (Rv 0, d', s') \<and>
     refresh demo_script_env s' demo_file = Inr f \<and> f_csum f = Some ''abc'' \<and> f_changed_runid f = Some 1000000002"
proof -
  let ?c = demo_script_ctx and ?r = "redo_stamp (\<lambda>_. ''abc'') (bc_ext demo_script_ctx) (bc_env demo_script_ctx) ''data'' demo_st"
  have "\<not> isl ?r" by code_simp
  then obtain s1 where r: "?r = Inr s1" by (metis isl_def sum.exhaust)
  have t: "current_target_abs (bc_env ?c) = Inr ''/w/a''" by code_simp
  have "\<not> isl (by_name (bc_ext ?c) (bc_env ?c) ''/w/a'' True demo_st) \<and>
      fst (projr (by_name (bc_ext ?c) (bc_env ?c) ''/w/a'' True demo_st)) = demo_file" by code_simp
  then obtain s0 where b: "by_name (bc_ext ?c) (bc_env ?c) ''/w/a'' True demo_st = Inr (demo_file, s0)"
    by (metis isl_def surj_pair sum.exhaust fst_conv sum.sel(2))
  have o: "f_name demo_file \<noteq> ALWAYS" "''/w/a'' = abs_target (bc_env ?c) demo_file"
    "check_outputs 0 None (map_option fst (demo_disk ''/w/a'')) (file_exists demo_disk ''/w/a.redo.tmp'') (length []) = 0"
    "''/w/a.redo.tmp'' \<noteq> ''/w/a''" "no_dir demo_disk ''/w/a.redo.tmp''" "no_dir demo_disk ''/w/a''"
    "bc_creatable ?c demo_disk ''/w/a.redo.tmp''" "\<not> m_is_dir (bc_mkmeta ?c [])"
    "\<not> bc_crash ?c" "\<not> e_strict_fail (bc_env ?c)" "None \<noteq> Some ''/w/a''" "e_runid (bc_env ?c) = Some 1000000002"
    by code_simp+
  have n: "f_csum demo_file = None" "bc_ext ?c = demo_ext" "bc_env ?c = demo_script_env"
    by (simp_all add: demo_file_def from_row_def new_file_row_def demo_script_ctx_def demo_ctx_def)
  from stamp_shields_dependents [OF r t b demo_st_wf(1,3) o] r show ?thesis unfolding n by auto
qed

subsection \<open>\<open>redo-always\<close>\<close>

lemma always_changed:
  assumes "r_name rw = ALWAYS" "e_runid e = Some r"
  shows "r \<le> unwrap_or (f_changed_runid (from_row e rw)) 0"
  using assms by (cases "r_changed_runid rw") (auto simp: from_row_def opt_less_def)

lemma dep_id_ALWAYS: "dep_id x e s ALWAYS = Some i \<Longrightarrow> (ALWAYS, i) \<in> set (file_ids (si_db s))"
  by (auto simp: dep_id_def db_name_def file_ids_def image_iff dest!: find_name_Some) metis

lemma dep_id_commit [simp]: "dep_id x e (st_commit s) = dep_id x e s"
  by (simp add: fun_eq_iff dep_id_def split: sum.splits)

lemma file_ids_row:
  assumes "(n, i) \<in> set (file_ids (si_db s))" "st_wf s"
  obtains rw where "sql_file_by_id (si_db s) i = Some rw" "r_name rw = n"
  using assms find_id_unique by (fastforce simp: file_ids_def st_wf_def)

lemma all_deps_file_deps:
  assumes "(i, m) \<in> all_deps (si_db s) (f_id f)" "sql_file_by_id (si_db s) i = Some rw" "f_is_generated f" "\<not> f_is_override f"
  shows "(mode_char m, from_row e rw) \<in> set (file_deps e s f)"
proof -
  obtain d where "d \<in> set (db_deps (si_db s))" "d_target d = f_id f" "d_source d = i" "d_mode d = m"
    using assms(1) by (auto simp: all_deps_def)
  then have "(m, rw) \<in> set (sql_deps_of (si_db s) (f_id f))"
    using assms(2) unfolding sql_deps_of_def set_concat set_map by force
  then show ?thesis using assms(3,4) by (force simp: file_deps_def)
qed

lemma redo_always_dep:
  assumes "redo_always x e s = Inr s1" "\<not> si_insane s" "current_target_abs e = Inr me" "by_name x e me True s = Inr (g, s0)"
  obtains i where "dep_id x e s1 ALWAYS = Some i" "(i, ''m'') \<in> live_deps (si_db s1) (f_id g)"
proof -
  obtain s2 a s3 b where s2: "add_dep x e g (CHR ''m'') ALWAYS s0 = Inr s2"
    and s3: "by_name x e ALWAYS True (save g s2) = Inr (a, s3)" and s1: "s1 = st_commit (save b s3)"
    using assms(1,3,4) by (auto simp: redo_always_def rbind_Inr_iff)
  have "\<not> si_insane s0" using by_name_insane [OF assms(4)] assms(2) by simp
  with s2 obtain i where i: "dep_id x e s2 ALWAYS = Some i"
    "live_deps (si_db s2) (f_id g) = {p \<in> live_deps (si_db s0) (f_id g). fst p \<noteq> i} \<union> {(i, ''m'')}"
    by (rule add_dep_Inr)
  have "s3 = save g s2" using by_name_known [OF _ s3] i(1) by simp
  then have "dep_id x e s1 = dep_id x e s2" "live_deps (si_db s1) (f_id g) = live_deps (si_db s2) (f_id g)"
    by (simp_all add: s1)
  then show thesis using that i by simp
qed

lemma redo_always_keeps:
  assumes "redo_always x e s = Inr s1"
  shows "st_keeps s s1"
proof -
  obtain me f s0 s2 a s3 b where k: "by_name x e me True s = Inr (f, s0)" "add_dep x e f (CHR ''m'') ALWAYS s0 = Inr s2"
    "by_name x e ALWAYS True (save f s2) = Inr (a, s3)" "s1 = st_commit (save b s3)"
    using assms by (auto simp: redo_always_def rbind_Inr_iff)
  note by_name_keeps [OF k(1)]
  also note add_dep_keeps [OF k(2)]
  also note save_keeps [of s2 f]
  also note by_name_keeps [OF k(3)]
  also note save_commit_keeps [of s3 b]
  finally show ?thesis by (simp add: k(4))
qed

text \<open>A target whose script ran \<open>redo-always\<close> is never clean in a later run. Whatever the rest of its
  build records, as long as it keeps the declared dependencies and the known files, the target is
  out of date in every run in which it has not been built or checked yet.\<close>

theorem always_is_never_clean:
  assumes "redo_always x e s = Inr s1" "\<not> si_insane s" "current_target_abs e = Inr me" "by_name x e me True s = Inr (g, s0)"
    "live_deps (si_db s1) (f_id g) \<subseteq> all_deps (si_db s2) (f_id g)" "set (file_ids (si_db s1)) \<subseteq> set (file_ids (si_db s2))"
    "st_wf s2" "f_id f = f_id g" "f_is_generated f" "\<not> f_is_override f" "e_runid e' = Some r" "dep_max f < r"
  shows "\<not> up_to_date fs e' s2 f"
proof
  assume u: "up_to_date fs e' s2 f"
  obtain i where i: "dep_id x e s1 ALWAYS = Some i" "(i, ''m'') \<in> live_deps (si_db s1) (f_id g)"
    using assms(1-4) by (rule redo_always_dep)
  have "(ALWAYS, i) \<in> set (file_ids (si_db s2))" using dep_id_ALWAYS [OF i(1)] assms(6) by blast
  then obtain rw where rw: "sql_file_by_id (si_db s2) i = Some rw" "r_name rw = ALWAYS"
    using assms(7) by (rule file_ids_row)
  have "(i, ''m'') \<in> all_deps (si_db s2) (f_id f)" using i(2) assms(5,8) by auto
  from all_deps_file_deps [OF this rw(1) assms(9,10)]
  have "(CHR ''m'', from_row e' rw) \<in> set (file_deps e' s2 f)" by (simp add: mode_char_def)
  then have "unwrap_or (f_changed_runid (from_row e' rw)) 0 \<le> dep_max f" using u by (auto elim: up_to_dateE)
  then show False using always_changed [OF rw(2) assms(11)] assms(12) by simp
qed

theorem always_is_never_clean_witness:
  "\<exists>s1. redo_always demo_ext demo_script_env demo_st = Inr s1 \<and>
     \<not> up_to_date demo_fs (demo_env\<lparr>e_runid := Some 1000000003\<rparr>) s1
       (demo_file\<lparr>f_is_generated := True, f_changed_runid := Some 1000000002\<rparr>)"
proof -
  let ?e = demo_script_env and ?f = "demo_file\<lparr>f_is_generated := True, f_changed_runid := Some 1000000002\<rparr>"
  have "\<not> isl (redo_always demo_ext ?e demo_st)" by code_simp
  then obtain s1 where r: "redo_always demo_ext ?e demo_st = Inr s1" by (metis isl_def sum.exhaust)
  have t: "current_target_abs ?e = Inr ''/w/a''" by code_simp
  have "\<not> isl (by_name demo_ext ?e ''/w/a'' True demo_st) \<and> fst (projr (by_name demo_ext ?e ''/w/a'' True demo_st)) = demo_file"
    by code_simp
  then obtain s0 where b: "by_name demo_ext ?e ''/w/a'' True demo_st = Inr (demo_file, s0)"
    by (metis isl_def surj_pair sum.exhaust fst_conv sum.sel(2))
  have wf: "st_wf s1" using redo_always_keeps [OF r] demo_st_wf(1) by (simp add: st_keeps_def)
  have f: "f_id ?f = f_id demo_file" "f_is_generated ?f" "\<not> f_is_override ?f" "dep_max ?f < 1000000003"
    by (simp_all add: demo_file_def from_row_def new_file_row_def dep_max_def)
  have "live_deps (si_db s1) (f_id demo_file) \<subseteq> all_deps (si_db s1) (f_id demo_file)"
    by (auto simp: live_deps_def all_deps_def)
  from always_is_never_clean [OF r demo_st_wf(3) t b this subset_refl wf f(1-3) _ f(4), of "demo_env\<lparr>e_runid := Some 1000000003\<rparr>"]
  show ?thesis using r by auto
qed

end
