(* ===== verification/Cached_Build.thy ===== *)
theory Cached_Build
  imports Builder_Props Remote_Props
begin

text \<open>
  The jobs of \<open>redo-ifchange\<close> (\<open>schedule_build_one\<close> and its completion callback,
  \<open>redo_core/src/builder.rs\<close>): the consultation of the local and the remote cache before a script is
  started, and what is recorded, stored and pushed after it.

  The record \<open>cache_ctx\<close> has what the code takes from outside: SHA-256, version, platform, the
  directory listing and clock of the object store, the order of a hash set, the contents of links,
  and the network. Contents that the code decodes with \<open>from_utf8_lossy\<close> are taken to be valid
  UTF-8.
\<close>

subsection \<open>Context\<close>

record 'n cache_ctx =
  cc_sha :: "string \<Rightarrow> string"
  cc_tag :: string
  cc_os :: string
  cc_arch :: string
  cc_rd :: "objs \<Rightarrow> string \<Rightarrow> string list option"
  cc_now :: nat
  cc_order :: "string list \<Rightarrow> string list"
  cc_read_link :: "string \<rightharpoonup> string"
  cc_net :: "'n net"

record 'n caches =
  ca_objs :: objs
  ca_net :: 'n

definition STRICT_POLICY_READTRACE :: string where "STRICT_POLICY_READTRACE = ''strict-readtrace''"

definition remote_platform :: "vars \<Rightarrow> string" where
  "remote_platform vs = trim (var_or vs ''REDO_REMOTE_PLATFORM_ID'')"

definition remote_exec_wanted :: "vars \<Rightarrow> bool" where
  "remote_exec_wanted vs =
     (let v = trim (var_or vs ''REDO_REMOTE_EXEC'') in v \<noteq> [] \<and> v \<noteq> ''0'' \<and> remote_platform vs \<noteq> [])"

definition policy_domain :: "env \<Rightarrow> vars \<Rightarrow> string option" where
  "policy_domain e vs =
     (if remote_exec_wanted vs
      then Some (if e_strict e then STRICT_POLICY_READTRACE @ '';remote_platform='' @ remote_platform vs
                 else ''policy=remote-exec;platform='' @ remote_platform vs)
      else if e_strict e then Some STRICT_POLICY_READTRACE else None)"

definition key_v0 :: "'n cache_ctx \<Rightarrow> env \<Rightarrow> string option \<Rightarrow> disk \<Rightarrow> redo_file \<Rightarrow> (char \<times> redo_file) list \<Rightarrow> eligibility \<times> action_key" where
  "key_v0 cc e pol d sf deps =
     (case pol of
        Some p \<Rightarrow> compute_action_key_v0_policy (cc_sha cc) (cc_tag cc) (view d) e p (f_name sf) deps
      | None \<Rightarrow> compute_action_key_v0 (cc_sha cc) (cc_tag cc) (view d) e (f_name sf) deps)"

definition key_v1 :: "'n cache_ctx \<Rightarrow> env \<Rightarrow> string option \<Rightarrow> disk \<Rightarrow> redo_file \<Rightarrow> (char \<times> redo_file) list \<Rightarrow> (eligibility \<times> action_key) res" where
  "key_v1 cc e pol d sf deps =
     (let look = observe_dep (cc_sha cc) (view d) (cc_read_link cc) (text_of d) e in
      case pol of
        Some p \<Rightarrow> compute_action_key_v1_remote_policy (cc_sha cc) (cc_tag cc) (cc_os cc) (cc_arch cc) look p (f_name sf) deps
      | None \<Rightarrow> compute_action_key_v1_remote (cc_sha cc) (cc_tag cc) (cc_os cc) (cc_arch cc) look (f_name sf) deps)"

subsection \<open>A cache hit\<close>

text \<open>A new file with permissions set by \<open>chmod\<close>.\<close>

definition mode_file :: "build_ctx \<Rightarrow> string \<Rightarrow> nat \<Rightarrow> meta \<times> string" where
  "mode_file c b mode =
     (let m = bc_mkmeta c b in (m\<lparr>m_mode := m_mode m div 4096 * 4096 + mode mod 4096\<rparr>, b))"

definition dep_arg :: "env \<Rightarrow> redo_file \<Rightarrow> string" where
  "dep_arg e dep = (if f_name dep = ALWAYS then ALWAYS else path_join (e_base e) (f_name dep))"

text \<open>The row of a target that was restored from a cache.\<close>

definition restore_row ::
  "ext_fns \<Rightarrow> env \<Rightarrow> disk \<Rightarrow> redo_file \<Rightarrow> (char \<times> redo_file) list \<Rightarrow> state_inner \<Rightarrow> state_inner res" where
  "restore_row x e d sf deps s =
     rbind (refresh e s sf) (\<lambda>f0.
     rbind (update_stamp (view d) e False
              (f0\<lparr>f_is_generated := True, f_is_override := False, f_failed_runid := None, f_csum := None\<rparr>)) (\<lambda>f1.
     rbind (add_deps x e f1 (map (\<lambda>(m, dep). (m, dep_arg e dep)) deps) s) (\<lambda>s1.
       Inr (st_commit (save f1 (zap_deps2 f1 s1))))))"

text \<open>Putting content in place of the target and recording it. \<open>None\<close>: the rename failed and the
  temporary file is gone.\<close>

definition restore ::
  "build_ctx \<Rightarrow> string \<Rightarrow> string \<Rightarrow> redo_file \<Rightarrow> (char \<times> redo_file) list \<Rightarrow> meta \<times> string \<Rightarrow> disk \<Rightarrow> state_inner
   \<Rightarrow> (disk \<times> state_inner option) res" where
  "restore c tmp target sf deps x d s =
     (case durable_rename tmp target (d(tmp \<mapsto> x)) of
        Inl _ \<Rightarrow> Inr (unlink_best_effort tmp (d(tmp \<mapsto> x)), None)
      | Inr d1 \<Rightarrow> rbind (restore_row (bc_ext c) (bc_env c) d1 sf (sort_deps deps) s) (\<lambda>s1. Inr (d1, Some s1)))"

text \<open>The local cache: whether there is an entry, the files and, after a hit, the state.\<close>

definition try_local ::
  "build_ctx \<Rightarrow> string \<Rightarrow> string \<Rightarrow> redo_file \<Rightarrow> (char \<times> redo_file) list \<Rightarrow> action_key \<Rightarrow> objs \<Rightarrow> disk \<Rightarrow> state_inner
   \<Rightarrow> (bool \<times> disk \<times> state_inner option) res" where
  "try_local c tmp target sf deps key o1 d s =
     (case lookup (bc_env c) key o1 of
        None \<Rightarrow> Inr (False, d, None)
      | Some (blob, m) \<Rightarrow>
          (case materialize o1 blob m of
             Inl _ \<Rightarrow> Inr (True, unlink_best_effort tmp d, None)
           | Inr (_, b, mode) \<Rightarrow>
               rbind (restore c tmp target sf deps (mode_file c b mode) d s) (\<lambda>(d1, r). Inr (True, d1, r))))"

text \<open>The remote cache: the mapping of the key, the manifest, the output; every digest is verified. \<open>None\<close>:
  no download was tried; \<open>Inl\<close>: it failed.\<close>

definition remote_fetch :: "'n cache_ctx \<Rightarrow> remote_config \<Rightarrow> string \<Rightarrow> 'n \<Rightarrow> (string \<times> nat) res option \<times> 'n" where
  "remote_fetch cc cfg key n =
     (case get_action_manifest_sha256 (cc_net cc) cfg key n of
        (Inr (Some man), n1) \<Rightarrow>
          (case get_blob_bytes_verified (cc_sha cc) (cc_net cc) cfg man n1 of
             (Inr text, n2) \<Rightarrow>
               (case parse_artifact_manifest_v1 text of
                  Inl _ \<Rightarrow> (None, n2)
                | Inr m \<Rightarrow>
                    (case download_blob_to_file_verified (cc_sha cc) (cc_net cc) cfg (am_blob_sha256 m) None n2 of
                       ((Inr _, Some b), n3) \<Rightarrow> (Some (Inr (b, unat (am_mode m) mod 512)), n3)
                     | ((Inl err, _), n3) \<Rightarrow> (Some (Inl err), n3)
                     | ((Inr _, None), n3) \<Rightarrow> (None, n3)))
           | (_, n2) \<Rightarrow> (None, n2))
      | (_, n1) \<Rightarrow> (None, n1))"

definition try_remote ::
  "'n cache_ctx \<Rightarrow> build_ctx \<Rightarrow> string option \<Rightarrow> string \<Rightarrow> string \<Rightarrow> redo_file \<Rightarrow> (char \<times> redo_file) list \<Rightarrow> action_key
   \<Rightarrow> disk \<Rightarrow> state_inner \<Rightarrow> 'n caches \<Rightarrow> (bool \<times> disk \<times> state_inner \<times> 'n caches) res" where
  "try_remote cc c pol tmp target sf deps key d s ca =
     (case config_from_env (bc_vars c) of
        Inr (Some cfg) \<Rightarrow>
          (let s1 = st_commit s in
           case key_v1 cc (bc_env c) pol d sf deps of
             Inr (Eligible, rkey) \<Rightarrow>
               (case remote_fetch cc cfg (ak_hex rkey) (ca_net ca) of
                  (None, n1) \<Rightarrow> Inr (False, d, s1, ca\<lparr>ca_net := n1\<rparr>)
                | (Some (Inl _), n1) \<Rightarrow> Inr (False, unlink_best_effort tmp d, s1, ca\<lparr>ca_net := n1\<rparr>)
                | (Some (Inr (b, mode)), n1) \<Rightarrow>
                    rbind (restore c tmp target sf deps (mode_file c b mode) d s1) (\<lambda>(d1, r).
                      case r of
                        None \<Rightarrow> Inr (False, d1, s1, ca\<lparr>ca_net := n1\<rparr>)
                      | Some s2 \<Rightarrow>
                          Inr (True, d1, s2,
                               \<lparr>ca_objs = (case store (cc_sha cc) (bc_env c) (max_bytes (bc_vars c)) (cc_rd cc) (bc_pid c) (cc_now cc)
                                                  key (text_of d1 target) mode (ca_objs ca) of
                                             Inl _ \<Rightarrow> ca_objs ca | Inr (_, o1) \<Rightarrow> o1),
                                ca_net = n1\<rparr>)))
           | _ \<Rightarrow> Inr (False, d, s1, ca))
      | _ \<Rightarrow> Inr (False, d, s, ca))"

subsection \<open>Before a job\<close>

text \<open>Dependencies of the last build that are gone: a generated one is built now, under the cycle check of
  this target, a source is an error (\<open>Rv 1\<close>).\<close>

fun ensure_deps ::
  "(string list \<Rightarrow> string list) \<Rightarrow> build_ctx \<Rightarrow> redo_file \<Rightarrow> (char \<times> redo_file) list \<Rightarrow> world \<Rightarrow> (outcome \<times> world) res option" where
  "ensure_deps order c sf [] w = Some (Inr (Rv 0, w))"
| "ensure_deps order c sf ((mode, dep) # ds) w =
     (let p = path_join (e_base (bc_env c)) (f_name dep) in
      if mode \<noteq> CHR ''m'' \<or> f_id dep = f_id sf \<or> f_name dep = ALWAYS \<or> file_exists (w_disk w) p
      then ensure_deps order c sf ds w
      else if f_is_generated dep
      then (case build_one (c\<lparr>bc_vars := cycles_add order (f_id sf) (bc_vars c)\<rparr>) p w of
              None \<Rightarrow> None
            | Some (Inl err) \<Rightarrow> Some (Inl err)
            | Some (Inr (Crashed, w1)) \<Rightarrow> Some (Inr (Crashed, w1))
            | Some (Inr (Rv rv, w1)) \<Rightarrow> if rv \<noteq> 0 then Some (Inr (Rv 1, w1)) else ensure_deps order c sf ds w1)
      else Some (Inr (Rv 1, w)))"

datatype consulted = CacheHit | MissingDep | RunJob bool | Died

text \<open>\<open>RunJob\<close> carries whether the output may be stored afterwards (\<open>cache_key\<close>).\<close>

definition consult ::
  "'n cache_ctx \<Rightarrow> build_ctx \<Rightarrow> string option \<Rightarrow> string \<Rightarrow> string \<Rightarrow> redo_file \<Rightarrow> world \<Rightarrow> 'n caches
   \<Rightarrow> (consulted \<times> world \<times> 'n caches) res option" where
  "consult cc c pol tmp target sf w ca =
     (let e = bc_env c in
      if \<not> enabled_default_on (bc_vars c) \<or> f_csum sf \<noteq> None then Some (Inr (RunJob False, w, ca))
      else let deps = file_deps e (w_st w) sf in
           case ensure_deps (cc_order cc) c sf deps w of
             None \<Rightarrow> None
           | Some (Inl err) \<Rightarrow> Some (Inl err)
           | Some (Inr (Crashed, w1)) \<Rightarrow> Some (Inr (Died, w1, ca))
           | Some (Inr (Rv rv, w1)) \<Rightarrow>
               if rv \<noteq> 0
               then Some (rbind (set_failed (view (w_disk w1)) e sf) (\<lambda>f.
                      Inr (MissingDep, w1\<lparr>w_st := st_commit (save f (w_st w1))\<rparr>, ca)))
               else Some (case key_v0 cc e pol (w_disk w1) sf deps of
                      (SkipAlways, _) \<Rightarrow> Inr (RunJob False, w1, ca)
                    | (Eligible, key) \<Rightarrow>
                        rbind (try_local c tmp target sf deps key (ca_objs ca) (w_disk w1) (w_st w1)) (\<lambda>(found, d1, r).
                          case r of
                            Some s1 \<Rightarrow> Inr (CacheHit, w1\<lparr>w_disk := d1, w_st := s1\<rparr>, ca)
                          | None \<Rightarrow>
                              if found then Inr (RunJob True, w1\<lparr>w_disk := d1\<rparr>, ca)
                              else rbind (try_remote cc c pol tmp target sf deps key d1 (w_st w1) ca) (\<lambda>(hit, d2, s2, ca1).
                                     Inr (if hit then CacheHit else RunJob True, w1\<lparr>w_disk := d2, w_st := s2\<rparr>, ca1)))))"

subsection \<open>Jobs\<close>

text \<open>\<open>PendingBuild\<close>. \<open>jo_remote\<close> are the paths of the declared dependencies and of the success flag of a
  remote execution.\<close>

record pending_build =
  jo_spec :: job_spec
  jo_argv :: "string list option"
  jo_sf :: redo_file
  jo_dodir :: string
  jo_tmp :: string
  jo_trace :: "string option"
  jo_before :: "meta option"
  jo_key :: bool
  jo_policy :: "string option"
  jo_remote :: "(string \<times> string) option"
  jo_pool :: "lock option"
  jo_lock :: "lock option"

datatype scheduled = DeferredPool | Ended bool | Started pending_build | Exited

definition remote_file :: "env \<Rightarrow> pid \<Rightarrow> redo_file \<Rightarrow> string \<Rightarrow> string \<Rightarrow> string" where
  "remote_file e p sf pre post =
     path_join (path_join (path_join (e_base e) ''.redo'') ''remote'')
       (pre @ ''.'' @ show_int (unwrap_or (e_runid e) 0) @ ''.'' @ show_int (f_id sf) @ ''.'' @ show_nat p @ post)"

definition job_trace_path :: "env \<Rightarrow> vars \<Rightarrow> pid \<Rightarrow> redo_file \<Rightarrow> string option" where
  "job_trace_path e vs p sf = (if remote_exec_wanted vs then trace_path (e\<lparr>e_strict := True\<rparr>) p sf else trace_path e p sf)"

text \<open>The inputs of a remote execution; \<open>None\<close>: a dependency is not a regular file, or one whose absence
  was relied on exists.\<close>

fun remote_inputs :: "env \<Rightarrow> disk \<Rightarrow> redo_file \<Rightarrow> (char \<times> redo_file) list \<Rightarrow> string list option" where
  "remote_inputs e d sf [] = Some []"
| "remote_inputs e d sf ((mode, dep) # ds) =
     (let p = path_join (e_base e) (f_name dep) in
      if mode = CHR ''m''
      then if f_id dep = f_id sf \<or> f_name dep = ALWAYS then remote_inputs e d sf ds
           else (case d p of
                   Some (m, _) \<Rightarrow> if m_is_file m then map_option ((#) (f_name dep)) (remote_inputs e d sf ds) else None
                 | None \<Rightarrow> None)
      else if mode = CHR ''c'' \<and> file_exists d p then None
      else remote_inputs e d sf ds)"

definition remote_argv ::
  "ext_fns \<Rightarrow> env \<Rightarrow> job_spec \<Rightarrow> string \<Rightarrow> redo_file \<Rightarrow> string \<Rightarrow> string \<Rightarrow> string \<Rightarrow> string list \<Rightarrow> string option \<Rightarrow> string list" where
  "remote_argv x e jb tmp sf trace deps_out0 ok inputs line1 =
     [''redo-remote-exec'', ''--out'', tmp, ''--deps-out0'', deps_out0, ''--trace-out0'', trace, ''--remote-ok'', ok,
      ''--cwd-rel'', unwrap_or (x_diff_paths x (jb_dodir jb) (e_base e)) (jb_dodir jb),
      ''--target-rel'', f_name sf, ''--tmp-rel'', unwrap_or (x_diff_paths x tmp (e_base e)) tmp] @
     concat (map (\<lambda>i. [''--input'', i]) inputs) @ [''--''] @ shell_argv e jb line1"

text \<open>How the script will be run: in place, or by \<open>redo-remote-exec\<close>.\<close>

definition remote_plan ::
  "build_ctx \<Rightarrow> job_spec \<Rightarrow> string \<Rightarrow> redo_file \<Rightarrow> bool \<Rightarrow> string option \<Rightarrow> disk \<Rightarrow> state_inner
   \<Rightarrow> (string list \<times> string \<times> string) option" where
  "remote_plan c jb tmp sf key trace d s =
     (let e = bc_env c; dep = remote_file e (bc_pid c) sf ''deps'' ''.out0''; ok = remote_file e (bc_pid c) sf ''ok'' ''.flag'' in
      if \<not> remote_exec_wanted (bc_vars c) \<or> \<not> key then None
      else case config_from_env (bc_vars c) of
             Inr (Some _) \<Rightarrow>
               (case (remote_inputs e d sf (file_deps e s sf), trace) of
                  (Some inputs, Some t) \<Rightarrow>
                    Some (remote_argv (bc_ext c) e jb tmp sf t dep ok inputs
                            (Option.bind (text_of d (path_join (jb_dodir jb) (jb_dofile jb))) (\<lambda>b. case str_lines b of [] \<Rightarrow> None | l # _ \<Rightarrow> Some l)),
                          dep, ok)
                | _ \<Rightarrow> None)
           | _ \<Rightarrow> None)"

definition drop_locks :: "build_ctx \<Rightarrow> lock option \<Rightarrow> lock option \<Rightarrow> world \<Rightarrow> world" where
  "drop_locks c l pool w =
     (case release_pool c pool (w_locks w) (w_st w) of (k1, s1) \<Rightarrow>
      case release_pool c l k1 s1 of (k2, s2) \<Rightarrow> w\<lparr>w_st := s2, w_locks := k2\<rparr>)"

definition start_job ::
  "'n cache_ctx \<Rightarrow> build_ctx \<Rightarrow> string \<Rightarrow> redo_file \<Rightarrow> do_file \<Rightarrow> meta option \<Rightarrow> lock option \<Rightarrow> lock option \<Rightarrow> world \<Rightarrow> 'n caches
   \<Rightarrow> (scheduled \<times> world \<times> 'n caches) res option" where
  "start_job cc c t sf df before_t l pool w ca =
     (let e = bc_env c; vs = bc_vars c; pol = policy_domain e vs; tmp = tmpname df;
          trace = job_trace_path e vs (bc_pid c) sf;
          d0 = remove_trace trace (unlink_best_effort tmp (w_disk w));
          d1 = (if remote_exec_wanted vs
                then unlink_best_effort (remote_file e (bc_pid c) sf ''ok'' ''.flag'')
                       (unlink_best_effort (remote_file e (bc_pid c) sf ''deps'' ''.out0'') d0)
                else d0);
          arg3 = unwrap_or (x_diff_paths (bc_ext c) tmp (dodir df)) tmp
      in case consult cc c pol tmp (abs_target e sf) sf (w\<lparr>w_disk := d1\<rparr>) ca of
           None \<Rightarrow> None
         | Some (Inl err) \<Rightarrow> Some (Inl err)
         | Some (Inr (Died, w1, ca1)) \<Rightarrow> Some (Inr (Exited, w1, ca1))
         | Some (Inr (CacheHit, w1, ca1)) \<Rightarrow> Some (Inr (Ended False, drop_locks c l pool w1, ca1))
         | Some (Inr (MissingDep, w1, ca1)) \<Rightarrow> Some (Inr (Ended True, drop_locks c l pool w1, ca1))
         | Some (Inr (RunJob key, w1, ca1)) \<Rightarrow>
             (let plan = remote_plan c (make_job e sf t df arg3 trace) tmp sf key trace (w_disk w1) (w_st w1) in
              Some (Inr (Started
                \<lparr>jo_spec = make_job e sf t df arg3 (if plan = None then trace else None),
                 jo_argv = map_option fst plan, jo_sf = sf, jo_dodir = dodir df, jo_tmp = tmp, jo_trace = trace,
                 jo_before = before_t, jo_key = key, jo_policy = pol, jo_remote = map_option snd plan,
                 jo_pool = pool, jo_lock = l\<rparr>,
                w1\<lparr>w_st := st_commit (w_st w1)\<rparr>, ca1))))"

text \<open>The pool slot is taken before the database is written to; without a free one the target is deferred.\<close>

definition schedule_pool :: "build_ctx \<Rightarrow> redo_file \<Rightarrow> world \<Rightarrow> (bool \<times> lock option \<times> world) res" where
  "schedule_pool c sf w =
     (case find_do_for_target_no_deps (bc_env c) (w_disk w) sf of
        None \<Rightarrow> Inr (True, None, w)
      | Some df \<Rightarrow>
          rbind (parse_redo_pool_directive (text_of (w_disk w) (path_join (dodir df) (dofile df)))) (\<lambda>spec.
            case spec of
              None \<Rightarrow> Inr (True, None, w)
            | Some sp \<Rightarrow>
                rbind (try_acquire_pool (bc_vars c) (bc_pid c) sp (w_locks w) (w_st w)) (\<lambda>(r, k1, s1).
                  Inr (r \<noteq> None, r, w\<lparr>w_st := s1, w_locks := k1\<rparr>))))"

definition schedule_build_one ::
  "'n cache_ctx \<Rightarrow> build_ctx \<Rightarrow> string \<Rightarrow> redo_file \<Rightarrow> lock option \<Rightarrow> world \<Rightarrow> 'n caches \<Rightarrow> (scheduled \<times> world \<times> 'n caches) res option" where
  "schedule_build_one cc c t sf l w ca =
     (let e = bc_env c; d = w_disk w in
      case check_not_ours e d sf (w_st w) of
        Inl err \<Rightarrow> Some (Inl err)
      | Inr (Some s1) \<Rightarrow> Some (Inr (Ended False, drop_locks c l None (w\<lparr>w_st := s1\<rparr>), ca))
      | Inr None \<Rightarrow>
          (case schedule_pool c sf w of
             Inl err \<Rightarrow> Some (Inl err)
           | Inr (False, _, w1) \<Rightarrow> Some (Inr (DeferredPool, drop_locks c l None w1, ca))
           | Inr (True, pool, w1) \<Rightarrow>
               (case persist_new_target_intent e d sf (w_st w1) of (sf1, s1) \<Rightarrow>
                  (case find_do_for_target (bc_ext c) e d sf1 (zap_deps1 sf1 s1) of
                     Inl err \<Rightarrow> Some (Inl err)
                   | Inr (None, s2) \<Rightarrow>
                       Some (rbind (no_rule e d sf1 s2) (\<lambda>(rv, s3).
                         Inr (Ended (rv \<noteq> 0), drop_locks c l pool (w1\<lparr>w_st := s3\<rparr>), ca)))
                   | Inr (Some df, s2) \<Rightarrow>
                       start_job cc c t sf1 df (map_option fst (d (abs_target e sf1))) l pool (w1\<lparr>w_st := s2\<rparr>) ca))))"

subsection \<open>After a job\<close>

text \<open>Dependencies declared during a remote execution, relative to the directory of the rule.\<close>

definition remote_dep_arg :: "string \<Rightarrow> string \<Rightarrow> string" where
  "remote_dep_arg dd dep = (if dep = ALWAYS then ALWAYS else if is_absolute dep then dep else path_join dd dep)"

text \<open>A failing \<open>add_dep\<close> ends the loop with the exit code 209; what was recorded before stays.\<close>

fun apply_deps :: "ext_fns \<Rightarrow> env \<Rightarrow> string \<Rightarrow> redo_file \<Rightarrow> (char \<times> string) list \<Rightarrow> state_inner \<Rightarrow> int \<times> state_inner" where
  "apply_deps x e dd f [] s = (0, s)"
| "apply_deps x e dd f ((m, dep) # ds) s =
     (if dep = [] then apply_deps x e dd f ds s
      else case add_dep x e f m (remote_dep_arg dd dep) s of
             Inl _ \<Rightarrow> (209, s)
           | Inr s1 \<Rightarrow> apply_deps x e dd f ds s1)"

definition apply_remote :: "build_ctx \<Rightarrow> pending_build \<Rightarrow> redo_file \<Rightarrow> disk \<Rightarrow> state_inner \<Rightarrow> int \<times> state_inner" where
  "apply_remote c jo f d s =
     (case jo_remote jo of
        None \<Rightarrow> (0, s)
      | Some (deps_out0, ok) \<Rightarrow>
          if \<not> file_exists d ok then (0, s)
          else case text_of d deps_out0 of
                 None \<Rightarrow> (209, s)
               | Some b \<Rightarrow> apply_deps (bc_ext c) (bc_env c) (jo_dodir jo) f (read_deps_out0 b) s)"

definition remove_remote :: "pending_build \<Rightarrow> disk \<Rightarrow> disk" where
  "remove_remote jo d =
     (case jo_remote jo of None \<Rightarrow> d | Some (deps_out0, ok) \<Rightarrow> unlink_best_effort ok (unlink_best_effort deps_out0 d))"

text \<open>Pushing a stored output: the content, the manifest, and last the mapping of the action to it. Errors
  are ignored.\<close>

definition push_artifact :: "'n cache_ctx \<Rightarrow> remote_config \<Rightarrow> string \<Rightarrow> string \<Rightarrow> string \<Rightarrow> nat \<Rightarrow> nat \<Rightarrow> 'n \<Rightarrow> 'n" where
  "push_artifact cc cfg rkey content hex sz mode n =
     (let man = manifest_json hex sz (mode mod 512);
          n1 = snd (put_blob_bytes (cc_net cc) cfg hex content n);
          n2 = snd (put_blob_bytes (cc_net cc) cfg (cc_sha cc man) man n1)
      in snd (put_action_mapping (cc_net cc) cfg rkey (cc_sha cc man) n2))"

definition push_stored ::
  "'n cache_ctx \<Rightarrow> build_ctx \<Rightarrow> string option \<Rightarrow> disk \<Rightarrow> redo_file \<Rightarrow> (char \<times> redo_file) list \<Rightarrow> action_key \<Rightarrow> 'n caches \<Rightarrow> 'n caches" where
  "push_stored cc c pol d f deps key ca =
     (case config_from_env (bc_vars c) of
        Inr (Some cfg) \<Rightarrow>
          if \<not> rc_push_enabled cfg then ca
          else (case lookup (bc_env c) key (ca_objs ca) of
                  None \<Rightarrow> ca
                | Some (blob, m) \<Rightarrow>
                    if cm_sha256 m = [] then ca
                    else (case (key_v1 cc (bc_env c) pol d f deps, ca_objs ca blob) of
                            (Inr (Eligible, rkey), Some (content, _)) \<Rightarrow>
                              ca\<lparr>ca_net := push_artifact cc cfg (ak_hex rkey) content (cm_sha256 m) (cm_size m) (cm_mode m) (ca_net ca)\<rparr>
                          | _ \<Rightarrow> ca))
      | _ \<Rightarrow> ca)"

text \<open>The output of a job enters the caches only if the key was computed before, strict mode has no
  objection, and the target is a regular file without a checksum.\<close>

definition store_output ::
  "'n cache_ctx \<Rightarrow> build_ctx \<Rightarrow> pending_build \<Rightarrow> redo_file \<Rightarrow> bool \<Rightarrow> disk \<Rightarrow> state_inner \<Rightarrow> 'n caches \<Rightarrow> 'n caches" where
  "store_output cc c jo f strict_ok d s ca =
     (let e = bc_env c in
      if \<not> jo_key jo \<or> (e_strict e \<and> \<not> strict_ok) then ca
      else case d (abs_target e f) of
             None \<Rightarrow> ca
           | Some (m, b) \<Rightarrow>
               if \<not> m_is_file m \<or> f_csum f \<noteq> None then ca
               else let deps = file_deps e s f in
                    (case key_v0 cc e (jo_policy jo) d f deps of
                       (SkipAlways, _) \<Rightarrow> ca
                     | (Eligible, key) \<Rightarrow>
                         (case store (cc_sha cc) e (max_bytes (bc_vars c)) (cc_rd cc) (bc_pid c) (cc_now cc) key (Some b) (m_mode m) (ca_objs ca) of
                            Inl _ \<Rightarrow> ca
                          | Inr (_, o1) \<Rightarrow> push_stored cc c (jo_policy jo) d f deps key (ca\<lparr>ca_objs := o1\<rparr>))))"

definition fail_job :: "build_ctx \<Rightarrow> pending_build \<Rightarrow> redo_file \<Rightarrow> int \<Rightarrow> disk \<Rightarrow> state_inner \<Rightarrow> outcome \<times> disk \<times> state_inner" where
  "fail_job c jo f rv d s =
     (case record_failure (bc_env c) (jo_tmp jo) d f s of
        Inl _ \<Rightarrow> (Rv rv, d, s)
      | Inr (d1, s1) \<Rightarrow> (Rv rv, d1, s1))"

text \<open>The completion callback: from the exit code and the output of the script to the recorded outcome.\<close>

definition complete_job ::
  "'n cache_ctx \<Rightarrow> build_ctx \<Rightarrow> pending_build \<Rightarrow> int \<Rightarrow> string \<Rightarrow> disk \<Rightarrow> state_inner \<Rightarrow> 'n caches
   \<Rightarrow> (outcome \<times> disk \<times> state_inner) \<times> 'n caches" where
  "complete_job cc c jo rv out d s ca =
     (let e = bc_env c; sf = jo_sf jo; tmp = jo_tmp jo; target = abs_target e sf;
          rv1 = check_outputs rv (jo_before jo) (map_option fst (d target)) (file_exists d tmp) (length out)
      in if rv1 \<noteq> 0 then (fail_job c jo sf rv1 d s, ca)
         else case install_output_job c tmp target out d of (rv2, d1) \<Rightarrow>
           if rv2 \<noteq> 0 then (fail_job c jo sf rv2 d1 s, ca)
           else if bc_crash c then ((Crashed, d1, s), ca)
           else (case rbind (refresh e s sf) (new_file_state e d1) of
                   Inl _ \<Rightarrow> (fail_job c jo sf 209 d1 s, ca)
                 | Inr f1 \<Rightarrow>
                     (case apply_remote c jo f1 d1 s of (rv3, s1) \<Rightarrow>
                        let d2 = remove_remote jo d1; s2 = zap_deps2 f1 s1;
                            rv4 = strict_rv e (jo_trace jo) d2 f1 s2 rv3;
                            strict_ok = \<not> strict_bad (evaluate_strict_readtrace (e_base e) (file_deps e s2 f1) (trace_entries (jo_trace jo) d2));
                            d3 = remove_trace (jo_trace jo) d2
                        in if rv4 \<noteq> 0 then (fail_job c jo f1 rv4 d3 s2, ca)
                           else let s3 = st_commit (save f1 s2) in
                                ((Rv 0, d3, s3), store_output cc c jo f1 strict_ok d3 s3 ca))))"

text \<open>A job of the scheduler from start to end. The slot of the pool is released first, the target's lock
  last; a failure sets the exit code of the scheduler.\<close>

definition run_job :: "'n cache_ctx \<Rightarrow> build_ctx \<Rightarrow> pending_build \<Rightarrow> world \<Rightarrow> 'n caches \<Rightarrow> outcome \<times> world \<times> 'n caches" where
  "run_job cc c jo w ca =
     (case run_script c (jo_spec jo) (w_disk w) (w_st w) of
        (rv, out, d1, s1) \<Rightarrow>
          (case release_pool c (jo_pool jo) (w_locks w) s1 of (k1, s2) \<Rightarrow>
             (case complete_job cc c jo rv out d1 s2 ca of
                ((oc, d2, s3), ca1) \<Rightarrow>
                  (case release_pool c (jo_lock jo) k1 s3 of (k2, s4) \<Rightarrow>
                     (oc, \<lparr>w_disk = d2, w_st = s4, w_locks = k2\<rparr>, ca1)))))"

end
