(* ===== verification/Cached_Props.thy ===== *)
theory Cached_Props
  imports Cached_Build
begin

text \<open>
  What the jobs of \<open>redo-ifchange\<close> guarantee: a job is recorded as \<open>build_one\<close> records a build, a hit in
  the local cache restores what was stored, and an output pushed to a remote cache is what another
  machine fetches.
\<close>

subsection \<open>A job and \<open>build_one\<close>\<close>

lemma install_job_agrees:
  "install_output c tmp target out d = (0, d1) \<Longrightarrow> install_output_job c tmp target out d = (0, d1)"
  by (auto simp: install_output_def install_output_job_def split: prod.splits if_splits sum.splits)

lemma record_failure_Inr: "\<exists>d1 s1. record_failure e tmp d f s = Inr (d1, s1)"
  by (simp add: record_failure_def Let_def set_failed_def update_stamp_any)

lemma fail_job_record: "record_failure (bc_env c) (jo_tmp jo) d f s = Inr (d1, s1) \<Longrightarrow> fail_job c jo f rv d s = (Rv rv, d1, s1)"
  by (simp add: fail_job_def)

lemma new_file_state_Inr: "\<exists>f1. new_file_state e d f0 = Inr f1"
  by (cases "new_file_state e d f0") (auto simp: new_file_state_def Let_def update_stamp_any split: if_splits)

lemma remove_trace_absent: "d p = None \<Longrightarrow> remove_trace tr d p = None"
  by (auto simp: remove_trace_def unlink_best_effort_def split: option.splits)

lemma install_job_fails:
  assumes "fst (install_output c tmp target out d) \<noteq> 0"
  shows "install_output_job c tmp target out d = (209, snd (copy_stdout c tmp out d))"
    "fst (install_output c tmp target out d) = 209"
    "fst (copy_stdout c tmp out d) \<noteq> 0 \<Longrightarrow> snd (install_output c tmp target out d) = unlink_best_effort target d"
  using assms
  by (auto simp: install_output_def install_output_job_def copy_stdout_def split: prod.splits if_splits sum.splits)

text \<open>C22. The two implementations of the end of a build agree, but for one case. For a job that ran locally, the
  completion callback of the scheduler gives the same outcome, files and database as the end of \<open>build_one\<close>, for
  every exit code and output of the script, as long as the output can be put in place (or the script has failed).
  When it cannot, the callback ends with 209 and leaves the target and all files but the temporary one as they were,
  whereas \<open>build_one\<close>, which ends with 209 or the 218 of strict mode, has removed the target if standard output could not be
  copied to the temporary file.\<close>

theorem job_agrees_with_build_one:
  assumes "jo_remote jo = None" "e_strict (bc_env c) \<or> jo_trace jo = None" "refresh (bc_env c) s (jo_sf jo) = Inr g"
    and "target = abs_target (bc_env c) (jo_sf jo)"
    and "before = check_outputs rv (jo_before jo) (map_option fst (d target)) (file_exists d (jo_tmp jo)) (length out)"
  shows "if before \<noteq> 0 \<or> fst (install_output c (jo_tmp jo) target out d) = 0
     then finish_build c (jo_sf jo) (jo_tmp jo) (jo_trace jo) (jo_before jo) rv out d s = Inr (fst (complete_job cc c jo rv out d s ca))
     else \<exists>d1 s1 rv2 d2 s2. fst (complete_job cc c jo rv out d s ca) = (Rv 209, d1, s1) \<and> (\<forall>p. p \<noteq> jo_tmp jo \<longrightarrow> d1 p = d p) \<and>
            finish_build c (jo_sf jo) (jo_tmp jo) (jo_trace jo) (jo_before jo) rv out d s = Inr (Rv rv2, d2, s2) \<and> rv2 \<in> {209, 218} \<and>
            (fst (copy_stdout c (jo_tmp jo) out d) \<noteq> 0 \<and> no_dir d target \<longrightarrow> d2 target = None)"
proof -
  let ?e = "bc_env c" and ?sf = "jo_sf jo" and ?tmp = "jo_tmp jo" and ?tr = "jo_trace jo"
  show ?thesis
  proof (cases "before = 0")
    case False
    obtain d1 s1 where r: "record_failure ?e ?tmp d ?sf s = Inr (d1, s1)" using record_failure_Inr by blast
    show ?thesis using False assms(4,5) by (simp add: finish_build_def complete_job_def Let_def r fail_job_record [OF r])
  next
    case True
    note b = True [unfolded assms(5)]
    show ?thesis
    proof (cases "fst (install_output c ?tmp target out d) = 0")
      case True
      then obtain d1 where i: "install_output c ?tmp target out d = (0, d1)" by (cases "install_output c ?tmp target out d") auto
      obtain f1 where f1: "new_file_state ?e d1 g = Inr f1" using new_file_state_Inr by blast
      let ?s2 = "zap_deps2 f1 s" and ?d3 = "remove_trace ?tr d1"
      have d3: "(if e_strict ?e then ?d3 else d1) = ?d3" using assms(2) by (auto simp: remove_trace_def)
      obtain d4 s4 where r: "record_failure ?e ?tmp ?d3 f1 ?s2 = Inr (d4, s4)" using record_failure_Inr by blast
      have rem: "apply_remote c jo f1 d1 s = (0, s)" "remove_remote jo d1 = d1"
        using assms(1) by (simp_all add: apply_remote_def remove_remote_def)
      show ?thesis
        using b i install_job_agrees [OF i] assms(3) f1 r rem d3 unfolding assms(4)
        by (simp add: finish_build_def complete_job_def Let_def fail_job_record [OF r])
    next
      case False
      note f = install_job_fails [OF False]
      let ?d0 = "snd (copy_stdout c ?tmp out d)"
      obtain d1 s1 where r1: "record_failure ?e ?tmp ?d0 ?sf s = Inr (d1, s1)" using record_failure_Inr by blast
      obtain i1 where i: "install_output c ?tmp target out d = (209, i1)" using f(2) by (cases "install_output c ?tmp target out d") simp
      obtain f1 where f1: "new_file_state ?e i1 ?sf = Inr f1" using new_file_state_Inr by blast
      let ?d2 = "if e_strict ?e then remove_trace ?tr i1 else i1" and ?s2 = "zap_deps2 f1 s"
      let ?rv = "strict_rv ?e ?tr i1 f1 ?s2 209"
      obtain d2 s2 where r2: "record_failure ?e ?tmp ?d2 f1 ?s2 = Inr (d2, s2)" using record_failure_Inr by blast
      have rv: "?rv \<in> {209, 218}" by (simp add: strict_rv_def)
      have job: "fst (complete_job cc c jo rv out d s ca) = (Rv 209, d1, s1)"
        using b f(1) unfolding assms(4) by (simp add: complete_job_def Let_def fail_job_record [OF r1])
      have one: "finish_build c ?sf ?tmp ?tr (jo_before jo) rv out d s = Inr (Rv ?rv, d2, s2)"
        using b i f1 r2 rv unfolding assms(4) by (auto simp: finish_build_def Let_def)
      have keep: "d1 p = d p" if "p \<noteq> ?tmp" for p
        using r1 that by (auto simp: record_failure_def Let_def unlink_best_effort_def copy_stdout_def rbind_Inr_iff split: if_splits option.splits)
      have gone: "d2 target = None" if "fst (copy_stdout c ?tmp out d) \<noteq> 0" "no_dir d target"
      proof -
        have "?d2 target = None"
          using f(3) [OF that(1)] that(2) i by (auto simp: unlink_best_effort_def no_dir_def remove_trace_absent split: option.splits)
        then show ?thesis
          using r2 by (auto simp: record_failure_def Let_def unlink_best_effort_def rbind_Inr_iff split: if_splits option.splits)
      qed
      show ?thesis using False True job one rv keep gone by auto
    qed
  qed
qed

definition demo_job :: pending_build where
  "demo_job = \<lparr>jo_spec = make_job demo_env demo_file ''a'' \<lparr>dodir = ''/w'', dofile = ''a.do'', basedir = [], basename = ''a'', ext = []\<rparr> ''a.redo.tmp'' None,
     jo_argv = None, jo_sf = demo_file, jo_dodir = ''/w'', jo_tmp = ''/w/a.redo.tmp'', jo_trace = None, jo_before = None,
     jo_key = True, jo_policy = None, jo_remote = None, jo_pool = None, jo_lock = None\<rparr>"

definition demo_cc :: "unit cache_ctx" where
  "demo_cc = \<lparr>cc_sha = demo_sha, cc_tag = ''1'', cc_os = ''linux'', cc_arch = ''x86_64'', cc_rd = (\<lambda>_ _. None), cc_now = 1,
     cc_order = (\<lambda>x. x), cc_read_link = Map.empty, cc_net = (\<lambda>_ n. (Inl (IoError ''net''), n))\<rparr>"

definition demo_ca :: "unit caches" where
  "demo_ca = \<lparr>ca_objs = Map.empty, ca_net = ()\<rparr>"

definition clean_disk :: disk where
  "clean_disk = demo_disk(''/w/a.redo.tmp'' := None)"

theorem job_agrees_with_build_one_witness:
  "finish_build demo_ctx demo_file ''/w/a.redo.tmp'' None None 0 ''out'' clean_disk demo_st =
     Inr (fst (complete_job demo_cc demo_ctx demo_job 0 ''out'' clean_disk demo_st demo_ca)) \<and>
   (\<exists>d s. fst (complete_job demo_cc (demo_ctx\<lparr>bc_creatable := \<lambda>_ _. False\<rparr>) demo_job 0 ''out'' clean_disk demo_st demo_ca) = (Rv 209, d, s))"
proof -
  have j: "jo_remote demo_job = None" "jo_trace demo_job = None" "jo_sf demo_job = demo_file" "jo_tmp demo_job = ''/w/a.redo.tmp''"
    "jo_before demo_job = None"
    by (simp_all add: demo_job_def)
  let ?c = "demo_ctx\<lparr>bc_creatable := \<lambda>_ _. False\<rparr>"
  have r: "refresh (bc_env demo_ctx) demo_st demo_file = Inr demo_file" "bc_env ?c = bc_env demo_ctx" by code_simp+
  have t: "abs_target (bc_env demo_ctx) demo_file = ''/w/a''" by code_simp
  have i: "fst (install_output demo_ctx ''/w/a.redo.tmp'' ''/w/a'' ''out'' clean_disk) = 0"
    "fst (install_output ?c ''/w/a.redo.tmp'' ''/w/a'' ''out'' clean_disk) \<noteq> 0"
    "check_outputs 0 None (map_option fst (clean_disk ''/w/a'')) (file_exists clean_disk ''/w/a.redo.tmp'') (length ''out'') = 0"
    by code_simp+
  note ag = job_agrees_with_build_one [of demo_job, OF j(1) disjI2 [OF j(2)], unfolded j, where s = demo_st and g = demo_file and rv = 0
      and out = "''out''" and d = clean_disk and cc = demo_cc and ca = demo_ca, OF _ refl refl]
  show ?thesis using ag [of demo_ctx] ag [of ?c] r i t by auto
qed

subsection \<open>The local cache\<close>

lemma mode_file_text [simp]: "snd (mode_file c b mode) = b" "m_is_dir (fst (mode_file c b mode)) = m_is_dir (bc_mkmeta c b)"
  by (simp_all add: mode_file_def Let_def)

lemma add_deps_id: "f_id f = f_id g \<Longrightarrow> add_deps x e f ds s = add_deps x e g ds s"
proof (induction ds arbitrary: s)
  case (Cons d ds)
  then show ?case by (cases d) (simp add: add_deps_def add_dep_def rbind_def split: sum.splits)
qed (simp add: add_deps_def)

lemma restore_row_Inr:
  assumes "restore_row x e d sf deps s = Inr s'" "\<not> si_insane s" "refresh e s sf = Inr g" "f_name g \<noteq> ALWAYS"
  obtains s1 f where "add_deps x e sf (map (\<lambda>(m, dep). (m, dep_arg e dep)) deps) s = Inr s1"
    "s' = st_commit (save f (zap_deps2 f s1))" "f_id f = f_id sf" "f_name f = f_name g"
    "f_is_generated f" "\<not> f_is_override f" "f_failed_runid f = None" "f_csum f = None" "f_stamp f = Some (read_stamp (view d) e g)"
proof -
  let ?f0 = "g\<lparr>f_is_generated := True, f_is_override := False, f_failed_runid := None, f_csum := None\<rparr>"
  have rs: "read_stamp (view d) e ?f0 = read_stamp (view d) e g" by (simp add: read_stamp_def)
  obtain f s1 where f: "update_stamp (view d) e False ?f0 = Inr f"
    and s1: "add_deps x e f (map (\<lambda>(m, dep). (m, dep_arg e dep)) deps) s = Inr s1" "s' = st_commit (save f (zap_deps2 f s1))"
    using assms(1,3) by (auto simp: restore_row_def rbind_Inr_iff)
  have ff: "f_id f = f_id sf" "f_name f = f_name g" "f_is_generated f" "\<not> f_is_override f" "f_failed_runid f = None" "f_csum f = None"
    "f_stamp f = Some (read_stamp (view d) e g)"
    using f refresh_fields [OF assms(3)] by (auto simp: update_stamp_any rs set_changed_def split: if_splits)
  show thesis using that s1 add_deps_id [OF ff(1)] ff by simp
qed

text \<open>Recording dependencies does not change the rows of known files.\<close>

lemma write_dep_refresh: "refresh e (st_write (sql_insert_or_replace_dep t m src del) s) f = refresh e s f"
  by (simp add: refresh_def st_write_def Let_def sql_insert_or_replace_dep_def sql_file_by_id_def)

lemma by_name_find_id:
  assumes "by_name x e name b s = Inr (f, s')" "sql_file_by_id (si_db s) i = Some r"
  shows "sql_file_by_id (si_db s') i = Some r"
proof -
  have "List.find P xs = Some y \<Longrightarrow> List.find P (xs @ ys) = Some y" for P :: "file_row \<Rightarrow> bool" and xs ys y
    by (induction xs) auto
  then have "sql_file_by_id (sql_insert_or_ignore_file n db) i = Some r" if "sql_file_by_id db i = Some r" for n db
    using that by (simp add: sql_file_by_id_def sql_insert_or_ignore_file_def)
  with assms show ?thesis by (elim by_name_Inr) (auto simp: st_write_def Let_def)
qed

lemma add_dep_refresh: "add_dep x e f m d s = Inr s' \<Longrightarrow> refresh e s h = Inr g \<Longrightarrow> refresh e s' h = Inr g"
proof -
  assume a: "add_dep x e f m d s = Inr s'" "refresh e s h = Inr g"
  then obtain src s1 where s1: "by_name x e d True s = Inr (src, s1)"
    "s' = st_write (sql_insert_or_replace_dep (f_id f) [m] (f_id src) 0) s1"
    by (auto simp: add_dep_def rbind_Inr_iff)
  obtain r where "sql_file_by_id (si_db s) (f_id h) = Some r" "g = from_row e r"
    using a(2) by (auto simp: refresh_def split: option.splits)
  with by_name_find_id [OF s1(1)] show "refresh e s' h = Inr g" unfolding s1(2) write_dep_refresh by (simp add: refresh_def)
qed

lemma add_deps_refresh:
  assumes "add_deps x e f ds s = Inr s'" "refresh e s h = Inr g"
  shows "\<exists>k. refresh e s' h = Inr k \<and> f_name k = f_name g"
proof -
  have "refresh e s' h = Inr g"
    using foldM_invariant [OF assms(1) [unfolded add_deps_def], of "\<lambda>s. refresh e s h = Inr g"] assms(2) add_dep_refresh
    by (auto split: prod.splits)
  then show ?thesis by simp
qed

text \<open>C15. A cache hit gives the stored output. When an output has been stored under an action key and not been
  evicted, a build whose action has the same key runs no script: the target gets exactly the stored
  bytes, no other file changes, and the row is that of a generated file that has not failed, with
  the stamp of the restored file; its dependencies are those found by the rule search together with
  those of the key.\<close>

theorem cache_hit_restores_stored:
  assumes "is_key hex" "o1 (ac_blob_path (bc_env c) hex) = None \<or> o1 (ac_meta_path (bc_env c) hex) = None"
    "o1 (tmp_path_near pid (ac_blob_path (bc_env c) hex) ''blob.tmp'') = None"
    "o1 (tmp_path_near pid (ac_meta_path (bc_env c) hex) ''meta.tmp'') = None"
    "is_key (sha b)" "length b < 2 ^ 64" "mode < 2 ^ 32"
    and stored: "store sha (bc_env c) maxb rd pid now \<lparr>ak_hex = hex\<rparr> (Some b) mode o1 = Inr (n, o2)"
      "lookup (bc_env c) \<lparr>ak_hex = hex\<rparr> o2 \<noteq> None"
    and files: "tmp \<noteq> target" "target = abs_target (bc_env c) sf" "no_dir d target" "\<not> m_is_dir (bc_mkmeta c b)"
    and row: "\<not> si_insane s" "refresh (bc_env c) s sf = Inr g" "f_name g = f_name sf" "f_name sf \<noteq> ALWAYS"
    and deps: "entries = map (\<lambda>(m, dep). (m, dep_arg (bc_env c) dep)) (sort_deps deps)"
      "add_deps (bc_ext c) (bc_env c) sf entries s = Inr s1"
  shows "\<exists>d' s' f. try_local c tmp target sf deps \<lparr>ak_hex = hex\<rparr> o2 d s = Inr (True, d', Some s') \<and>
     text_of d' target = Some b \<and> (\<forall>p. p \<noteq> target \<and> p \<noteq> tmp \<longrightarrow> d' p = d p) \<and> d' tmp = None \<and>
     is_flushed s' \<and> refresh (bc_env c) s' sf = Inr f \<and> f_is_generated f \<and> \<not> f_is_override f \<and> f_failed_runid f = None \<and>
     f_stamp f = Some (read_stamp (view d') (bc_env c) sf) \<and>
     fst ` all_deps (si_db s') (f_id sf) =
       fst ` live_deps (si_db s) (f_id sf) \<union> fst ` dep_entries (bc_ext c) (bc_env c) s1 entries"
proof -
  let ?e = "bc_env c" and ?x = "mode_file c b mode"
  let ?d' = "(d(tmp := None))(target \<mapsto> ?x)"
  obtain m where m: "lookup ?e \<lparr>ak_hex = hex\<rparr> o2 = Some (ac_blob_path ?e hex, m)"
    "materialize o2 (ac_blob_path ?e hex) m = Inr (length b, b, mode)"
    using store_lookup_spec [where sha = sha and c = b and maxb = maxb and rd = rd and now = now, OF assms(1-7)] stored by auto
  have ren: "durable_rename tmp target (d(tmp \<mapsto> ?x)) = Inr ?d'"
    using files(1,3,4) by (cases "d target"; cases ?x) (auto simp: durable_rename_def no_dir_def mode_file_def Let_def)
  obtain f where f: "update_stamp (view ?d') ?e False (g\<lparr>f_is_generated := True, f_is_override := False, f_failed_runid := None, f_csum := None\<rparr>) = Inr f"
    by (simp add: update_stamp_any)
  have id: "f_id f = f_id sf"
    using f refresh_fields [OF row(2)] by (auto simp: update_stamp_any set_changed_def split: if_splits)
  have rr: "restore_row (bc_ext c) ?e ?d' sf (sort_deps deps) s = Inr (st_commit (save f (zap_deps2 f s1)))"
    using row(2) f deps add_deps_id [OF id] by (simp add: restore_row_def)
  let ?s' = "st_commit (save f (zap_deps2 f s1))"
  have hit: "try_local c tmp target sf deps \<lparr>ak_hex = hex\<rparr> o2 d s = Inr (True, ?d', Some ?s')"
    using m ren rr by (simp add: try_local_def restore_def)
  note dep = add_deps_Inr [OF deps(2) row(1)]
  have ff: "f_name f = f_name g" "f_is_generated f" "\<not> f_is_override f" "f_failed_runid f = None"
    "f_stamp f = Some (read_stamp (view ?d') ?e sf)"
    using f row(3) by (auto simp: update_stamp_any set_changed_def read_stamp_def split: if_splits)
  have i1: "\<not> si_insane s1" using dep by blast
  have ins: "\<not> si_insane (zap_deps2 f s1)" "\<not> si_insane (save f (zap_deps2 f s1))" using i1 by (simp_all add: zap_deps2_def save_def)
  have "\<exists>h. refresh ?e s1 sf = Inr h \<and> f_name h = f_name g" using add_deps_refresh [OF deps(2) row(2)] .
  then have "refresh ?e ?s' sf = Inr f"
    using save_then_refresh [OF ins(1), of ?e sf _ f] id ff(1) row(3,4) by auto
  moreover have "fst ` all_deps (si_db ?s') (f_id sf) =
      fst ` live_deps (si_db s) (f_id sf) \<union> fst ` dep_entries (bc_ext c) ?e s1 entries"
    using zap_commit_deps(1) [OF i1 id id] dep by simp
  moreover have "text_of ?d' target = Some b" "\<forall>p. p \<noteq> target \<and> p \<noteq> tmp \<longrightarrow> ?d' p = d p" "?d' tmp = None"
    using files(1) by (simp_all add: text_of_def)
  ultimately show ?thesis using hit ff commit_flushed [OF ins(2)] by blast
qed

theorem cache_hit_restores_stored_witness:
  "\<exists>o2 d' s' f. store demo_sha demo_env 0 demo_rd 1 7 \<lparr>ak_hex = demo_sha ''hello''\<rparr> (Some ''out'') 493 Map.empty = Inr (3, o2) \<and>
     try_local demo_ctx ''/w/a.redo.tmp'' ''/w/a'' demo_file [(CHR ''m'', from_row demo_env (new_file_row 3 ''b''))]
       \<lparr>ak_hex = demo_sha ''hello''\<rparr> o2 demo_disk demo_st = Inr (True, d', Some s') \<and>
     text_of d' ''/w/a'' = Some ''out'' \<and> refresh demo_env s' demo_file = Inr f \<and> f_is_generated f"
proof -
  let ?deps = "[(CHR ''m'', from_row demo_env (new_file_row 3 ''b''))]"
  let ?k = "\<lparr>ak_hex = demo_sha ''hello''\<rparr>"
  let ?en = "map (\<lambda>(m, dep). (m, dep_arg (bc_env demo_ctx) dep)) (sort_deps ?deps)"
  have c: "bc_env demo_ctx = demo_env" "\<not> m_is_dir (bc_mkmeta demo_ctx ''out'')" "no_dir demo_disk ''/w/a''"
    by (simp_all add: demo_ctx_def file_meta_def no_dir_def demo_disk_def)
  have l: "length ''out'' < (2::nat) ^ 64" "(493::nat) < 2 ^ 32" by simp_all
  obtain o2 where o2: "store demo_sha demo_env 0 demo_rd 1 7 ?k (Some ''out'') 493 Map.empty = Inr (3, o2)" "lookup demo_env ?k o2 \<noteq> None"
    using store_lookup_spec [where sha = demo_sha and c = "''out''" and maxb = 0 and rd = demo_rd and now = 7 and ?o1.0 = Map.empty
        and e = demo_env and pid = 1 and hex = "demo_sha ''hello''", OF demo_sha_key _ _ _ demo_sha_key l] by auto
  have "\<not> isl (add_deps (bc_ext demo_ctx) (bc_env demo_ctx) demo_file ?en demo_st)" by code_simp
  then obtain s1 where s1: "add_deps (bc_ext demo_ctx) (bc_env demo_ctx) demo_file ?en demo_st = Inr s1" by (metis isl_def sum.exhaust)
  have t: "''/w/a'' = abs_target (bc_env demo_ctx) demo_file" "refresh (bc_env demo_ctx) demo_st demo_file = Inr demo_file"
    "f_name demo_file \<noteq> ALWAYS" "''/w/a.redo.tmp'' \<noteq> ''/w/a''"
    by code_simp+
  note h = cache_hit_restores_stored [where sha = demo_sha and b = "''out''" and c = demo_ctx and maxb = 0 and rd = demo_rd and pid = 1
      and hex = "demo_sha ''hello''" and now = 7 and ?o1.0 = Map.empty, OF demo_sha_key _ _ _ demo_sha_key l _ _ t(4,1) c(3,2) demo_st_wf(3) t(2) refl t(3) refl s1,
      unfolded c(1), OF _ _ _ o2]
  show ?thesis using h o2(1) by fastforce
qed

subsection \<open>The remote cache\<close>

text \<open>C23. Builds are shared through the remote cache. After one machine has pushed an output under a new action
  key, another machine that computes the same key fetches from the server exactly the bytes of the output
  and its permission bits: the mapping, the manifest and the blob are all found and pass verification.\<close>

theorem remote_artifact_roundtrip:
  assumes "cc_sha cc = sha" "cc_net cc = server_net sha exec scfg u" "client_ok cfg scfg" "is_key rkey"
    and "man = manifest_json (sha content) (length content) (mode mod 512)"
    and "is_key (sha content)" "\<And>c. sha c = sha content \<Longrightarrow> c = content" "length content < 2 ^ 64"
    and "is_key (sha man)" "\<And>c. sha c = sha man \<Longrightarrow> c = man" "length man < 2 ^ 64"
    and "cas_ok sha (cs_root scfg) fs" "action_at (cs_root scfg) fs rkey = None"
  shows "remote_fetch cc cfg rkey (push_artifact cc cfg rkey content (sha content) (length content) mode fs) =
     (Some (Inr (content, mode mod 512)), push_artifact cc cfg rkey content (sha content) (length content) mode fs)"
proof -
  let ?net = "server_net sha exec scfg u" and ?root = "cs_root scfg"
  obtain fs1 where p1: "put_blob_bytes ?net cfg (sha content) content fs = (Inr (), fs1)" "blob_at ?root fs1 (sha content) = Some content"
      "cas_ok sha ?root fs1" "\<forall>k. is_key k \<longrightarrow> action_at ?root fs1 k = action_at ?root fs k"
    by (rule put_blob_kept [where sha = sha and b = content, OF assms(3,6,7,8,12)])
  obtain fs2 where p2: "put_blob_bytes ?net cfg (sha man) man fs1 = (Inr (), fs2)" "blob_at ?root fs2 (sha man) = Some man"
      "\<forall>k. is_key k \<longrightarrow> action_at ?root fs2 k = action_at ?root fs1 k"
      "\<forall>k c. is_key k \<longrightarrow> blob_at ?root fs1 k = Some c \<longrightarrow> blob_at ?root fs2 k = Some c"
    by (rule put_blob_kept [where sha = sha and b = man, OF assms(3,9,10,11) p1(3)])
  have "action_at ?root fs2 rkey = None" using p1(4) p2(3) assms(4,13) by simp
  then obtain fs3 where p3: "put_action_mapping ?net cfg rkey (sha man) fs2 = (Inr (), fs3)" "action_at ?root fs3 rkey = Some (sha man @ nl)"
      "\<forall>k. is_key k \<longrightarrow> blob_at ?root fs3 k = blob_at ?root fs2 k"
    by (rule put_action_new [OF assms(3,4,9)])
  have push: "push_artifact cc cfg rkey content (sha content) (length content) mode fs = fs3"
    using p1(1) p2(1) p3(1) assms(1,2,5) by (simp add: push_artifact_def Let_def)
  have b: "blob_at ?root fs3 (sha content) = Some content" "blob_at ?root fs3 (sha man) = Some man"
    using p1(2) p2(2,4) p3(3) assms(6,9) by simp_all
  have m: "mode mod 512 < 2 ^ 32" by (rule less_trans [of _ 512]) simp_all
  have um: "unat (word_of_nat (mode mod 512) :: 32 word) mod 512 = mode mod 512"
    using m by (simp add: unsigned_of_nat take_bit_nat_eq_self)
  show ?thesis
    unfolding push remote_fetch_def assms(1,2)
    using get_action_served [OF assms(3,4,9) p3(2)] get_blob_served [where sha = sha and b = man, OF assms(3,9,11) b(2)]
      download_served [where sha = sha and b = content, OF assms(3,6,8) b(1)] manifest_roundtrip [OF assms(6,8) m] um assms(5)
    by simp
qed

definition share_sha :: "string \<Rightarrow> string" where
  "share_sha b = replicate 64
     (if b = ''hello'' then CHR ''1''
      else if b = manifest_json (replicate 64 (CHR ''1'')) 5 420 then CHR ''2'' else CHR ''0'')"

definition share_cc :: "files cache_ctx" where
  "share_cc = \<lparr>cc_sha = share_sha, cc_tag = ''1'', cc_os = ''linux'', cc_arch = ''x86_64'', cc_rd = (\<lambda>_ _. None), cc_now = 1,
     cc_order = (\<lambda>x. x), cc_read_link = Map.empty,
     cc_net = server_net share_sha (\<lambda>_ _ _ _ _. Inl NoRow) (demo_cfg\<lparr>cs_require_bearer := Some ''token''\<rparr>) ''1.0''\<rparr>"

theorem remote_artifact_roundtrip_witness:
  "fst (remote_fetch share_cc demo_client (share_sha ''key'')
      (push_artifact share_cc demo_client (share_sha ''key'') ''hello'' (share_sha ''hello'') 5 33188 Map.empty)) = Some (Inr (''hello'', 420))"
proof -
  let ?man = "manifest_json (share_sha ''hello'') 5 420"
  have k: "is_key (share_sha b)" for b
    by (simp add: is_key_def share_sha_def is_hex_def list_all_iff is_ascii_hexdigit_def is_digit_def)
  have h: "share_sha ''hello'' = replicate 64 (CHR ''1'')" by (simp add: share_sha_def)
  have ne: "?man \<noteq> ''hello''" by (simp add: manifest_json_def)
  have i1: "c = ''hello''" if "share_sha c = share_sha ''hello''" for c using that by (auto simp: share_sha_def split: if_splits)
  have i2: "c = ?man" if "share_sha c = share_sha ?man" for c
    using that ne by (auto simp: share_sha_def h split: if_splits)
  have l: "length ?man < 2 ^ 64" unfolding h by code_simp
  have z: "cas_ok share_sha (cs_root (demo_cfg\<lparr>cs_require_bearer := Some ''token''\<rparr>)) Map.empty"
    by (simp add: cas_ok_def blob_at_def)
  have len: "length ''hello'' = 5" and md: "(33188::nat) mod 512 = 420" by simp_all
  have n: "cc_sha share_cc = share_sha"
    "cc_net share_cc = server_net share_sha (\<lambda>_ _ _ _ _. Inl NoRow) (demo_cfg\<lparr>cs_require_bearer := Some ''token''\<rparr>) ''1.0''"
    by (simp_all add: share_cc_def)
  have a: "action_at (cs_root (demo_cfg\<lparr>cs_require_bearer := Some ''token''\<rparr>)) Map.empty (share_sha ''key'') = None"
    by (simp add: action_at_def)
  show ?thesis
    using remote_artifact_roundtrip [where sha = share_sha and content = "''hello''" and mode = 33188 and rkey = "share_sha ''key''",
        unfolded len md, OF n demo_client_ok k refl k i1 _ k i2 l z a]
    by simp
qed

end
