(* ===== verification/Scheduler.thy ===== *)
theory Scheduler
  imports Cached_Build Deps_Sound
begin

text \<open>
  The scheduler of \<open>redo-ifchange\<close> (\<open>run_ifchange\<close>, \<open>redo_core/src/builder.rs\<close>): a first pass that starts
  a job for every target whose lock is free, and a second pass that waits for the jobs, for targets
  locked by other processes, and for slots of pools.

  The bodies of the two loops are functions; \<open>sched_step\<close> composes them with the completion of jobs,
  in any order, and with what other processes do. Jobs complete where the code waits for them:
  before a target of the first pass (\<open>ensure_token_or_cheat\<close>) and at the start of a round of the
  second pass (\<open>wait_all\<close>, after which no job runs). A script, and a \<open>redo-unlocked\<close> process, takes
  effect when it is waited for. Tokens are those of \<open>Jobserver\<close>. A body that would wait for
  another process has no result (\<open>None\<close>) until that process moves.
\<close>

subsection \<open>State\<close>

text \<open>What happened to a target: found clean, ended without a job (\<open>True\<close>: with an error), ended by a job,
  checked by \<open>redo-unlocked\<close>, or failed in another process.\<close>

datatype settled = FoundClean | NoJob bool | JobDone int | OobDone int | FailedElsewhere

fun settled_ok :: "settled \<Rightarrow> bool" where
  "settled_ok FoundClean = True"
| "settled_ok (NoJob bad) = (\<not> bad)"
| "settled_ok (JobDone rv) = (rv = 0)"
| "settled_ok (OobDone rv) = (rv = 0)"
| "settled_ok FailedElsewhere = False"

record locked_target =
  lt_fid :: int
  lt_arg :: string
  lt_name :: string

datatype running_job = BuildJob string pending_build | UnlockedJob string "string list" lock

fun job_target :: "running_job \<Rightarrow> string" where
  "job_target (BuildJob t _) = t"
| "job_target (UnlockedJob t _ _) = t"

text \<open>\<open>sc_flag\<close> is the exit code shared with the callbacks (\<open>rc_flag\<close>); \<open>sc_done\<close> is the history of the run.\<close>

record 'n sched =
  sc_world :: world
  sc_caches :: "'n caches"
  sc_flag :: int
  sc_running :: "running_job list"
  sc_locked :: "locked_target list"
  sc_pool :: "locked_target list"
  sc_seen :: "string list"
  sc_done :: "(string \<times> settled) list"

text \<open>Where the scheduler is; \<open>Dead\<close> is the test crash of a build.\<close>

datatype phase = First "string list" | Second | Wait locked_target | Stop int | Failed error | Dead

text \<open>What the scheduler takes from outside: the caches and scripts of \<open>Cached_Build\<close>, the targets found
  clean by the planner, and the effect of a \<open>redo-unlocked\<close> process.\<close>

record 'n sched_ctx =
  sx_cache :: "'n cache_ctx"
  sx_build :: build_ctx
  sx_preflight :: "int set"
  sx_unlocked :: "string list \<Rightarrow> disk \<times> database \<Rightarrow> int \<times> disk \<times> database"

definition settle :: "string \<Rightarrow> settled \<Rightarrow> 'n sched \<Rightarrow> 'n sched" where
  "settle t x sc = sc\<lparr>sc_done := sc_done sc @ [(t, x)]\<rparr>"

definition set_flag :: "int \<Rightarrow> 'n sched \<Rightarrow> 'n sched" where
  "set_flag n sc = sc\<lparr>sc_flag := n\<rparr>"

definition sc_commit :: "'n sched \<Rightarrow> 'n sched" where
  "sc_commit sc = sc\<lparr>sc_world := (sc_world sc)\<lparr>w_st := st_commit (w_st (sc_world sc))\<rparr>\<rparr>"

definition drop_lock :: "build_ctx \<Rightarrow> lock \<Rightarrow> world \<Rightarrow> world" where
  "drop_lock c l w = (case Lock_drop (bc_pid c) l (w_locks w) (w_st w) of (k, s) \<Rightarrow> w\<lparr>w_st := s, w_locks := k\<rparr>)"

subsection \<open>Before the passes\<close>

text \<open>The dependencies of the target whose script calls \<open>redo-ifchange\<close>.\<close>

definition record_requested :: "build_ctx \<Rightarrow> string list \<Rightarrow> world \<Rightarrow> world res" where
  "record_requested c targets w =
     (let e = bc_env c in
      if e_target e = [] \<or> e_unlocked e then Inr w
      else rbind (by_name (bc_ext c) e (path_join (path_join (e_startdir e) (e_pwd e)) (e_target e)) True (w_st w)) (\<lambda>(f, s1).
           rbind (add_deps (bc_ext c) e f (map (Pair (CHR ''m'')) targets) s1) (\<lambda>s2.
             Inr (w\<lparr>w_st := st_commit (save f s2)\<rparr>))))"

definition requested :: "bool \<Rightarrow> env \<Rightarrow> 64 word \<Rightarrow> 64 word \<Rightarrow> string list \<Rightarrow> string list" where
  "requested toplevel e now_nanos pid targets =
     (let ts = (if toplevel \<and> targets = [] then [''all''] else targets)
      in if e_shuffle e \<and> length ts > 1 then shuffle_in_place now_nanos pid ts else ts)"

text \<open>Is a file out of date? The fuel is enough for every database (\<open>check_file_total\<close>).\<close>

definition check_file ::
  "int set \<Rightarrow> build_ctx \<Rightarrow> redo_file \<Rightarrow> world \<Rightarrow> (dirty_result \<times> redo_file \<times> world) res option" where
  "check_file pre c f w =
     (case isdirty_default pre (view (w_disk w)) (bc_env c) (Suc (length (db_files (si_db (w_st w))))) f
             (unwrap_or (e_runid (bc_env c)) 0) (w_st w, []) of
        None \<Rightarrow> None
      | Some (Inl err) \<Rightarrow> Some (Inl err)
      | Some (Inr (d, f1, s1, _)) \<Rightarrow> Some (Inr (d, f1, w\<lparr>w_st := s1\<rparr>)))"

text \<open>Called by \<open>redo-unlocked\<close>, which holds the lock: no scheduling.\<close>

fun unlocked_loop :: "int set \<Rightarrow> build_ctx \<Rightarrow> string list \<Rightarrow> int \<Rightarrow> world \<Rightarrow> (outcome \<times> world) res option" where
  "unlocked_loop pre c [] rc w = Some (Inr (Rv rc, w\<lparr>w_st := st_commit (w_st w)\<rparr>))"
| "unlocked_loop pre c (t # ts) rc w =
     (if t = [] then Some (Inr (Rv 204, w))
      else case by_name (bc_ext c) (bc_env c) t True (w_st w) of
             Inl err \<Rightarrow> Some (Inl err)
           | Inr (f, s1) \<Rightarrow>
               (case check_file pre c f (w\<lparr>w_st := s1\<rparr>) of
                  None \<Rightarrow> None
                | Some (Inl err) \<Rightarrow> Some (Inl err)
                | Some (Inr (Clean, _, w1)) \<Rightarrow> unlocked_loop pre c ts rc w1
                | Some (Inr (_, _, w1)) \<Rightarrow>
                    (case build_one c t w1 of
                       None \<Rightarrow> None
                     | Some (Inl err) \<Rightarrow> Some (Inl err)
                     | Some (Inr (Crashed, w2)) \<Rightarrow> Some (Inr (Crashed, w2))
                     | Some (Inr (Rv rv, w2)) \<Rightarrow>
                         if rv = 0 then unlocked_loop pre c ts rc w2
                         else if e_keep_going (bc_env c) then unlocked_loop pre c ts 1 w2
                         else Some (Inr (Rv 1, w2\<lparr>w_st := st_commit (w_st w2)\<rparr>)))))"

subsection \<open>Starting what a target needs\<close>

text \<open>Targets with checksums have to be built before it is known whether this one is out of date: that is
  left to a \<open>redo-unlocked\<close> process.\<close>

definition out_of_band :: "env \<Rightarrow> redo_file \<Rightarrow> redo_file list \<Rightarrow> bool" where
  "out_of_band e f list \<longleftrightarrow> \<not> e_no_oob e \<and> \<not> (length list = 1 \<and> f_id (hd list) = f_id f)"

definition oob_args :: "build_ctx \<Rightarrow> string \<Rightarrow> redo_file \<Rightarrow> redo_file list \<Rightarrow> string list" where
  "oob_args c cwd f list =
     (let fix_name = (\<lambda>p. relpath (bc_ext c) (path_join (e_base (bc_env c)) p) cwd)
      in fix_name (f_name f) # map (\<lambda>d. fix_name (f_name d)) (filter (\<lambda>d. f_id d \<noteq> f_id f) list))"

text \<open>A job of \<open>redo-unlocked\<close> starts on a flushed database.\<close>

definition start_redo_unlocked_job :: "string \<Rightarrow> string list \<Rightarrow> lock \<Rightarrow> 'n sched \<Rightarrow> 'n sched" where
  "start_redo_unlocked_job t args l sc = (sc_commit sc)\<lparr>sc_running := sc_running sc @ [UnlockedJob t args l]\<rparr>"

text \<open>The end of a body: where to go on (\<open>ph\<close>) unless the process ends.\<close>

definition launch ::
  "'n sched_ctx \<Rightarrow> phase \<Rightarrow> string \<Rightarrow> redo_file \<Rightarrow> lock \<Rightarrow> 'n sched \<Rightarrow> (phase \<times> 'n sched) option" where
  "launch x ph t f l sc =
     (case schedule_build_one (sx_cache x) (sx_build x) t f (Some l) (sc_world sc) (sc_caches sc) of
        None \<Rightarrow> None
      | Some (Inl err) \<Rightarrow> Some (Failed err, sc)
      | Some (Inr (r, w1, ca1)) \<Rightarrow>
          (let sc1 = sc\<lparr>sc_world := w1, sc_caches := ca1\<rparr> in
           Some (case r of
                   DeferredPool \<Rightarrow> (ph, sc1\<lparr>sc_pool := sc_pool sc @ [\<lparr>lt_fid = f_id f, lt_arg = t, lt_name = f_name f\<rparr>]\<rparr>)
                 | Ended bad \<Rightarrow> (ph, settle t (NoJob bad) (if bad then set_flag 1 sc1 else sc1))
                 | Started jo \<Rightarrow> (ph, sc1\<lparr>sc_running := sc_running sc @ [BuildJob t jo]\<rparr>)
                 | Exited \<Rightarrow> (Dead, sc1))))"

definition dispatch ::
  "'n sched_ctx \<Rightarrow> phase \<Rightarrow> string \<Rightarrow> redo_file \<Rightarrow> lock \<Rightarrow> 'n sched \<Rightarrow> (phase \<times> 'n sched) option" where
  "dispatch x ph t f l sc =
     (let c = sx_build x in
      case check_file (sx_preflight x) c f (sc_world sc) of
        None \<Rightarrow> None
      | Some (Inl err) \<Rightarrow> Some (Failed err, sc)
      | Some (Inr (Clean, _, w1)) \<Rightarrow> Some (ph, settle t FoundClean (sc\<lparr>sc_world := drop_lock c l w1\<rparr>))
      | Some (Inr (Dirty, f1, w1)) \<Rightarrow> launch x ph t f1 l (sc\<lparr>sc_world := w1\<rparr>)
      | Some (Inr (MustBuild list, f1, w1)) \<Rightarrow>
          if \<not> out_of_band (bc_env c) f1 list then launch x ph t f1 l (sc\<lparr>sc_world := w1\<rparr>)
          else case x_current_dir (bc_ext c) of
                 Inl err \<Rightarrow> Some (Failed err, sc)
               | Inr cwd \<Rightarrow> Some (ph, start_redo_unlocked_job t (oob_args c cwd f1 list) l (sc\<lparr>sc_world := w1\<rparr>)))"

subsection \<open>The first pass\<close>

definition keep_out :: "'n sched_ctx \<Rightarrow> 'n sched \<Rightarrow> bool" where
  "keep_out x sc \<longleftrightarrow> sc_flag sc \<noteq> 0 \<and> \<not> e_keep_going (bc_env (sx_build x))"

definition sane :: "'n sched_ctx \<Rightarrow> 'n sched \<Rightarrow> bool \<times> 'n sched" where
  "sane x sc =
     (let w = sc_world sc in
      case check_sane (file_exists (w_disk w)) (bc_env (sx_build x)) (w_st w) of
        (s1, ok) \<Rightarrow> (ok, sc\<lparr>sc_world := w\<lparr>w_st := s1\<rparr>\<rparr>))"

text \<open>A new lock object, tried: the object and the world, or an error.\<close>

definition grab :: "build_ctx \<Rightarrow> int \<Rightarrow> world \<Rightarrow> (bool \<times> lock \<times> world) res" where
  "grab c fid w =
     rbind (Lock_new fid (w_st w)) (\<lambda>(l, s1).
     rbind (Lock_trylock (bc_vars c) (bc_pid c) l (w_locks w) s1) (\<lambda>(got, l1, k1, s2).
       Inr (got, l1, w\<lparr>w_st := s2, w_locks := k1\<rparr>)))"

definition first_target :: "'n sched_ctx \<Rightarrow> string \<Rightarrow> string list \<Rightarrow> 'n sched \<Rightarrow> (phase \<times> 'n sched) option" where
  "first_target x t ts sc =
     (let c = sx_build x; w = sc_world sc in
      case by_name (bc_ext c) (bc_env c) t True (w_st w) of
        Inl err \<Rightarrow> Some (Failed err, sc)
      | Inr (f, s1) \<Rightarrow>
          (case grab c (f_id f) (w\<lparr>w_st := s1\<rparr>) of
             Inl err \<Rightarrow> Some (if err = CyclicDependency then Stop 208 else Failed err, sc)
           | Inr (False, l, w1) \<Rightarrow>
               Some (First ts, sc_commit (sc\<lparr>sc_world := drop_lock c l w1,
                       sc_locked := sc_locked sc @ [\<lparr>lt_fid = f_id f, lt_arg = t, lt_name = f_name f\<rparr>]\<rparr>))
           | Inr (True, l, w1) \<Rightarrow>
               (case refresh (bc_env c) (w_st w1) f of
                  Inl err \<Rightarrow> Some (Failed err, sc)
                | Inr f1 \<Rightarrow>
                    map_option (\<lambda>(ph, sc1). (ph, if ph = First ts then sc_commit sc1 else sc1))
                      (dispatch x (First ts) t f1 l (sc\<lparr>sc_world := w1\<rparr>)))))"

definition first_body :: "'n sched_ctx \<Rightarrow> string \<Rightarrow> string list \<Rightarrow> 'n sched \<Rightarrow> (phase \<times> 'n sched) option" where
  "first_body x t ts sc =
     (if t = [] then Some (Stop 204, sc)
      else if t \<in> set (sc_seen sc) then Some (First ts, sc)
      else let sc1 = sc\<lparr>sc_seen := t # sc_seen sc\<rparr> in
           if keep_out x sc1 then Some (Second, sc1)
           else case sane x sc1 of
                  (False, sc2) \<Rightarrow> Some (Stop 205, sc2)
                | (True, sc2) \<Rightarrow> first_target x t ts sc2)"

subsection \<open>The second pass\<close>

text \<open>A target whose lock has been obtained after waiting for it or for a pool.\<close>

definition resume :: "'n sched_ctx \<Rightarrow> locked_target \<Rightarrow> lock \<Rightarrow> 'n sched \<Rightarrow> (phase \<times> 'n sched) option" where
  "resume x lt l sc =
     (let c = sx_build x; e = bc_env c; w = sc_world sc in
      case by_name (bc_ext c) e (lt_arg lt) True (w_st w) of
        Inl err \<Rightarrow> Some (Failed err, sc)
      | Inr (f, s1) \<Rightarrow>
          if is_failed e f
          then Some (Second, settle (lt_arg lt) FailedElsewhere (set_flag 2 (sc\<lparr>sc_world := drop_lock c l (w\<lparr>w_st := s1\<rparr>)\<rparr>)))
          else case refresh e s1 f of
                 Inl err \<Rightarrow> Some (Failed err, sc)
               | Inr f1 \<Rightarrow> dispatch x Second (lt_arg lt) f1 l (sc\<lparr>sc_world := w\<lparr>w_st := s1\<rparr>\<rparr>))"

text \<open>One target that was deferred for a pool. Deferred again, the database is flushed before the process
  sleeps.\<close>

definition pool_body :: "'n sched_ctx \<Rightarrow> locked_target \<Rightarrow> 'n sched \<Rightarrow> (phase \<times> 'n sched) option" where
  "pool_body x lt sc =
     (case grab (sx_build x) (lt_fid lt) (sc_world sc) of
        Inl err \<Rightarrow> Some (Failed err, sc)
      | Inr (False, l, w1) \<Rightarrow>
          Some (Second, sc\<lparr>sc_world := drop_lock (sx_build x) l w1, sc_locked := sc_locked sc @ [lt]\<rparr>)
      | Inr (True, l, w1) \<Rightarrow>
          map_option (\<lambda>(ph, sc1). (ph, if length (sc_pool sc1) > length (sc_pool sc) then sc_commit sc1 else sc1))
            (resume x lt l (sc\<lparr>sc_world := w1\<rparr>)))"

text \<open>Waiting for the lock of a target. The lock is waited for, given back and tried again, so that only
  \<open>trylock\<close> decides; its check for cycles makes the one of the loop (208) redundant.\<close>

definition wait_body :: "'n sched_ctx \<Rightarrow> locked_target \<Rightarrow> 'n sched \<Rightarrow> (phase \<times> 'n sched) option" where
  "wait_body x lt sc =
     (case grab (sx_build x) (lt_fid lt) (sc_world sc) of
        Inl err \<Rightarrow> Some (Failed err, sc)
      | Inr (False, l, w1) \<Rightarrow> None
      | Inr (True, l, w1) \<Rightarrow> resume x lt l (sc\<lparr>sc_world := w1\<rparr>))"

text \<open>What a round does once no job runs: stop, wait for a lock, or try a deferred target.\<close>

definition second_body :: "'n sched_ctx \<Rightarrow> 'n sched \<Rightarrow> (phase \<times> 'n sched) option" where
  "second_body x sc0 =
     (let sc = sc_commit sc0 in
      if keep_out x sc \<or> sc_locked sc = [] \<and> sc_pool sc = [] then Some (Stop (max 0 (sc_flag sc)), sc)
      else case sane x sc of
             (False, sc1) \<Rightarrow> Some (Stop 205, sc1)
           | (True, sc1) \<Rightarrow>
               (case (sc_locked sc1, sc_pool sc1) of
                  (lt # ls, _) \<Rightarrow> Some (Wait lt, sc1\<lparr>sc_locked := ls\<rparr>)
                | ([], lt # ls) \<Rightarrow> pool_body x lt (sc1\<lparr>sc_pool := ls\<rparr>)
                | ([], []) \<Rightarrow> Some (Second, sc1)))"

subsection \<open>The scheduler\<close>

text \<open>A job has ended: its callback. \<open>True\<close>: the test crash.\<close>

fun complete_running :: "'n sched_ctx \<Rightarrow> running_job \<Rightarrow> 'n sched \<Rightarrow> bool \<times> 'n sched" where
  "complete_running x (BuildJob t jo) sc =
     (case run_job (sx_cache x) (sx_build x) jo (sc_world sc) (sc_caches sc) of
        (Crashed, w1, ca1) \<Rightarrow> (True, sc\<lparr>sc_world := w1, sc_caches := ca1\<rparr>)
      | (Rv rv, w1, ca1) \<Rightarrow>
          let sc1 = sc\<lparr>sc_world := w1, sc_caches := ca1\<rparr>
          in (False, settle t (JobDone rv) (if rv \<noteq> 0 then set_flag 1 sc1 else sc1)))"
| "complete_running x (UnlockedJob t args l) sc =
     (let w = sc_world sc in
      case sx_unlocked x args (w_disk w, si_db (w_st w)) of
        (rv, d1, db1) \<Rightarrow>
          let sc1 = sc\<lparr>sc_world := drop_lock (sx_build x) l (w\<lparr>w_disk := d1, w_st := (w_st w)\<lparr>si_db := db1\<rparr>\<rparr>)\<rparr>
          in (False, settle t (OobDone rv) (if rv \<noteq> 0 then set_flag 1 sc1 else sc1)))"

definition take_job :: "nat \<Rightarrow> 'n sched \<Rightarrow> 'n sched" where
  "take_job i sc = sc\<lparr>sc_running := take i (sc_running sc) @ drop (Suc i) (sc_running sc)\<rparr>"

text \<open>Other processes may change files, the database and their own locks; while this process has a
  transaction open, they cannot write to the database.\<close>

definition others_move :: "pid \<Rightarrow> world \<Rightarrow> world \<Rightarrow> bool" where
  "others_move p w w' \<longleftrightarrow>
     w_st w' = (w_st w)\<lparr>si_db := si_db (w_st w')\<rparr> \<and> (is_flushed (w_st w) \<or> si_db (w_st w') = si_db (w_st w)) \<and>
     (\<forall>fid. holds (w_locks w') p fid = holds (w_locks w) p fid)"

inductive sched_step :: "'n sched_ctx \<Rightarrow> phase \<times> 'n sched \<Rightarrow> phase \<times> 'n sched \<Rightarrow> bool" for x where
  complete: "i < length (sc_running sc) \<Longrightarrow> (\<exists>t ts. ph = First (t # ts)) \<or> ph = Second \<Longrightarrow>
    complete_running x (sc_running sc ! i) (take_job i sc) = (crashed, sc') \<Longrightarrow>
    sched_step x (ph, sc) (if crashed then Dead else ph, sc')"
| other: "others_move (bc_pid (sx_build x)) (sc_world sc) w' \<Longrightarrow> sched_step x (ph, sc) (ph, sc\<lparr>sc_world := w'\<rparr>)"
| first: "first_body x t ts sc = Some r \<Longrightarrow> sched_step x (First (t # ts), sc) r"
| first_end: "sched_step x (First [], sc) (Second, sc)"
| second: "sc_running sc = [] \<Longrightarrow> second_body x sc = Some r \<Longrightarrow> sched_step x (Second, sc) r"
| waited: "wait_body x lt sc = Some r \<Longrightarrow> sched_step x (Wait lt, sc) r"

inductive_cases sched_stepE: "sched_step x (ph, sc) (ph', sc')"

definition sched_start :: "world \<Rightarrow> 'n caches \<Rightarrow> 'n sched" where
  "sched_start w ca = \<lparr>sc_world = w, sc_caches = ca, sc_flag = 0, sc_running = [], sc_locked = [], sc_pool = [], sc_seen = [], sc_done = []\<rparr>"

text \<open>\<open>run_ifchange\<close>: ended at once, or at the start of the first pass.\<close>

definition run_ifchange ::
  "'n sched_ctx \<Rightarrow> bool \<Rightarrow> 64 word \<Rightarrow> 64 word \<Rightarrow> string list \<Rightarrow> world \<Rightarrow> 'n caches
   \<Rightarrow> (outcome \<times> world) res option + phase \<times> 'n sched" where
  "run_ifchange x toplevel now_nanos pid targets w ca =
     (let c = sx_build x; ts = requested toplevel (bc_env c) now_nanos pid targets in
      case record_requested c targets w of
        Inl err \<Rightarrow> Inl (Some (Inl err))
      | Inr w1 \<Rightarrow>
          if list_ex (\<lambda>t. CHR 0x0A \<in> set t) ts then Inl (Some (Inr (Rv 204, w1)))
          else if e_unlocked (bc_env c) then Inl (unlocked_loop (sx_preflight x) c ts 0 w1)
          else Inr (First ts, sched_start w1 ca))"

subsection \<open>\<open>run_redo\<close> with several targets and \<open>-j\<close>\<close>

text \<open>The targets that are built, after the checks; \<open>Inl\<close>: an exit code.\<close>

fun redo_todo :: "build_ctx \<Rightarrow> string list \<Rightarrow> world \<Rightarrow> ((int + string list) \<times> world) res" where
  "redo_todo c [] w = Inr (Inr [], w)"
| "redo_todo c (t # ts) w =
     (if CHR 0x0A \<in> set t \<or> t = [] then Inr (Inl 204, w)
      else rbind (skip_source c t w) (\<lambda>(skip, w1).
           rbind (redo_todo c ts w1) (\<lambda>(r, w2).
             Inr (case r of Inl rc \<Rightarrow> Inl rc | Inr us \<Rightarrow> Inr (if skip then us else t # us), w2))))"

text \<open>One \<open>redo\<close> process per target; \<open>child\<close> is the effect of such a process. \<open>jobserver::start\<close> refuses to
  fork while the database has unwritten changes.\<close>

record par =
  pr_world :: world
  pr_todo :: "string list"
  pr_running :: "string list"
  pr_flag :: int
  pr_done :: "(string \<times> int) list"

datatype par_phase = ParRun | ParStop int | ParFailed error

definition par_next :: "env \<Rightarrow> par \<Rightarrow> par_phase \<times> par" where
  "par_next e pr =
     (if pr_flag pr \<noteq> 0 \<and> \<not> e_keep_going e then (ParRun, pr\<lparr>pr_todo := []\<rparr>)
      else case pr_todo pr of
             [] \<Rightarrow> (ParRun, pr)
           | t # ts \<Rightarrow>
               if \<not> is_flushed (w_st (pr_world pr)) then (ParFailed (Msg ''state is not flushed''), pr)
               else (ParRun, pr\<lparr>pr_todo := ts, pr_running := pr_running pr @ [t]\<rparr>))"

definition par_complete :: "(string \<Rightarrow> disk \<times> database \<Rightarrow> int \<times> disk \<times> database) \<Rightarrow> nat \<Rightarrow> par \<Rightarrow> par" where
  "par_complete child i pr =
     (let w = pr_world pr; t = pr_running pr ! i in
      case child t (w_disk w, si_db (w_st w)) of
        (rv, d1, db1) \<Rightarrow>
          pr\<lparr>pr_world := w\<lparr>w_disk := d1, w_st := (w_st w)\<lparr>si_db := db1\<rparr>\<rparr>,
             pr_running := take i (pr_running pr) @ drop (Suc i) (pr_running pr),
             pr_flag := if rv \<noteq> 0 then 1 else pr_flag pr, pr_done := pr_done pr @ [(t, rv)]\<rparr>)"

inductive par_step ::
  "env \<Rightarrow> (string \<Rightarrow> disk \<times> database \<Rightarrow> int \<times> disk \<times> database) \<Rightarrow> par_phase \<times> par \<Rightarrow> par_phase \<times> par \<Rightarrow> bool" for e child where
  start: "pr_todo pr \<noteq> [] \<Longrightarrow> par_step e child (ParRun, pr) (par_next e pr)"
| complete: "i < length (pr_running pr) \<Longrightarrow> par_step e child (ParRun, pr) (ParRun, par_complete child i pr)"
| stop: "pr_todo pr = [] \<Longrightarrow> pr_running pr = [] \<Longrightarrow> par_step e child (ParRun, pr) (ParStop (pr_flag pr), pr)"

definition par_start :: "string list \<Rightarrow> world \<Rightarrow> par" where
  "par_start ts w = \<lparr>pr_world = w, pr_todo = ts, pr_running = [], pr_flag = 0, pr_done = []\<rparr>"

end
