(* ===== verification/Scheduler_Props.thy ===== *)
theory Scheduler_Props
  imports Scheduler "HOL-Library.Multiset"
begin

text \<open>
  What \<open>redo-ifchange\<close> guarantees for its exit code, in every interleaving of its jobs and of other
  processes; and what happens when two of its arguments name one file.
\<close>

subsection \<open>The bookkeeping of the scheduler\<close>

text \<open>The targets that have been taken up and are not settled.\<close>

definition active :: "'n sched \<Rightarrow> string multiset" where
  "active sc = mset (map lt_arg (sc_locked sc)) + mset (map lt_arg (sc_pool sc)) + mset (map job_target (sc_running sc))"

definition waiting :: "phase \<Rightarrow> string multiset" where
  "waiting ph = (case ph of Wait lt \<Rightarrow> {#lt_arg lt#} | _ \<Rightarrow> {#})"

text \<open>A target becomes active, or is settled; a failure sets the flag.\<close>

definition placed :: "string \<Rightarrow> 'n sched \<Rightarrow> 'n sched \<Rightarrow> bool" where
  "placed t sc sc' \<longleftrightarrow> sc_seen sc' = sc_seen sc \<and>
     (active sc' = add_mset t (active sc) \<and> sc_done sc' = sc_done sc \<and> sc_flag sc' = sc_flag sc \<or>
      active sc' = active sc \<and>
      (\<exists>r. sc_done sc' = sc_done sc @ [(t, r)] \<and>
         (if settled_ok r then sc_flag sc' = sc_flag sc else sc_flag sc' \<in> {1, 2})))"

definition same_books :: "'n sched \<Rightarrow> 'n sched \<Rightarrow> bool" where
  "same_books sc sc' \<longleftrightarrow> sc_seen sc' = sc_seen sc \<and> sc_locked sc' = sc_locked sc \<and> sc_pool sc' = sc_pool sc \<and>
     sc_running sc' = sc_running sc \<and> sc_done sc' = sc_done sc \<and> sc_flag sc' = sc_flag sc"

lemma placed_books: "placed t sc1 sc2 \<Longrightarrow> same_books sc sc1 \<Longrightarrow> same_books sc2 sc3 \<Longrightarrow> placed t sc sc3"
  by (auto simp: placed_def same_books_def active_def)

lemma books_commit [simp]: "same_books sc (sc_commit sc)" "same_books sc sc" "same_books sc (sc\<lparr>sc_world := w\<rparr>)"
  "same_books sc (sc\<lparr>sc_world := w, sc_caches := ca\<rparr>)"
  by (simp_all add: same_books_def sc_commit_def)

lemma books_sane: "sane x sc = (ok, sc1) \<Longrightarrow> same_books sc sc1"
  by (auto simp: sane_def Let_def same_books_def split: prod.splits)

definition ends :: "phase \<Rightarrow> bool" where
  "ends ph \<longleftrightarrow> ph = Dead \<or> (\<exists>e. ph = Failed e)"

lemma launch_places: "launch x ph t f l sc = Some (ph', sc') \<Longrightarrow> ends ph' \<or> ph' = ph \<and> placed t sc sc'"
  by (auto simp: launch_def ends_def placed_def active_def settle_def set_flag_def Let_def
      split: option.splits sum.splits prod.splits scheduled.splits if_splits)

lemma placed_settle [simp]: "placed t sc (settle t FoundClean sc)" "placed t sc (settle t FoundClean (sc\<lparr>sc_world := w\<rparr>))"
  by (simp_all add: placed_def settle_def active_def)

lemma placed_oob: "placed t sc (start_redo_unlocked_job t args l (sc\<lparr>sc_world := w\<rparr>))"
  by (simp add: placed_def start_redo_unlocked_job_def sc_commit_def active_def)

lemma dispatch_places:
  assumes "dispatch x ph t f l sc = Some (ph', sc')"
  shows "ends ph' \<or> ph' = ph \<and> placed t sc sc'"
proof -
  have l: "ends ph' \<or> ph' = ph \<and> placed t sc sc'" if "launch x ph t g l (sc\<lparr>sc_world := w\<rparr>) = Some (ph', sc')" for g w
    using launch_places [OF that] placed_books [of t "sc\<lparr>sc_world := w\<rparr>" sc' sc sc'] by auto
  have "ends (Failed e)" for e by (simp add: ends_def)
  then show ?thesis
    using assms l placed_oob
    by (fastforce simp: dispatch_def Let_def split: option.splits sum.splits prod.splits dirty_result.splits if_splits)
qed

lemma resume_places:
  assumes "resume x lt l sc = Some (ph', sc')"
  shows "ends ph' \<or> ph' = Second \<and> placed (lt_arg lt) sc sc'"
proof -
  have d: "ends ph' \<or> ph' = Second \<and> placed (lt_arg lt) sc sc'"
    if "dispatch x Second (lt_arg lt) f l (sc\<lparr>sc_world := w\<rparr>) = Some (ph', sc')" for f w
    using dispatch_places [OF that] placed_books [of "lt_arg lt" "sc\<lparr>sc_world := w\<rparr>" sc' sc sc'] by auto
  have "placed t sc (settle t FailedElsewhere (set_flag 2 (sc\<lparr>sc_world := w\<rparr>)))" for t w
    by (simp add: placed_def settle_def set_flag_def active_def)
  moreover have "ends (Failed e)" for e by (simp add: ends_def)
  ultimately show ?thesis
    using assms d by (fastforce simp: resume_def Let_def split: sum.splits prod.splits if_splits)
qed

lemma first_target_places:
  assumes "first_target x t ts sc = Some (ph', sc')"
  shows "ends ph' \<or> ph' = Stop 208 \<or> ph' = First ts \<and> placed t sc sc'"
proof -
  have d: "ends ph \<or> ph = First ts \<and> placed t sc (sc_commit sc1)"
    if "dispatch x (First ts) t f l (sc\<lparr>sc_world := w\<rparr>) = Some (ph, sc1)" for f l w ph sc1
    using dispatch_places [OF that] placed_books [of t "sc\<lparr>sc_world := w\<rparr>" sc1 sc "sc_commit sc1"] by auto
  have "placed t sc (sc_commit (sc\<lparr>sc_world := w, sc_locked := sc_locked sc @ [\<lparr>lt_fid = i, lt_arg = t, lt_name = n\<rparr>]\<rparr>))" for w i n
    by (simp add: placed_def sc_commit_def active_def)
  moreover have "ends (Failed e)" for e by (simp add: ends_def)
  ultimately show ?thesis
    using assms d by (fastforce simp: first_target_def Let_def split: sum.splits prod.splits if_splits bool.splits)
qed

lemma pool_body_places:
  assumes "pool_body x lt sc = Some (ph', sc')"
  shows "ends ph' \<or> ph' = Second \<and> placed (lt_arg lt) sc sc'"
proof -
  have d: "ends ph \<or> ph = Second \<and> placed (lt_arg lt) sc sc1 \<and> placed (lt_arg lt) sc (sc_commit sc1)"
    if "resume x lt l (sc\<lparr>sc_world := w\<rparr>) = Some (ph, sc1)" for l w ph sc1
    using resume_places [OF that] placed_books [of "lt_arg lt" "sc\<lparr>sc_world := w\<rparr>" sc1 sc] by auto
  have "placed (lt_arg lt) sc (sc\<lparr>sc_world := w, sc_locked := sc_locked sc @ [lt]\<rparr>)" for w
    by (simp add: placed_def active_def)
  moreover have "ends (Failed e)" for e by (simp add: ends_def)
  ultimately show ?thesis
    using assms d by (fastforce simp: pool_body_def Let_def split: sum.splits prod.splits if_splits bool.splits)
qed

lemma wait_body_places:
  assumes "wait_body x lt sc = Some (ph', sc')"
  shows "ends ph' \<or> ph' = Second \<and> placed (lt_arg lt) sc sc'"
proof -
  have d: "ends ph' \<or> ph' = Second \<and> placed (lt_arg lt) sc sc'"
    if "resume x lt l (sc\<lparr>sc_world := w\<rparr>) = Some (ph', sc')" for l w
    using resume_places [OF that] placed_books [of "lt_arg lt" "sc\<lparr>sc_world := w\<rparr>" sc' sc sc'] by auto
  have "ends (Failed e)" for e by (simp add: ends_def)
  with assms d show ?thesis
    by (fastforce simp: wait_body_def split: sum.splits prod.splits bool.splits)
qed

text \<open>A completed job leaves the active targets and is settled.\<close>

lemma mset_remove_nth: "i < length xs \<Longrightarrow> mset xs = add_mset (xs ! i) (mset (take i xs @ drop (Suc i) xs))"
  by (metis id_take_nth_drop mset.simps(2) mset_append union_mset_add_mset_right)

lemma complete_settles:
  assumes "complete_running x j sc = (crashed, sc')"
  shows "crashed \<or> active sc' = active sc \<and> sc_seen sc' = sc_seen sc \<and>
     (\<exists>r. sc_done sc' = sc_done sc @ [(job_target j, r)] \<and>
        (if settled_ok r then sc_flag sc' = sc_flag sc else sc_flag sc' \<in> {1, 2}))"
  using assms
  by (cases j) (auto simp: Let_def settle_def set_flag_def active_def split: prod.splits outcome.splits if_splits)

subsection \<open>The invariant\<close>

text \<open>\<open>todo\<close> are the targets the first pass has not looked at, \<open>extra\<close> one that is being looked at.\<close>

definition books :: "'n sched_ctx \<Rightarrow> string list \<Rightarrow> string list \<Rightarrow> string multiset \<Rightarrow> 'n sched \<Rightarrow> bool" where
  "books x ts todo extra sc \<longleftrightarrow>
     distinct (sc_seen sc) \<and> set (sc_seen sc) \<union> set todo \<subseteq> set ts \<and>
     active sc + extra + mset (map fst (sc_done sc)) \<subseteq># mset (sc_seen sc) \<and>
     (keep_out x sc \<or>
        active sc + extra + mset (map fst (sc_done sc)) = mset (sc_seen sc) \<and> set ts \<subseteq> set (sc_seen sc) \<union> set todo) \<and>
     sc_flag sc \<in> {0, 1, 2} \<and> (sc_flag sc \<noteq> 0 \<longleftrightarrow> (\<exists>p \<in> set (sc_done sc). \<not> settled_ok (snd p)))"

lemma keep_out_flag: "keep_out x sc \<Longrightarrow> sc_flag sc' = sc_flag sc \<or> sc_flag sc' \<in> {1, 2} \<Longrightarrow> keep_out x sc'"
  by (auto simp: keep_out_def)

lemma books_settle:
  assumes "books x ts todo (add_mset t extra) sc" "active sc' = active sc" "sc_seen sc' = sc_seen sc"
    "sc_done sc' = sc_done sc @ [(t, r)]" "if settled_ok r then sc_flag sc' = sc_flag sc else sc_flag sc' \<in> {1, 2}"
  shows "books x ts todo extra sc'"
  using assms keep_out_flag [of x sc sc'] unfolding books_def by (auto split: if_splits)

lemma books_placed:
  assumes "books x ts todo (add_mset t extra) sc" "placed t sc sc'"
  shows "books x ts todo extra sc'"
proof (cases "active sc' = add_mset t (active sc) \<and> sc_done sc' = sc_done sc \<and> sc_flag sc' = sc_flag sc")
  case True
  with assms show ?thesis using keep_out_flag [of x sc sc'] unfolding books_def placed_def by auto
next
  case False
  with assms(2) show ?thesis using books_settle [OF assms(1)] unfolding placed_def by metis
qed

lemma books_cong:
  assumes "books x ts todo extra sc" "sc_seen sc' = sc_seen sc" "sc_done sc' = sc_done sc" "sc_flag sc' = sc_flag sc"
    "active sc' + extra' = active sc + extra"
  shows "books x ts todo extra' sc'"
  using assms(1) unfolding books_def keep_out_def assms(2-5) .

lemma books_same: "same_books sc sc' \<Longrightarrow> books x ts todo extra sc \<Longrightarrow> books x ts todo extra sc'"
  by (erule books_cong) (simp_all add: same_books_def active_def)

lemma books_take:
  assumes "books x ts (t # todo) {#} sc" "t \<notin> set (sc_seen sc)"
  shows "\<not> keep_out x sc \<Longrightarrow> books x ts todo {#t#} (sc\<lparr>sc_seen := t # sc_seen sc\<rparr>)"
    and "keep_out x sc \<Longrightarrow> books x ts [] {#} (sc\<lparr>sc_seen := t # sc_seen sc\<rparr>)"
  using assms by (auto simp: books_def active_def keep_out_def subset_mset.le_iff_add)

lemma books_skip: "books x ts (t # todo) {#} sc \<Longrightarrow> t \<in> set (sc_seen sc) \<Longrightarrow> books x ts todo {#} sc"
  by (auto simp: books_def)

lemma books_complete:
  assumes "books x ts todo {#} sc" "i < length (sc_running sc)" "complete_running x (sc_running sc ! i) (take_job i sc) = (False, sc')"
  shows "books x ts todo {#} sc'"
proof -
  let ?t = "job_target (sc_running sc ! i)"
  have a: "active sc = add_mset ?t (active (take_job i sc))"
    using mset_remove_nth [OF assms(2)] by (simp add: active_def take_job_def)
  have "sc_seen (take_job i sc) = sc_seen sc" "sc_done (take_job i sc) = sc_done sc" "sc_flag (take_job i sc) = sc_flag sc"
    by (simp_all add: take_job_def)
  then have "books x ts todo {#?t#} (take_job i sc)"
    using a by (intro books_cong [OF assms(1)]) simp_all
  with complete_settles [OF assms(3)] show ?thesis using books_settle by metis
qed

text \<open>Where the scheduler may be, and what is then known.\<close>

definition all_settled :: "'n sched_ctx \<Rightarrow> string list \<Rightarrow> int \<Rightarrow> 'n sched \<Rightarrow> bool" where
  "all_settled x ts rc sc \<longleftrightarrow> sc_running sc = [] \<and> rc = sc_flag sc \<and> books x ts [] {#} sc \<and>
     (keep_out x sc \<or> sc_locked sc = [] \<and> sc_pool sc = [])"

definition sched_inv :: "'n sched_ctx \<Rightarrow> string list \<Rightarrow> phase \<times> 'n sched \<Rightarrow> bool" where
  "sched_inv x ts p =
     (case p of (ph, sc) \<Rightarrow>
        (case ph of
           First todo \<Rightarrow> books x ts todo {#} sc
         | Second \<Rightarrow> books x ts [] {#} sc
         | Wait lt \<Rightarrow> books x ts [] {#lt_arg lt#} sc \<and> sc_running sc = []
         | Stop rc \<Rightarrow> rc \<in> {204, 205, 208} \<or> all_settled x ts rc sc
         | _ \<Rightarrow> True))"

lemma ends_inv: "ends ph \<Longrightarrow> sched_inv x ts (ph, sc)"
  by (auto simp: ends_def sched_inv_def)

lemma first_body_inv:
  assumes "books x ts (t # todo) {#} sc" "first_body x t todo sc = Some (ph', sc')"
  shows "sched_inv x ts (ph', sc')"
proof -
  let ?sc1 = "sc\<lparr>sc_seen := t # sc_seen sc\<rparr>"
  consider "t = []" | "t \<in> set (sc_seen sc)" | "t \<noteq> []" "t \<notin> set (sc_seen sc)" "keep_out x ?sc1"
    | "t \<noteq> []" "t \<notin> set (sc_seen sc)" "\<not> keep_out x ?sc1" by blast
  then show ?thesis
  proof cases
    case 3
    then have "keep_out x sc" by (simp add: keep_out_def)
    with 3 assms show ?thesis using books_take(2) [OF assms(1)] by (simp add: first_body_def Let_def sched_inv_def)
  next
    case 4
    obtain ok sc2 where sn: "sane x ?sc1 = (ok, sc2)" by fastforce
    have "\<not> keep_out x sc" using 4(3) by (simp add: keep_out_def)
    then have b: "books x ts todo {#t#} sc2"
      using books_same [OF books_sane [OF sn]] books_take(1) [OF assms(1) 4(2)] by blast
    show ?thesis
    proof (cases ok)
      case True
      then have "first_target x t todo sc2 = Some (ph', sc')" using assms(2) 4 sn by (simp add: first_body_def Let_def)
      from first_target_places [OF this] show ?thesis
        using books_placed [OF b] ends_inv by (auto simp: sched_inv_def)
    qed (use assms(2) 4 sn in \<open>auto simp: first_body_def Let_def sched_inv_def\<close>)
  qed (use assms books_skip in \<open>auto simp: first_body_def Let_def sched_inv_def split: if_splits\<close>)
qed

lemma second_body_inv:
  assumes "books x ts [] {#} sc" "sc_running sc = []" "second_body x sc = Some (ph', sc')"
  shows "sched_inv x ts (ph', sc')"
proof -
  let ?sc1 = "sc_commit sc"
  have b: "books x ts [] {#} ?sc1" and r: "sc_running ?sc1 = []"
    using books_same [OF books_commit(1) assms(1)] assms(2) by (simp_all add: sc_commit_def)
  show ?thesis
  proof (cases "keep_out x ?sc1 \<or> sc_locked ?sc1 = [] \<and> sc_pool ?sc1 = []")
    case True
    have "sc_flag ?sc1 \<ge> 0" using b by (auto simp: books_def)
    with True assms(3) b r show ?thesis by (auto simp: second_body_def Let_def sched_inv_def all_settled_def)
  next
    case False
    obtain ok sc2 where sn: "sane x ?sc1 = (ok, sc2)" by fastforce
    have b2: "books x ts [] {#} sc2" and r2: "sc_running sc2 = []"
      using books_same [OF books_sane [OF sn] b] books_sane [OF sn] r by (auto simp: same_books_def)
    have wait: "books x ts [] {#lt_arg lt#} (sc2\<lparr>sc_locked := ls\<rparr>)" if "sc_locked sc2 = lt # ls" for lt ls
      using that by (intro books_cong [OF b2]) (simp_all add: active_def)
    have pool: "sched_inv x ts (ph', sc')" if "sc_pool sc2 = lt # ls" "pool_body x lt (sc2\<lparr>sc_pool := ls\<rparr>) = Some (ph', sc')" for lt ls
    proof -
      have "books x ts [] {#lt_arg lt#} (sc2\<lparr>sc_pool := ls\<rparr>)"
        using that(1) by (intro books_cong [OF b2]) (simp_all add: active_def)
      with pool_body_places [OF that(2)] show ?thesis using books_placed ends_inv by (auto simp: sched_inv_def)
    qed
    show ?thesis
      using False sn assms(3) wait pool b2 r2
      by (cases ok; cases "sc_locked sc2"; cases "sc_pool sc2") (auto simp: second_body_def Let_def sched_inv_def)
  qed
qed

lemma step_inv:
  assumes "sched_step x p p'" "sched_inv x ts p"
  shows "sched_inv x ts p'"
  using assms
proof cases
  case (complete i sc ph crashed sc')
  then show ?thesis
    using assms(2) books_complete [of x ts _ sc i sc'] by (cases crashed) (auto simp: sched_inv_def)
next
  case (other sc w' ph)
  have "same_books sc (sc\<lparr>sc_world := w'\<rparr>)" by simp
  then show ?thesis
    using other assms(2) books_same [of sc "sc\<lparr>sc_world := w'\<rparr>"]
    by (auto simp: sched_inv_def all_settled_def keep_out_def split: phase.splits)
next
  case (first t ts' sc)
  then show ?thesis using assms(2) first_body_inv [of x ts t ts' sc] by (cases p') (auto simp: sched_inv_def)
next
  case (first_end sc)
  then show ?thesis using assms(2) by (simp add: sched_inv_def)
next
  case (second sc)
  then show ?thesis using assms(2) second_body_inv [of x ts sc] by (cases p') (auto simp: sched_inv_def)
next
  case (waited lt sc)
  obtain ph' sc' where p': "p' = (ph', sc')" by fastforce
  have "books x ts [] {#lt_arg lt#} sc" using waited assms(2) by (simp add: sched_inv_def)
  with wait_body_places [of x lt sc ph' sc'] waited p' show ?thesis
    using books_placed ends_inv by (auto simp: sched_inv_def)
qed

lemma reach_inv:
  assumes "(sched_step x)\<^sup>*\<^sup>* (First ts, sched_start w ca) p"
  shows "sched_inv x ts p"
  using assms
proof induction
  case base
  show ?case by (auto simp: sched_inv_def sched_start_def books_def active_def)
next
  case (step y z)
  then show ?case using step_inv by blast
qed

text \<open>C4. The exit code of \<open>redo-ifchange\<close> can be relied on. Whatever the order in which its jobs end and
  whatever other processes do: it is 0 only if no job is left and every target was settled exactly
  once and successfully (found clean, built, restored, checked by \<open>redo-unlocked\<close>, or not redo's to
  build). Otherwise it is one of the codes for bad input (204), a lost database (205) or a cycle
  (208), or 1 or 2 and some target failed; with \<open>--keep-going\<close> all targets were settled even then.\<close>

theorem ifchange_exit_code:
  assumes "(sched_step x)\<^sup>*\<^sup>* (First ts, sched_start w ca) (Stop rc, sc)"
  shows "(rc = 0 \<longrightarrow> sc_running sc = [] \<and> (\<forall>p \<in> set (sc_done sc). settled_ok (snd p)) \<and>
       distinct (map fst (sc_done sc)) \<and> set (map fst (sc_done sc)) = set ts) \<and>
     (rc \<noteq> 0 \<longrightarrow> rc \<in> {204, 205, 208} \<or>
       rc \<in> {1, 2} \<and> sc_running sc = [] \<and> (\<exists>p \<in> set (sc_done sc). \<not> settled_ok (snd p)) \<and>
       (e_keep_going (bc_env (sx_build x)) \<longrightarrow> set (map fst (sc_done sc)) = set ts))"
proof -
  have i: "rc \<in> {204, 205, 208} \<or> all_settled x ts rc sc" using reach_inv [OF assms] by (simp add: sched_inv_def)
  have settled: "distinct (map fst (sc_done sc)) \<and> set (map fst (sc_done sc)) = set ts" if "all_settled x ts rc sc" "\<not> keep_out x sc"
  proof -
    have m: "mset (map fst (sc_done sc)) = mset (sc_seen sc)" and st: "distinct (sc_seen sc)" "set (sc_seen sc) = set ts"
      using that by (auto simp: all_settled_def books_def active_def)
    show ?thesis using mset_eq_setD [OF m] mset_eq_imp_distinct_iff [OF m] st by simp
  qed
  show ?thesis
    using i settled by (auto simp: all_settled_def books_def keep_out_def)
qed

subsection \<open>Runs\<close>

text \<open>One way to schedule: jobs are completed, the oldest first, only when the second pass waits for them.\<close>

fun drive :: "'n sched_ctx \<Rightarrow> unit list \<Rightarrow> phase \<times> 'n sched \<Rightarrow> phase \<times> 'n sched" where
  "drive x [] p = p"
| "drive x (u # n) (ph, sc) =
     (case ph of
        First [] \<Rightarrow> drive x n (Second, sc)
      | First (t # ts) \<Rightarrow> (case first_body x t ts sc of None \<Rightarrow> (ph, sc) | Some p \<Rightarrow> drive x n p)
      | Second \<Rightarrow>
          (if sc_running sc \<noteq> []
           then case complete_running x (sc_running sc ! 0) (take_job 0 sc) of
                  (crashed, sc1) \<Rightarrow> drive x n (if crashed then Dead else Second, sc1)
           else case second_body x sc of None \<Rightarrow> (ph, sc) | Some p \<Rightarrow> drive x n p)
      | Wait lt \<Rightarrow> (case wait_body x lt sc of None \<Rightarrow> (ph, sc) | Some p \<Rightarrow> drive x n p)
      | _ \<Rightarrow> (ph, sc))"

lemma drive_reach: "(sched_step x)\<^sup>*\<^sup>* p (drive x n p)"
proof (induction n arbitrary: p)
  case (Cons u n)
  have s: "(sched_step x)\<^sup>*\<^sup>* (ph, sc) (drive x n q)" if "sched_step x (ph, sc) q" for ph sc q
    using that Cons [of q] by (rule converse_rtranclp_into_rtranclp)
  obtain ph sc where "p = (ph, sc)" by fastforce
  then show ?case
    using s [OF sched_step.first] s [OF sched_step.first_end] s [OF sched_step.second] s [OF sched_step.waited] s [OF sched_step.complete [where i = 0 and ph = Second]]
    by (auto split: phase.splits list.splits option.splits prod.splits)
qed simp

definition dir_meta :: meta where
  "dir_meta = demo_meta\<lparr>m_is_dir := True\<rparr>"

definition sched_demo :: "(string \<rightharpoonup> string) \<Rightarrow> unit sched_ctx" where
  "sched_demo vs =
     \<lparr>sx_cache = \<lparr>cc_sha = (\<lambda>_. replicate 64 (CHR ''0'')), cc_tag = ''1'', cc_os = ''linux'', cc_arch = ''x86_64'', cc_rd = (\<lambda>_ _. None),
        cc_now = 1, cc_order = (\<lambda>x. x), cc_read_link = Map.empty, cc_net = (\<lambda>_ n. (Inl (IoError ''net''), n))\<rparr>,
      sx_build = demo_ctx\<lparr>bc_vars := vs\<rparr>, sx_preflight = {}, sx_unlocked = (\<lambda>_ (d, db). (0, d, db))\<rparr>"

definition no_caches :: "unit caches" where
  "no_caches = \<lparr>ca_objs = Map.empty, ca_net = ()\<rparr>"

definition clean_world :: world where
  "clean_world = \<lparr>w_disk = [''/w/.redo'' \<mapsto> (dir_meta, []), ''/w/t'' \<mapsto> (dir_meta, []), ''/w/src'' \<mapsto> (dir_meta, [])],
     w_st = demo_plan, w_locks = []\<rparr>"

theorem ifchange_exit_code_witness:
  "\<exists>sc. (sched_step (sched_demo Map.empty))\<^sup>*\<^sup>* (First [''t'', ''t'', ''src''], sched_start clean_world no_caches) (Stop 0, sc) \<and>
     set (map fst (sc_done sc)) = {''t'', ''src''} \<and> (\<forall>p \<in> set (sc_done sc). settled_ok (snd p))"
proof -
  let ?p = "(First [''t'', ''t'', ''src''], sched_start clean_world no_caches)"
  let ?r = "drive (sched_demo Map.empty) (replicate 6 ()) ?p"
  have "fst ?r = Stop 0" by code_simp
  then have r: "(sched_step (sched_demo Map.empty))\<^sup>*\<^sup>* ?p (Stop 0, snd ?r)"
    using drive_reach [of "sched_demo Map.empty" ?p "replicate 6 ()"] by (metis prod.collapse)
  show ?thesis using r ifchange_exit_code [OF r] by auto
qed

subsection \<open>Jobs that are abandoned\<close>

text \<open>Arguments are compared as strings: a second name of a file whose job is running is an error, and the
  process ends without waiting for its jobs. The same holds for an empty argument.\<close>

lemma alias_abandons_jobs:
  assumes "t \<noteq> []" "t \<notin> set (sc_seen sc)" "sc_flag sc = 0" "file_exists (w_disk (sc_world sc)) (path_join (e_base (bc_env (sx_build x))) ''.redo'')"
    "\<not> si_insane (w_st (sc_world sc))"
    "by_name (bc_ext (sx_build x)) (bc_env (sx_build x)) t True (w_st (sc_world sc)) = Inr (f, s1)"
    "si_locks_held s1 (f_id f) = Some True"
  shows "\<exists>sc'. first_body x t ts sc = Some (Failed (LockAlreadyCreated (f_id f)), sc') \<and> sc_running sc' = sc_running sc"
proof -
  let ?e = "bc_env (sx_build x)" and ?w = "sc_world sc" and ?sc1 = "sc\<lparr>sc_seen := t # sc_seen sc\<rparr>"
  have "(w_st ?w)\<lparr>si_insane := False\<rparr> = w_st ?w" using assms(5) by (cases "w_st ?w") simp
  then have "check_sane (file_exists (w_disk ?w)) ?e (w_st ?w) = (w_st ?w, True)"
    using assms(4,5) by (simp add: check_sane_def Let_def)
  then have "sane x ?sc1 = (True, ?sc1)" by (simp add: sane_def Let_def)
  moreover have "first_target x t ts ?sc1 = Some (Failed (LockAlreadyCreated (f_id f)), ?sc1)"
    using assms(6,7) by (simp add: first_target_def Let_def grab_def Lock_new_def)
  ultimately show ?thesis
    using assms(1-3) by (intro exI [of _ ?sc1]) (simp add: first_body_def Let_def keep_out_def)
qed

lemma empty_abandons_jobs: "first_body x [] ts sc = Some (Stop 204, sc)"
  by (simp add: first_body_def)

subsection \<open>The analysis of a target ends\<close>

lemma check_file_total: "f_id f \<in> file_id_set (w_st w) \<Longrightarrow> check_file pre c f w \<noteq> None"
proof -
  assume a: "f_id f \<in> file_id_set (w_st w)"
  have "card (file_id_set (w_st w)) \<le> length (db_files (si_db (w_st w)))"
    unfolding file_id_set_def by (rule le_trans [OF card_image_le card_length]) simp
  then have "isdirty_default pre (view (w_disk w)) (bc_env c) (Suc (length (db_files (si_db (w_st w))))) f
      (unwrap_or (e_runid (bc_env c)) 0) (w_st w, []) \<noteq> None"
    unfolding isdirty_default_def using a by (intro default_checker.terminates) simp_all
  then show ?thesis by (auto simp: check_file_def split: option.splits sum.splits)
qed

subsection \<open>Parallel \<open>redo\<close>\<close>

text \<open>The targets that were started are a prefix of the list.\<close>

definition par_inv :: "env \<Rightarrow> string list \<Rightarrow> par \<Rightarrow> bool" where
  "par_inv e ts pr \<longleftrightarrow>
     (\<exists>k. mset (pr_running pr) + mset (map fst (pr_done pr)) = mset (take k ts) \<and>
        (pr_todo pr = drop k ts \<or> pr_todo pr = [] \<and> pr_flag pr \<noteq> 0 \<and> \<not> e_keep_going e)) \<and>
     pr_flag pr \<in> {0, 1} \<and> (pr_flag pr \<noteq> 0 \<longleftrightarrow> (\<exists>p \<in> set (pr_done pr). snd p \<noteq> 0))"

lemma par_complete_inv:
  assumes "par_inv e ts pr" "i < length (pr_running pr)"
  shows "par_inv e ts (par_complete child i pr)"
proof -
  let ?t = "pr_running pr ! i" and ?pr = "par_complete child i pr"
  obtain rv d1 db1 where ch: "child ?t (w_disk (pr_world pr), si_db (w_st (pr_world pr))) = (rv, d1, db1)" by (metis prod.exhaust)
  have f: "pr_todo ?pr = pr_todo pr" "pr_done ?pr = pr_done pr @ [(?t, rv)]" "pr_flag ?pr = (if rv \<noteq> 0 then 1 else pr_flag pr)"
    "pr_running ?pr = take i (pr_running pr) @ drop (Suc i) (pr_running pr)"
    using ch by (simp_all add: par_complete_def Let_def)
  have m: "mset (pr_running ?pr) + mset (map fst (pr_done ?pr)) = mset (pr_running pr) + mset (map fst (pr_done pr))"
    unfolding f using mset_remove_nth [OF assms(2)] by simp
  obtain k where k: "mset (pr_running pr) + mset (map fst (pr_done pr)) = mset (take k ts)"
    "pr_todo pr = drop k ts \<or> pr_todo pr = [] \<and> pr_flag pr \<noteq> 0 \<and> \<not> e_keep_going e"
    using assms(1) by (auto simp: par_inv_def)
  have "pr_todo ?pr = drop k ts \<or> pr_todo ?pr = [] \<and> pr_flag ?pr \<noteq> 0 \<and> \<not> e_keep_going e" using k(2) f by auto
  moreover have "pr_flag ?pr \<in> {0, 1} \<and> (pr_flag ?pr \<noteq> 0 \<longleftrightarrow> (\<exists>p \<in> set (pr_done ?pr). snd p \<noteq> 0))"
    using assms(1) unfolding par_inv_def f(2,3) by (cases "rv = 0") auto
  moreover note m [unfolded k(1)]
  ultimately show ?thesis unfolding par_inv_def by blast
qed

lemma par_next_inv:
  assumes "par_inv e ts pr" "par_next e pr = (ParRun, pr')"
  shows "par_inv e ts pr'"
proof (cases "pr_flag pr \<noteq> 0 \<and> \<not> e_keep_going e")
  case True
  then have "pr' = pr\<lparr>pr_todo := []\<rparr>" using assms(2) by (simp add: par_next_def)
  then show ?thesis using assms(1) True by (auto simp: par_inv_def)
next
  case False
  show ?thesis
  proof (cases "pr_todo pr")
    case Nil
    with False assms show ?thesis by (auto simp: par_next_def)
  next
    case (Cons t us)
    then have p: "pr' = pr\<lparr>pr_todo := us, pr_running := pr_running pr @ [t]\<rparr>"
      using False assms(2) by (auto simp: par_next_def split: if_splits)
    obtain k where k: "mset (pr_running pr) + mset (map fst (pr_done pr)) = mset (take k ts)" "drop k ts = t # us"
      using assms(1) Cons unfolding par_inv_def by (metis list.distinct(1))
    have "k < length ts" using k(2) by (metis drop_all list.distinct(1) not_le_imp_less)
    moreover have "ts ! k = t" using k(2) \<open>k < length ts\<close> by (metis hd_drop_conv_nth list.sel(1))
    ultimately have "take (Suc k) ts = take k ts @ [t]" by (simp add: take_Suc_conv_app_nth)
    moreover have "drop (Suc k) ts = us" using k(2) by (metis drop_Suc list.sel(3) tl_drop)
    ultimately show ?thesis using k assms(1) unfolding par_inv_def p by (auto intro!: exI [of _ "Suc k"])
  qed
qed

lemma par_reach_inv:
  assumes "(par_step e child)\<^sup>*\<^sup>* (ParRun, par_start ts w) p"
  shows "case fst p of ParRun \<Rightarrow> par_inv e ts (snd p)
     | ParStop rc \<Rightarrow> par_inv e ts (snd p) \<and> rc = pr_flag (snd p) \<and> pr_todo (snd p) = [] \<and> pr_running (snd p) = []
     | ParFailed _ \<Rightarrow> True"
  using assms
proof induction
  case base
  show ?case by (auto simp: par_inv_def par_start_def intro!: exI [of _ 0])
next
  case (step y z)
  from step.hyps(2) show ?case
  proof cases
    case (start pr)
    obtain ph pr' where z: "par_next e pr = (ph, pr')" by fastforce
    have "ph = ParRun \<or> (\<exists>err. ph = ParFailed err)" using z by (auto simp: par_next_def split: if_splits list.splits)
    with z start step.IH par_next_inv [of e ts pr pr'] show ?thesis by auto
  next
    case (complete i pr)
    with step.IH par_complete_inv [of e ts pr i child] show ?thesis by simp
  next
    case (stop pr)
    with step.IH show ?thesis by simp
  qed
qed


lemma par_start_step: "pr_todo pr \<noteq> [] \<Longrightarrow> par_next e pr = q \<Longrightarrow> par_step e child (ParRun, pr) q"
  using par_step.start by blast


text \<open>A source that is named and was not known to the database stops the run: its row has been written, but
  not committed, when the first process is to be started.\<close>

lemma parallel_new_source_fails:
  assumes "redo_todo c ts w = Inr (Inr (t # us), w1)" "\<not> is_flushed (w_st w1)"
  shows "par_step e child (ParRun, par_start (t # us) w1) (ParFailed (Msg ''state is not flushed''), par_start (t # us) w1)"
  using par_step.start [of "par_start (t # us) w1" e child] assms(2) by (simp add: par_next_def par_start_def)

lemma parallel_new_source_demo:
  "\<exists>w1. redo_todo demo_ctx [''new'', ''a''] \<lparr>w_disk = [''/w/new'' \<mapsto> (dir_meta, [])], w_st = demo_st, w_locks = []\<rparr> = Inr (Inr [''a''], w1)
     \<and> \<not> is_flushed (w_st w1)"
proof -
  let ?r = "redo_todo demo_ctx [''new'', ''a''] \<lparr>w_disk = [''/w/new'' \<mapsto> (dir_meta, [])], w_st = demo_st, w_locks = []\<rparr>"
  have "\<not> isl ?r" "fst (projr ?r) = Inr [''a'']" "\<not> is_flushed (w_st (snd (projr ?r)))" by code_simp+
  then show ?thesis by (intro exI [of _ "snd (projr ?r)"]) (metis sum.collapse(2) prod.collapse)
qed

end
