(* ===== verification/Scheduler_Live.thy ===== *)
theory Scheduler_Live
  imports Scheduler_Props
begin

text \<open>
  The work of \<open>redo-ifchange\<close> (\<open>run_ifchange\<close>, \<open>redo_core/src/builder.rs\<close>) is bounded: a measure of what is left to
  do falls with every step of its own, whatever the jobs and the other processes do. Only a target that
  finds its pool full makes it rise.
\<close>

subsection \<open>Steps of the process itself\<close>

text \<open>The steps of \<open>sched_step\<close> that are not those of other processes.\<close>

inductive own_step :: "'n sched_ctx \<Rightarrow> phase \<times> 'n sched \<Rightarrow> phase \<times> 'n sched \<Rightarrow> bool" for x where
  job_ends: "i < length (sc_running sc) \<Longrightarrow> (\<exists>t ts. ph = First (t # ts)) \<or> ph = Second \<Longrightarrow>
    complete_running x (sc_running sc ! i) (take_job i sc) = (crashed, sc') \<Longrightarrow>
    own_step x (ph, sc) (if crashed then Dead else ph, sc')"
| next_target: "first_body x t ts sc = Some r \<Longrightarrow> own_step x (First (t # ts), sc) r"
| pass_over: "own_step x (First [], sc) (Second, sc)"
| next_round: "sc_running sc = [] \<Longrightarrow> second_body x sc = Some r \<Longrightarrow> own_step x (Second, sc) r"
| lock_free: "wait_body x lt sc = Some r \<Longrightarrow> own_step x (Wait lt, sc) r"

lemma sched_step_iff:
  "sched_step x (ph, sc) q \<longleftrightarrow>
     own_step x (ph, sc) q \<or> (\<exists>w'. others_move (bc_pid (sx_build x)) (sc_world sc) w' \<and> q = (ph, sc\<lparr>sc_world := w'\<rparr>))"
  by (auto simp: own_step.simps sched_step.simps)

text \<open>A target that had been taken up again finds no free slot of its pool, and is put off.\<close>

definition put_off :: "phase \<times> 'n sched \<Rightarrow> phase \<times> 'n sched \<Rightarrow> bool" where
  "put_off p q = (case p of (ph, sc) \<Rightarrow>
     (case ph of
        Wait _ \<Rightarrow> length (sc_pool (snd q)) > length (sc_pool sc)
      | Second \<Rightarrow> sc_running sc = [] \<and> sc_locked sc = [] \<and> sc_pool sc \<noteq> [] \<and> length (sc_pool (snd q)) \<ge> length (sc_pool sc)
      | _ \<Rightarrow> False))"

text \<open>A run, with the number of own steps and how many of them put a target off.\<close>

inductive sched_run :: "'n sched_ctx \<Rightarrow> nat \<Rightarrow> nat \<Rightarrow> phase \<times> 'n sched \<Rightarrow> phase \<times> 'n sched \<Rightarrow> bool" for x where
  none: "sched_run x 0 0 p p"
| work: "sched_run x n d p q \<Longrightarrow> own_step x q r \<Longrightarrow> sched_run x (Suc n) (if put_off q r then Suc d else d) p r"
| idle: "sched_run x n d p (ph, sc) \<Longrightarrow> others_move (bc_pid (sx_build x)) (sc_world sc) w' \<Longrightarrow>
    sched_run x n d p (ph, sc\<lparr>sc_world := w'\<rparr>)"

lemma run_steps: "sched_run x n d p q \<Longrightarrow> (sched_step x)\<^sup>*\<^sup>* p q"
proof (induction rule: sched_run.induct)
  case (work n d p q r)
  then show ?case by (cases q) (auto simp: sched_step_iff intro: rtranclp.rtrancl_into_rtrancl)
next
  case (idle n d p ph sc w')
  then have "sched_step x (ph, sc) (ph, sc\<lparr>sc_world := w'\<rparr>)" by (blast intro: sched_step.other)
  with idle show ?case by (blast intro: rtranclp.rtrancl_into_rtrancl)
qed simp

lemma steps_run: "(sched_step x)\<^sup>*\<^sup>* p q \<Longrightarrow> \<exists>n d. sched_run x n d p q"
proof (induction rule: rtranclp_induct)
  case base
  show ?case by (blast intro: sched_run.none)
next
  case (step q r)
  then show ?case by (cases q) (auto simp: sched_step_iff intro: sched_run.work sched_run.idle)
qed

subsection \<open>The measure\<close>

fun phase_weight :: "phase \<Rightarrow> nat" where
  "phase_weight (First ts) = 8 * length ts + 3"
| "phase_weight Second = 2"
| "phase_weight (Wait _) = 5"
| "phase_weight _ = 0"

definition load :: "'n sched \<Rightarrow> nat" where
  "load sc = 4 * length (sc_locked sc) + 5 * length (sc_pool sc) + length (sc_running sc)"

definition weight :: "phase \<times> 'n sched \<Rightarrow> nat" where
  "weight p = phase_weight (fst p) + load (snd p)"

text \<open>What a body adds to the lists: nothing, a job, a deferred target, or a target that is locked.\<close>

definition gains :: "nat \<Rightarrow> 'n sched \<Rightarrow> 'n sched \<Rightarrow> bool" where
  "gains k sc sc' \<longleftrightarrow> load sc' \<le> load sc + k \<and>
     (length (sc_pool sc') \<le> length (sc_pool sc) \<longrightarrow> load sc' \<le> load sc + 1)"

lemma gains_cong: "same_books sc sc1 \<Longrightarrow> same_books sc2 sc3 \<Longrightarrow> gains k sc1 sc2 \<Longrightarrow> gains k sc sc3"
  by (simp add: gains_def load_def same_books_def)

lemma launch_gains: "launch x ph t f l sc = Some (ph', sc') \<Longrightarrow> (ends ph' \<or> ph' = ph) \<and> gains 5 sc sc'"
  by (auto simp: launch_def ends_def gains_def load_def settle_def set_flag_def Let_def
      split: option.splits sum.splits prod.splits scheduled.splits if_splits)

lemma dispatch_gains:
  assumes "dispatch x ph t f l sc = Some (ph', sc')"
  shows "(ends ph' \<or> ph' = ph) \<and> gains 5 sc sc'"
proof -
  have l: "(ends ph' \<or> ph' = ph) \<and> gains 5 sc sc'" if "launch x ph t g l (sc\<lparr>sc_world := w\<rparr>) = Some (ph', sc')" for g w
    using launch_gains [OF that] gains_cong [of sc "sc\<lparr>sc_world := w\<rparr>" sc' sc' 5] by auto
  have "ends (Failed e)" "gains 5 sc sc" "gains 5 sc (settle t FoundClean (sc\<lparr>sc_world := w\<rparr>))"
    "gains 5 sc (start_redo_unlocked_job t args l (sc\<lparr>sc_world := w\<rparr>))" for e w args
    by (simp_all add: ends_def gains_def load_def settle_def start_redo_unlocked_job_def sc_commit_def)
  then show ?thesis
    using assms l
    by (fastforce simp: dispatch_def Let_def split: option.splits sum.splits prod.splits dirty_result.splits if_splits)
qed

lemma resume_gains:
  assumes "resume x lt l sc = Some (ph', sc')"
  shows "(ends ph' \<or> ph' = Second) \<and> gains 5 sc sc'"
proof -
  have d: "(ends ph' \<or> ph' = Second) \<and> gains 5 sc sc'"
    if "dispatch x Second (lt_arg lt) f l (sc\<lparr>sc_world := w\<rparr>) = Some (ph', sc')" for f w
    using dispatch_gains [OF that] gains_cong [of sc "sc\<lparr>sc_world := w\<rparr>" sc' sc' 5] by auto
  have "ends (Failed e)" "gains 5 sc sc" "gains 5 sc (settle t FailedElsewhere (set_flag 2 (sc\<lparr>sc_world := w\<rparr>)))" for e t w
    by (simp_all add: ends_def gains_def load_def settle_def set_flag_def)
  then show ?thesis
    using assms d by (fastforce simp: resume_def Let_def split: sum.splits prod.splits if_splits)
qed

lemma ends_weight: "ends ph \<Longrightarrow> phase_weight ph = 0"
  by (auto simp: ends_def)

lemma first_target_weight:
  assumes "first_target x t ts sc = Some (ph', sc')"
  shows "weight (ph', sc') \<le> phase_weight (First ts) + load sc + 5"
proof -
  have d: "weight (ph, sc_commit sc1) \<le> phase_weight (First ts) + load sc + 5 \<and> weight (ph, sc1) \<le> phase_weight (First ts) + load sc + 5"
    if "dispatch x (First ts) t f l (sc\<lparr>sc_world := w\<rparr>) = Some (ph, sc1)" for f l w ph sc1
    using dispatch_gains [OF that] ends_weight [of ph] by (auto simp: weight_def gains_def load_def sc_commit_def)
  have "weight (First ts, sc_commit (sc\<lparr>sc_world := w, sc_locked := sc_locked sc @ [lt]\<rparr>)) \<le> phase_weight (First ts) + load sc + 5"
    "weight (Failed e, sc) \<le> phase_weight (First ts) + load sc + 5" "weight (Stop n, sc) \<le> phase_weight (First ts) + load sc + 5" for w lt e n
    by (simp_all add: weight_def load_def sc_commit_def)
  then show ?thesis
    using assms d by (fastforce simp: first_target_def Let_def split: sum.splits prod.splits if_splits bool.splits)
qed

lemma first_body_weight:
  assumes "first_body x t ts sc = Some q"
  shows "weight q < weight (First (t # ts), sc)"
proof -
  have s: "load sc2 = load sc" if "sane x (sc\<lparr>sc_seen := t # sc_seen sc\<rparr>) = (ok, sc2)" for ok sc2
    using books_sane [OF that] by (simp add: same_books_def load_def)
  have f: "weight q \<le> phase_weight (First ts) + load sc + 5" if "first_target x t ts sc2 = Some q" "load sc2 = load sc" for sc2
    using first_target_weight [of x t ts sc2 "fst q" "snd q"] that by simp
  have seen: "load (sc\<lparr>sc_seen := t # sc_seen sc\<rparr>) = load sc" by (simp add: load_def)
  have "weight q \<le> phase_weight (First ts) + load sc + 5"
    using assms s f seen
    by (auto simp: first_body_def Let_def weight_def split: if_splits prod.splits bool.splits)
  then show ?thesis by (simp add: weight_def)
qed

lemma pool_body_weight:
  assumes "pool_body x lt sc = Some (ph', sc')"
  shows "(ends ph' \<or> ph' = Second) \<and> load sc' \<le> load sc + 5 \<and> (length (sc_pool sc') \<le> length (sc_pool sc) \<longrightarrow> load sc' \<le> load sc + 4)"
proof -
  have d: "(ends ph \<or> ph = Second) \<and> load sc1 \<le> load sc + 5 \<and> (length (sc_pool sc1) \<le> length (sc_pool sc) \<longrightarrow> load sc1 \<le> load sc + 4) \<and>
      load (sc_commit sc1) = load sc1 \<and> sc_pool (sc_commit sc1) = sc_pool sc1"
    if "resume x lt l (sc\<lparr>sc_world := w\<rparr>) = Some (ph, sc1)" for l w ph sc1
    using resume_gains [OF that] by (auto simp: gains_def load_def sc_commit_def)
  have "ends (Failed e)" "load (sc\<lparr>sc_world := w, sc_locked := sc_locked sc @ [lt]\<rparr>) = load sc + 4" for e w
    by (simp_all add: ends_def load_def)
  then show ?thesis
    using assms d by (fastforce simp: pool_body_def split: sum.splits prod.splits if_splits bool.splits)
qed

lemma wait_body_weight:
  assumes "wait_body x lt sc = Some (ph', sc')"
  shows "(ends ph' \<or> ph' = Second) \<and> gains 5 sc sc'"
proof -
  have d: "(ends ph' \<or> ph' = Second) \<and> gains 5 sc sc'"
    if "resume x lt l (sc\<lparr>sc_world := w\<rparr>) = Some (ph', sc')" for l w
    using resume_gains [OF that] gains_cong [of sc "sc\<lparr>sc_world := w\<rparr>" sc' sc' 5] by auto
  have "ends (Failed e)" "gains 5 sc sc" for e by (simp_all add: ends_def gains_def load_def)
  then show ?thesis
    using assms d by (fastforce simp: wait_body_def split: sum.splits prod.splits bool.splits)
qed

lemma complete_load:
  assumes "complete_running x j sc = (crashed, sc')"
  shows "load sc' = load sc"
  using assms
  by (cases j) (auto simp: Let_def settle_def set_flag_def load_def split: prod.splits outcome.splits if_splits)

lemma take_job_load: "i < length (sc_running sc) \<Longrightarrow> load (take_job i sc) < load sc"
  by (simp add: take_job_def load_def)

text \<open>One round: the measure falls, or a target is put off.\<close>

lemma second_body_weight:
  assumes "second_body x sc = Some q" "sc_running sc = []"
  shows "weight q < weight (Second, sc) \<or> put_off (Second, sc) q \<and> weight q \<le> weight (Second, sc)"
proof -
  have s: "load sc1 = load sc \<and> sc_locked sc1 = sc_locked sc \<and> sc_pool sc1 = sc_pool sc \<and> sc_running sc1 = []"
    if "sane x (sc_commit sc) = (ok, sc1)" for ok sc1
    using books_sane [OF that] assms(2) by (simp add: same_books_def load_def sc_commit_def)
  have r: "weight q < weight (Second, sc) \<or> put_off (Second, sc) q \<and> weight q \<le> weight (Second, sc)"
    if p: "pool_body x lt (sc1\<lparr>sc_pool := ls\<rparr>) = Some q" and s1: "sc_pool sc1 = lt # ls" "sc_locked sc = []" "sc_pool sc = lt # ls"
      "load sc1 = load sc" for sc1 lt ls
  proof -
    obtain ph' sc' where q: "q = (ph', sc')" by fastforce
    have "load sc = load (sc1\<lparr>sc_pool := ls\<rparr>) + 5" using s1 by (simp add: load_def)
    with pool_body_weight [OF p [unfolded q]] ends_weight [of ph'] s1 assms(2) show ?thesis
      by (auto simp: q put_off_def weight_def not_le)
  qed
  show ?thesis
    using assms(1) s r
    by (auto simp: second_body_def Let_def weight_def load_def sc_commit_def split: if_splits prod.splits bool.splits list.splits)
qed

lemma own_step_weight:
  assumes "own_step x p q"
  shows "weight q < weight p \<or> put_off p q \<and> weight q \<le> weight p + 2"
  using assms
proof cases
  case (job_ends i sc ph crashed sc')
  then show ?thesis using complete_load [of x _ "take_job i sc" crashed sc'] take_job_load [of i sc] by (auto simp: weight_def)
next
  case (next_target t ts sc)
  then show ?thesis using first_body_weight [of x t ts sc q] by simp
next
  case (pass_over sc)
  then show ?thesis by (simp add: weight_def)
next
  case (next_round sc)
  then show ?thesis using second_body_weight [of x sc q] by auto
next
  case (lock_free lt sc)
  obtain ph' sc' where q: "q = (ph', sc')" by fastforce
  have "wait_body x lt sc = Some (ph', sc')" using lock_free q by simp
  from wait_body_weight [OF this] ends_weight [of ph'] show ?thesis
    by (auto simp: lock_free(1) q weight_def gains_def put_off_def not_less)
qed

lemma run_weight:
  assumes "sched_run x n d p q"
  shows "n + weight q \<le> weight p + 3 * d"
  using assms
proof induction
  case (work n d p q r)
  then show ?case using own_step_weight [of x q r] by auto
qed (simp_all add: weight_def load_def)

text \<open>C16. The work of \<open>redo-ifchange\<close> is bounded, whatever its jobs and the other processes do: of every run, in any
  order of events, at most 8 steps for each requested target and 3 for each time a target finds its pool full are its
  own. So it cannot run for ever: a run that does not end waits for another process, or for a slot of a pool.\<close>

theorem ifchange_work_bounded:
  assumes "sched_run x n d (First ts, sched_start w ca) q"
  shows "n \<le> 8 * length ts + 3 + 3 * d"
  using run_weight [OF assms] by (simp add: weight_def load_def sched_start_def)

theorem ifchange_work_bounded_witness:
  "\<exists>n d sc. sched_run (sched_demo Map.empty) n d (First [''t'', ''t'', ''src''], sched_start clean_world no_caches) (Stop 0, sc) \<and>
     n \<le> 27 + 3 * d"
proof -
  let ?p = "(First [''t'', ''t'', ''src''], sched_start clean_world no_caches)"
  let ?r = "drive (sched_demo Map.empty) (replicate 6 ()) ?p"
  have "fst ?r = Stop 0" by code_simp
  then have "(sched_step (sched_demo Map.empty))\<^sup>*\<^sup>* ?p (Stop 0, snd ?r)"
    using drive_reach [of "sched_demo Map.empty" ?p "replicate 6 ()"] by (metis prod.collapse)
  from steps_run [OF this] obtain n d where r: "sched_run (sched_demo Map.empty) n d ?p (Stop 0, snd ?r)" by blast
  from ifchange_work_bounded [OF this] r show ?thesis by auto
qed

subsection \<open>A process that is left alone\<close>

text \<open>With the action cache switched off no build is nested in the choice of a job.\<close>

lemma consult_off: "\<not> enabled_default_on (bc_vars c) \<Longrightarrow> consult cc c pol tmp target sf w ca = Some (Inr (RunJob False, w, ca))"
  by (simp add: consult_def)

lemma schedule_off:
  assumes "\<not> enabled_default_on (bc_vars c)"
  shows "schedule_build_one cc c t sf l w ca \<noteq> None"
proof -
  have "start_job cc c t sf1 df b l pool w1 ca \<noteq> None" for sf1 df b pool w1
    by (simp add: start_job_def Let_def consult_off [OF assms])
  then show ?thesis
    unfolding schedule_build_one_def Let_def by (auto split: sum.split option.split prod.split bool.split)
qed

lemma refresh_known:
  assumes "refresh e s f = Inr f1"
  shows "f_id f1 \<in> file_id_set s"
proof -
  obtain r where r: "sql_file_by_id (si_db s) (f_id f) = Some r" "f1 = from_row e r"
    using assms by (auto simp: refresh_def split: option.splits)
  then have "f_id f1 = r_id r" by (simp add: from_row_def)
  with find_id_Some [OF r(1)] show ?thesis unfolding file_id_set_def by (metis imageI)
qed

lemma dispatch_off:
  assumes "\<not> enabled_default_on (bc_vars (sx_build x))" "f_id f \<in> file_id_set (w_st (sc_world sc))"
  shows "dispatch x ph t f l sc \<noteq> None"
proof -
  have "launch x ph t g l sc1 \<noteq> None" for g sc1
    using schedule_off [OF assms(1), of "sx_cache x" t g "Some l" "sc_world sc1" "sc_caches sc1"]
    by (auto simp: launch_def Let_def split: option.splits sum.splits)
  then show ?thesis
    using check_file_total [OF assms(2), of "sx_preflight x" "sx_build x"]
    by (auto simp: dispatch_def Let_def split: option.splits sum.splits prod.splits dirty_result.splits)
qed

lemma resume_off:
  assumes "\<not> enabled_default_on (bc_vars (sx_build x))"
  shows "resume x lt l sc \<noteq> None"
  using dispatch_off [OF assms] refresh_known
  by (fastforce simp: resume_def Let_def split: sum.splits prod.splits)

lemma first_body_off:
  assumes "\<not> enabled_default_on (bc_vars (sx_build x))"
  shows "first_body x t ts sc \<noteq> None"
proof -
  have "dispatch x (First ts) t f1 l (sc1\<lparr>sc_world := w1\<rparr>) \<noteq> None" if "refresh (bc_env (sx_build x)) (w_st w1) f = Inr f1" for f f1 l w1 sc1
    using dispatch_off [OF assms] refresh_known [OF that] by simp
  then have "first_target x t ts sc1 \<noteq> None" for sc1
    by (auto simp: first_target_def Let_def split: sum.splits prod.splits bool.splits)
  then show ?thesis by (auto simp: first_body_def Let_def split: prod.splits bool.splits)
qed

lemma second_body_off:
  assumes "\<not> enabled_default_on (bc_vars (sx_build x))"
  shows "second_body x sc \<noteq> None"
proof -
  have "pool_body x lt sc1 \<noteq> None" for lt sc1
    using resume_off [OF assms] by (auto simp: pool_body_def split: sum.splits prod.splits bool.splits)
  then show ?thesis by (auto simp: second_body_def Let_def split: prod.splits bool.splits list.splits)
qed

text \<open>Another process holds the lock the process waits for.\<close>

definition lock_taken :: "'n sched_ctx \<Rightarrow> phase \<times> 'n sched \<Rightarrow> bool" where
  "lock_taken x p = (case fst p of
     Wait lt \<Rightarrow> \<exists>q sh. q \<noteq> bc_pid (sx_build x) \<and> (lt_fid lt, q, sh) \<in> set (w_locks (sc_world (snd p))) | _ \<Rightarrow> False)"

lemma grab_False:
  assumes "grab c fid w = Inr (False, l, w1)"
  shows "\<exists>q sh. q \<noteq> bc_pid c \<and> (fid, q, sh) \<in> set (w_locks w)"
  using assms
  by (auto simp: grab_def rbind_Inr_iff Lock_new_def Lock_trylock_def lock_region_def conflicts_def list_ex_iff split: if_splits)

lemma wait_body_off:
  assumes "\<not> enabled_default_on (bc_vars (sx_build x))" "\<not> lock_taken x (Wait lt, sc)"
  shows "wait_body x lt sc \<noteq> None"
  using assms(2) grab_False [of "sx_build x" "lt_fid lt" "sc_world sc"] resume_off [OF assms(1)]
  by (fastforce simp: wait_body_def lock_taken_def split: sum.splits prod.splits bool.splits)

definition finished :: "phase \<times> 'n sched \<Rightarrow> bool" where
  "finished p = (case fst p of Stop _ \<Rightarrow> True | Failed _ \<Rightarrow> True | Dead \<Rightarrow> True | _ \<Rightarrow> False)"

lemma own_step_possible:
  assumes "\<not> enabled_default_on (bc_vars (sx_build x))" "\<not> finished p" "\<not> lock_taken x p"
  shows "\<exists>q. own_step x p q"
proof -
  obtain ph sc where p: "p = (ph, sc)" by fastforce
  show ?thesis
  proof (cases ph)
    case (First ts)
    then show ?thesis using first_body_off [OF assms(1)] p by (cases ts) (fastforce intro: own_step.intros)+
  next
    case Second
    show ?thesis
    proof (cases "sc_running sc = []")
      case True
      then show ?thesis using second_body_off [OF assms(1), of sc] p Second by (fastforce intro: own_step.intros)
    next
      case False
      obtain crashed sc' where "complete_running x (sc_running sc ! 0) (take_job 0 sc) = (crashed, sc')" by fastforce
      then show ?thesis using own_step.job_ends [of 0 sc Second x crashed sc'] False p Second by auto
    qed
  next
    case (Wait lt)
    then show ?thesis using wait_body_off [OF assms(1), of lt sc] assms(3) p by (fastforce intro: own_step.intros)
  qed (use assms(2) p in \<open>auto simp: finished_def\<close>)
qed

text \<open>C10. Left to itself, \<open>redo-ifchange\<close> comes to its end. With the action cache switched off: from every state, by
  steps of its own, it ends, or comes to a target that another process has locked, or to one that finds its
  pool full.\<close>

theorem ifchange_comes_to_an_end:
  assumes "\<not> enabled_default_on (bc_vars (sx_build x))"
  shows "\<exists>q. (own_step x)\<^sup>*\<^sup>* p q \<and> (finished q \<or> lock_taken x q \<or> (\<exists>r. own_step x q r \<and> put_off q r))"
proof (induction "weight p" arbitrary: p rule: less_induct)
  case less
  show ?case
  proof (cases "finished p \<or> lock_taken x p")
    case False
    then obtain q where q: "own_step x p q" using own_step_possible [OF assms] by blast
    show ?thesis
    proof (cases "put_off p q")
      case f: False
      then have "weight q < weight p" using own_step_weight [OF q] by blast
      from less [OF this] q show ?thesis by (blast intro: converse_rtranclp_into_rtranclp)
    qed (use q in blast)
  qed blast
qed

theorem ifchange_comes_to_an_end_witness:
  "\<exists>q. (own_step (sched_demo [''REDO_NO_ACTION_CACHE'' \<mapsto> ''1'']))\<^sup>*\<^sup>* (First [''t'', ''src''], sched_start clean_world no_caches) q \<and>
     (finished q \<or> lock_taken (sched_demo [''REDO_NO_ACTION_CACHE'' \<mapsto> ''1'']) q \<or>
      (\<exists>r. own_step (sched_demo [''REDO_NO_ACTION_CACHE'' \<mapsto> ''1'']) q r \<and> put_off q r))"
proof (rule ifchange_comes_to_an_end)
  show "\<not> enabled_default_on (bc_vars (sx_build (sched_demo [''REDO_NO_ACTION_CACHE'' \<mapsto> ''1''])))"
    by (simp add: sched_demo_def) code_simp
qed

subsection \<open>A pool that waits for itself\<close>

text \<open>With the action cache, a missing dependency is built while its user waits. When both are in a pool whose slots
  this process holds, the build waits for a slot that is given back only after it: whatever the other
  processes do.\<close>

lemma try_slots_own:
  "\<forall>i \<in> set slots. \<exists>fid. pool_slot_fid name i = Inr fid \<and> si_locks_held s fid = Some True \<Longrightarrow>
   try_slots vs p name slots k s = Inr (None, k, s)"
  by (induction slots) (auto simp: Lock_new_def)

lemma own_pool_blocks:
  assumes "parse_redo_pool_directive (text_of (w_disk w) (path_join (dodir df) (dofile df))) = Inr (Some sp)"
    "\<forall>i < ps_depth sp. \<exists>fid. pool_slot_fid (ps_name sp) i = Inr fid \<and> si_locks_held (w_st w) fid = Some True"
  shows "build_with_rule c t sf df b (w\<lparr>w_locks := k\<rparr>) = None"
proof -
  have "try_acquire_pool vs p sp k (st_commit (w_st w)) = Inr (None, k, st_commit (w_st w))" for vs p
    unfolding try_acquire_pool_def using assms(2) by (intro try_slots_own) (auto simp: st_commit_def)
  then show ?thesis using assms(1) by (simp add: build_with_rule_def acquire_def Let_def)
qed

lemma slot_held:
  assumes "try_slots vs p name [i] k s = Inr (Some l, k1, s1)"
  shows "pool_slot_fid name i = Inr (l_fid l) \<and> si_locks_held s1 (l_fid l) = Some True"
  using assms
  by (auto simp: rbind_Inr_iff Lock_new_def Lock_trylock_def lock_region_def hold_def split: sum.splits if_splits prod.splits)

text \<open>The target \<open>sf\<close> holds the only slot of its pool; then the nested build of another target of this pool waits, in
  every state in which the slot is still held and for every kernel table of locks.\<close>

lemma pool_self_deadlock:
  assumes "find_do_for_target_no_deps (bc_env c) (w_disk w) sf = Some df"
    "parse_redo_pool_directive (text_of (w_disk w) (path_join (dodir df) (dofile df))) = Inr (Some sp)" "ps_depth sp = 1"
    "schedule_pool c sf w = Inr (True, pool, w1)" "si_locks_held (w_st w2) = si_locks_held (w_st w1)"
    "parse_redo_pool_directive (text_of (w_disk w2) (path_join (dodir df2) (dofile df2))) = Inr (Some sp)"
  shows "build_with_rule c t sf2 df2 b (w2\<lparr>w_locks := k\<rparr>) = None"
proof -
  obtain l where "try_slots (bc_vars c) (bc_pid c) (ps_name sp) [0] (w_locks w) (w_st w) = Inr (Some l, w_locks w1, w_st w1)"
    using assms(1-4) by (auto simp: schedule_pool_def rbind_Inr_iff try_acquire_pool_def)
  from slot_held [OF this] have "pool_slot_fid (ps_name sp) 0 = Inr (l_fid l)" "si_locks_held (w_st w2) (l_fid l) = Some True"
    using assms(5) by simp_all
  then have "\<forall>i < ps_depth sp. \<exists>fid. pool_slot_fid (ps_name sp) i = Inr fid \<and> si_locks_held (w_st w2) fid = Some True"
    using assms(3) by simp
  from own_pool_blocks [OF assms(6) this] show ?thesis .
qed

end
