(* ===== verification/Worklist.thy ===== *)
theory Worklist
  imports Prelude
begin

text \<open>
  The searches with a queue and a set of keys already seen, which occur in \<open>redo_browse.rs\<close> (with a
  depth), and in \<open>redo.rs\<close> and \<open>redo_log.rs\<close> (the scope of a plan): the loop over the successors of one
  key, and what a search finds in terms of the graph. A \<open>HashSet\<close> is the list of its elements.
\<close>

subsection \<open>The successors of one key\<close>

text \<open>\<open>if seen.insert(k) { q.push_back(..) }\<close> for every key; \<open>f\<close> is what is put into the queue.\<close>

fun visit :: "('a \<Rightarrow> 'b) \<Rightarrow> 'a list \<Rightarrow> 'a list \<times> 'b list \<Rightarrow> 'a list \<times> 'b list" where
  "visit f [] (seen, q) = (seen, q)"
| "visit f (x # xs) (seen, q) = visit f xs (if x \<in> set seen then (seen, q) else (x # seen, q @ [f x]))"

lemma visit_seen: "visit f xs (seen, q) = (seen', q') \<Longrightarrow> set seen' = set seen \<union> set xs"
  by (induction xs arbitrary: seen q) (fastforce split: if_splits)+

text \<open>The keys that are new, once each, in order.\<close>

lemma visit_new:
  assumes "visit f xs (seen, q) = (seen', q')"
  shows "\<exists>ns. q' = q @ map f ns \<and> seen' = rev ns @ seen \<and> set ns = set xs - set seen \<and> distinct ns"
  using assms
proof (induction xs arbitrary: seen q)
  case (Cons x xs)
  show ?case
  proof (cases "x \<in> set seen")
    case True
    with Cons.prems Cons.IH [of seen q] show ?thesis by auto
  next
    case False
    then obtain ns where "q' = (q @ [f x]) @ map f ns" "seen' = rev ns @ x # seen" "set ns = set xs - set (x # seen)" "distinct ns"
      using Cons.prems Cons.IH [of "x # seen" "q @ [f x]"] by auto
    with False show ?thesis by (intro exI [of _ "x # ns"]) auto
  qed
qed simp

lemma visit_distinct: "visit f xs (seen, q) = (seen', q') \<Longrightarrow> distinct seen \<Longrightarrow> distinct seen'"
  by (drule visit_new) auto

text \<open>Either nothing is new and the queue stays, or fewer keys of a finite set are left to be seen.\<close>

lemma visit_measure:
  assumes "visit f xs (seen, q) = (seen', q')" "finite U" "set xs \<subseteq> U"
  shows "card (U - set seen') < card (U - set seen) \<or> set seen' = set seen \<and> q' = q"
proof -
  obtain ns where ns: "q' = q @ map f ns" "seen' = rev ns @ seen" "set ns = set xs - set seen" using visit_new [OF assms(1)] by blast
  show ?thesis
  proof (cases ns)
    case (Cons n ms)
    then have "n \<in> U - set seen" "n \<in> set seen'" using ns assms(3) by auto
    moreover have "U - set seen' \<subseteq> U - set seen" using ns(2) by auto
    ultimately show ?thesis using assms(2) by (metis DiffD2 finite_Diff psubsetI psubset_card_mono)
  qed (use ns in simp)
qed

subsection \<open>The keys within reach\<close>

definition step_rel :: "('a \<Rightarrow> 'a list) \<Rightarrow> ('a \<times> 'a) set" where
  "step_rel succs = {(x, y). y \<in> set (succs x)}"

definition within :: "('a \<Rightarrow> 'a list) \<Rightarrow> nat \<Rightarrow> 'a \<Rightarrow> 'a set" where
  "within succs n x = {y. \<exists>k \<le> n. (x, y) \<in> step_rel succs ^^ k}"

definition closure :: "('a \<Rightarrow> 'a list) \<Rightarrow> 'a set \<Rightarrow> 'a set" where
  "closure succs X = {y. \<exists>x \<in> X. (x, y) \<in> (step_rel succs)\<^sup>*}"

lemma within_refl [simp]: "x \<in> within succs n x"
  unfolding within_def by (intro CollectI exI [of _ 0]) simp

lemma within_0 [simp]: "within succs 0 x = {x}"
  by (auto simp: within_def)

lemma within_Suc:
  assumes "z \<in> within succs n x" "y \<in> set (succs z)" shows "y \<in> within succs (Suc n) x"
proof -
  obtain k where k: "k \<le> n" "(x, z) \<in> step_rel succs ^^ k" using assms(1) by (auto simp: within_def)
  have "(z, y) \<in> step_rel succs" using assms(2) by (simp add: step_rel_def)
  with k(2) have "(x, y) \<in> step_rel succs ^^ Suc k" by (rule relpow_Suc_I)
  with k(1) show ?thesis unfolding within_def by (intro CollectI exI [of _ "Suc k"]) simp
qed

lemma closure_step: "z \<in> closure succs X \<Longrightarrow> y \<in> set (succs z) \<Longrightarrow> y \<in> closure succs X"
  unfolding closure_def step_rel_def by (auto intro: rtrancl_into_rtrancl)

lemma closure_least:
  assumes "X \<subseteq> S" "\<And>z y. z \<in> S \<Longrightarrow> y \<in> set (succs z) \<Longrightarrow> y \<in> S"
  shows "closure succs X \<subseteq> S"
proof
  fix y assume "y \<in> closure succs X"
  then obtain x where x: "x \<in> X" "(x, y) \<in> (step_rel succs)\<^sup>*" by (auto simp: closure_def)
  from x(2) show "y \<in> S" by (induction rule: rtrancl_induct) (use x(1) assms in \<open>auto simp: step_rel_def\<close>)
qed

text \<open>A search by levels: \<open>A\<close> is what is left of the level \<open>d\<close>, \<open>B\<close> what was found of the next one, \<open>E\<close> the keys
  whose successors have been visited.\<close>

lemma within_mono: "m \<le> n \<Longrightarrow> within succs m x \<subseteq> within succs n x"
  by (auto simp: within_def intro: order_trans)

lemma within_Suc_iff: "within succs (Suc n) x = within succs n x \<union> (\<Union>z \<in> within succs n x. set (succs z))"
proof (intro equalityI subsetI)
  fix y assume "y \<in> within succs (Suc n) x"
  then obtain k where k: "k \<le> Suc n" "(x, y) \<in> step_rel succs ^^ k" by (auto simp: within_def)
  show "y \<in> within succs n x \<union> (\<Union>z \<in> within succs n x. set (succs z))"
  proof (cases k)
    case (Suc j)
    with k obtain z where "(x, z) \<in> step_rel succs ^^ j" "(z, y) \<in> step_rel succs" by auto
    with k(1) Suc show ?thesis by (auto simp: within_def step_rel_def)
  qed (use k in auto)
next
  fix y assume "y \<in> within succs n x \<union> (\<Union>z \<in> within succs n x. set (succs z))"
  then show "y \<in> within succs (Suc n) x"
    using within_mono [of n "Suc n" succs x] by (auto intro: within_Suc)
qed

lemma within_stable:
  assumes "within succs (Suc d) x \<subseteq> within succs d x" "d \<le> n"
  shows "within succs n x = within succs d x"
  using assms(2)
proof (induction n rule: dec_induct)
  case (step n)
  then show ?case using assms(1) within_Suc_iff [of succs d x] within_Suc_iff [of succs n x] by auto
qed simp

definition before :: "('a \<Rightarrow> 'a list) \<Rightarrow> nat \<Rightarrow> 'a \<Rightarrow> 'a set" where
  "before succs n x = (case n of 0 \<Rightarrow> {} | Suc m \<Rightarrow> within succs m x)"

lemma before_within: "before succs n x \<subseteq> within succs n x"
  using within_mono [of "n - 1" n succs x] by (cases n) (simp_all add: before_def)

definition level :: "('a \<Rightarrow> 'a list) \<Rightarrow> 'a \<Rightarrow> nat \<Rightarrow> 'a set \<Rightarrow> 'a set \<Rightarrow> 'a set \<Rightarrow> 'a set \<Rightarrow> bool" where
  "level succs x d A B seen E \<longleftrightarrow>
     before succs d x \<subseteq> E \<and> E \<union> A = within succs d x \<and> seen = within succs d x \<union> B \<and> B \<subseteq> within succs (Suc d) x \<and>
     within succs (Suc d) x \<subseteq> seen \<union> (\<Union>a \<in> A. set (succs a))"

lemma level_start: "level succs x 0 {x} {} {x} {}"
  by (simp add: level_def before_def within_Suc_iff)

lemma level_visit:
  assumes "level succs x d (insert a A) B seen E" "N = set (succs a) - seen"
  shows "level succs x d A (B \<union> N) (seen \<union> N) (insert a E)"
  using assms by (auto simp: level_def within_Suc_iff)

lemma level_next:
  assumes "level succs x d {} B seen E" shows "level succs x (Suc d) B {} seen E"
proof -
  have "within succs (Suc d) x = seen" "seen = E \<union> B" "E = within succs d x" using assms by (auto simp: level_def within_Suc_iff)
  moreover from this have "(\<Union>a \<in> E. set (succs a)) \<subseteq> seen" by (auto simp: within_Suc_iff)
  ultimately show ?thesis by (auto simp: level_def before_def within_Suc_iff [of succs "Suc d"])
qed

lemma level_done: "level succs x d {} {} seen E \<Longrightarrow> d \<le> n \<Longrightarrow> within succs n x = seen \<and> E = seen"
  using within_stable [of succs d x n] by (auto simp: level_def)

subsection \<open>A search without depths\<close>

text \<open>\<open>while let Some(k) = q.pop_front()\<close> over the successors that are among \<open>U\<close>; \<open>stop\<close> says of the keys seen that
  the search is given up (\<open>None\<close>).\<close>

lemma visit_filter_measure:
  "visit f (filter (\<lambda>d. d \<in> set U) xs) (seen, q) = (seen', q') \<Longrightarrow>
     card (set U - set seen') < card (set U - set seen) \<or> set seen' = set seen \<and> q' = q"
  by (erule visit_measure) auto

function search :: "('a \<Rightarrow> 'a list) \<Rightarrow> 'a list \<Rightarrow> ('a list \<Rightarrow> bool) \<Rightarrow> 'a list \<Rightarrow> 'a list \<Rightarrow> 'a list option" where
  "search succs U stop [] seen = Some seen"
| "search succs U stop (k # q) seen =
     (if stop seen then None
      else case visit id (filter (\<lambda>d. d \<in> set U) (succs k)) (seen, q) of (seen1, q1) \<Rightarrow> search succs U stop q1 seen1)"
  by pat_completeness auto
termination
  by (relation "measures [\<lambda>(succs, U, stop, q, seen). card (set U - set seen), \<lambda>(succs, U, stop, q, seen). length q]")
    (auto dest!: visit_filter_measure [OF sym])

declare search.simps(2) [simp del]

definition planned :: "('a \<Rightarrow> 'a list) \<Rightarrow> 'a list \<Rightarrow> 'a \<Rightarrow> 'a list" where
  "planned succs U k = filter (\<lambda>d. d \<in> set U) (succs k)"

lemma search_closed:
  assumes "search succs U stop q seen = Some seen'" "set q \<subseteq> set seen" "set seen \<subseteq> closure (planned succs U) X"
    "\<forall>z \<in> set seen - set q. set (planned succs U z) \<subseteq> set seen" "distinct seen"
  shows "set seen \<subseteq> set seen' \<and> set seen' \<subseteq> closure (planned succs U) X \<and>
    (\<forall>z \<in> set seen'. set (planned succs U z) \<subseteq> set seen') \<and> distinct seen'"
  using assms
proof (induction succs U stop q seen rule: search.induct)
  case (2 succs U stop k q seen)
  obtain seen1 q1 where v: "visit id (planned succs U k) (seen, q) = (seen1, q1)" by fastforce
  then obtain ns where ns: "q1 = q @ ns" "seen1 = rev ns @ seen" "set ns = set (planned succs U k) - set seen"
    using visit_new by fastforce
  have s: "\<not> stop seen" "search succs U stop q1 seen1 = Some seen'"
    using "2.prems"(1) v by (auto simp: search.simps planned_def split: if_splits)
  have k: "k \<in> closure (planned succs U) X" using "2.prems"(2,3) by auto
  have c: "set seen1 \<subseteq> closure (planned succs U) X"
    using "2.prems"(3) ns closure_step [OF k] by auto
  have "\<forall>z \<in> set seen1 - set q1. set (planned succs U z) \<subseteq> set seen1"
  proof
    fix z assume "z \<in> set seen1 - set q1"
    then have "z \<in> set seen" "z \<notin> set q" using ns by auto
    then show "set (planned succs U z) \<subseteq> set seen1" using "2.prems"(4) ns by (cases "z = k") auto
  qed
  moreover have "set q1 \<subseteq> set seen1" "distinct seen1" using "2.prems"(2,5) ns visit_distinct [OF v] by auto
  ultimately have "set seen1 \<subseteq> set seen' \<and> set seen' \<subseteq> closure (planned succs U) X \<and>
      (\<forall>z \<in> set seen'. set (planned succs U z) \<subseteq> set seen') \<and> distinct seen'"
    by (intro "2.IH" [OF s(1) v [unfolded planned_def, symmetric] s(2)] c)
  then show ?case using ns by auto
qed auto

lemma search_closure:
  assumes "search succs U stop (rev ks) ks = Some seen" "distinct ks"
  shows "set seen = closure (planned succs U) (set ks)" "distinct seen"
proof -
  have "set ks \<subseteq> closure (planned succs U) (set ks)" by (auto simp: closure_def)
  then have s: "set ks \<subseteq> set seen \<and> set seen \<subseteq> closure (planned succs U) (set ks) \<and>
      (\<forall>z \<in> set seen. set (planned succs U z) \<subseteq> set seen) \<and> distinct seen"
    using search_closed [OF assms(1), of "set ks"] assms(2) by simp
  then have "closure (planned succs U) (set ks) \<subseteq> set seen" by (intro closure_least) auto
  with s show "set seen = closure (planned succs U) (set ks)" "distinct seen" by auto
qed

lemma search_total: "\<exists>seen'. search succs U (\<lambda>_. False) q seen = Some seen'"
  by (induction succs U "\<lambda>_ :: 'a list. False" q seen rule: search.induct) (auto simp: search.simps split: prod.splits)

lemma closure_planned: "X \<subseteq> set U \<Longrightarrow> closure (planned succs U) X \<subseteq> set U"
  by (rule closure_least) (auto simp: planned_def)

end
