(* ===== verification/Browse.thy ===== *)
theory Browse
  imports State Http Worklist "HOL-Library.Char_ord" "HOL-Library.List_Lexorder" "HOL-Library.Product_Lexorder"
begin

text \<open>
  The graph server \<open>redo-browse\<close> (\<open>bins/src/redo_browse.rs\<close>): the dependency graph read from the database,
  its queries, and the HTTP requests that ask them. Row ids and names are unique in the database, so
  the two hash maps of nodes are look-ups in the list of nodes. The page \<open>index_html\<close> is a constant
  text and a parameter here; bytes decoded with \<open>from_utf8_lossy\<close> are taken to be valid UTF-8.
\<close>

subsection \<open>The graph\<close>

record node =
  nd_id :: int
  nd_name :: string
  nd_generated :: bool

record edge =
  ed_other :: int
  ed_mode :: char

record graph =
  gr_nodes :: "node list"
  gr_forward :: "(int \<times> edge list) list"
  gr_reverse :: "(int \<times> edge list) list"

datatype dir = Forward | Reverse | Both

definition dir_parse :: "string \<Rightarrow> dir option" where
  "dir_parse s =
     (if s = ''forward'' \<or> s = ''fwd'' then Some Forward
      else if s = ''reverse'' \<or> s = ''rev'' then Some Reverse
      else if s = ''both'' then Some Both else None)"

definition dir_str :: "dir \<Rightarrow> string" where
  "dir_str d = (case d of Forward \<Rightarrow> ''forward'' | Reverse \<Rightarrow> ''reverse'' | Both \<Rightarrow> ''both'')"

text \<open>\<open>map.entry(k).or_default().push(e)\<close>, and \<open>Vec::dedup_by_key\<close>.\<close>

fun push_edge :: "int \<Rightarrow> edge \<Rightarrow> (int \<times> edge list) list \<Rightarrow> (int \<times> edge list) list" where
  "push_edge k e [] = [(k, [e])]"
| "push_edge k e ((k', es) # al) = (if k = k' then (k', es @ [e]) # al else (k', es) # push_edge k e al)"

fun dedup_by :: "('a \<Rightarrow> 'b) \<Rightarrow> 'a list \<Rightarrow> 'a list" where
  "dedup_by f (x # y # xs) = (if f x = f y then dedup_by f (x # xs) else x # dedup_by f (y # xs))"
| "dedup_by f xs = xs"

definition tidy_edges :: "edge list \<Rightarrow> edge list" where
  "tidy_edges es = dedup_by ed_other (sort_key ed_other es)"

definition dep_mode :: "dep_row \<Rightarrow> char" where
  "dep_mode d = (case d_mode d of [] \<Rightarrow> CHR ''m'' | c # _ \<Rightarrow> c)"

definition live_rows :: "database \<Rightarrow> dep_row list" where
  "live_rows db = filter (\<lambda>d. d_delete_me d = 0) (db_deps db)"

definition graph_load :: "database \<Rightarrow> graph" where
  "graph_load db =
     \<lparr>gr_nodes = map (\<lambda>r. \<lparr>nd_id = r_id r, nd_name = r_name r, nd_generated = unwrap_or (r_is_generated r) 0 \<noteq> 0\<rparr>) (db_files db),
      gr_forward = map (apsnd tidy_edges)
        (foldl (\<lambda>al d. push_edge (d_target d) \<lparr>ed_other = d_source d, ed_mode = dep_mode d\<rparr> al) [] (live_rows db)),
      gr_reverse = map (apsnd tidy_edges)
        (foldl (\<lambda>al d. push_edge (d_source d) \<lparr>ed_other = d_target d, ed_mode = dep_mode d\<rparr> al) [] (live_rows db))\<rparr>"

definition node_by_id :: "graph \<Rightarrow> int \<Rightarrow> node option" where
  "node_by_id g i = List.find (\<lambda>n. nd_id n = i) (gr_nodes g)"

definition id_by_name :: "graph \<Rightarrow> string \<Rightarrow> int option" where
  "id_by_name g s = map_option nd_id (List.find (\<lambda>n. nd_name n = s) (gr_nodes g))"

subsection \<open>Search and suggestions\<close>

definition browse_search :: "graph \<Rightarrow> string \<Rightarrow> nat \<Rightarrow> node list" where
  "browse_search g q0 limit =
     (let q = trim q0 in
      if q = [] then []
      else take limit (sort_key nd_name
             (filter (\<lambda>n. find_sub (to_ascii_lowercase q) (to_ascii_lowercase (nd_name n)) \<noteq> None) (gr_nodes g))))"

definition entry_points :: "graph \<Rightarrow> int list" where
  "entry_points g = remdups (List.map_filter (id_by_name g) [''all'', ''cmake'', ''install'', ''clean''])"

definition by_degree :: "graph \<Rightarrow> (nat \<times> int) list" where
  "by_degree g =
     sort_key (\<lambda>(deg, i). (- int deg, i))
       (filter (\<lambda>(deg, i). deg \<noteq> 0)
         (map (\<lambda>n. (case map_of (gr_reverse g) (nd_id n) of None \<Rightarrow> 0 | Some es \<Rightarrow> length es, nd_id n))
           (filter nd_generated (gr_nodes g))))"

text \<open>The loop stops when there are enough; the entry points are not counted against the limit before.\<close>

fun fill_up :: "nat \<Rightarrow> (nat \<times> int) list \<Rightarrow> int list \<Rightarrow> int list" where
  "fill_up limit [] out = out"
| "fill_up limit ((_, i) # xs) out =
     (if length out \<ge> limit then out else fill_up limit xs (if i \<in> set out then out else out @ [i]))"

definition suggest :: "graph \<Rightarrow> nat \<Rightarrow> node list" where
  "suggest g limit = List.map_filter (node_by_id g) (fill_up limit (by_degree g) (entry_points g))"

subsection \<open>The part of the graph around a node\<close>

record link =
  lk_source :: int
  lk_target :: int
  lk_mode :: char

definition edges_of :: "(int \<times> edge list) list \<Rightarrow> int \<Rightarrow> edge list" where
  "edges_of al i = unwrap_or (map_of al i) []"

definition others :: "(int \<times> edge list) list \<Rightarrow> int \<Rightarrow> int list" where
  "others al i = map ed_other (edges_of al i)"

definition all_others :: "(int \<times> edge list) list \<Rightarrow> int set" where
  "all_others al = ed_other ` set (concat (map snd al))"

lemma others_all: "set (others al i) \<subseteq> all_others al"
proof (cases "map_of al i")
  case (Some es)
  then have "(i, es) \<in> set al" by (rule map_of_SomeD)
  with Some show ?thesis by (force simp: others_def edges_of_def all_others_def unwrap_or_def)
qed (simp add: others_def edges_of_def unwrap_or_def)

lemma finite_all_others [simp]: "finite (all_others al)"
  by (simp add: all_others_def)

text \<open>One traversal: the queue of ids with their depths, the ids seen, and what is collected. \<open>mk\<close> makes a
  link of the id and one of its edges. An id without an entry has no edges.\<close>

function traverse ::
  "(int \<times> edge list) list \<Rightarrow> nat \<Rightarrow> (int \<Rightarrow> edge \<Rightarrow> link) \<Rightarrow> (int \<times> nat) list \<Rightarrow> int list \<Rightarrow> int list \<Rightarrow> link list
   \<Rightarrow> int list \<times> link list" where
  "traverse al depth mk [] seen nodes links = (nodes, links)"
| "traverse al depth mk ((i, d) # q) seen nodes links =
     (if d \<ge> depth then traverse al depth mk q seen nodes links
      else case visit (\<lambda>k. (k, d + 1)) (others al i) (seen, q) of
             (seen1, q1) \<Rightarrow>
               traverse al depth mk q1 seen1 (fold List.insert (others al i) nodes) (links @ map (mk i) (edges_of al i)))"
  by pat_completeness auto
termination
  by (relation "measures [\<lambda>(al, depth, mk, q, seen, nodes, links). card (all_others al - set seen),
     \<lambda>(al, depth, mk, q, seen, nodes, links). length q]")
    (auto dest!: visit_measure [OF sym finite_all_others others_all])

record subgraph =
  sg_root :: string
  sg_depth :: nat
  sg_dir :: string
  sg_nodes :: "(string \<times> bool) list"
  sg_links :: "(string \<times> string \<times> char) list"

definition walk :: "graph \<Rightarrow> dir \<Rightarrow> nat \<Rightarrow> int \<Rightarrow> int list \<times> link list" where
  "walk g dir depth root =
     (let fwd = (if dir = Forward \<or> dir = Both
                 then traverse (gr_forward g) depth (\<lambda>i e. \<lparr>lk_source = i, lk_target = ed_other e, lk_mode = ed_mode e\<rparr>) [(root, 0)] [root] [root] []
                 else ([root], []))
      in if dir = Reverse \<or> dir = Both
         then traverse (gr_reverse g) depth (\<lambda>i e. \<lparr>lk_source = ed_other e, lk_target = i, lk_mode = ed_mode e\<rparr>) [(root, 0)] [root] (fst fwd) (snd fwd)
         else fwd)"

text \<open>\<open>{:?}\<close> of a string.\<close>

definition hex_digit :: "nat \<Rightarrow> char" where
  "hex_digit n = (if n < 10 then char_of (48 + n) else char_of (87 + n))"

definition debug_char :: "char \<Rightarrow> string" where
  "debug_char c =
     (let n = of_char c :: nat in
      if c = CHR ''\"'' then [CHR 0x5C, CHR ''\"'']
      else if n = 92 then [CHR 0x5C, CHR 0x5C]
      else if n = 10 then [CHR 0x5C, CHR ''n'']
      else if n = 13 then [CHR 0x5C, CHR ''r'']
      else if n = 9 then [CHR 0x5C, CHR ''t'']
      else if n = 0 then [CHR 0x5C, CHR ''0'']
      else if n < 16 then [CHR 0x5C, CHR ''u'', CHR ''{'', hex_digit n, CHR ''}'']
      else if n < 32 \<or> n = 127 then [CHR 0x5C, CHR ''u'', CHR ''{'', hex_digit (n div 16), hex_digit (n mod 16), CHR ''}'']
      else [c])"

definition debug_str :: "string \<Rightarrow> string" where
  "debug_str s = ''\"'' @ concat (map debug_char s) @ ''\"''"

definition browse_subgraph :: "graph \<Rightarrow> string \<Rightarrow> nat \<Rightarrow> dir \<Rightarrow> subgraph res" where
  "browse_subgraph g root depth dir =
     (case id_by_name g root of
        None \<Rightarrow> Inl (Msg (''unknown node '' @ debug_str root))
      | Some i \<Rightarrow>
          (let (nodes, links) = walk g dir depth i;
               links1 = dedup_by (\<lambda>l. (lk_source l, lk_target l)) (sort_key (\<lambda>l. (lk_source l, lk_target l)) links)
           in Inr \<lparr>sg_root = root, sg_depth = depth, sg_dir = dir_str dir,
                   sg_nodes = sort_key fst (map (\<lambda>n. (nd_name n, nd_generated n)) (List.map_filter (node_by_id g) nodes)),
                   sg_links = List.map_filter (\<lambda>l.
                     case (node_by_id g (lk_source l), node_by_id g (lk_target l)) of
                       (Some a, Some b) \<Rightarrow> Some (nd_name a, nd_name b, lk_mode l)
                     | _ \<Rightarrow> None) links1\<rparr>))"

end
