(* ===== verification/Browse_Http.thy ===== *)
theory Browse_Http
  imports Browse Env_Cycles
begin

text \<open>
  The command line of \<open>redo-browse\<close>, its HTTP requests and answers, and the JSON it writes
  (\<open>bins/src/redo_browse.rs\<close>). A connection is the list of results of its \<open>read\<close> calls, and the answer is
  the text written to it.
\<close>

subsection \<open>The command line\<close>

record browse_opts =
  bo_base :: "string option"
  bo_host :: string
  bo_port :: nat
  bo_depth :: nat
  bo_dir :: dir
  bo_dump_json :: "string option"

definition browse_defaults :: browse_opts where
  "browse_defaults = \<lparr>bo_base = None, bo_host = ''127.0.0.1'', bo_port = 8000, bo_depth = 2, bo_dir = Both, bo_dump_json = None\<rparr>"

definition opt_arg :: "string list \<Rightarrow> string option" where
  "opt_arg as = (case as of [] \<Rightarrow> None | a # _ \<Rightarrow> Some a)"

definition set_port :: "string option \<Rightarrow> browse_opts \<Rightarrow> browse_opts" where
  "set_port v bo = bo\<lparr>bo_port := unwrap_or (Option.bind v (parse_uint 16)) (bo_port bo)\<rparr>"

definition set_depth :: "string option \<Rightarrow> browse_opts \<Rightarrow> browse_opts" where
  "set_depth v bo = bo\<lparr>bo_depth := unwrap_or (Option.bind v (parse_uint 64)) (bo_depth bo)\<rparr>"

definition set_dir :: "string option \<Rightarrow> browse_opts \<Rightarrow> browse_opts" where
  "set_dir v bo = bo\<lparr>bo_dir := unwrap_or (Option.bind v dir_parse) (bo_dir bo)\<rparr>"

text \<open>\<open>--name=value\<close>: the options in the order they are tried.\<close>

definition long_opt :: "string \<Rightarrow> browse_opts \<Rightarrow> browse_opts option" where
  "long_opt a bo =
     (case strip_prefix ''--base='' a of Some v \<Rightarrow> Some (bo\<lparr>bo_base := Some v\<rparr>) | None \<Rightarrow>
      case strip_prefix ''--host='' a of Some v \<Rightarrow> Some (bo\<lparr>bo_host := v\<rparr>) | None \<Rightarrow>
      case strip_prefix ''--port='' a of Some v \<Rightarrow> Some (set_port (Some v) bo) | None \<Rightarrow>
      case strip_prefix ''--depth='' a of Some v \<Rightarrow> Some (set_depth (Some v) bo) | None \<Rightarrow>
      case strip_prefix ''--dir='' a of Some v \<Rightarrow> Some (set_dir (Some v) bo) | None \<Rightarrow>
      case strip_prefix ''--dump-json='' a of Some v \<Rightarrow> Some (bo\<lparr>bo_dump_json := Some v\<rparr>) | None \<Rightarrow> None)"

text \<open>An option that takes its value from the next argument swallows it, also when the value does not parse; \<open>None\<close>
  is \<open>--help\<close>. Arguments after the first positional one are ignored.\<close>

function parse_browse_args :: "string list \<Rightarrow> browse_opts \<Rightarrow> browse_opts option" where
  "parse_browse_args [] bo = Some bo"
| "parse_browse_args (a # as) bo =
     (if a = ''--base'' then parse_browse_args (tl as) (bo\<lparr>bo_base := opt_arg as\<rparr>)
      else if a = ''--host'' then parse_browse_args (tl as) (bo\<lparr>bo_host := unwrap_or (opt_arg as) (bo_host bo)\<rparr>)
      else if a = ''--port'' then parse_browse_args (tl as) (set_port (opt_arg as) bo)
      else if a = ''--depth'' then parse_browse_args (tl as) (set_depth (opt_arg as) bo)
      else if a = ''--dir'' then parse_browse_args (tl as) (set_dir (opt_arg as) bo)
      else if a = ''--dump-json'' then parse_browse_args (tl as) (bo\<lparr>bo_dump_json := opt_arg as\<rparr>)
      else case long_opt a bo of
        Some bo' \<Rightarrow> parse_browse_args as bo'
      | None \<Rightarrow>
          if a = ''--help'' \<or> a = ''-h'' then None
          else if bo_dump_json bo = None then parse_browse_args as (bo\<lparr>bo_dump_json := Some a\<rparr>)
          else parse_browse_args as bo)"
  by pat_completeness auto
termination by (relation "measure (\<lambda>(as, bo). length as)") auto

text \<open>The base directory: the option, \<open>REDO_BASE\<close>, or the nearest directory above that has a database. The number
  of components bounds the calls of \<open>pop\<close>.\<close>

fun base_up :: "nat \<Rightarrow> (string \<Rightarrow> bool) \<Rightarrow> string \<Rightarrow> string option" where
  "base_up 0 ex cur = None"
| "base_up (Suc n) ex cur =
     (if ex (path_join (path_join cur ''.redo'') ''db.sqlite3'') then Some cur
      else case path_parent cur of None \<Rightarrow> None | Some p \<Rightarrow> base_up n ex p)"

definition find_base_upwards :: "(string \<Rightarrow> bool) \<Rightarrow> string \<Rightarrow> string option" where
  "find_base_upwards ex start = base_up (Suc (length (path_components start))) ex start"

definition resolve_base :: "(string \<Rightarrow> bool) \<Rightarrow> vars \<Rightarrow> string \<Rightarrow> string option \<Rightarrow> string res" where
  "resolve_base ex vs cwd base_arg =
     (case base_arg of Some b \<Rightarrow> Inr b
      | None \<Rightarrow>
          let up = (case find_base_upwards ex cwd of Some b \<Rightarrow> Inr b
            | None \<Rightarrow> Inl (Msg ''redo-browse: could not find .redo/db.sqlite3 (run from a build directory, or pass --base)''))
          in case vs ''REDO_BASE'' of
               Some b \<Rightarrow> if trim b \<noteq> [] then Inr b else up
             | None \<Rightarrow> up)"

text \<open>The first of at most 51 ports that can be bound. \<open>addr_ok\<close> stands for parsing a \<open>SocketAddr\<close> (a numeric
  address is needed), \<open>bind\<close> for \<open>TcpListener::bind\<close>.\<close>

fun bind_ports :: "(string \<Rightarrow> bool) \<Rightarrow> (nat \<Rightarrow> bool) \<Rightarrow> string \<Rightarrow> nat list \<Rightarrow> nat option res" where
  "bind_ports addr_ok bind host [] = Inr None"
| "bind_ports addr_ok bind host (p # ps) =
     (if \<not> addr_ok (host @ '':'' @ show_nat p) then Inl (Msg ''invalid socket address syntax'')
      else if bind p then Inr (Some p) else bind_ports addr_ok bind host ps)"

definition bind_with_fallback :: "(string \<Rightarrow> bool) \<Rightarrow> (nat \<Rightarrow> bool) \<Rightarrow> string \<Rightarrow> nat \<Rightarrow> nat res" where
  "bind_with_fallback addr_ok bind host port =
     rbind (bind_ports addr_ok bind host [port..<Suc (min (port + 50) 65535)]) (\<lambda>r. case r of
        Some p \<Rightarrow> Inr p
      | None \<Rightarrow> Inl (Msg (''redo-browse: could not bind to '' @ host @ '':'' @ show_nat port @ ''..'' @ show_nat port @ ''+50'')))"

subsection \<open>JSON\<close>

definition json_char :: "char \<Rightarrow> string" where
  "json_char c =
     (let n = of_char c :: nat in
      if c = CHR ''\"'' then [CHR 0x5C, CHR ''\"'']
      else if n = 92 then [CHR 0x5C, CHR 0x5C]
      else if n = 10 then [CHR 0x5C, CHR ''n'']
      else if n = 13 then [CHR 0x5C, CHR ''r'']
      else if n = 9 then [CHR 0x5C, CHR ''t'']
      else if n < 32 then [CHR 0x5C, CHR ''u'', CHR ''0'', CHR ''0'', hex_digit (n div 16), hex_digit (n mod 16)]
      else [c])"

definition json_escape :: "string \<Rightarrow> string" where
  "json_escape s = concat (map json_char s)"

definition bool_json :: "bool \<Rightarrow> string" where
  "bool_json b = (if b then ''true'' else ''false'')"

definition node_json :: "string \<times> bool \<Rightarrow> string" where
  "node_json n = ''{\"name\":\"'' @ json_escape (fst n) @ ''\",\"generated\":'' @ bool_json (snd n) @ ''}''"

definition link_json :: "string \<times> string \<times> char \<Rightarrow> string" where
  "link_json l = (case l of (s, t, m) \<Rightarrow>
     ''{\"source\":\"'' @ json_escape s @ ''\",\"target\":\"'' @ json_escape t @ ''\",\"mode\":\"'' @ [m] @ ''\"}'')"

definition to_json :: "subgraph \<Rightarrow> string" where
  "to_json sg =
     ''{\"root\":\"'' @ json_escape (sg_root sg) @ ''\",\"depth\":'' @ show_nat (sg_depth sg) @
     '',\"dir\":\"'' @ json_escape (sg_dir sg) @ ''\",\"nodes\":['' @ join_with '','' (map node_json (sg_nodes sg)) @
     ''],\"links\":['' @ join_with '','' (map link_json (sg_links sg)) @ '']}''"

subsection \<open>Requests\<close>

definition from_hex :: "char \<Rightarrow> nat option" where
  "from_hex c =
     (let n = of_char c :: nat in
      if 48 \<le> n \<and> n \<le> 57 then Some (n - 48)
      else if 97 \<le> n \<and> n \<le> 102 then Some (n - 97 + 10)
      else if 65 \<le> n \<and> n \<le> 70 then Some (n - 65 + 10) else None)"

fun url_decode :: "string \<Rightarrow> string" where
  "url_decode [] = []"
| "url_decode (c # s) =
     (if c = CHR ''+'' then CHR '' '' # url_decode s
      else case (c = CHR ''%'', s) of
        (True, x # y # r) \<Rightarrow>
          (case (from_hex x, from_hex y) of
             (Some a, Some b) \<Rightarrow> char_of (16 * a + b) # url_decode r
           | _ \<Rightarrow> c # url_decode s)
      | _ \<Rightarrow> c # url_decode s)"

definition query_part :: "string \<Rightarrow> vars \<Rightarrow> vars" where
  "query_part part m =
     (if part = [] then m
      else case split_once (CHR ''='') part of
        Some (k, v) \<Rightarrow> m(url_decode k \<mapsto> url_decode v)
      | None \<Rightarrow> m(url_decode part \<mapsto> url_decode []))"

definition parse_query :: "string \<Rightarrow> vars" where
  "parse_query qs = fold query_part (split_on (CHR ''&'') qs) Map.empty"

definition split_path_query :: "string \<Rightarrow> string \<times> vars" where
  "split_path_query uri =
     (case split_once (CHR ''?'') uri of
        Some (p, q) \<Rightarrow> (p, parse_query q) | None \<Rightarrow> (uri, parse_query []))"

datatype read_result = Bytes string | WouldBlock | ReadError

text \<open>Nothing more to read is a closed connection. A request that does not end its headers in time is taken as it is.\<close>

fun read_data :: "read_result list \<Rightarrow> string \<Rightarrow> string option res" where
  "read_data [] acc = Inr None"
| "read_data (Bytes b # rs) acc =
     (if b = [] then Inr None
      else let acc' = acc @ b in
        if find_sub (CRLF @ CRLF) acc' \<noteq> None then Inr (Some acc')
        else if length acc' > 64 * 1024 then Inr (Some acc')
        else read_data rs acc')"
| "read_data (WouldBlock # rs) acc = Inr (Some acc)"
| "read_data (ReadError # rs) acc = Inl (IoError ''read'')"

definition read_request :: "read_result list \<Rightarrow> (string \<times> string) option res" where
  "read_request rs =
     rbind (read_data rs []) (\<lambda>od. case od of
        None \<Rightarrow> Inr None
      | Some text \<Rightarrow>
          (case str_lines text of
             [] \<Rightarrow> Inr None
           | line # _ \<Rightarrow> Inr (Some (case split_ws line of
               [] \<Rightarrow> ([], ''/'') | [m] \<Rightarrow> (m, ''/'') | m # u # _ \<Rightarrow> (m, u)))))"

subsection \<open>Answers\<close>

definition write_response :: "string \<Rightarrow> string \<Rightarrow> string \<Rightarrow> string" where
  "write_response status ctype body =
     ''HTTP/1.1 '' @ status @ CRLF @ header_line (''Content-Type'', ctype) @
     header_line (''Content-Length'', show_nat (length body)) @ header_line (''Connection'', ''close'') @ CRLF @ body"

definition text_type :: string where "text_type = ''text/plain; charset=utf-8''"
definition json_type :: string where "json_type = ''application/json; charset=utf-8''"

definition nodes_json :: "string \<Rightarrow> node list \<Rightarrow> string" where
  "nodes_json key ns =
     ''{\"'' @ key @ ''\":['' @ join_with '','' (map (\<lambda>n. node_json (nd_name n, nd_generated n)) ns) @ '']}''"

definition query_num :: "vars \<Rightarrow> string \<Rightarrow> nat \<Rightarrow> nat" where
  "query_num q k d = unwrap_or (Option.bind (q k) (parse_uint 64)) d"

definition answer_subgraph :: "graph \<Rightarrow> vars \<Rightarrow> string" where
  "answer_subgraph g q =
     (case q ''name'' of
        None \<Rightarrow> write_response ''400 Bad Request'' json_type ''{\"error\":\"missing name\"}''
      | Some name \<Rightarrow>
          if name = [] then write_response ''400 Bad Request'' json_type ''{\"error\":\"missing name\"}''
          else case browse_subgraph g name (query_num q ''depth'' 2) (unwrap_or (Option.bind (q ''dir'') dir_parse) Both) of
            Inr sg \<Rightarrow> write_response ''200 OK'' json_type (to_json sg)
          | Inl e \<Rightarrow> write_response ''404 Not Found'' json_type
              (''{\"error\":\"'' @ json_escape (case e of Msg m \<Rightarrow> m | _ \<Rightarrow> []) @ ''\"}''))"

definition stats_json :: "graph \<Rightarrow> string" where
  "stats_json g = ''{\"nodes\":'' @ show_nat (length (gr_nodes g)) @
     '',\"deps\":'' @ show_nat (sum_list (map (\<lambda>(k, es). length es) (gr_forward g))) @ ''}''"

definition answer :: "string \<Rightarrow> graph \<Rightarrow> string \<times> string \<Rightarrow> string" where
  "answer page g req =
     (if fst req \<noteq> ''GET'' then write_response ''405 Method Not Allowed'' text_type []
      else let (path, q) = split_path_query (snd req) in
        if path = ''/'' then write_response ''200 OK'' ''text/html; charset=utf-8'' page
        else if path = ''/api/search'' then
          write_response ''200 OK'' json_type (nodes_json ''matches'' (browse_search g (unwrap_or (q ''q'') []) (query_num q ''limit'' 50)))
        else if path = ''/api/suggest'' then
          write_response ''200 OK'' json_type (nodes_json ''suggestions'' (suggest g (query_num q ''limit'' 30)))
        else if path = ''/api/subgraph'' then answer_subgraph g q
        else if path = ''/api/stats'' then write_response ''200 OK'' json_type (stats_json g)
        else write_response ''404 Not Found'' text_type [])"

definition handle_client :: "string \<Rightarrow> graph \<Rightarrow> read_result list \<Rightarrow> string res" where
  "handle_client page g rs =
     rbind (read_request rs) (\<lambda>r. case r of None \<Rightarrow> Inr [] | Some req \<Rightarrow> Inr (answer page g req))"

text \<open>\<open>real_main\<close>: what is printed with \<open>--dump-json\<close> or the port that is served; \<open>None\<close> is the help text.\<close>

definition redo_browse ::
  "(string \<Rightarrow> bool) \<Rightarrow> (string \<Rightarrow> database) \<Rightarrow> (string \<Rightarrow> bool) \<Rightarrow> (nat \<Rightarrow> bool) \<Rightarrow> vars \<Rightarrow> string \<Rightarrow> string list \<Rightarrow> (string + graph \<times> nat) option res" where
  "redo_browse ex open_db addr_ok bind vs cwd args =
     (case parse_browse_args args browse_defaults of
        None \<Rightarrow> Inr None
      | Some bo \<Rightarrow>
          rbind (resolve_base ex vs cwd (bo_base bo)) (\<lambda>base.
          let dbfile = path_join (path_join base ''.redo'') ''db.sqlite3'' in
          if \<not> ex dbfile then Inl (Msg (''redo-browse: no .redo/db.sqlite3 found under '' @ debug_str base @ '' (run a build first?)''))
          else let g = graph_load (open_db dbfile) in
            case bo_dump_json bo of
              Some root \<Rightarrow> rbind (browse_subgraph g root (bo_depth bo) (bo_dir bo)) (\<lambda>sg. Inr (Some (Inl (to_json sg))))
            | None \<Rightarrow> rbind (bind_with_fallback addr_ok bind (bo_host bo) (bo_port bo)) (\<lambda>p. Inr (Some (Inr (g, p))))))"

end
