(* ===== verification/Json.thy ===== *)
theory Json
  imports Prelude
begin

text \<open>
  A reader for the JSON texts the tools write: values without white space between the tokens. It is the reference
  the JSON written by \<open>redo_browse.rs\<close> is measured against.
\<close>

subsection \<open>Values and their canonical text\<close>

datatype json = JStr string | JNum nat | JBool bool | JArr "json list" | JObj "(string \<times> json) list"

definition hex_val :: "char \<Rightarrow> nat option" where
  "hex_val c =
     (let n = of_char c :: nat in
      if 48 \<le> n \<and> n \<le> 57 then Some (n - 48)
      else if 97 \<le> n \<and> n \<le> 102 then Some (n - 87) else None)"

text \<open>The rest of a string after its opening quote: its contents and what follows the closing quote.\<close>

definition hex2 :: "char \<Rightarrow> char \<Rightarrow> char option" where
  "hex2 x y = Option.bind (hex_val x) (\<lambda>a. map_option (\<lambda>b. char_of (16 * a + b)) (hex_val y))"

definition simple_escape :: "char \<Rightarrow> char option" where
  "simple_escape c = map_of [(CHR ''\"'', CHR ''\"''), (CHR 0x5C, CHR 0x5C), (CHR ''/'', CHR ''/''), (CHR ''n'', CHR 0x0A),
     (CHR ''r'', CHR 0x0D), (CHR ''t'', CHR 0x09), (CHR ''b'', CHR 0x08), (CHR ''f'', CHR 0x0C)] c"

definition cons_fst :: "'a \<Rightarrow> ('a list \<times> 'b) option \<Rightarrow> ('a list \<times> 'b) option" where
  "cons_fst x r = map_option (apfst (Cons x)) r"

fun read_str :: "string \<Rightarrow> (string \<times> string) option" where
  "read_str [] = None"
| "read_str (c # s) =
     (if c = CHR ''\"'' then Some ([], s)
      else if c = CHR 0x5C then
        (case s of
           e # r \<Rightarrow>
             (case simple_escape e of
                Some d \<Rightarrow> cons_fst d (read_str r)
              | None \<Rightarrow>
                  if e \<noteq> CHR ''u'' then None
                  else (case r of
                    z1 # z2 # x # y # r' \<Rightarrow>
                      if z1 = CHR ''0'' \<and> z2 = CHR ''0''
                      then Option.bind (hex2 x y) (\<lambda>d. cons_fst d (read_str r')) else None
                  | _ \<Rightarrow> None))
         | [] \<Rightarrow> None)
      else if (of_char c :: nat) < 32 then None
      else cons_fst c (read_str s))"

definition read_num :: "string \<Rightarrow> (nat \<times> string) option" where
  "read_num s = map_option (\<lambda>n. (n, dropWhile is_digit s)) (parse_digits (takeWhile is_digit s))"

definition read_word :: "string \<Rightarrow> json \<Rightarrow> string \<Rightarrow> (json \<times> string) option" where
  "read_word w v s = map_option (Pair v) (strip_prefix w s)"

text \<open>The fuel bounds the depth and the number of elements; the length of the text is enough.\<close>

fun read_json :: "nat \<Rightarrow> string \<Rightarrow> (json \<times> string) option"
  and read_elems :: "nat \<Rightarrow> string \<Rightarrow> (json list \<times> string) option"
  and read_members :: "nat \<Rightarrow> string \<Rightarrow> ((string \<times> json) list \<times> string) option" where
  "read_json 0 s = None"
| "read_json (Suc n) s =
     (case s of
        [] \<Rightarrow> None
      | c # r \<Rightarrow>
          if c = CHR ''\"'' then map_option (apfst JStr) (read_str r)
          else if c = CHR ''['' then
            (if starts_with '']'' r then Some (JArr [], tl r) else map_option (apfst JArr) (read_elems n r))
          else if c = CHR ''{'' then
            (if starts_with ''}'' r then Some (JObj [], tl r) else map_option (apfst JObj) (read_members n r))
          else if is_digit c then map_option (apfst JNum) (read_num s)
          else if c = CHR ''t'' then read_word ''true'' (JBool True) s
          else read_word ''false'' (JBool False) s)"
| "read_elems 0 s = None"
| "read_elems (Suc n) s =
     Option.bind (read_json n s) (\<lambda>(v, r).
       if starts_with '','' r then cons_fst v (read_elems n (tl r))
       else map_option (Pair [v]) (strip_prefix '']'' r))"
| "read_members 0 s = None"
| "read_members (Suc n) s =
     Option.bind (strip_prefix ''\"'' s) (\<lambda>s1.
     Option.bind (read_str s1) (\<lambda>(k, s2).
     Option.bind (strip_prefix '':'' s2) (\<lambda>s3.
     Option.bind (read_json n s3) (\<lambda>(v, r).
       if starts_with '','' r then cons_fst (k, v) (read_members n (tl r))
       else map_option (Pair [(k, v)]) (strip_prefix ''}'' r)))))"

definition parse_json :: "string \<Rightarrow> json option" where
  "parse_json s = (case read_json (Suc (length s)) s of Some (v, []) \<Rightarrow> Some v | _ \<Rightarrow> None)"

text \<open>The text of a value, given the text of its strings.\<close>

fun show_json :: "(string \<Rightarrow> string) \<Rightarrow> json \<Rightarrow> string" where
  "show_json esc (JStr s) = ''\"'' @ esc s @ ''\"''"
| "show_json esc (JNum n) = show_nat n"
| "show_json esc (JBool b) = (if b then ''true'' else ''false'')"
| "show_json esc (JArr vs) = ''['' @ join_with '','' (map (show_json esc) vs) @ '']''"
| "show_json esc (JObj kvs) = ''{'' @ join_with '','' (map (\<lambda>(k, v). ''\"'' @ esc k @ ''\":'' @ show_json esc v) kvs) @ ''}''"

subsection \<open>The reader takes back what is written\<close>

definition escapes :: "(string \<Rightarrow> string) \<Rightarrow> bool" where
  "escapes esc \<longleftrightarrow> (\<forall>s r. read_str (esc s @ CHR ''\"'' # r) = Some (s, r))"

lemma read_num_show:
  assumes "r = [] \<or> \<not> is_digit (hd r)" shows "read_num (show_nat n @ r) = Some (n, r)"
proof -
  have d: "list_all is_digit (show_nat n)" by (rule show_nat_digits)
  then have "takeWhile is_digit (show_nat n @ r) = show_nat n" "dropWhile is_digit (show_nat n @ r) = r"
    using assms by (cases r; simp add: list_all_iff takeWhile_append dropWhile_append)+
  then show ?thesis by (simp add: read_num_def)
qed

lemma starts_with_simps [simp]:
  "starts_with [] s" "\<not> starts_with (p # ps) []" "starts_with (p # ps) (x # xs) \<longleftrightarrow> p = x \<and> starts_with ps xs"
  by (simp_all add: starts_with_def)

abbreviation no_digit :: "string \<Rightarrow> bool" where
  "no_digit r \<equiv> r = [] \<or> \<not> is_digit (hd r)"

lemma show_json_start: "hd (show_json esc v) \<notin> {CHR '']'', CHR '','', CHR ''}''}"
  using show_nat_hd [of "CHR '']''"] show_nat_hd [of "CHR '',''"] show_nat_hd [of "CHR ''}''"]
  by (cases v) (auto simp: is_digit_def)

lemma show_json_not_Nil [simp]: "show_json esc v \<noteq> []"
  by (cases v) auto

lemma join_with_Cons: "ys \<noteq> [] \<Longrightarrow> join_with sep (x # ys) = x @ sep @ join_with sep ys"
  by (cases ys) auto

lemma read_elems_show:
  assumes "\<And>v n r. v \<in> set vs \<Longrightarrow> length (show_json esc v) \<le> n \<Longrightarrow> no_digit r \<Longrightarrow> read_json n (show_json esc v @ r) = Some (v, r)"
    and "vs \<noteq> []" "length (join_with '','' (map (show_json esc) vs)) < n"
  shows "read_elems n (join_with '','' (map (show_json esc) vs) @ CHR '']'' # r) = Some (vs, r)"
  using assms
proof (induction vs arbitrary: n)
  case (Cons v vs)
  obtain m where m: "n = Suc m" using Cons.prems(3) by (cases n) auto
  show ?case
  proof (cases "vs = []")
    case True
    then show ?thesis using Cons.prems(1) [of v m "CHR '']'' # r"] Cons.prems(3) by (simp add: m is_digit_def)
  next
    case False
    let ?j = "join_with '','' (map (show_json esc) vs)"
    have j: "join_with '','' (map (show_json esc) (v # vs)) = show_json esc v @ CHR '','' # ?j"
      using False by (simp add: join_with_Cons)
    have "read_json m (show_json esc v @ CHR '','' # ?j @ CHR '']'' # r) = Some (v, CHR '','' # ?j @ CHR '']'' # r)"
      using Cons.prems(1) [of v m] Cons.prems(3) j m by (simp add: is_digit_def)
    moreover have "read_elems m (?j @ CHR '']'' # r) = Some (vs, r)"
      using Cons.IH [of m] Cons.prems(1,3) False j m by simp
    ultimately show ?thesis using j by (simp add: m cons_fst_def)
  qed
qed simp

definition show_member :: "(string \<Rightarrow> string) \<Rightarrow> string \<times> json \<Rightarrow> string" where
  "show_member esc kv = ''\"'' @ esc (fst kv) @ ''\":'' @ show_json esc (snd kv)"

lemma show_json_obj: "show_json esc (JObj kvs) = ''{'' @ join_with '','' (map (show_member esc) kvs) @ ''}''"
  by (simp add: show_member_def [abs_def] case_prod_unfold)

lemma read_members_show:
  assumes "\<And>v n r. v \<in> snd ` set kvs \<Longrightarrow> length (show_json esc v) \<le> n \<Longrightarrow> no_digit r \<Longrightarrow> read_json n (show_json esc v @ r) = Some (v, r)"
    and "kvs \<noteq> []" "length (join_with '','' (map (show_member esc) kvs)) < n" "escapes esc"
  shows "read_members n (join_with '','' (map (show_member esc) kvs) @ CHR ''}'' # r) = Some (kvs, r)"
  using assms
proof (induction kvs arbitrary: n)
  case (Cons kv kvs)
  obtain m where m: "n = Suc m" using Cons.prems(3) by (cases n) auto
  obtain k v where kv: "kv = (k, v)" by fastforce
  have e: "read_str (esc k @ CHR ''\"'' # s) = Some (k, s)" for s using Cons.prems(4) by (simp add: escapes_def)
  show ?case
  proof (cases "kvs = []")
    case True
    then show ?thesis using Cons.prems(1) [of v m "CHR ''}'' # r"] Cons.prems(3)
      by (simp add: m kv e is_digit_def show_member_def)
  next
    case False
    let ?j = "join_with '','' (map (show_member esc) kvs)"
    have j: "join_with '','' (map (show_member esc) (kv # kvs)) = show_member esc kv @ CHR '','' # ?j"
      using False by (simp add: join_with_Cons)
    have "read_json m (show_json esc v @ CHR '','' # ?j @ CHR ''}'' # r) = Some (v, CHR '','' # ?j @ CHR ''}'' # r)"
      using Cons.prems(3) unfolding j by (intro Cons.prems(1)) (auto simp: m kv is_digit_def show_member_def)
    moreover have "read_members m (?j @ CHR ''}'' # r) = Some (kvs, r)"
      using Cons.IH [of m] Cons.prems(1,3,4) False j m by simp
    moreover have "show_member esc kv = CHR ''\"'' # esc k @ CHR ''\"'' # CHR '':'' # show_json esc v"
      by (simp add: show_member_def kv)
    ultimately show ?thesis unfolding j by (simp add: m kv e cons_fst_def)
  qed
qed simp

lemma join_start:
  "xs \<noteq> [] \<Longrightarrow> \<forall>x \<in> set xs. x \<noteq> [] \<and> hd x \<noteq> c \<Longrightarrow> \<not> starts_with [c] (join_with sep xs @ r)"
proof (induction xs rule: induct_list012)
  case (3 x y zs)
  then show ?case by (cases x) auto
qed (auto simp: neq_Nil_conv)

lemma read_show_json:
  assumes "escapes esc" "length (show_json esc v) \<le> n" "no_digit r"
  shows "read_json n (show_json esc v @ r) = Some (v, r)"
  using assms(2,3)
proof (induction v arbitrary: n r)
  case (JStr s)
  then show ?case using assms(1) by (cases n) (simp_all add: escapes_def)
next
  case (JNum k)
  obtain c s where c: "show_nat k = c # s" "is_digit c" using show_nat_digits [of k] by (cases "show_nat k") auto
  obtain m where "n = Suc m" using JNum.prems(1) c by (cases n) auto
  then show ?case using read_num_show [OF JNum.prems(2), of k] c by (auto simp: is_digit_def)
next
  case (JBool b)
  then show ?case by (cases n; cases b) (auto simp: read_word_def is_digit_def)
next
  case (JArr vs)
  obtain m where m: "n = Suc m" using JArr.prems(1) by (cases n) auto
  show ?case
  proof (cases "vs = []")
    case False
    then have "\<not> starts_with '']'' (join_with '','' (map (show_json esc) vs) @ CHR '']'' # r)"
      using show_json_start [of esc] by (intro join_start) auto
    moreover have "read_elems m (join_with '','' (map (show_json esc) vs) @ CHR '']'' # r) = Some (vs, r)"
      using JArr False m by (intro read_elems_show) auto
    ultimately show ?thesis by (simp add: m)
  qed (simp add: m)
next
  case (JObj kvs)
  obtain m where m: "n = Suc m" using JObj.prems(1) by (cases n) auto
  show ?case
  proof (cases "kvs = []")
    case False
    then have "\<not> starts_with ''}'' (join_with '','' (map (show_member esc) kvs) @ CHR ''}'' # r)"
      by (intro join_start) (auto simp: show_member_def)
    moreover have ih: "read_json n (show_json esc v @ r) = Some (v, r)"
      if "v \<in> snd ` set kvs" "length (show_json esc v) \<le> n" "no_digit r" for v n r
      using that(1) by (elim imageE) (use JObj.IH [OF _ _ that(2,3)] in \<open>auto intro: snds.intros\<close>)
    then have "read_members m (join_with '','' (map (show_member esc) kvs) @ CHR ''}'' # r) = Some (kvs, r)"
      using JObj.prems(1) False m assms(1) by (intro read_members_show) (auto simp: show_json_obj simp del: show_json.simps(5))
    ultimately show ?thesis unfolding show_json_obj by (simp add: m)
  qed (simp add: m)
qed

lemma parse_show_json: "escapes esc \<Longrightarrow> parse_json (show_json esc v) = Some v"
  using read_show_json [of esc v "Suc (length (show_json esc v))" "[]"] by (simp add: parse_json_def)

end
