(* ===== verification/Browse_Props.thy ===== *)
theory Browse_Props
  imports Browse_Http Json
begin

text \<open>
  Properties of the graph server: what a query for the part of the graph around a target returns, in terms of
  the dependency relation stored in the database, and that every answer is well-formed JSON.
\<close>

subsection \<open>The adjacency lists\<close>

lemma dedup_by_keys [simp]: "f ` set (dedup_by f xs) = f ` set xs"
  by (induction f xs rule: dedup_by.induct) auto

lemma dedup_by_subset: "set (dedup_by f xs) \<subseteq> set xs"
  by (induction f xs rule: dedup_by.induct) auto

lemma tidy_edges_Nil [simp]: "tidy_edges [] = []"
  by (simp add: tidy_edges_def)

lemma tidy_edges_others [simp]: "ed_other ` set (tidy_edges es) = ed_other ` set es"
  by (simp add: tidy_edges_def)

lemma edges_of_Nil [simp]: "edges_of [] i = []"
  by (simp add: edges_of_def)

lemma edges_of_map: "f [] = [] \<Longrightarrow> edges_of (map (apsnd f) al) i = f (edges_of al i)"
  by (induction al) (auto simp: edges_of_def split: if_splits)

lemma edges_of_push: "edges_of (push_edge k e al) i = edges_of al i @ (if i = k then [e] else [])"
  by (induction k e al rule: push_edge.induct) (auto simp: edges_of_def)

lemma edges_of_fold:
  "edges_of (foldl (\<lambda>al d. push_edge (k d) (e d) al) al ds) i = edges_of al i @ map e (filter (\<lambda>d. k d = i) ds)"
  by (induction ds arbitrary: al) (auto simp: edges_of_push)

definition deps_of_id :: "database \<Rightarrow> int \<Rightarrow> int list" where
  "deps_of_id db i = map d_source (filter (\<lambda>d. d_target d = i) (live_rows db))"

definition users_of_id :: "database \<Rightarrow> int \<Rightarrow> int list" where
  "users_of_id db i = map d_target (filter (\<lambda>d. d_source d = i) (live_rows db))"

lemma forward_others: "set (others (gr_forward (graph_load db)) i) = set (deps_of_id db i)"
  by (simp add: others_def graph_load_def edges_of_map edges_of_fold deps_of_id_def image_image)

lemma reverse_others: "set (others (gr_reverse (graph_load db)) i) = set (users_of_id db i)"
  by (simp add: others_def graph_load_def edges_of_map edges_of_fold users_of_id_def image_image)

subsection \<open>The traversal finds what is within the depth\<close>

lemma fold_insert_set [simp]: "set (fold List.insert xs ys) = set xs \<union> set ys"
  by (induction xs arbitrary: ys) auto

lemma traverse_skip: "\<forall>(i, d) \<in> set q. depth \<le> d \<Longrightarrow> traverse al depth mk q seen nodes links = (nodes, links)"
  by (induction q) auto

lemma level_before: "level succs x d A B seen E \<Longrightarrow> d < depth \<Longrightarrow> E \<subseteq> before succs depth x"
  using within_mono [of d "depth - 1" succs x] by (cases depth) (auto simp: level_def before_def)

definition links_from :: "(int \<Rightarrow> edge \<Rightarrow> link) \<Rightarrow> (int \<times> edge list) list \<Rightarrow> int set \<Rightarrow> link set" where
  "links_from mk al I = (\<Union>i \<in> I. mk i ` set (edges_of al i))"

lemma traverse_level:
  assumes "traverse al depth mk q seen nodes links = (nodes', links')"
    "q = map (\<lambda>i. (i, d)) A @ map (\<lambda>i. (i, Suc d)) B" "A = [] \<longrightarrow> B = []"
    "level (others al) root d (set A) (set B) (set seen) E" "d \<le> depth" "d = depth \<longrightarrow> B = []"
    "set nodes = N0 \<union> set seen" "set links = L0 \<union> links_from mk al E" "E \<subseteq> before (others al) depth root"
  shows "set nodes' = N0 \<union> within (others al) depth root \<and> set links' = L0 \<union> links_from mk al (before (others al) depth root)"
  using assms
proof (induction al depth mk q seen nodes links arbitrary: d A B E rule: traverse.induct)
  case (1 al depth mk seen nodes links)
  then have e: "A = []" "B = []" by auto
  with "1.prems"(4) have l: "level (others al) root d {} {} (set seen) E" by simp
  from level_done [OF l "1.prems"(5)] before_within [of "others al" depth root] show ?case using "1.prems" by auto
next
  case (2 al depth mk i d0 q seen nodes links)
  then obtain A' where A: "A = i # A'" "d0 = d" "q = map (\<lambda>i. (i, d)) A' @ map (\<lambda>i. (i, Suc d)) B"
    by (cases A) auto
  show ?case
  proof (cases "depth \<le> d")
    case True
    with "2.prems" have d: "d = depth" "B = []" by auto
    then have "nodes' = nodes" "links' = links"
      using "2.prems"(1) A traverse_skip [of q depth al mk seen nodes links] by auto
    moreover have "set seen = within (others al) depth root" "before (others al) depth root \<subseteq> E"
      using "2.prems"(4) d by (auto simp: level_def)
    ultimately show ?thesis using "2.prems" by auto
  next
    case False
    obtain seen1 q1 where v: "visit (\<lambda>k. (k, d + 1)) (others al i) (seen, q) = (seen1, q1)" by fastforce
    then obtain ns where ns: "q1 = q @ map (\<lambda>k. (k, d + 1)) ns" "seen1 = rev ns @ seen" "set ns = set (others al i) - set seen"
      using visit_new by metis
    let ?nodes = "fold List.insert (others al i) nodes" and ?links = "links @ map (mk i) (edges_of al i)"
    have r: "traverse al depth mk q1 seen1 ?nodes ?links = (nodes', links')"
      using "2.prems"(1) False A(2) v by simp
    have l: "level (others al) root d (set A') (set (B @ ns)) (set seen1) (insert i E)"
      using level_visit [of "others al" root d i "set A'" "set B" "set seen" E "set ns"] "2.prems"(4) A ns
      by (simp add: Un_commute)
    have n: "set ?nodes = N0 \<union> set seen1" "set ?links = L0 \<union> links_from mk al (insert i E)"
      using "2.prems"(7,8) visit_seen [OF v] by (auto simp: links_from_def)
    have b: "insert i E \<subseteq> before (others al) depth root" using level_before [OF l] False by simp
    note IH = "2.IH"(2) [OF _ v [unfolded A(2) [symmetric], symmetric] r _ _ _ _ _ n b]
    show ?thesis
    proof (cases "A' = []")
      case True
      with l have "level (others al) root (Suc d) (set (B @ ns)) {} (set seen1) (insert i E)" using level_next by fastforce
      with IH [of "Suc d" "B @ ns" "[]"] show ?thesis using False A(3) ns(1) True by (simp add: \<open>\<not> depth \<le> d\<close> A(2))
    next
      case False
      with l IH [of d A' "B @ ns"] show ?thesis using A(3) ns(1) \<open>\<not> depth \<le> d\<close> by (simp add: A(2))
    qed
  qed
qed

subsection \<open>A query in terms of the database\<close>

lemma within_cong: "(\<And>x. set (f x) = set (g x)) \<Longrightarrow> within f n x = within g n x"
  by (simp add: within_def step_rel_def)

lemma before_cong: "(\<And>x. set (f x) = set (g x)) \<Longrightarrow> before f n x = before g n x"
  by (cases n) (simp_all add: before_def within_cong [of f g])

definition reach_nodes :: "database \<Rightarrow> dir \<Rightarrow> nat \<Rightarrow> int \<Rightarrow> int set" where
  "reach_nodes db dir depth i =
     (if dir \<noteq> Reverse then within (deps_of_id db) depth i else {}) \<union>
     (if dir \<noteq> Forward then within (users_of_id db) depth i else {})"

definition reach_links :: "database \<Rightarrow> dir \<Rightarrow> nat \<Rightarrow> int \<Rightarrow> (int \<times> int) set" where
  "reach_links db dir depth i =
     {(t, s). dir \<noteq> Reverse \<and> t \<in> before (deps_of_id db) depth i \<and> s \<in> set (deps_of_id db t)} \<union>
     {(t, s). dir \<noteq> Forward \<and> s \<in> before (users_of_id db) depth i \<and> t \<in> set (users_of_id db s)}"

abbreviation link_ends :: "link \<Rightarrow> int \<times> int" where
  "link_ends l \<equiv> (lk_source l, lk_target l)"

lemma traverse_root:
  assumes "traverse al depth mk [(root, 0)] [root] nodes links = (nodes', links')" "root \<in> set nodes"
  shows "set nodes' = set nodes \<union> within (others al) depth root"
    "set links' = set links \<union> links_from mk al (before (others al) depth root)"
  using traverse_level [OF assms(1), of 0 "[root]" "[]" root "{}" "set nodes" "set links"] assms(2)
  by (auto simp: level_start links_from_def insert_absorb)

lemma walk_reach:
  assumes "walk (graph_load db) dir depth i = (nodes, links)"
  shows "set nodes = reach_nodes db dir depth i" "link_ends ` set links = reach_links db dir depth i"
proof -
  let ?f = "gr_forward (graph_load db)" and ?r = "gr_reverse (graph_load db)"
  let ?fm = "\<lambda>i e. \<lparr>lk_source = i, lk_target = ed_other e, lk_mode = ed_mode e\<rparr>"
  let ?rm = "\<lambda>i e. \<lparr>lk_source = ed_other e, lk_target = i, lk_mode = ed_mode e\<rparr>"
  obtain n1 l1 where f: "traverse ?f depth ?fm [(i, 0)] [i] [i] [] = (n1, l1)" by fastforce
  note F = traverse_root [OF f, simplified]
  define ns ls where "ns = (if dir = Reverse then [i] else n1)" and "ls = (if dir = Reverse then [] else l1)"
  obtain n2 l2 where r: "traverse ?r depth ?rm [(i, 0)] [i] ns ls = (n2, l2)" by fastforce
  have "i \<in> set ns" using F(1) by (simp add: ns_def)
  note R = traverse_root [OF r this]
  have w: "nodes = (if dir = Forward then ns else n2)" "links = (if dir = Forward then ls else l2)"
    using assms f r by (cases dir; simp add: walk_def ns_def ls_def del: traverse.simps)+
  note c = within_cong [of "others ?f" "deps_of_id db", OF forward_others] within_cong [of "others ?r" "users_of_id db", OF reverse_others]
    before_cong [of "others ?f" "deps_of_id db", OF forward_others] before_cong [of "others ?r" "users_of_id db", OF reverse_others]
  show "set nodes = reach_nodes db dir depth i"
    using w(1) F(1) R(1) by (cases dir) (auto simp: reach_nodes_def ns_def c)
  have o: "ed_other ` set (edges_of ?f j) = set (deps_of_id db j)" "ed_other ` set (edges_of ?r j) = set (users_of_id db j)" for j
    using forward_others [of db j] reverse_others [of db j] by (simp_all add: others_def)
  have lf: "link_ends ` links_from ?fm ?f I = {(t, s). t \<in> I \<and> s \<in> set (deps_of_id db t)}" for I
    unfolding o(1) [symmetric] by (auto simp: links_from_def image_UN image_image)
  have lr: "link_ends ` links_from ?rm ?r I = {(t, s). s \<in> I \<and> t \<in> set (users_of_id db s)}" for I
    unfolding o(2) [symmetric] by (auto simp: links_from_def image_UN image_image)
  show "link_ends ` set links = reach_links db dir depth i"
    using w(2) F(2) R(2) by (cases dir) (auto simp: reach_links_def ls_def c lf lr image_Un)
qed

lemma find_map: "List.find P (map f xs) = map_option f (List.find (P \<circ> f) xs)"
  by (induction xs) auto

definition generated :: "file_row \<Rightarrow> bool" where
  "generated r = (unwrap_or (r_is_generated r) 0 \<noteq> 0)"

lemma load_nodes:
  "gr_nodes (graph_load db) = map (\<lambda>r. \<lparr>nd_id = r_id r, nd_name = r_name r, nd_generated = generated r\<rparr>) (db_files db)"
  by (simp add: graph_load_def generated_def)

lemma load_by_id:
  "node_by_id (graph_load db) i =
     map_option (\<lambda>r. \<lparr>nd_id = r_id r, nd_name = r_name r, nd_generated = generated r\<rparr>) (sql_file_by_id db i)"
  by (simp add: node_by_id_def sql_file_by_id_def load_nodes find_map o_def)

lemma load_by_name: "id_by_name (graph_load db) s = map_option r_id (sql_file_by_name db s)"
  by (simp add: id_by_name_def sql_file_by_name_def load_nodes find_map o_def option.map_comp)

lemma set_map_filter: "set (List.map_filter f xs) = {y. \<exists>x \<in> set xs. f x = Some y}"
  by (induction xs) (auto simp: List.map_filter_simps split: option.splits)

lemma dedup_sort_ends [simp]: "f ` set (dedup_by f (sort_key f xs)) = f ` set xs"
  by simp

lemma dedup_by_strict:
  fixes f :: "'a \<Rightarrow> 'b :: linorder"
  shows "sorted (map f xs) \<Longrightarrow> sorted_wrt (<) (map f (dedup_by f xs))"
proof (induction f xs rule: dedup_by.induct)
  case (1 f x y xs)
  show ?case
  proof (cases "f x = f y")
    case False
    have "f x < f y" using 1(3) False by (simp add: order.strict_iff_order)
    then have "f x < f z" if "z \<in> set (y # xs)" for z using that 1(3) by (auto intro: order.strict_trans2)
    then show ?thesis using 1 False by simp
  qed (use 1 in simp)
qed simp_all

definition names_of :: "database \<Rightarrow> int \<times> int \<Rightarrow> (string \<times> string) option" where
  "names_of db e =
     (case (sql_file_by_id db (fst e), sql_file_by_id db (snd e)) of (Some a, Some b) \<Rightarrow> Some (r_name a, r_name b) | _ \<Rightarrow> None)"

lemma named_links:
  "map (\<lambda>(t, s, m). (t, s)) (List.map_filter (\<lambda>l.
      case node_by_id (graph_load db) (lk_source l) of None \<Rightarrow> None
      | Some a \<Rightarrow> (case node_by_id (graph_load db) (lk_target l) of None \<Rightarrow> None | Some b \<Rightarrow> Some (nd_name a, nd_name b, lk_mode l))) ls) =
    List.map_filter (names_of db) (map link_ends ls)"
  by (induction ls) (auto simp: List.map_filter_simps names_of_def load_by_id split: option.splits)

text \<open>C24. The answer of redo-browse for a target, from the rows of the database: an unknown name is an error;
  otherwise the nodes, in the order of their names, are exactly the files at most \<open>depth\<close> steps away along the
  dependencies (for \<open>forward\<close>), along the users (for \<open>reverse\<close>) or either way. The links are exactly the
  dependencies of the files at most \<open>depth - 1\<close> steps away along the dependencies, and those on the files so near
  along the users, each once, in the order of the ids of their ends; a dependency between two files both reached only in the
  last step is not among them. Rows marked \<open>delete_me\<close> do not count.\<close>

theorem subgraph_within:
  "case sql_file_by_name db root of
     None \<Rightarrow> browse_subgraph (graph_load db) root depth dir = Inl (Msg (''unknown node '' @ debug_str root))
   | Some r \<Rightarrow> (\<exists>sg es. browse_subgraph (graph_load db) root depth dir = Inr sg \<and>
       sg_root sg = root \<and> sorted (map fst (sg_nodes sg)) \<and>
       set (sg_nodes sg) = {(r_name f, generated f) | f i. i \<in> reach_nodes db dir depth (r_id r) \<and> sql_file_by_id db i = Some f} \<and>
       set es = reach_links db dir depth (r_id r) \<and> sorted_wrt (<) es \<and>
       map (\<lambda>(t, s, m). (t, s)) (sg_links sg) = List.map_filter (names_of db) es)"
proof (cases "sql_file_by_name db root")
  case None
  then show ?thesis by (simp add: browse_subgraph_def load_by_name)
next
  case (Some r)
  obtain nodes links where w: "walk (graph_load db) dir depth (r_id r) = (nodes, links)" by fastforce
  note W = walk_reach [OF w]
  let ?ls = "dedup_by link_ends (sort_key link_ends links)"
  have "set (map link_ends ?ls) = reach_links db dir depth (r_id r)" "sorted_wrt (<) (map link_ends ?ls)"
    using W(2) dedup_by_strict [of link_ends "sort_key link_ends links"] by simp_all
  moreover have "set (map (\<lambda>n. (nd_name n, nd_generated n)) (List.map_filter (node_by_id (graph_load db)) nodes)) =
      {(r_name f, generated f) | f i. i \<in> reach_nodes db dir depth (r_id r) \<and> sql_file_by_id db i = Some f}"
    unfolding W(1) [symmetric] by (force simp: set_map_filter load_by_id)
  ultimately show ?thesis
    by (simp add: Some browse_subgraph_def load_by_name w) (intro exI [of _ "map link_ends ?ls"] conjI, simp_all add: named_links)
qed

subsection \<open>The answers are JSON\<close>

lemma hex_val_digit: "n < 16 \<Longrightarrow> hex_val (hex_digit n) = Some n"
  by (auto simp: hex_val_def hex_digit_def)

lemma simple_escape_simps [simp]:
  "simple_escape (CHR ''\"'') = Some (CHR ''\"'')" "simple_escape (CHR 0x5C) = Some (CHR 0x5C)"
  "simple_escape (CHR ''n'') = Some (CHR 0x0A)" "simple_escape (CHR ''r'') = Some (CHR 0x0D)"
  "simple_escape (CHR ''t'') = Some (CHR 0x09)" "simple_escape (CHR ''u'') = None"
  by (simp_all add: simple_escape_def)

lemma char_eqI: "of_char c = n \<Longrightarrow> char_of (n :: nat) = c"
  by auto

lemma read_json_char: "read_str (json_char c @ s) = cons_fst c (read_str s)"
proof -
  let ?n = "of_char c :: nat"
  have e: "char_of (92 :: nat) = CHR 0x5C" "char_of (10 :: nat) = CHR 0x0A" "char_of (13 :: nat) = CHR 0x0D" "char_of (9 :: nat) = CHR 0x09"
    by code_simp+
  consider "c = CHR ''\"''" | "?n = 92" | "?n = 10" | "?n = 13" | "?n = 9"
    | "c \<noteq> CHR ''\"''" "?n < 32" "?n \<notin> {9, 10, 13, 92}" | "c \<noteq> CHR ''\"''" "\<not> ?n < 32" "?n \<noteq> 92" by fastforce
  then show ?thesis
  proof cases
    case 6
    have "hex2 (hex_digit (?n div 16)) (hex_digit (?n mod 16)) = Some c"
      using 6(2) by (simp add: hex2_def hex_val_digit)
    with 6 show ?thesis by (simp add: json_char_def Let_def)
  qed (auto simp: json_char_def e dest!: char_eqI)
qed

lemma escapes_json: "escapes json_escape"
  unfolding escapes_def
proof (intro allI)
  fix s r show "read_str (json_escape s @ CHR ''\"'' # r) = Some (s, r)"
    by (induction s) (simp_all add: json_escape_def read_json_char cons_fst_def)
qed

definition node_value :: "string \<times> bool \<Rightarrow> json" where
  "node_value n = JObj [(''name'', JStr (fst n)), (''generated'', JBool (snd n))]"

definition link_value :: "string \<times> string \<times> char \<Rightarrow> json" where
  "link_value l = (case l of (s, t, m) \<Rightarrow> JObj [(''source'', JStr s), (''target'', JStr t), (''mode'', JStr [m])])"

definition subgraph_value :: "subgraph \<Rightarrow> json" where
  "subgraph_value sg = JObj [(''root'', JStr (sg_root sg)), (''depth'', JNum (sg_depth sg)), (''dir'', JStr (sg_dir sg)),
     (''nodes'', JArr (map node_value (sg_nodes sg))), (''links'', JArr (map link_value (sg_links sg)))]"

lemma json_escape_keys:
  "json_escape ''name'' = ''name''" "json_escape ''generated'' = ''generated''" "json_escape ''source'' = ''source''"
  "json_escape ''target'' = ''target''" "json_escape ''mode'' = ''mode''" "json_escape ''root'' = ''root''"
  "json_escape ''depth'' = ''depth''" "json_escape ''dir'' = ''dir''" "json_escape ''nodes'' = ''nodes''"
  "json_escape ''links'' = ''links''"
  by code_simp+

definition plain_mode :: "char \<Rightarrow> bool" where
  "plain_mode m \<longleftrightarrow> json_char m = [m]"

lemma node_json_value: "node_json n = show_json json_escape (node_value n)"
  by (simp add: node_json_def node_value_def json_escape_keys bool_json_def)

lemma link_json_value: "plain_mode (snd (snd l)) \<Longrightarrow> link_json l = show_json json_escape (link_value l)"
  by (cases l) (simp add: link_json_def link_value_def json_escape_keys plain_mode_def json_escape_def [of "[_]"])

lemma to_json_value:
  assumes "\<forall>l \<in> set (sg_links sg). plain_mode (snd (snd l))"
  shows "to_json sg = show_json json_escape (subgraph_value sg)"
proof -
  have l: "map link_json (sg_links sg) = map (show_json json_escape) (map link_value (sg_links sg))"
    using assms link_json_value by simp
  have n: "map node_json (sg_nodes sg) = map (show_json json_escape) (map node_value (sg_nodes sg))"
    by (simp add: node_json_value)
  show ?thesis unfolding to_json_def subgraph_value_def n l by (simp add: json_escape_keys)
qed

text \<open>C36. The JSON text of a subgraph, whatever bytes the names have, is read back by the reference reader as exactly the
  root, depth, direction, nodes and links, as long as the mode letters are not quotes, backslashes or control
  characters, which are written as they are.\<close>

theorem subgraph_json_roundtrip:
  assumes "\<forall>l \<in> set (sg_links sg). plain_mode (snd (snd l))"
  shows "parse_json (to_json sg) = Some (subgraph_value sg)"
  using to_json_value [OF assms] parse_show_json [OF escapes_json] by simp

definition demo_subgraph :: subgraph where
  "demo_subgraph = \<lparr>sg_root = ''a\"b'', sg_depth = 2, sg_dir = ''both'', sg_nodes = [(''a\"b'', True), ([CHR 0x0A, CHR 0x01], False)],
     sg_links = [(''a\"b'', [CHR 0x0A, CHR 0x01], CHR ''m'')]\<rparr>"

theorem subgraph_json_roundtrip_witness:
  "parse_json (to_json demo_subgraph) = Some (subgraph_value demo_subgraph)"
proof (rule subgraph_json_roundtrip)
  show "\<forall>l \<in> set (sg_links demo_subgraph). plain_mode (snd (snd l))" by (simp add: demo_subgraph_def plain_mode_def json_char_def)
qed

subsection \<open>Further properties\<close>

text \<open>The entry points count only once the list is being filled: a limit of one can give two suggestions.\<close>

lemma suggest_over_limit:
  "length (suggest \<lparr>gr_nodes = [\<lparr>nd_id = 1, nd_name = ''all'', nd_generated = True\<rparr>, \<lparr>nd_id = 2, nd_name = ''clean'', nd_generated = True\<rparr>],
     gr_forward = [], gr_reverse = []\<rparr> 1) = 2"
  by code_simp

lemma read_data_bound: "read_data rs acc = Inr (Some t) \<Longrightarrow> length acc \<le> 65536 \<Longrightarrow>
    (\<forall>b. Bytes b \<in> set rs \<longrightarrow> length b \<le> 8192) \<Longrightarrow> length t \<le> 65536 + 8192"
  by (induction rs acc rule: read_data.induct) (fastforce simp: Let_def split: if_splits)+

definition has_db :: "(string \<Rightarrow> bool) \<Rightarrow> string \<Rightarrow> bool" where
  "has_db ex d \<longleftrightarrow> ex (path_join (path_join d ''.redo'') ''db.sqlite3'')"

lemma base_up_nearest:
  assumes "\<forall>n \<in> set ns. good_name n" "length ns < m"
  shows "base_up m ex (''/'' @ join_with ''/'' ns) =
    List.find (has_db ex) (map (\<lambda>k. ''/'' @ join_with ''/'' (take k ns)) (rev [0..<Suc (length ns)]))"
  using assms
proof (induction ns arbitrary: m rule: rev_induct)
  case Nil
  have "path_parent ''/'' = None" by code_simp
  with Nil show ?case by (cases m) (auto simp: has_db_def)
next
  case (snoc n ns)
  then obtain m' where m: "m = Suc m'" by (cases m) auto
  have p: "path_parent (''/'' @ join_with ''/'' (ns @ [n])) = Some (''/'' @ join_with ''/'' ns)"
    using snoc.prems(1) by (rule path_parent_abs)
  let ?P = "\<lambda>ns. map (\<lambda>k. ''/'' @ join_with ''/'' (take k ns)) (rev [0..<Suc (length ns)])"
  have r: "rev [0..<Suc (length (ns @ [n]))] = length (ns @ [n]) # rev [0..<Suc (length ns)]" by simp
  have "map (\<lambda>k. ''/'' @ join_with ''/'' (take k (ns @ [n]))) (rev [0..<Suc (length ns)]) = ?P ns"
    by (rule map_cong) auto
  then have P: "?P (ns @ [n]) = (''/'' @ join_with ''/'' (ns @ [n])) # ?P ns"
    by (simp only: r list.map take_all [OF order_refl])
  show ?case unfolding P using snoc.IH [of m'] snoc.prems p by (simp add: m has_db_def del: append_Cons upt_Suc)
qed

text \<open>The base directory is the nearest one, from the current directory up to the root, that has a database; there is
  none only if no directory on the way has one.\<close>

theorem find_base_upwards_nearest:
  assumes "\<forall>n \<in> set ns. good_name n"
  shows "find_base_upwards ex (''/'' @ join_with ''/'' ns) =
    List.find (has_db ex) (map (\<lambda>k. ''/'' @ join_with ''/'' (take k ns)) (rev [0..<Suc (length ns)]))"
  unfolding find_base_upwards_def by (rule base_up_nearest) (use assms path_components_abs [OF assms] in auto)

end
