(* ===== verification/Log_Format.thy ===== *)
theory Log_Format
  imports Env_Cycles
begin

text \<open>
  Log lines (\<open>redo_core/src/logs.rs\<close>): the \<open>@@REDO:\<close> lines every redo process writes to its standard error,
  and the readable form used when nobody reads the log. The process id is an argument, as is the text of
  the time with four decimals; the result is the list of lines written.
\<close>

record ansi =
  an_red :: string
  an_green :: string
  an_yellow :: string
  an_bold :: string
  an_plain :: string

datatype log_mode = Raw | Pretty

record log_config =
  lf_mode :: log_mode
  lf_ansi :: ansi

definition esc :: "string \<Rightarrow> string" where
  "esc s = CHR 0x1B # CHR ''['' # s"

definition colors :: ansi where
  "colors = \<lparr>an_red = esc ''31m'', an_green = esc ''32m'', an_yellow = esc ''33m'', an_bold = esc ''1m'', an_plain = esc ''m''\<rparr>"

definition no_colors :: ansi where
  "no_colors = \<lparr>an_red = [], an_green = [], an_yellow = [], an_bold = [], an_plain = []\<rparr>"

text \<open>\<open>TERM\<close>, when it is set, must not be \<open>dumb\<close>; \<open>tty\<close> is \<open>isatty(2)\<close>.\<close>

definition log_ansi_for :: "vars \<Rightarrow> bool \<Rightarrow> int \<Rightarrow> ansi" where
  "log_ansi_for vs tty color =
     (if 2 \<le> color \<or> (color = 1 \<and> tty \<and> vs ''TERM'' \<noteq> Some ''dumb'') then colors else no_colors)"

definition log_setup :: "vars \<Rightarrow> bool \<Rightarrow> bool \<Rightarrow> int \<Rightarrow> int \<Rightarrow> log_config" where
  "log_setup vs tty parent_logs pretty color =
     \<lparr>lf_mode = (if pretty \<noteq> 0 \<and> \<not> parent_logs then Pretty else Raw), lf_ansi = log_ansi_for vs tty color\<rparr>"

text \<open>\<open>{:<6}\<close>\<close>

definition pad_right :: "nat \<Rightarrow> string \<Rightarrow> string" where
  "pad_right n s = s @ replicate (n - length s) (CHR '' '')"

definition pretty_write :: "log_config \<Rightarrow> env \<Rightarrow> nat \<Rightarrow> string \<Rightarrow> string \<Rightarrow> string" where
  "pretty_write cfg e pid color s =
     color @ (if e_debug_pids e then pad_right 6 (show_nat pid) @ '' redo  '' else ''redo  '') @ e_depth e @
     (if color = [] then [] else an_bold (lf_ansi cfg)) @ s @ an_plain (lf_ansi cfg)"

definition raw_meta :: "string \<Rightarrow> nat \<Rightarrow> string \<Rightarrow> string \<Rightarrow> string" where
  "raw_meta kind pid ts msg = ''@@REDO:'' @ kind @ '':'' @ show_nat pid @ '':'' @ ts @ ''@@ '' @ msg"

definition cache_kinds :: "string list" where
  "cache_kinds = [''cache_hit'', ''cache_miss'', ''cache_store'', ''cache_skip'', ''cache_stats'']"

definition log_meta :: "log_config \<Rightarrow> env \<Rightarrow> nat \<Rightarrow> string \<Rightarrow> string \<Rightarrow> string \<Rightarrow> string list" where
  "log_meta cfg e pid ts kind msg0 =
     (let msg = trim_end msg0;
          raw = raw_meta kind pid ts msg;
          an = lf_ansi cfg;
          note = (\<lambda>color s. [pretty_write cfg e pid color s])
      in case lf_mode cfg of
           Raw \<Rightarrow> [raw]
         | Pretty \<Rightarrow>
             if kind = ''unchanged'' then
               (if e_log e \<noteq> 0 \<or> 1 \<le> e_debug e then note [] (msg @ '' (unchanged)'') else [])
             else if kind = ''check'' then note (an_green an) (''('' @ msg @ '')'')
             else if kind = ''do'' then note (an_green an) msg
             else if kind = ''done'' then
               (case split_once (CHR '' '') msg of
                  Some (rv, name) \<Rightarrow>
                    let rv_i = unwrap_or (parse_sint 32 rv) 0 in
                    if rv_i \<noteq> 0 then note (an_red an) (name @ '' (exit '' @ show_int rv_i @ '')'')
                    else if 0 < e_verbose e \<or> 0 < e_xtrace e \<or> 1 \<le> e_debug e
                      then note (an_green an) (name @ '' (done)'') @ [[]] else []
                | None \<Rightarrow> note (an_green an) msg)
             else if kind = ''locked'' \<or> kind = ''waiting'' \<or> kind = ''unlocked'' then
               (if e_debug_locks e then note (an_green an) msg else [])
             else if kind \<in> set cache_kinds then
               (if 1 \<le> e_debug e then note [] (kind @ '' '' @ msg) else [])
             else if kind = ''error'' then [an_red an @ ''redo: '' @ an_bold an @ msg @ an_plain an]
             else if kind = ''warning'' then [an_yellow an @ ''redo: '' @ an_bold an @ msg @ an_plain an]
             else if kind = ''debug'' then note [] msg
             else [raw])"

definition log_cache_event :: "string \<Rightarrow> string \<Rightarrow> string \<Rightarrow> nat \<Rightarrow> string \<times> string" where
  "log_cache_event kind target keyprefix bytes = (kind, target @ '' '' @ keyprefix @ '' '' @ show_nat bytes)"

definition log_cache_reason :: "string \<Rightarrow> string \<Rightarrow> string \<Rightarrow> string \<times> string" where
  "log_cache_reason kind target reason = (kind, target @ '' '' @ reason)"

definition log_debug :: "int \<Rightarrow> log_config \<Rightarrow> env \<Rightarrow> nat \<Rightarrow> string \<Rightarrow> string \<Rightarrow> string list" where
  "log_debug level cfg e pid ts msg = (if level \<le> e_debug e then log_meta cfg e pid ts ''debug'' msg else [])"

end
