(* ===== verification/Plan.thy ===== *)
theory Plan
  imports Deps_Sound Http Worklist "HOL-Library.Char_ord" "HOL-Library.List_Lexorder"
begin

text \<open>
  The build plan: which generated outputs a build is about (\<open>.redo/plan.targets\<close> and the generated \<open>.do\<close>
  files), and how many of them are dirty. \<open>bins/src/redo.rs\<close> computes it before the build,
  \<open>bins/src/redo_log.rs\<close> has its own version for the progress display. \<open>contents p\<close> is what \<open>File::open\<close> finds at
  the path \<open>p\<close>; the texts are taken to be UTF-8. A \<open>HashSet\<close> is the list of its elements.
\<close>

subsection \<open>Reading a generated script\<close>

text \<open>\<open>w.push(b as char)\<close>: a byte is taken as a Latin-1 character, which a \<open>String\<close> holds in UTF-8.\<close>

definition latin1 :: "char \<Rightarrow> string" where
  "latin1 c = (let n = of_char c :: nat in if n < 128 then [c] else [char_of (192 + n div 64), char_of (128 + n mod 64)])"

definition shell_ws :: "char \<Rightarrow> bool" where
  "shell_ws c \<longleftrightarrow> c \<in> {CHR '' '', CHR 0x09, CHR 0x0A, CHR 0x0D}"

definition single_quoted :: "string \<Rightarrow> string \<times> string" where
  "single_quoted s = (concat (map latin1 (takeWhile (\<lambda>c. c \<noteq> CHR 0x27) s)), tl (dropWhile (\<lambda>c. c \<noteq> CHR 0x27) s))"

fun double_quoted :: "string \<Rightarrow> string \<times> string" where
  "double_quoted [] = ([], [])"
| "double_quoted [c] = (if c = CHR ''\"'' then [] else latin1 c, [])"
| "double_quoted (c # d # r) =
     (if c = CHR 0x5C then apfst (append (latin1 d)) (double_quoted r)
      else if c = CHR ''\"'' then ([], d # r) else apfst (append (latin1 c)) (double_quoted (d # r)))"

fun plain_word :: "string \<Rightarrow> string \<times> string" where
  "plain_word [] = ([], [])"
| "plain_word [c] = (if shell_ws c then ([], [c]) else (latin1 c, []))"
| "plain_word (c # d # r) =
     (if shell_ws c then ([], c # d # r)
      else if c = CHR 0x5C then apfst (append (latin1 d)) (plain_word r)
      else apfst (append (latin1 c)) (plain_word (d # r)))"

definition one_word :: "string \<Rightarrow> string \<times> string" where
  "one_word s =
     (case s of
        [] \<Rightarrow> ([], [])
      | c # r \<Rightarrow> if c = CHR 0x27 then single_quoted r else if c = CHR ''\"'' then double_quoted r else plain_word s)"

lemma double_quoted_length: "length (snd (double_quoted s)) \<le> length s"
  by (induction s rule: double_quoted.induct) auto

lemma plain_word_length: "length (snd (plain_word s)) \<le> length s"
  by (induction s rule: plain_word.induct) auto

lemma plain_word_shorter: "\<not> shell_ws (hd s) \<Longrightarrow> s \<noteq> [] \<Longrightarrow> length (snd (plain_word s)) < length s"
  using plain_word_length [of "tl s"] plain_word_length [of "tl (tl s)"]
  by (induction s rule: plain_word.induct) (auto simp: le_imp_less_Suc less_Suc_eq_le)

lemma one_word_length: "s \<noteq> [] \<Longrightarrow> \<not> shell_ws (hd s) \<Longrightarrow> length (snd (one_word s)) < length s"
  using length_dropWhile_le [of "\<lambda>c. c \<noteq> CHR 0x27" "tl s"] double_quoted_length [of "tl s"] plain_word_shorter [of s]
  by (cases s) (auto simp: one_word_def single_quoted_def le_imp_less_Suc)

lemma words_shorter:
  assumes "(w, r) = one_word (dropWhile shell_ws s0)" "hd (dropWhile shell_ws s0) \<noteq> CHR ''#''" "dropWhile shell_ws s0 \<noteq> []"
  shows "length r < length s0"
proof -
  have "length (snd (one_word (dropWhile shell_ws s0))) < length (dropWhile shell_ws s0)"
    using assms(3) hd_dropWhile [OF assms(3)] by (intro one_word_length) auto
  with length_dropWhile_le [of shell_ws s0] show ?thesis by (simp add: assms(1) [symmetric])
qed

function shell_words :: "string \<Rightarrow> string list" where
  "shell_words s0 =
     (let s = dropWhile shell_ws s0 in
      if s = [] \<or> hd s = CHR ''#'' then []
      else case one_word s of (w, r) \<Rightarrow> if w = [] then shell_words r else w # shell_words r)"
  by pat_completeness auto
termination
  by (relation "measure length") (auto dest!: words_shorter)

declare shell_words.simps [simp del]

text \<open>Options are left out; \<open>--from-file\<close> and \<open>--from-file0\<close> with their argument.\<close>

fun drop_options :: "string list \<Rightarrow> string list" where
  "drop_options [] = []"
| "drop_options (w # ws) =
     (if w = ''--from-file'' \<or> w = ''--from-file0'' then (case ws of [] \<Rightarrow> [] | _ # vs \<Rightarrow> drop_options vs)
      else if starts_with ''-'' w then drop_options ws else w # drop_options ws)"

definition parse_redo_ifchange_deps :: "string \<Rightarrow> string list" where
  "parse_redo_ifchange_deps line =
     (case strip_prefix ''redo-ifchange'' (trim_start line) of None \<Rightarrow> [] | Some s \<Rightarrow> drop_options (shell_words s))"

text \<open>The lines of a reader, each with its line break.\<close>

lemma read_line_shorter: "read_line s = (l, r) \<Longrightarrow> s \<noteq> [] \<Longrightarrow> length r < length s"
  by (drule read_line_length) (cases l; simp)

function raw_lines :: "string \<Rightarrow> string list" where
  "raw_lines s = (if s = [] then [] else case read_line s of (l, r) \<Rightarrow> l # raw_lines r)"
  by pat_completeness auto
termination
  by (relation "measure length") (auto dest!: read_line_shorter [OF sym])

declare raw_lines.simps [simp del]

definition has_char :: "char \<Rightarrow> string \<Rightarrow> bool" where
  "has_char c s \<longleftrightarrow> c \<in> set s"

definition script_deps :: "string \<Rightarrow> string list" where
  "script_deps text =
     (case read_line text of (first, rest) \<Rightarrow>
        if find_sub ''Generated by CMake Redo generator'' first = None then []
        else concat (map (\<lambda>l. filter (\<lambda>d. \<not> has_char (CHR ''$'') d \<and> \<not> has_char (CHR 0x60) d)
               (parse_redo_ifchange_deps (trim_start l))) (raw_lines rest)))"

subsection \<open>The plan of redo\<close>

text \<open>An absolute path below the base directory becomes relative to it; otherwise there is none.\<close>

definition base_key :: "string \<Rightarrow> string \<Rightarrow> string option" where
  "base_key base s = (if is_absolute s then path_strip_prefix s base else Some s)"

definition plan_path :: "string \<Rightarrow> string" where
  "plan_path base = path_join (path_join base ''.redo'') ''plan.targets''"

definition plan_lines :: "string \<Rightarrow> string list" where
  "plan_lines text = filter (\<lambda>s. s \<noteq> [] \<and> \<not> starts_with ''#'' s) (map trim (raw_lines text))"

definition load_plan_targets :: "string \<Rightarrow> string \<Rightarrow> string list" where
  "load_plan_targets base text = remdups (map (\<lambda>s. unwrap_or (base_key base s) s) (plan_lines text))"

definition deps_from_dofile :: "(string \<Rightarrow> string option) \<Rightarrow> string \<Rightarrow> string list \<Rightarrow> string \<Rightarrow> string list" where
  "deps_from_dofile contents base plan_all output_rel =
     (case contents (path_join base (output_rel @ ''.do'')) of
        None \<Rightarrow> []
      | Some text \<Rightarrow> remdups_adj (sort (filter (\<lambda>d. d \<in> set plan_all) (List.map_filter (base_key base) (script_deps text)))))"

definition root_keys :: "string \<Rightarrow> string list \<Rightarrow> string list \<Rightarrow> string list" where
  "root_keys base plan_all roots =
     filter (\<lambda>k. k \<in> set plan_all) (List.map_filter (base_key base) (filter (\<lambda>s. s \<noteq> []) (map trim roots)))"

text \<open>The queue starts with the root keys once each, all of them seen.\<close>

definition scope_from :: "(string \<Rightarrow> string list) \<Rightarrow> string list \<Rightarrow> (string list \<Rightarrow> bool) \<Rightarrow> string list \<Rightarrow> string list option" where
  "scope_from succs plan_all stop ks =
     (case visit id ks ([], []) of (seen, q) \<Rightarrow> search succs plan_all stop q seen)"

definition compute_plan_scope :: "(string \<Rightarrow> string option) \<Rightarrow> string \<Rightarrow> string list \<Rightarrow> string list \<Rightarrow> string list" where
  "compute_plan_scope contents base plan_all roots =
     (let ks = root_keys base plan_all roots in
      if ks = [] then []
      else unwrap_or (scope_from (deps_from_dofile contents base plan_all) plan_all (\<lambda>_. False) ks) [])"

record build_plan =
  bp_dirty :: nat
  bp_total :: nat
  bp_uptodate :: nat
  bp_checked_ids :: "int set"

text \<open>The loop over the scope; \<open>n\<close> is the fuel of each analysis.\<close>

fun plan_loop :: "ext_fns \<Rightarrow> fsview \<Rightarrow> env \<Rightarrow> state_inner \<Rightarrow> nat \<Rightarrow> string list \<Rightarrow> nat \<times> nat \<times> plan_cache
    \<Rightarrow> (nat \<times> nat \<times> plan_cache) res option" where
  "plan_loop x fs e s n [] acc = Some (Inr acc)"
| "plan_loop x fs e s n (out_rel # rest) (dirty, upd, cache) =
     (case by_name x e (path_join (e_base e) out_rel) False s of
        Inl _ \<Rightarrow> plan_loop x fs e s n rest (dirty + 1, upd, cache)
      | Inr (f, _) \<Rightarrow>
          (case isdirty_readonly_default fs e s n f (unwrap_or (e_runid e) 0) cache of
             None \<Rightarrow> None
           | Some (Inl err) \<Rightarrow> Some (Inl err)
           | Some (Inr (d, cache1)) \<Rightarrow>
               plan_loop x fs e s n rest (if d = Clean then (dirty, upd + 1, cache1) else (dirty + 1, upd, cache1))))"

definition compute_build_plan :: "ext_fns \<Rightarrow> fsview \<Rightarrow> (string \<Rightarrow> string option) \<Rightarrow> env \<Rightarrow> state_inner \<Rightarrow> nat \<Rightarrow> string list
    \<Rightarrow> build_plan option res option" where
  "compute_build_plan x fs contents e s n targets =
     (case contents (plan_path (e_base e)) of
        None \<Rightarrow> Some (Inr None)
      | Some text \<Rightarrow>
          (let roots = (if targets = [] then [''all''] else targets);
               plan_all = load_plan_targets (e_base e) text;
               scope = compute_plan_scope contents (e_base e) plan_all roots
           in if plan_all = [] \<or> scope = [] then Some (Inr None)
              else map_option (\<lambda>r. rbind r (\<lambda>(dirty, upd, cache).
                     Inr (Some \<lparr>bp_dirty = dirty, bp_total = length scope, bp_uptodate = upd, bp_checked_ids = pc_checked cache\<rparr>)))
                   (plan_loop x fs e s n scope (0, 0, pc_empty))))"

subsection \<open>The plan of redo-log\<close>

text \<open>Its keys are normalised absolute paths, and the walk is cut off when the scope gets large.\<close>

definition abs_plan_key :: "string \<Rightarrow> string \<Rightarrow> string" where
  "abs_plan_key base s = log_normalize (if is_absolute s then s else path_join base s)"

definition log_load_plan_targets :: "(string \<Rightarrow> string option) \<Rightarrow> string \<Rightarrow> string list option" where
  "log_load_plan_targets contents base =
     map_option (\<lambda>text. remdups (map (abs_plan_key base) (plan_lines text))) (contents (plan_path base))"

definition log_deps_from_dofile :: "(string \<Rightarrow> string option) \<Rightarrow> string \<Rightarrow> string \<Rightarrow> string list" where
  "log_deps_from_dofile contents base output_key =
     (case contents (output_key @ ''.do'') of
        None \<Rightarrow> []
      | Some text \<Rightarrow> map (\<lambda>d. if is_absolute d then unwrap_or (path_strip_prefix d base) d else d) (script_deps text))"

definition log_compute_plan_scope :: "(string \<Rightarrow> string option) \<Rightarrow> string \<Rightarrow> string list \<Rightarrow> string list \<Rightarrow> string list" where
  "log_compute_plan_scope contents base plan_all roots =
     (let ks = filter (\<lambda>k. k \<in> set plan_all) (map (abs_plan_key base) roots);
          max_scope = min (length plan_all) 4096
      in if ks = [] then plan_all
         else unwrap_or (scope_from (\<lambda>k. map (abs_plan_key base) (log_deps_from_dofile contents base k)) plan_all
                           (\<lambda>seen. max_scope \<le> length seen) ks) plan_all)"

text \<open>The steps the progress display counts against: \<open>REDO_LOG_TOP_TARGETS\<close> holds the targets of \<open>redo\<close>.\<close>

definition log_planned_steps :: "(string \<Rightarrow> string option) \<Rightarrow> string \<Rightarrow> string option \<Rightarrow> string list option" where
  "log_planned_steps contents base top_targets =
     Option.bind top_targets (\<lambda>v.
       let roots = filter (\<lambda>s. s \<noteq> []) (map trim (split_on (CHR 0x0A) v)) in
       Option.bind (log_load_plan_targets contents base) (\<lambda>plan_all.
         if plan_all = [] then None
         else if ''all'' \<in> set roots \<or> roots = [] then Some plan_all
         else Some (log_compute_plan_scope contents base plan_all roots)))"

end
