(* ===== verification/Redo_Log.thy ===== *)
theory Redo_Log
  imports Log_Format Plan
begin

text \<open>
  The log reader \<open>redo-log\<close> (\<open>bins/src/redo_log.rs\<close>): it shows the log of a target, follows the lines that
  name other targets into their logs, and counts the progress of a build. What is read from a log is the
  list of results of \<open>read_line\<close>: a piece of text, or the end of the file, with what the reader sees then
  (\<open>is_locked\<close>, and whether the grace period is still running). The status line on standard error is
  printed at times the clock decides; its text is \<open>status_text\<close>. The locks on the logs are left out:
  they only delay the reader.
\<close>

subsection \<open>The command line\<close>

record log_opts =
  ro_ack_fd :: "int option"
  ro_recursive :: bool
  ro_unchanged :: bool
  ro_follow :: bool
  ro_pretty :: bool
  ro_details :: bool
  ro_color :: int
  ro_debug_pids :: bool
  ro_debug_locks :: bool
  ro_status :: int
  ro_targets :: "string list"

definition log_defaults :: log_opts where
  "log_defaults = \<lparr>ro_ack_fd = None, ro_recursive = False, ro_unchanged = False, ro_follow = False, ro_pretty = True,
     ro_details = True, ro_color = 1, ro_debug_pids = False, ro_debug_locks = False, ro_status = 1, ro_targets = []\<rparr>"

text \<open>The letters of combined flags; others are ignored.\<close>

definition letter_flags :: "string \<Rightarrow> log_opts \<Rightarrow> log_opts" where
  "letter_flags s ro = ro\<lparr>ro_recursive := ro_recursive ro \<or> CHR ''r'' \<in> set s,
     ro_unchanged := ro_unchanged ro \<or> CHR ''u'' \<in> set s, ro_follow := ro_follow ro \<or> CHR ''f'' \<in> set s\<rparr>"

definition log_flag :: "string \<Rightarrow> log_opts \<Rightarrow> log_opts option" where
  "log_flag a ro =
     (if a = ''-r'' \<or> a = ''--recursive'' then Some (ro\<lparr>ro_recursive := True\<rparr>)
      else if a = ''-u'' \<or> a = ''--unchanged'' then Some (ro\<lparr>ro_unchanged := True\<rparr>)
      else if a = ''-f'' \<or> a = ''--follow'' then Some (ro\<lparr>ro_follow := True\<rparr>)
      else if a = ''--no-status'' then Some (ro\<lparr>ro_status := 0\<rparr>)
      else if a = ''--status'' then Some (ro\<lparr>ro_status := ro_status ro + 1\<rparr>)
      else if a = ''--no-pretty'' then Some (ro\<lparr>ro_pretty := False\<rparr>)
      else if a = ''--pretty'' then Some (ro\<lparr>ro_pretty := True\<rparr>)
      else if a = ''--no-details'' then Some (ro\<lparr>ro_details := False\<rparr>)
      else if a = ''--details'' then Some (ro\<lparr>ro_details := True\<rparr>)
      else if a = ''--no-color'' then Some (ro\<lparr>ro_color := 0\<rparr>)
      else if a = ''--color'' then Some (ro\<lparr>ro_color := ro_color ro + 1\<rparr>)
      else if a = ''--debug-pids'' then Some (ro\<lparr>ro_debug_pids := True\<rparr>)
      else if a = ''--no-debug-pids'' then Some (ro\<lparr>ro_debug_pids := False\<rparr>)
      else if a = ''--debug-locks'' then Some (ro\<lparr>ro_debug_locks := True\<rparr>)
      else if a = ''--no-debug-locks'' then Some (ro\<lparr>ro_debug_locks := False\<rparr>)
      else if starts_with ''-'' a \<and> a \<noteq> ''-'' then Some (letter_flags (tl a) ro)
      else None)"

fun parse_log_args :: "string list \<Rightarrow> log_opts \<Rightarrow> log_opts" where
  "parse_log_args [] ro = ro"
| "parse_log_args (a # as) ro =
     (case strip_prefix ''--ack-fd='' a of
        Some v \<Rightarrow> parse_log_args as (ro\<lparr>ro_ack_fd := parse_sint 32 v\<rparr>)
      | None \<Rightarrow>
          if a = ''--ack-fd'' then
            (case as of [] \<Rightarrow> ro\<lparr>ro_ack_fd := None\<rparr> | v # vs \<Rightarrow> parse_log_args vs (ro\<lparr>ro_ack_fd := parse_sint 32 v\<rparr>))
          else case log_flag a ro of
            Some ro1 \<Rightarrow> parse_log_args as ro1
          | None \<Rightarrow> ro\<lparr>ro_targets := a # as\<rparr>)"

subsection \<open>Progress\<close>

record progress =
  pg_seen :: "string set"
  pg_running :: "string set"
  pg_done :: "string set"
  pg_failed :: "string set"
  pg_uptodate :: "string set"
  pg_planned :: "string list option"
  pg_totals :: "(nat \<times> nat \<times> nat) option"

definition no_progress :: progress where
  "no_progress = \<lparr>pg_seen = {}, pg_running = {}, pg_done = {}, pg_failed = {}, pg_uptodate = {}, pg_planned = None, pg_totals = None\<rparr>"

definition note_seen :: "string \<Rightarrow> progress \<Rightarrow> progress" where
  "note_seen k p = p\<lparr>pg_seen := insert k (pg_seen p)\<rparr>"

definition note_started :: "string \<Rightarrow> progress \<Rightarrow> progress" where
  "note_started k p = p\<lparr>pg_seen := insert k (pg_seen p), pg_running := insert k (pg_running p), pg_done := pg_done p - {k},
     pg_uptodate := pg_uptodate p - {k}, pg_failed := pg_failed p - {k}\<rparr>"

definition note_running :: "string \<Rightarrow> progress \<Rightarrow> progress" where
  "note_running k p = p\<lparr>pg_seen := insert k (pg_seen p), pg_running := insert k (pg_running p)\<rparr>"

definition note_unchanged :: "string \<Rightarrow> progress \<Rightarrow> progress" where
  "note_unchanged k p = p\<lparr>pg_seen := insert k (pg_seen p), pg_running := pg_running p - {k}, pg_done := insert k (pg_done p),
     pg_uptodate := pg_uptodate p - {k}, pg_failed := pg_failed p - {k}\<rparr>"

definition note_uptodate :: "string \<Rightarrow> progress \<Rightarrow> progress" where
  "note_uptodate k p = p\<lparr>pg_seen := insert k (pg_seen p), pg_running := pg_running p - {k}, pg_done := pg_done p - {k},
     pg_failed := pg_failed p - {k}, pg_uptodate := insert k (pg_uptodate p)\<rparr>"

definition note_done :: "string \<Rightarrow> int \<Rightarrow> progress \<Rightarrow> progress" where
  "note_done k rv p = p\<lparr>pg_seen := insert k (pg_seen p), pg_running := pg_running p - {k}, pg_done := insert k (pg_done p),
     pg_uptodate := pg_uptodate p - {k}, pg_failed := (if rv \<noteq> 0 then insert k (pg_failed p) else pg_failed p - {k})\<rparr>"

text \<open>The counts shown: started, done, running and failed, within the planned steps when these are known.\<close>

definition progress_counts :: "progress \<Rightarrow> nat \<times> nat \<times> nat \<times> nat" where
  "progress_counts p =
     (let within = (\<lambda>X. case pg_planned p of None \<Rightarrow> X | Some ks \<Rightarrow> X \<inter> set ks);
          d = card (within (pg_done p)); r = card (within (pg_running p)); f = card (within (pg_failed p))
      in (d + r, d, r, f))"

definition elapsed_text :: "nat \<Rightarrow> string" where
  "elapsed_text secs =
     (if 0 < secs div 60
      then show_nat (secs div 60) @ '':'' @ (if secs mod 60 < 10 then ''0'' else []) @ show_nat (secs mod 60)
      else show_nat secs @ ''s'')"

definition status_text :: "nat \<Rightarrow> nat \<Rightarrow> string \<Rightarrow> progress \<Rightarrow> string" where
  "status_text secs total_lines top_arg p =
     (let (started, done1, running, failed) = progress_counts p;
          suffix = (if top_arg \<noteq> ''-'' \<and> top_arg \<noteq> [] then '' '' @ top_arg else []);
          tail1 = '' ('' @ elapsed_text secs @ '') ['' @ show_nat total_lines @ '' lines]'' @ suffix;
          body = '' steps ('' @ show_nat done1 @ '' done), '' @ show_nat running @ '' running, '' @ show_nat failed @ '' failed''
      in CHR 0x0D # ''redo '' @ show_nat started @ ''/'' @
         (case pg_totals p of
            Some (dirty, tot, upd) \<Rightarrow>
              show_nat (max dirty started) @ body @ '', '' @ show_nat upd @ '' up-to-date'' @ tail1 @
              (if dirty < started then '', +'' @ show_nat (started - dirty) @ '' discovered'' else [])
          | None \<Rightarrow>
              (case pg_planned p of
                 Some ks \<Rightarrow> show_nat (length ks) @ body @ tail1
               | None \<Rightarrow> show_nat (card (pg_seen p)) @ '' started ('' @ show_nat done1 @ '' done), '' @ show_nat running @
                   '' running, '' @ show_nat failed @ '' failed'' @ tail1)) @ [CHR 0x0D])"

text \<open>When a status line is due; times in milliseconds, \<open>tty\<close> is \<open>isatty(2)\<close>.\<close>

definition status_due :: "int \<Rightarrow> nat \<Rightarrow> nat \<Rightarrow> bool \<Rightarrow> bool" where
  "status_due status elapsed since_last tty \<longleftrightarrow> 0 < status \<and> 1000 \<le> elapsed \<and> (2 \<le> status \<or> tty) \<and> 100 \<le> since_last"

subsection \<open>Log lines\<close>

definition parse_redo_meta_line :: "string \<Rightarrow> (string \<times> nat \<times> string) option" where
  "parse_redo_meta_line line =
     Option.bind (strip_prefix ''@@REDO:'' line) (\<lambda>s.
     map_option (\<lambda>(hdr, msg).
       case split_on (CHR '':'') hdr of
         [] \<Rightarrow> ([], 0, msg)
       | [kind] \<Rightarrow> (kind, 0, msg)
       | kind # pid # _ \<Rightarrow> (kind, unwrap_or (parse_uint 32 pid) 0, msg)) (find_sub ''@@ '' s))"

text \<open>The words of the message; a later one replaces an earlier one, also when it does not parse.\<close>

definition plan_word :: "string \<Rightarrow> (string \<rightharpoonup> nat option) \<Rightarrow> (string \<rightharpoonup> nat option)" where
  "plan_word w m = (case split_once (CHR ''='') w of None \<Rightarrow> m | Some (k, v) \<Rightarrow> m(k \<mapsto> parse_uint 64 v))"

definition parse_plan_meta :: "string \<Rightarrow> (nat \<times> nat \<times> nat) option" where
  "parse_plan_meta msg =
     (let m = fold plan_word (split_ws msg) Map.empty; num = (\<lambda>k. Option.bind (m k) id) in
      Option.bind (num ''dirty'') (\<lambda>d. Option.bind (num ''total'') (\<lambda>t. map_option (\<lambda>u. (d, t, u)) (num ''uptodate''))))"

definition plan_message :: "build_plan \<Rightarrow> string" where
  "plan_message p = ''dirty='' @ show_nat (bp_dirty p) @ '' total='' @ show_nat (bp_total p) @ '' uptodate='' @ show_nat (bp_uptodate p)"

subsection \<open>Showing a line\<close>

record log_ctx =
  lc_opts :: log_opts
  lc_ext :: ext_fns
  lc_topdir :: string
  lc_ansi :: ansi
  lc_debug :: int

record log_state =
  ls_lines :: nat
  ls_progress :: progress
  ls_already :: "string list"
  ls_out :: "string list"

definition say :: "string \<Rightarrow> log_state \<Rightarrow> log_state" where
  "say l st = st\<lparr>ls_out := ls_out st @ [l]\<rparr>"

definition pretty_line :: "log_ctx \<Rightarrow> nat \<Rightarrow> string \<Rightarrow> string \<Rightarrow> string" where
  "pretty_line c pid color s =
     color @ (if ro_debug_pids (lc_opts c) then pad_right 6 (show_nat pid) @ '' redo  '' else ''redo  '') @
     an_bold (lc_ansi c) @ s @ an_plain (lc_ansi c)"

text \<open>A line that is shown as it is in raw mode and in colour otherwise.\<close>

definition show_line :: "log_ctx \<Rightarrow> string \<Rightarrow> nat \<Rightarrow> string \<Rightarrow> string \<Rightarrow> log_state \<Rightarrow> log_state" where
  "show_line c line pid color s st = say (if ro_pretty (lc_opts c) then pretty_line c pid color s else line) st"

definition abs_key :: "log_ctx \<Rightarrow> string \<Rightarrow> string \<Rightarrow> string" where
  "abs_key c mydir p = log_normalize (path_join (path_join (lc_topdir c) mydir) p)"

definition rel_name :: "log_ctx \<Rightarrow> string \<Rightarrow> string" where
  "rel_name c p = relpath (lc_ext c) (path_join (lc_topdir c) p) (lc_topdir c)"

definition on_progress :: "(progress \<Rightarrow> progress) \<Rightarrow> log_state \<Rightarrow> log_state" where
  "on_progress f st = st\<lparr>ls_progress := f (ls_progress st)\<rparr>"

definition done_line :: "log_ctx \<Rightarrow> string \<Rightarrow> string \<Rightarrow> nat \<Rightarrow> string \<Rightarrow> log_state \<Rightarrow> log_state" where
  "done_line c mydir line pid msg st =
     (case split_once (CHR '' '') msg of
        None \<Rightarrow> show_line c line pid (an_green (lc_ansi c)) msg st
      | Some (rv, name) \<Rightarrow>
          let rv_i = unwrap_or (parse_sint 32 rv) 0;
              relname = relpath (lc_ext c) (path_join (path_join (lc_topdir c) mydir) name) (lc_topdir c);
              st1 = on_progress (note_done (abs_key c mydir name) rv_i) st
          in if rv_i \<noteq> 0 then show_line c line pid (an_red (lc_ansi c)) (relname @ '' (exit '' @ show_int rv_i @ '')'') st1
             else show_line c line pid (an_green (lc_ansi c)) (relname @ '' (done)'') st1)"

text \<open>The line of a target whose log may be entered: \<open>lock\<close> says that \<open>--debug-locks\<close> shows it with its kind.\<close>

definition target_line :: "log_ctx \<Rightarrow> string \<Rightarrow> string \<Rightarrow> string \<Rightarrow> nat \<Rightarrow> string \<Rightarrow> bool \<Rightarrow> log_state \<Rightarrow> log_state" where
  "target_line c mydir line kind pid msg lock st =
     (let child = path_join mydir msg in
      if \<not> ro_pretty (lc_opts c) then say line st
      else if ro_debug_locks (lc_opts c) \<and> lock then say (pretty_line c pid [] (kind @ '' '' @ rel_name c child)) st
      else if log_normalize child \<in> set (ls_already st) then st
      else say (pretty_line c pid (an_green (lc_ansi c)) (rel_name c child)) st)"

text \<open>The effect of a meta line, and the target whose log is to be entered.\<close>

definition handle_meta :: "log_ctx \<Rightarrow> string \<Rightarrow> string \<Rightarrow> string \<times> nat \<times> string \<Rightarrow> log_state \<Rightarrow> log_state \<times> string option" where
  "handle_meta c mydir line m st =
     (case m of (kind, pid, msg) \<Rightarrow>
        let an = lc_ansi c; key = abs_key c mydir msg; child = path_join mydir msg in
        if kind = ''plan'' then
          (let st1 = (case parse_plan_meta msg of None \<Rightarrow> st | Some t \<Rightarrow> on_progress (\<lambda>p. p\<lparr>pg_totals := Some t\<rparr>) st)
           in (if ro_pretty (lc_opts c) then st1 else say line st1, None))
        else if kind \<in> set cache_kinds then
          (if ro_pretty (lc_opts c) \<and> lc_debug c < 1 then st
           else show_line c line pid
             (if kind = ''cache_hit'' \<or> kind = ''cache_store'' then an_green an
              else if kind = ''cache_miss'' \<or> kind = ''cache_skip'' then an_yellow an else []) (kind @ '' '' @ msg) st, None)
        else if kind = ''done'' then (done_line c mydir line pid msg st, None)
        else if kind = ''do'' then
          (target_line c mydir line kind pid msg False (on_progress (note_started key) st), Some child)
        else if kind = ''locked'' then
          (target_line c mydir line kind pid msg True (on_progress (note_running key) st), Some child)
        else if kind = ''waiting'' \<or> kind = ''unlocked'' then
          (target_line c mydir line kind pid msg True (on_progress (note_seen key) st), Some child)
        else if kind = ''unchanged'' then
          (let st1 = on_progress (if pg_totals (ls_progress st) \<noteq> None then note_uptodate key else note_unchanged key) st
           in if ro_unchanged (lc_opts c) then (target_line c mydir line kind pid msg True st1, Some child) else (st1, None))
        else if kind = ''error'' then (show_line c line pid (an_red an) (''redo: '' @ msg) st, None)
        else if kind = ''warning'' then (show_line c line pid (an_yellow an) (''redo: '' @ msg) st, None)
        else (show_line c line pid [] msg st, None))"

subsection \<open>Reading logs\<close>

datatype log_event = Piece string | Idle bool bool

text \<open>\<open>lw_lookup\<close> is the id \<open>File::by_name\<close> finds (with \<open>--follow\<close>, before the grace period is over),
  \<open>lw_log\<close> what is read from the log of an id and whether the target was seen locked before the log could be
  opened, or that there is no log to be waited for.\<close>

record log_world =
  lw_lookup :: "string \<Rightarrow> int option"
  lw_log :: "int \<Rightarrow> (bool \<times> log_event list) option"

definition finish_log :: "log_ctx \<Rightarrow> string \<Rightarrow> log_state \<Rightarrow> log_state" where
  "finish_log c head1 st = (if head1 \<noteq> [] \<and> ro_details (lc_opts c) then say head1 st else st)"

definition mark_already :: "string \<Rightarrow> log_state \<Rightarrow> log_state" where
  "mark_already n st = st\<lparr>ls_already := List.insert n (ls_already st)\<rparr>"

text \<open>The fuel bounds the nesting of logs.\<close>

fun catlog :: "log_ctx \<Rightarrow> log_world \<Rightarrow> nat \<Rightarrow> bool \<Rightarrow> string \<Rightarrow> log_state \<Rightarrow> log_state res option"
  and cat_events :: "log_ctx \<Rightarrow> log_world \<Rightarrow> nat \<Rightarrow> bool \<Rightarrow> string \<Rightarrow> log_event list \<Rightarrow> bool \<Rightarrow> string \<Rightarrow> log_state
    \<Rightarrow> log_state res option" where
  "catlog c w 0 stdin t st = None"
| "catlog c w (Suc n) stdin t st =
     (if t \<in> set (ls_already st) then Some (Inr st)
      else case lw_lookup w t of
        None \<Rightarrow> Some (Inl (Exit 24))
      | Some i \<Rightarrow>
          (case lw_log w i of
             None \<Rightarrow> Some (Inr (mark_already t st))
           | Some (saw, evs) \<Rightarrow> cat_events c w n stdin (unwrap_or (path_parent t) []) evs saw [] (mark_already t st)))"
| "cat_events c w n stdin mydir [] saw head1 st = Some (Inr (finish_log c head1 st))"
| "cat_events c w n stdin mydir (Idle locked grace # evs) saw head1 st =
     (if \<not> ro_follow (lc_opts c) then Some (Inr (finish_log c head1 st))
      else if locked then cat_events c w n stdin mydir evs True head1 st
      else if \<not> stdin \<and> \<not> saw \<and> grace then cat_events c w n stdin mydir evs saw head1 st
      else Some (Inr (finish_log c head1 st)))"
| "cat_events c w n stdin mydir (Piece b # evs) saw head1 st =
     (if \<not> ends_with [CHR 0x0A] b then cat_events c w n stdin mydir evs saw (head1 @ b) st
      else
        let line = trim_end_char (CHR 0x0A) (head1 @ b); st1 = st\<lparr>ls_lines := ls_lines st + 1\<rparr> in
        case parse_redo_meta_line line of
          None \<Rightarrow> cat_events c w n stdin mydir evs saw [] (if ro_details (lc_opts c) then say line st1 else st1)
        | Some m \<Rightarrow>
            (case handle_meta c mydir line m st1 of
               (st2, None) \<Rightarrow> cat_events c w n stdin mydir evs saw [] st2
             | (st2, Some child) \<Rightarrow>
                 (case (if ro_recursive (lc_opts c) then catlog c w n stdin child st2 else Some (Inr st2)) of
                    None \<Rightarrow> None
                  | Some (Inl err) \<Rightarrow> Some (Inl err)
                  | Some (Inr st3) \<Rightarrow> cat_events c w n stdin mydir evs saw [] (mark_already (log_normalize child) st3))))"

text \<open>\<open>catlog_stdin\<close>: the same loop over standard input, from the top directory, up to its end.\<close>

definition catlog_stdin :: "log_ctx \<Rightarrow> log_world \<Rightarrow> nat \<Rightarrow> string list \<Rightarrow> log_state \<Rightarrow> log_state res option" where
  "catlog_stdin c w n pieces st = cat_events c w n True [] (map Piece pieces) False [] st"

fun log_targets :: "log_ctx \<Rightarrow> log_world \<Rightarrow> nat \<Rightarrow> string list \<Rightarrow> string list \<Rightarrow> log_state \<Rightarrow> log_state res option" where
  "log_targets c w n pieces [] st = Some (Inr st)"
| "log_targets c w n pieces (t # ts) st =
     (let st0 = st\<lparr>ls_already := []\<rparr> in
      case (if t = ''-'' then catlog_stdin c w n pieces st0
            else catlog c w n False t
              (say (if ro_pretty (lc_opts c) then pretty_line c 0 (an_green (lc_ansi c)) t else ''@@REDO:do:0:0.0000@@ '' @ t) st0)) of
        None \<Rightarrow> None
      | Some (Inl err) \<Rightarrow> Some (Inl err)
      | Some (Inr st1) \<Rightarrow> log_targets c w n (if t = ''-'' then [] else pieces) ts st1)"

text \<open>\<open>real_main\<close> after the options: \<open>top_targets\<close> is \<open>REDO_LOG_TOP_TARGETS\<close>.\<close>

definition redo_log :: "log_ctx \<Rightarrow> log_world \<Rightarrow> (string \<Rightarrow> string option) \<Rightarrow> string \<Rightarrow> string option \<Rightarrow> nat \<Rightarrow> string list
    \<Rightarrow> log_state res option" where
  "redo_log c w contents base top_targets n pieces =
     (let ts = ro_targets (lc_opts c) in
      if ts = [] then Some (Inl (Msg ''redo-log: give at least one target; maybe \"all\"?''))
      else
        let planned_steps = (if ''-'' \<in> set ts then log_planned_steps contents base top_targets else None)
        in log_targets c w n pieces ts
             \<lparr>ls_lines = 0, ls_progress = no_progress\<lparr>pg_planned := planned_steps\<rparr>, ls_already = [], ls_out = []\<rparr>)"

text \<open>The world of a log reader that does not follow: the database, and the logs as they are.\<close>

definition log_world_of :: "ext_fns \<Rightarrow> env \<Rightarrow> state_inner \<Rightarrow> (string \<Rightarrow> string option) \<Rightarrow> log_world" where
  "log_world_of x e s contents =
     \<lparr>lw_lookup = (\<lambda>t. case by_name x e t False s of Inl _ \<Rightarrow> None | Inr (f, _) \<Rightarrow> Some (f_id f)),
      lw_log = (\<lambda>i. map_option (\<lambda>pt. (False, map Piece (raw_lines pt))) (contents (logname e i)))\<rparr>"

end
