(* ===== verification/Redo_Main.thy ===== *)
theory Redo_Main
  imports Redo_Log Commands
begin

text \<open>
  The command \<open>redo\<close> before the build (\<open>bins/src/redo.rs\<close>), and \<open>redo-ifchange\<close> (\<open>bins/src/redo_ifchange.rs\<close>): its options, the environment it hands on, the
  start of the log reader and of the plan, and \<open>--plan\<close>. The build itself is \<open>run_redo\<close> (theories
  \<open>Builder\<close> and \<open>Scheduler\<close>).
\<close>

subsection \<open>Options\<close>

record redo_opts =
  rd_vars :: vars
  rd_targets :: "string list"
  rd_jobs :: int
  rd_status :: bool
  rd_details :: bool
  rd_pretty :: bool
  rd_color :: int
  rd_debug_locks :: bool
  rd_debug_pids :: bool
  rd_plan_only :: bool

definition redo_defaults :: "vars \<Rightarrow> redo_opts" where
  "redo_defaults vs = \<lparr>rd_vars = vs, rd_targets = [], rd_jobs = 0, rd_status = True, rd_details = True, rd_pretty = True,
     rd_color = 1, rd_debug_locks = False, rd_debug_pids = False, rd_plan_only = False\<rparr>"

definition set_var :: "string \<Rightarrow> string \<Rightarrow> redo_opts \<Rightarrow> redo_opts" where
  "set_var n v ro = ro\<lparr>rd_vars := (rd_vars ro)(n \<mapsto> v)\<rparr>"

text \<open>Flags without a value; \<open>None\<close> for anything else.\<close>

definition redo_flag :: "string \<Rightarrow> redo_opts \<Rightarrow> redo_opts option" where
  "redo_flag a ro =
     (if a = ''-d'' \<or> a = ''--debug'' then Some (set_var ''REDO_DEBUG'' ''1'' ro)
      else if a = ''-v'' \<or> a = ''--verbose'' then Some (set_var ''REDO_VERBOSE'' ''1'' ro)
      else if a = ''-x'' \<or> a = ''--xtrace'' then Some (set_var ''REDO_XTRACE'' ''1'' ro)
      else if a = ''-k'' \<or> a = ''--keep-going'' then Some (set_var ''REDO_KEEP_GOING'' ''1'' ro)
      else if a = ''--shuffle'' then Some (set_var ''REDO_SHUFFLE'' ''1'' ro)
      else if a = ''--debug-locks'' then Some (set_var ''REDO_DEBUG_LOCKS'' ''1'' (ro\<lparr>rd_debug_locks := True\<rparr>))
      else if a = ''--debug-pids'' then Some (set_var ''REDO_DEBUG_PIDS'' ''1'' (ro\<lparr>rd_debug_pids := True\<rparr>))
      else if a = ''--no-log'' then Some (set_var ''REDO_LOG'' ''0'' ro)
      else if a = ''--no-details'' then Some (ro\<lparr>rd_details := False\<rparr>)
      else if a = ''--no-status'' then Some (ro\<lparr>rd_status := False\<rparr>)
      else if a = ''--plan'' then Some (ro\<lparr>rd_plan_only := True\<rparr>)
      else if a = ''--no-pretty'' then Some (ro\<lparr>rd_pretty := False\<rparr>)
      else if a = ''--no-color'' then Some (ro\<lparr>rd_color := 0\<rparr>)
      else if a = ''--color'' then Some (ro\<lparr>rd_color := max (rd_color ro + 1) 2\<rparr>)
      else None)"

definition jobs_of :: "string \<Rightarrow> int" where
  "jobs_of v = unwrap_or (parse_sint 32 v) 0"

text \<open>\<open>-jN\<close> and \<open>--jobs=N\<close>\<close>

definition jobs_flag :: "string \<Rightarrow> redo_opts \<Rightarrow> redo_opts option" where
  "jobs_flag a ro =
     (case strip_prefix ''-j'' a of
        Some (d # ds) \<Rightarrow> Some (ro\<lparr>rd_jobs := jobs_of (d # ds)\<rparr>)
      | _ \<Rightarrow> map_option (\<lambda>v. ro\<lparr>rd_jobs := jobs_of v\<rparr>) (strip_prefix ''--jobs='' a))"

text \<open>\<open>None\<close> is \<open>--version\<close>. What is not an option is a target, also an unknown option.\<close>

function parse_redo_args :: "string list \<Rightarrow> redo_opts \<Rightarrow> redo_opts option" where
  "parse_redo_args [] ro = Some ro"
| "parse_redo_args (a # as) ro =
     (if a = ''--version'' then None
      else case redo_flag a ro of
        Some ro1 \<Rightarrow> parse_redo_args as ro1
      | None \<Rightarrow>
          if a = ''-j'' \<or> a = ''--jobs'' then
            parse_redo_args (tl as) (ro\<lparr>rd_jobs := (case as of [] \<Rightarrow> 0 | v # _ \<Rightarrow> jobs_of v)\<rparr>)
          else case jobs_flag a ro of
            Some ro1 \<Rightarrow> parse_redo_args as ro1
          | None \<Rightarrow> parse_redo_args as (ro\<lparr>rd_targets := rd_targets ro @ [a]\<rparr>))"
  by pat_completeness auto
termination by (relation "measure (\<lambda>(as, ro). length as)") auto

definition set_defint :: "string \<Rightarrow> int \<Rightarrow> vars \<Rightarrow> vars" where
  "set_defint n v vs = (if vs n = None then vs(n \<mapsto> show_int v) else vs)"

text \<open>The variables the processes of this run inherit.\<close>

definition redo_vars :: "redo_opts \<Rightarrow> vars" where
  "redo_vars ro =
     set_defint ''REDO_COLOR'' (rd_color ro) (set_defint ''REDO_PRETTY'' (if rd_pretty ro then 1 else 0)
       (set_defint ''REDO_LOG'' (if rd_vars ro ''REDO_LOG'' = Some ''0'' then 0 else 1) (rd_vars ro)))"

subsection \<open>The log reader\<close>

definition on_off :: "bool \<Rightarrow> string \<Rightarrow> string" where
  "on_off b n = (if b then ''--'' @ n else ''--no-'' @ n)"

text \<open>The arguments \<open>redo-log\<close> is started with; \<open>tty\<close> is \<open>isatty(2)\<close>, \<open>aw\<close> the acknowledgement pipe.\<close>

definition reader_args :: "redo_opts \<Rightarrow> bool \<Rightarrow> nat \<Rightarrow> string list" where
  "reader_args ro tty aw =
     [''--recursive'', ''--follow'', on_off (rd_status ro \<and> tty) ''status'', on_off (rd_details ro) ''details'',
      on_off (rd_pretty ro) ''pretty'', on_off (rd_debug_locks ro) ''debug-locks'', on_off (rd_debug_pids ro) ''debug-pids''] @
     (if rd_color ro = 0 then [''--no-color''] else if 2 \<le> rd_color ro then [''--color''] else []) @
     [''--ack-fd'', show_nat aw, ''-'']"

subsection \<open>Before the build\<close>

record build_start =
  bs_jobs :: int
  bs_close_stdin :: bool
  bs_top_targets :: "string option"
  bs_reader :: "string list option"
  bs_plan_line :: "string option"
  bs_preflight :: "int set"

definition plan_of :: "build_plan option res \<Rightarrow> build_plan option" where
  "plan_of r = (case r of Inr (Some p) \<Rightarrow> Some p | _ \<Rightarrow> None)"

text \<open>Broken locks allow one job only. \<open>plan\<close> is the result of \<open>compute_build_plan\<close>, which is asked for by the
  toplevel process only, when there is a log reader and its status line is wanted.\<close>

definition start_build :: "redo_opts \<Rightarrow> env \<Rightarrow> bool \<Rightarrow> bool \<Rightarrow> nat \<Rightarrow> build_plan option res \<Rightarrow> build_start" where
  "start_build ro e toplevel tty aw plan =
     (let jobs = (if (toplevel \<or> 1 < rd_jobs ro) \<and> e_locks_broken e \<and> 1 < rd_jobs ro then 1 else rd_jobs ro);
          reader = toplevel \<and> e_log e \<noteq> 0;
          p = (if reader \<and> rd_status ro then plan_of plan else None)
      in \<lparr>bs_jobs = jobs,
          bs_close_stdin = (toplevel \<and> (e_log e \<noteq> 0 \<or> 1 < jobs)),
          bs_top_targets = (if reader then Some (join_with [CHR 0x0A] (if rd_targets ro = [] then [''all''] else rd_targets ro)) else None),
          bs_reader = (if reader then Some (reader_args ro tty aw) else None),
          bs_plan_line = map_option plan_message p,
          bs_preflight = (case p of None \<Rightarrow> {} | Some q \<Rightarrow> bp_checked_ids q)\<rparr>)"

text \<open>\<open>redo --plan\<close>: the line printed and the exit code.\<close>

definition plan_only :: "build_plan option res \<Rightarrow> string option \<times> int" where
  "plan_only r = (case r of
     Inr (Some p) \<Rightarrow> (Some (plan_message p), 0) | Inr None \<Rightarrow> (Some ''no_plan'', 0) | Inl _ \<Rightarrow> (None, 1))"

subsection \<open>\<open>redo-ifchange\<close>\<close>

text \<open>The log reader of \<open>redo-ifchange\<close> is started with the default display.\<close>

definition ifchange_reader_args :: "bool \<Rightarrow> nat \<Rightarrow> string list" where
  "ifchange_reader_args tty aw = reader_args (redo_defaults Map.empty) tty aw"

datatype ifchange_start = Show_Version | Quit int | Go env "string list" "string list option"

text \<open>\<open>init\<close> is \<open>state::init\<close> with the environment and whether the process is the toplevel one; \<open>reader_ok\<close> tells whether
  the log reader acknowledges its start.\<close>

definition ifchange_begin :: "(string \<Rightarrow> string res) \<Rightarrow> (string list \<Rightarrow> (env \<times> bool) res) \<Rightarrow> bool \<Rightarrow> nat \<Rightarrow> bool \<Rightarrow> string list
    \<Rightarrow> ifchange_start" where
  "ifchange_begin rd init tty aw reader_ok args =
     (if ''--version'' \<in> set args then Show_Version
      else case parse_targets rd args of
        Inl _ \<Rightarrow> Quit 204
      | Inr targets \<Rightarrow>
          (case init targets of
             Inl _ \<Rightarrow> Quit 1
           | Inr (e, toplevel) \<Rightarrow>
               if toplevel \<and> e_log e \<noteq> 0
               then (if reader_ok then Go e targets (Some (ifchange_reader_args tty aw)) else Quit 99)
               else Go e targets None))"

text \<open>The exit code; \<open>run\<close> is \<open>run_ifchange\<close>.\<close>

definition ifchange_main :: "(string \<Rightarrow> string res) \<Rightarrow> (string list \<Rightarrow> (env \<times> bool) res) \<Rightarrow> bool \<Rightarrow> nat \<Rightarrow> bool
    \<Rightarrow> (env \<Rightarrow> string list \<Rightarrow> int res) \<Rightarrow> string list \<Rightarrow> int" where
  "ifchange_main rd init tty aw reader_ok run args =
     (case ifchange_begin rd init tty aw reader_ok args of
        Show_Version \<Rightarrow> 0
      | Quit rv \<Rightarrow> rv
      | Go e targets reader \<Rightarrow> (case run e targets of Inr rv \<Rightarrow> rv | Inl _ \<Rightarrow> 1))"

lemma ifchange_main_zero:
  assumes "ifchange_main rd init tty aw reader_ok run args = 0" "''--version'' \<notin> set args"
  obtains targets e toplevel where "parse_targets rd args = Inr targets" "init targets = Inr (e, toplevel)" "run e targets = Inr 0"
  using assms by (auto simp: ifchange_main_def ifchange_begin_def split: sum.splits if_splits)

end
