(* ===== verification/Plan_Props.thy ===== *)
theory Plan_Props
  imports Plan
begin

text \<open>
  Properties of the build plan: its scope is the closure of the requested targets, its counts say how many of
  these outputs are up to date, and the build may trust the ids it hands on.
\<close>

subsection \<open>The scope\<close>

lemma scope_from_closure:
  assumes "scope_from succs U stop ks = Some seen"
  shows "set seen = closure (planned succs U) (set ks)" "distinct seen"
proof -
  obtain s q where v: "visit id ks ([], []) = (s, q)" by fastforce
  then obtain ns where ns: "q = ns" "s = rev ns" "set ns = set ks" "distinct ns" using visit_new by fastforce
  then have r: "search succs U stop (rev (rev ns)) (rev ns) = Some seen" using assms v by (simp add: scope_from_def)
  show "set seen = closure (planned succs U) (set ks)" "distinct seen"
    using search_closure [OF r] ns by simp_all
qed

lemma scope_from_total: "\<exists>seen. scope_from succs U (\<lambda>_. False) ks = Some seen"
  using search_total by (auto simp: scope_from_def split: prod.splits)

lemma dofile_planned: "planned (deps_from_dofile contents base plan_all) plan_all = deps_from_dofile contents base plan_all"
  by (rule ext) (auto simp: planned_def deps_from_dofile_def filter_id_conv split: option.splits)

lemma compute_plan_scope_closure:
  "set (compute_plan_scope contents base plan_all roots) =
     closure (deps_from_dofile contents base plan_all) (set (root_keys base plan_all roots))"
  "distinct (compute_plan_scope contents base plan_all roots)"
proof -
  let ?ks = "root_keys base plan_all roots" and ?d = "deps_from_dofile contents base plan_all"
  obtain seen where s: "scope_from ?d plan_all (\<lambda>_. False) ?ks = Some seen" using scope_from_total by blast
  have "closure ?d {} = {}" by (simp add: closure_def)
  then show "set (compute_plan_scope contents base plan_all roots) = closure ?d (set ?ks)"
    "distinct (compute_plan_scope contents base plan_all roots)"
    using scope_from_closure [OF s] by (simp_all add: compute_plan_scope_def Let_def s dofile_planned)
qed

text \<open>C25. The scope of a plan is the closure of the requested targets that are planned outputs under the planned
  dependencies read from the generated scripts, each once and all of them planned outputs. The progress display of
  redo-log counts against the closure as well, or against the whole plan when no requested target is planned or the
  closure gets large.\<close>

theorem plan_scope_is_closure:
  "set (compute_plan_scope contents base plan_all roots) =
     closure (deps_from_dofile contents base plan_all) (set (root_keys base plan_all roots)) \<and>
   distinct (compute_plan_scope contents base plan_all roots) \<and>
   set (compute_plan_scope contents base plan_all roots) \<subseteq> set plan_all \<and>
   set (log_compute_plan_scope contents base plan_all roots) \<in>
     {set plan_all, closure (planned (\<lambda>k. map (abs_plan_key base) (log_deps_from_dofile contents base k)) plan_all)
        (set plan_all \<inter> abs_plan_key base ` set roots)}"
proof -
  have r: "set (root_keys base plan_all roots) \<subseteq> set plan_all" by (auto simp: root_keys_def)
  have s: "set (compute_plan_scope contents base plan_all roots) \<subseteq> set plan_all"
    using closure_planned [OF r, of "deps_from_dofile contents base plan_all"]
    by (simp add: compute_plan_scope_closure dofile_planned)
  have i: "set (filter (\<lambda>k. k \<in> set plan_all) (map (abs_plan_key base) roots)) = set plan_all \<inter> abs_plan_key base ` set roots"
    by auto
  show ?thesis
    unfolding compute_plan_scope_closure(1)
    using compute_plan_scope_closure s scope_from_closure(1) i
    by (auto simp: log_compute_plan_scope_def Let_def unwrap_or_def split: option.splits)
qed

subsection \<open>The counts\<close>

lemma by_name_False:
  assumes "by_name x e name False s = Inr (f, s')"
  shows "s' = s" "\<exists>n r. db_name x e name = Inr n \<and> sql_file_by_name (si_db s) n = Some r \<and> f = from_row e r"
  using assms by (auto simp: by_name_def rbind_Inr_iff split: option.splits sum.splits)

lemma by_name_False_known:
  assumes "by_name x e name False s = Inr (f, s')" "db_wf (si_db s)" shows "known e s f"
proof -
  obtain n r where r: "sql_file_by_name (si_db s) n = Some r" "f = from_row e r" using by_name_False [OF assms(1)] by blast
  then have "r \<in> set (db_files (si_db s))" by (auto simp: sql_file_by_name_def find_Some_iff)
  with assms(2) r(2) show ?thesis using files_known [OF assms(2), of f e] by (simp add: files_def)
qed

text \<open>An output is recorded_clean when it is recorded, up to date, and did not change after this run began.\<close>

definition recorded_clean :: "ext_fns \<Rightarrow> fsview \<Rightarrow> env \<Rightarrow> state_inner \<Rightarrow> string \<Rightarrow> bool" where
  "recorded_clean x fs e s out_rel \<longleftrightarrow>
     (\<exists>f s'. by_name x e (path_join (e_base e) out_rel) False s = Inr (f, s') \<and> up_to_date fs e s f \<and>
        unwrap_or (f_changed_runid f) 0 \<le> unwrap_or (e_runid e) 0)"

lemma plan_loop_counts:
  assumes "db_wf (si_db s)" "card (file_id_set s) < n" "cache_ok fs e s c"
  shows "\<exists>r. plan_loop x fs e s n outs (d, u, c) = Some r \<and>
     (\<forall>d' u' c'. r = Inr (d', u', c') \<longrightarrow>
        u' = u + length (filter (recorded_clean x fs e s) outs) \<and> d' + u' = d + u + length outs \<and> cache_ok fs e s c')"
  using assms(3)
proof (induction outs arbitrary: d u c)
  case (Cons o1 outs)
  show ?case
  proof (cases "by_name x e (path_join (e_base e) o1) False s")
    case (Inl err)
    then have "\<not> recorded_clean x fs e s o1" by (simp add: recorded_clean_def)
    with Inl Cons.IH [OF Cons.prems, of "d + 1" u] show ?thesis by auto
  next
    case (Inr p)
    then obtain f s' where f: "by_name x e (path_join (e_base e) o1) False s = Inr (f, s')" by (cases p) auto
    have k: "known e s f" using f assms(1) by (rule by_name_False_known)
    obtain v where v: "isdirty_readonly_default fs e s n f (unwrap_or (e_runid e) 0) c = Some v"
      "(\<exists>c'. v = Inr (Clean, c')) \<longleftrightarrow> recorded_clean x fs e s o1" "\<forall>d c'. v = Inr (d, c') \<longrightarrow> cache_ok fs e s c' \<and> verdict_ok d"
      using readonly_default_verdict [OF k Cons.prems assms(2), of "unwrap_or (e_runid e) 0"]
      by (auto simp: recorded_clean_def f)
    show ?thesis
    proof (cases v)
      case (Inl err)
      then show ?thesis by (simp add: f v(1))
    next
      case (Inr q)
      obtain vd c' where q: "q = (vd, c')" by fastforce
      have c: "cache_ok fs e s c'" "vd = Clean \<longleftrightarrow> recorded_clean x fs e s o1" using v(2,3) Inr q by auto
      show ?thesis
        using Cons.IH [OF c(1), of "if vd = Clean then d else d + 1" "if vd = Clean then u + 1 else u"] c(2) Inr q
        by (auto simp: f v(1))
    qed
  qed
qed simp

lemma compute_build_plan_ok:
  assumes "db_wf (si_db s)" "card (file_id_set s) < n"
  shows "\<exists>r. compute_build_plan x fs contents e s n targets = Some r \<and>
     (\<forall>p. r = Inr (Some p) \<longrightarrow> (\<exists>text scope. contents (plan_path (e_base e)) = Some text \<and>
        scope = compute_plan_scope contents (e_base e) (load_plan_targets (e_base e) text) (if targets = [] then [''all''] else targets) \<and>
        bp_total p = length scope \<and> bp_uptodate p = length (filter (recorded_clean x fs e s) scope) \<and>
        bp_dirty p + bp_uptodate p = bp_total p \<and>
        (\<forall>f. known e s f \<longrightarrow> f_id f \<in> bp_checked_ids p \<longrightarrow> up_to_date fs e s f)))"
proof (cases "contents (plan_path (e_base e))")
  case None
  then show ?thesis by (simp add: compute_build_plan_def)
next
  case (Some pt)
  let ?s = "compute_plan_scope contents (e_base e) (load_plan_targets (e_base e) pt) (if targets = [] then [''all''] else targets)"
  obtain r where r: "plan_loop x fs e s n ?s (0, 0, pc_empty) = Some r"
    "\<forall>d u c. r = Inr (d, u, c) \<longrightarrow> u = length (filter (recorded_clean x fs e s) ?s) \<and> d + u = length ?s \<and> cache_ok fs e s c"
    using plan_loop_counts [OF assms cache_ok_empty, of x fs e ?s 0 0] by auto
  then show ?thesis
    by (cases r) (auto simp: compute_build_plan_def Some Let_def rbind_def cache_ok_def)
qed

text \<open>C28. The plan tells the truth. It is computed without running out of fuel; the total is the number of outputs in scope,
  "uptodate" counts exactly those that the database knows, that are up to date and did not change after this run began,
  "dirty" counts all others; and every file whose id is handed to the build is up to date.\<close>

theorem build_plan_counts:
  assumes "db_wf (si_db s)" "card (file_id_set s) < n"
  shows "\<exists>r. compute_build_plan x fs contents e s n targets = Some r \<and>
     (\<forall>p. r = Inr (Some p) \<longrightarrow> (\<exists>text scope. contents (plan_path (e_base e)) = Some text \<and>
        scope = compute_plan_scope contents (e_base e) (load_plan_targets (e_base e) text) (if targets = [] then [''all''] else targets) \<and>
        bp_total p = length scope \<and> bp_uptodate p = length (filter (recorded_clean x fs e s) scope) \<and>
        bp_dirty p + bp_uptodate p = bp_total p \<and>
        (\<forall>f. known e s f \<longrightarrow> f_id f \<in> bp_checked_ids p \<longrightarrow> up_to_date fs e s f)))"
  using assms by (rule compute_build_plan_ok)

subsection \<open>The build after the plan\<close>

lemma trusted_known_up:
  assumes "trusted_up fs e s trust f" "known e s f" "\<And>g. known e s g \<Longrightarrow> trust g \<Longrightarrow> up_to_date fs e s g"
  shows "up_to_date fs e s f"
  using assms(1,2)
proof (induction rule: trusted_up.induct)
  case (checked f)
  then show ?case using file_deps_known by (intro up_to_date.intros) blast+
qed (rule assms(3))

text \<open>C17. Trusting the plan is safe. In a run in which no file has been checked yet, with the ids of the plan installed, an
  answer "clean" of the analysis during the build means that the file really is up to date with respect to the
  database: skipping the files the planner looked at loses nothing.\<close>

theorem preflight_is_sound:
  assumes "compute_build_plan x fs contents e s n targets = Some (Inr (Some p))"
    "db_wf (si_db s)" "card (file_id_set s) < n" "e_runid e = Some r"
    "known e s f" "\<forall>g. known e s g \<longrightarrow> \<not> is_checked e g"
    "isdirty_default (bp_checked_ids p) fs e m f mx (s, l) = Some (Inr (Clean, f', s', l'))"
  shows "up_to_date fs e s f"
proof -
  have c: "\<forall>f. known e s f \<longrightarrow> f_id f \<in> bp_checked_ids p \<longrightarrow> up_to_date fs e s f"
    using compute_build_plan_ok [OF assms(2,3), of x fs contents e targets] assms(1) by auto
  have "trusted_up fs e s (default_trust (bp_checked_ids p) e) f"
    using default_sound.clean_is_up(4) [where r = r and e = e and preflight = "bp_checked_ids p",
      unfolded with_runid_id [OF assms(4)], OF assms(5) TrueI assms(7) [unfolded isdirty_default_def]] by simp
  then show ?thesis using assms(5) by (rule trusted_known_up) (use assms(6) c in \<open>auto simp: default_trust_def\<close>)
qed

text \<open>Two planned outputs, of which the generated script of \<open>t\<close> names the other.\<close>

definition demo_targets :: string where
  "demo_targets = ''t'' @ [CHR 0x0A] @ ''/w/src'' @ [CHR 0x0A]"

definition demo_contents :: "string \<Rightarrow> string option" where
  "demo_contents p =
     (if p = ''/w/.redo/plan.targets'' then Some demo_targets
      else if p = ''/w/t.do'' then Some (''# Generated by CMake Redo generator'' @ [CHR 0x0A] @ ''redo-ifchange src'' @ [CHR 0x0A])
      else None)"

lemma demo_plan_values:
  "compute_plan_scope demo_contents ''/w'' [''t'', ''src''] [''t''] = [''src'', ''t'']"
  "load_plan_targets ''/w'' demo_targets = [''t'', ''src'']"
  by code_simp+

definition demo_build_plan :: build_plan where
  "demo_build_plan = \<lparr>bp_dirty = 0, bp_total = 2, bp_uptodate = 2, bp_checked_ids = {2, 3}\<rparr>"

lemma demo_plan_result:
  "compute_build_plan demo_ext demo_fs demo_contents demo_env demo_plan 4 [''t''] = Some (Inr (Some demo_build_plan))"
  by code_simp

lemma demo_plan_facts:
  "db_wf (si_db demo_plan)" "card (file_id_set demo_plan) < 4" "known demo_env demo_plan demo_target" "e_runid demo_env = Some 1000000002"
  by code_simp+

theorem build_plan_counts_witness:
  "bp_uptodate demo_build_plan = length (filter (recorded_clean demo_ext demo_fs demo_env demo_plan) [''src'', ''t''])"
proof -
  note c = build_plan_counts [OF demo_plan_facts(1,2), of demo_ext demo_fs demo_contents demo_env "[''t'']"]
  have "demo_contents (plan_path (e_base demo_env)) = Some demo_targets" "e_base demo_env = ''/w''"
    by code_simp+
  with c show ?thesis by (auto simp: demo_plan_result demo_plan_values)
qed

theorem preflight_is_sound_witness:
  "up_to_date demo_fs demo_env demo_plan demo_target"
proof -
  have nc: "\<forall>g. known demo_env demo_plan g \<longrightarrow> \<not> is_checked demo_env g"
  proof (intro allI impI)
    fix g assume "known demo_env demo_plan g"
    then obtain r where r: "sql_file_by_id (si_db demo_plan) (f_id g) = Some r" "g = from_row demo_env r" by (rule knownE)
    have "\<forall>r \<in> set (db_files (si_db demo_plan)). \<not> is_checked demo_env (from_row demo_env r)" by code_simp
    with r show "\<not> is_checked demo_env g" by (auto simp: sql_file_by_id_def find_Some_iff)
  qed
  have "map_option (map_sum id fst) (isdirty_default (bp_checked_ids demo_build_plan) demo_fs demo_env 4 demo_target 1000000002 (demo_plan, [])) = Some (Inr Clean)"
    by code_simp
  then obtain f' s' l' where "isdirty_default (bp_checked_ids demo_build_plan) demo_fs demo_env 4 demo_target 1000000002 (demo_plan, []) = Some (Inr (Clean, f', s', l'))"
    using map_fst_Inr by (metis prod.exhaust)
  from preflight_is_sound [OF demo_plan_result demo_plan_facts(1,2,4,3) nc this] show ?thesis .
qed

subsection \<open>Names in generated scripts\<close>

definition ascii :: "string \<Rightarrow> bool" where
  "ascii s \<longleftrightarrow> (\<forall>c \<in> set s. (of_char c :: nat) < 128)"

lemma latin1_ascii: "ascii s \<Longrightarrow> concat (map latin1 s) = s"
  by (induction s) (auto simp: ascii_def latin1_def)

definition single_quote :: "string \<Rightarrow> string" where
  "single_quote w = [CHR 0x27] @ w @ [CHR 0x27]"

lemma shell_words_quoted:
  assumes "\<forall>w \<in> set ws. w \<noteq> [] \<and> CHR 0x27 \<notin> set w \<and> ascii w"
  shows "shell_words (concat (map (\<lambda>w. CHR '' '' # single_quote w) ws)) = ws"
  using assms
proof (induction ws)
  case Nil
  then show ?case by (subst shell_words.simps) simp
next
  case (Cons w ws)
  let ?r = "concat (map (\<lambda>w. CHR '' '' # single_quote w) ws)"
  have "single_quoted (w @ CHR 0x27 # ?r) = (w, ?r)"
    using Cons.prems latin1_ascii [of w] by (auto simp: single_quoted_def takeWhile_append dropWhile_append)
  then have "shell_words (CHR '' '' # single_quote w @ ?r) = w # shell_words ?r"
    using Cons.prems by (subst shell_words.simps) (simp add: shell_ws_def one_word_def single_quote_def)
  then show ?case using Cons by simp
qed

lemma drop_options_names: "\<forall>w \<in> set ws. \<not> starts_with ''-'' w \<Longrightarrow> drop_options ws = ws"
  by (induction ws) (auto simp: starts_with_def)

text \<open>The planner reads back the dependencies of a generated script: the names quoted after \<open>redo-ifchange\<close> are
  returned in order, for ASCII names without quotes that do not look like options.\<close>

theorem quoted_deps_roundtrip:
  assumes "\<forall>w \<in> set ws. w \<noteq> [] \<and> CHR 0x27 \<notin> set w \<and> ascii w \<and> \<not> starts_with ''-'' w"
  shows "parse_redo_ifchange_deps (''redo-ifchange'' @ concat (map (\<lambda>w. CHR '' '' # single_quote w) ws)) = ws"
proof -
  have "trim_start (''redo-ifchange'' @ s) = ''redo-ifchange'' @ s" for s by (simp add: trim_start_def is_ws_def)
  then show ?thesis
    using shell_words_quoted [of ws] drop_options_names [of ws] assms by (simp add: parse_redo_ifchange_deps_def)
qed

theorem quoted_deps_roundtrip_witness:
  "parse_redo_ifchange_deps (''redo-ifchange'' @ concat (map (\<lambda>w. CHR '' '' # single_quote w) [''a b'', ''#x''])) = [''a b'', ''#x'']"
  by (rule quoted_deps_roundtrip) (simp add: ascii_def starts_with_def)

text \<open>Other names are garbled: the two bytes of an e with acute accent are read as two characters, which take four bytes.\<close>

lemma non_ascii_garbled:
  "parse_redo_ifchange_deps (''redo-ifchange '' @ [CHR 0xC3, CHR 0xA9]) = [[CHR 0xC3, CHR 0x83, CHR 0xC2, CHR 0xA9]]"
  by code_simp

end
