(* ===== verification/Log_Props.thy ===== *)
theory Log_Props
  imports Redo_Main Plan_Props
begin

text \<open>
  Properties of the logs: what one process writes the log reader understands, a log that is read without recursion is
  shown completely, reading ends, and the progress sets stay consistent.
\<close>

subsection \<open>Meta lines\<close>

lemma find_sub_meta:
  "CHR ''@'' \<notin> set h \<Longrightarrow> find_sub ''@@ '' (h @ CHR ''@'' # CHR ''@'' # CHR '' '' # m) = Some (h, m)"
  by (induction h) auto

lemma parse_raw_meta:
  assumes "CHR '':'' \<notin> set kind" "CHR ''@'' \<notin> set kind" "CHR ''@'' \<notin> set ts" "pid < 2 ^ 32"
  shows "parse_redo_meta_line (raw_meta kind pid ts msg) = Some (kind, pid, msg)"
proof -
  let ?h = "kind @ CHR '':'' # show_nat pid @ CHR '':'' # ts"
  have "CHR ''@'' \<notin> set ?h" using assms show_nat_notin [of "CHR ''@''" pid] by (auto simp: is_digit_def)
  from find_sub_meta [OF this, of msg]
  have f: "find_sub ''@@ '' (?h @ ''@@ '' @ msg) = Some (?h, msg)" by simp
  have "CHR '':'' \<notin> set (show_nat pid)" by (rule show_nat_notin) (simp add: is_digit_def)
  then have "split_on (CHR '':'') ?h = kind # show_nat pid # split_on (CHR '':'') ts"
    using assms(1) by (simp add: split_on_append_sep split_on_id)
  then show ?thesis
    using f assms(4) by (simp add: parse_redo_meta_line_def raw_meta_def parse_uint_show)
qed

text \<open>What a redo process logs in raw mode is one line that the log reader takes apart into the same kind, process id
  and message, trailing white space aside.\<close>

theorem meta_line_roundtrip:
  assumes "lf_mode cfg = Raw" "CHR '':'' \<notin> set kind" "CHR ''@'' \<notin> set kind" "CHR ''@'' \<notin> set ts" "pid < 2 ^ 32"
  shows "map parse_redo_meta_line (log_meta cfg e pid ts kind msg) = [Some (kind, pid, trim_end msg)]"
  using parse_raw_meta [OF assms(2-)] assms(1) by (simp add: log_meta_def)

theorem meta_line_roundtrip_witness:
  "map parse_redo_meta_line (log_meta \<lparr>lf_mode = Raw, lf_ansi = no_colors\<rparr> demo_env 17 ''0.5000'' ''done'' ''0 a/b '')
     = [Some (''done'', 17, ''0 a/b'')]"
proof -
  have "trim_end ''0 a/b '' = ''0 a/b''" by code_simp
  with meta_line_roundtrip [of "\<lparr>lf_mode = Raw, lf_ansi = no_colors\<rparr>" "''done''" "''0.5000''" 17 demo_env "''0 a/b ''"]
  show ?thesis by simp
qed

subsection \<open>What redo tells its log reader\<close>

lemma split_ws_num:
  assumes "w \<noteq> []" "\<forall>c \<in> set w. \<not> is_ws c"
  shows "split_ws (w @ show_nat n @ CHR '' '' # s) = (w @ show_nat n) # split_ws s"
    "split_ws (w @ show_nat n) = [w @ show_nat n]"
proof -
  have d: "\<forall>c \<in> set (w @ show_nat n). \<not> is_ws c"
    using assms(2) show_nat_digits [of n] is_digit_not_ws by (auto simp: list_all_iff)
  show "split_ws (w @ show_nat n @ CHR '' '' # s) = (w @ show_nat n) # split_ws s"
    using split_ws_cons [OF _ d, of "CHR '' ''" s] assms(1) by simp
  show "split_ws (w @ show_nat n) = [w @ show_nat n]"
    using split_ws_aux_word [OF d, of "[]" "[]"] assms(1) by (simp add: split_ws_def)
qed

lemma plan_word_num:
  "CHR ''='' \<notin> set k \<Longrightarrow> n < 2 ^ 64 \<Longrightarrow> plan_word (k @ CHR ''='' # show_nat n) m = m(k \<mapsto> Some n)"
  by (simp add: plan_word_def split_once_append parse_uint_show)

lemma parse_plan_message:
  assumes "bp_dirty p < 2 ^ 64" "bp_total p < 2 ^ 64" "bp_uptodate p < 2 ^ 64"
  shows "parse_plan_meta (plan_message p) = Some (bp_dirty p, bp_total p, bp_uptodate p)"
proof -
  have w: "split_ws (plan_message p) = [''dirty'' @ CHR ''='' # show_nat (bp_dirty p),
      ''total'' @ CHR ''='' # show_nat (bp_total p), ''uptodate'' @ CHR ''='' # show_nat (bp_uptodate p)]"
    using split_ws_num [of "''dirty=''"] split_ws_num [of "''total=''"] split_ws_num [of "''uptodate=''"]
    by (simp add: plan_message_def is_ws_def)
  show ?thesis
    unfolding parse_plan_meta_def w using assms by (simp add: plan_word_num del: append.simps)
qed

text \<open>The counts of the plan reach the progress display: the line \<open>redo\<close> logs for a plan is read by \<open>redo-log\<close> as a plan
  line with the same three numbers.\<close>

theorem plan_line_roundtrip:
  assumes "bp_dirty p < 2 ^ 64" "bp_total p < 2 ^ 64" "bp_uptodate p < 2 ^ 64" "pid < 2 ^ 32" "CHR ''@'' \<notin> set ts"
  shows "map_option (\<lambda>(kind, _, msg). (kind, parse_plan_meta msg)) (parse_redo_meta_line (raw_meta ''plan'' pid ts (plan_message p))) =
     Some (''plan'', Some (bp_dirty p, bp_total p, bp_uptodate p))"
  using parse_raw_meta [of "''plan''" ts pid] parse_plan_message [OF assms(1-3)] assms(4,5) by simp

theorem plan_line_roundtrip_witness:
  "map_option (\<lambda>(kind, _, msg). (kind, parse_plan_meta msg)) (parse_redo_meta_line (raw_meta ''plan'' 17 ''0.5'' (plan_message demo_build_plan))) =
     Some (''plan'', Some (0, 2, 2))"
  using plan_line_roundtrip [of demo_build_plan 17 "''0.5''"] by (simp add: demo_build_plan_def)

lemma parse_flag:
  assumes "starts_with ''--'' a" "strip_prefix ''--ack-fd='' a = None" "a \<noteq> ''--ack-fd''"
  shows "parse_log_args (a # as) ro = parse_log_args as (the (log_flag a ro))"
proof -
  obtain s where "a = CHR ''-'' # CHR ''-'' # s"
    using assms(1) by (auto simp: starts_with_def strip_prefix_Some)
  then have "starts_with ''-'' a \<and> a \<noteq> ''-''" by (simp add: starts_with_def)
  then have "log_flag a ro \<noteq> None" by (simp add: log_flag_def)
  with assms(2,3) show ?thesis by auto
qed

lemma parse_on_off:
  "parse_log_args (on_off b ''status'' # as) ro = parse_log_args as (ro\<lparr>ro_status := if b then ro_status ro + 1 else 0\<rparr>)"
  "parse_log_args (on_off b ''details'' # as) ro = parse_log_args as (ro\<lparr>ro_details := b\<rparr>)"
  "parse_log_args (on_off b ''pretty'' # as) ro = parse_log_args as (ro\<lparr>ro_pretty := b\<rparr>)"
  "parse_log_args (on_off b ''debug-locks'' # as) ro = parse_log_args as (ro\<lparr>ro_debug_locks := b\<rparr>)"
  "parse_log_args (on_off b ''debug-pids'' # as) ro = parse_log_args as (ro\<lparr>ro_debug_pids := b\<rparr>)"
  "parse_log_args (''--recursive'' # as) ro = parse_log_args as (ro\<lparr>ro_recursive := True\<rparr>)"
  "parse_log_args (''--follow'' # as) ro = parse_log_args as (ro\<lparr>ro_follow := True\<rparr>)"
  "parse_log_args (''--no-color'' # as) ro = parse_log_args as (ro\<lparr>ro_color := 0\<rparr>)"
  "parse_log_args (''--color'' # as) ro = parse_log_args as (ro\<lparr>ro_color := ro_color ro + 1\<rparr>)"
  by (simp_all add: parse_flag starts_with_def on_off_def log_flag_def)

lemma parse_ack:
  "aw < 2 ^ 31 \<Longrightarrow> parse_log_args [''--ack-fd'', show_nat aw, ''-''] ro = ro\<lparr>ro_ack_fd := Some (int aw), ro_targets := [''-'']\<rparr>"
  using parse_sint_show [of 32 "int aw"] by (simp add: log_flag_def starts_with_def show_int_def)

text \<open>The log reader is started as wanted: \<open>redo-log\<close> reads its arguments back as following, recursive, on standard
  input, with the details, form, colour and debugging options of \<open>redo\<close>, and with a status line forced exactly when
  it is wanted and standard error is a terminal.\<close>

theorem reader_args_roundtrip:
  assumes "aw < 2 ^ 31"
  shows "parse_log_args (reader_args ro tty aw) log_defaults =
     \<lparr>ro_ack_fd = Some (int aw), ro_recursive = True, ro_unchanged = False, ro_follow = True, ro_pretty = rd_pretty ro,
      ro_details = rd_details ro, ro_color = (if rd_color ro = 0 then 0 else if 2 \<le> rd_color ro then 2 else 1),
      ro_debug_pids = rd_debug_pids ro, ro_debug_locks = rd_debug_locks ro,
      ro_status = (if rd_status ro \<and> tty then 2 else 0), ro_targets = [''-'']\<rparr>"
  using parse_ack [OF assms]
  by (simp add: reader_args_def parse_on_off log_defaults_def del: parse_log_args.simps)

theorem reader_args_roundtrip_witness:
  "ro_color (parse_log_args (reader_args (redo_defaults Map.empty) True 7) log_defaults) = 1"
  using reader_args_roundtrip [of 7 "redo_defaults Map.empty" True] by (simp add: redo_defaults_def)

subsection \<open>The progress sets\<close>

definition progress_ok :: "progress \<Rightarrow> bool" where
  "progress_ok p \<longleftrightarrow> pg_failed p \<subseteq> pg_done p \<and> pg_done p \<inter> pg_uptodate p = {} \<and>
     pg_running p \<union> pg_done p \<union> pg_uptodate p \<subseteq> pg_seen p \<and> finite (pg_seen p)"

named_theorems progress_intros

lemma progress_ok_none [progress_intros]: "progress_ok (no_progress\<lparr>pg_planned := ks\<rparr>)"
  by (simp add: progress_ok_def no_progress_def)

lemma progress_ok_note [progress_intros]:
  "progress_ok p \<Longrightarrow> progress_ok (note_seen k p)" "progress_ok p \<Longrightarrow> progress_ok (note_started k p)"
  "progress_ok p \<Longrightarrow> progress_ok (note_running k p)" "progress_ok p \<Longrightarrow> progress_ok (note_unchanged k p)"
  "progress_ok p \<Longrightarrow> progress_ok (note_uptodate k p)" "progress_ok p \<Longrightarrow> progress_ok (note_done k rv p)"
  "progress_ok p \<Longrightarrow> progress_ok (p\<lparr>pg_totals := t\<rparr>)"
  by (auto simp: progress_ok_def note_seen_def note_started_def note_running_def note_unchanged_def note_uptodate_def note_done_def)

lemma show_progress [simp]:
  "ls_progress (say l st) = ls_progress st" "ls_progress (show_line c line pid col s st) = ls_progress st"
  "ls_progress (target_line c mydir line kind pid msg lock st) = ls_progress st"
  "ls_progress (finish_log c h st) = ls_progress st" "ls_progress (mark_already n st) = ls_progress st"
  "ls_progress (on_progress f st) = f (ls_progress st)"
  by (simp_all add: say_def show_line_def target_line_def finish_log_def mark_already_def on_progress_def Let_def)

lemma show_already [simp]:
  "ls_already (say l st) = ls_already st" "ls_already (show_line c line pid col s st) = ls_already st"
  "ls_already (target_line c mydir line kind pid msg lock st) = ls_already st"
  "ls_already (finish_log c h st) = ls_already st" "ls_already (on_progress f st) = ls_already st"
  "set (ls_already (mark_already n st)) = insert n (set (ls_already st))"
  by (simp_all add: say_def show_line_def target_line_def finish_log_def mark_already_def on_progress_def Let_def)

lemma done_line_progress:
  "progress_ok (ls_progress st) \<Longrightarrow> progress_ok (ls_progress (done_line c mydir line pid msg st))"
  by (auto simp: done_line_def Let_def intro: progress_intros split: option.splits)

lemma meta_line_progress:
  "handle_meta c mydir line m st = (st1, ch) \<Longrightarrow> progress_ok (ls_progress st) \<Longrightarrow> progress_ok (ls_progress st1)"
proof -
  assume p: "progress_ok (ls_progress st)" and m: "handle_meta c mydir line m st = (st1, ch)"
  have if_fst: "progress_ok (ls_progress (fst (if b then x else y)))"
    if "progress_ok (ls_progress (fst x))" "progress_ok (ls_progress (fst y))" for b and x y :: "log_state \<times> string option"
    using that by simp
  obtain kind pid msg where k: "m = (kind, pid, msg)" by (cases m)
  have "progress_ok (ls_progress (fst (handle_meta c mydir line m st)))"
    unfolding handle_meta_def k Let_def prod.case
    by (intro if_fst) (simp_all add: p progress_intros done_line_progress split: option.split)
  with m show "progress_ok (ls_progress st1)" by simp
qed

text \<open>The ways a piece is dealt with.\<close>

definition count_line :: "log_state \<Rightarrow> log_state" where
  "count_line st = st\<lparr>ls_lines := ls_lines st + 1\<rparr>"

lemma count_line_simps [simp]: "ls_progress (count_line st) = ls_progress st" "ls_already (count_line st) = ls_already st" "ls_out (count_line st) = ls_out st"
  by (simp_all add: count_line_def)

lemma piece_cases:
  obtains (part) "\<not> ends_with [CHR 0x0A] b"
      "cat_events c w n stdin mydir (Piece b # evs) saw h st = cat_events c w n stdin mydir evs saw (h @ b) st"
  | (plain) line where "ends_with [CHR 0x0A] b" "line = trim_end_char (CHR 0x0A) (h @ b)" "parse_redo_meta_line line = None"
      "cat_events c w n stdin mydir (Piece b # evs) saw h st =
         cat_events c w n stdin mydir evs saw [] (if ro_details (lc_opts c) then say line (count_line st) else count_line st)"
  | (shown) line m st2 where "ends_with [CHR 0x0A] b" "line = trim_end_char (CHR 0x0A) (h @ b)" "parse_redo_meta_line line = Some m"
      "handle_meta c mydir line m (count_line st) = (st2, None)"
      "cat_events c w n stdin mydir (Piece b # evs) saw h st = cat_events c w n stdin mydir evs saw [] st2"
  | (flat) line m st2 child where "ends_with [CHR 0x0A] b" "line = trim_end_char (CHR 0x0A) (h @ b)" "parse_redo_meta_line line = Some m"
      "handle_meta c mydir line m (count_line st) = (st2, Some child)" "\<not> ro_recursive (lc_opts c)"
      "cat_events c w n stdin mydir (Piece b # evs) saw h st =
         cat_events c w n stdin mydir evs saw [] (mark_already (log_normalize child) st2)"
  | (child) line m st2 child where "ends_with [CHR 0x0A] b" "line = trim_end_char (CHR 0x0A) (h @ b)" "parse_redo_meta_line line = Some m"
      "handle_meta c mydir line m (count_line st) = (st2, Some child)" "ro_recursive (lc_opts c)"
      "cat_events c w n stdin mydir (Piece b # evs) saw h st =
         (case catlog c w n stdin child st2 of None \<Rightarrow> None | Some (Inl err) \<Rightarrow> Some (Inl err)
          | Some (Inr st3) \<Rightarrow> cat_events c w n stdin mydir evs saw [] (mark_already (log_normalize child) st3))"
proof (cases "ends_with [CHR 0x0A] b")
  case False
  then show thesis by (intro part) simp_all
next
  case True
  let ?l = "trim_end_char (CHR 0x0A) (h @ b)"
  have e: "cat_events c w n stdin mydir (Piece b # evs) saw h st =
      (case parse_redo_meta_line ?l of
         None \<Rightarrow> cat_events c w n stdin mydir evs saw [] (if ro_details (lc_opts c) then say ?l (count_line st) else count_line st)
       | Some m \<Rightarrow>
           (case handle_meta c mydir ?l m (count_line st) of
              (st2, None) \<Rightarrow> cat_events c w n stdin mydir evs saw [] st2
            | (st2, Some child) \<Rightarrow>
                (case (if ro_recursive (lc_opts c) then catlog c w n stdin child st2 else Some (Inr st2)) of
                   None \<Rightarrow> None
                 | Some (Inl err) \<Rightarrow> Some (Inl err)
                 | Some (Inr st3) \<Rightarrow> cat_events c w n stdin mydir evs saw [] (mark_already (log_normalize child) st3))))"
    using True by (simp only: cat_events.simps Let_def count_line_def not_True_eq_False if_False)
  show thesis
  proof (cases "parse_redo_meta_line ?l")
    case None
    show thesis by (rule plain [OF True refl None]) (simp only: e None option.case)
  next
    case (Some m)
    obtain st2 ch where m: "handle_meta c mydir ?l m (count_line st) = (st2, ch)" by fastforce
    show thesis
    proof (cases ch)
      case None
      show thesis by (rule shown [OF True refl Some m [unfolded None]]) (simp only: e Some m None option.case prod.case)
    next
      case (Some d)
      note m1 = \<open>parse_redo_meta_line ?l = Some m\<close> and m2 = m [unfolded Some]
      show thesis
      proof (cases "ro_recursive (lc_opts c)")
        case True
        show thesis
          by (rule child [OF \<open>ends_with [CHR 0x0A] b\<close> refl m1 m2 True]) (simp only: e m1 m2 True option.case prod.case if_True)
      next
        case False
        show thesis
          by (rule flat [OF \<open>ends_with [CHR 0x0A] b\<close> refl m1 m2 False])
            (simp only: e m1 m2 False option.case prod.case if_False sum.case)
      qed
    qed
  qed
qed

lemma cat_events_progress:
  assumes "\<And>t st st'. catlog c w n stdin t st = Some (Inr st') \<Longrightarrow> progress_ok (ls_progress st) \<Longrightarrow> progress_ok (ls_progress st')"
    "cat_events c w n stdin mydir evs saw h st = Some (Inr st')" "progress_ok (ls_progress st)"
  shows "progress_ok (ls_progress st')"
  using assms(2,3)
proof (induction evs arbitrary: saw h st)
  case (Cons ev evs)
  show ?case
  proof (cases ev)
    case (Piece b)
    show ?thesis
    proof (cases rule: piece_cases [of b c w n stdin mydir evs saw h st])
      case (child line m st2 ch)
      then obtain st3 where "catlog c w n stdin ch st2 = Some (Inr st3)"
        "cat_events c w n stdin mydir evs saw [] (mark_already (log_normalize ch) st3) = Some (Inr st')"
        using Cons.prems(1) Piece by (auto split: option.splits sum.splits)
      moreover have "progress_ok (ls_progress st2)" using meta_line_progress [OF child(4)] Cons.prems(2) by simp
      ultimately show ?thesis using assms(1) Cons.IH by simp
    qed (use Cons Piece meta_line_progress in \<open>fastforce\<close>)+
  qed (use Cons in \<open>auto split: if_splits\<close>)
qed auto

lemma catlog_progress:
  "catlog c w n stdin t st = Some (Inr st') \<Longrightarrow> progress_ok (ls_progress st) \<Longrightarrow> progress_ok (ls_progress st')"
proof (induction n arbitrary: t st st')
  case (Suc n)
  then show ?case using cat_events_progress [OF Suc.IH] by (auto split: if_splits option.splits)
qed simp

lemma log_targets_progress:
  "log_targets c w n pieces ts st = Some (Inr st') \<Longrightarrow> progress_ok (ls_progress st) \<Longrightarrow> progress_ok (ls_progress st')"
proof (induction ts arbitrary: pieces st)
  case (Cons t ts)
  then show ?case using Cons catlog_progress cat_events_progress [OF catlog_progress]
    by (fastforce simp: catlog_stdin_def split: if_splits option.splits sum.splits)
qed simp

text \<open>Whatever the logs say, the progress display stays consistent: every failed target is among the finished ones, no
  target is both finished and up to date, and only targets that were seen are counted.\<close>

theorem redo_log_progress_ok:
  assumes "redo_log c w contents base top_targets n pieces = Some (Inr st)"
  shows "progress_ok (ls_progress st)"
  using assms log_targets_progress by (fastforce simp: redo_log_def Let_def intro: progress_intros split: if_splits)

text \<open>A reader of standard input, and of two logs.\<close>

definition demo_log_ctx :: "bool \<Rightarrow> bool \<Rightarrow> string list \<Rightarrow> log_ctx" where
  "demo_log_ctx recursive pretty ts =
     \<lparr>lc_opts = log_defaults\<lparr>ro_recursive := recursive, ro_unchanged := True, ro_pretty := pretty, ro_targets := ts\<rparr>, lc_ext = demo_ext,
      lc_topdir = ''/w'', lc_ansi = no_colors, lc_debug = 0\<rparr>"

definition demo_line :: "string \<Rightarrow> string \<Rightarrow> string" where
  "demo_line kind msg = raw_meta kind 7 ''0.5'' msg @ [CHR 0x0A]"

definition no_logs :: log_world where
  "no_logs = \<lparr>lw_lookup = (\<lambda>_. None), lw_log = (\<lambda>_. None)\<rparr>"

definition demo_end :: log_state where
  "demo_end = the (res_ok (the (redo_log (demo_log_ctx False False [''-'']) no_logs (\<lambda>_. None) ''/w'' None 1
     [demo_line ''do'' ''a'', demo_line ''done'' ''2 a''])))"

lemma map_sum_Inr: "map_option (map_sum id g) r = Some (Inr y) \<Longrightarrow> \<exists>z. r = Some (Inr z)"
  by (cases r; cases "the r") auto

theorem redo_log_progress_ok_witness:
  "progress_ok (ls_progress demo_end) \<and> pg_failed (ls_progress demo_end) = {''/w/a''}"
proof -
  have f: "pg_failed (ls_progress demo_end) = {''/w/a''}" by code_simp
  have "map_option (map_sum id ls_lines) (redo_log (demo_log_ctx False False [''-'']) no_logs (\<lambda>_. None) ''/w'' None 1
      [demo_line ''do'' ''a'', demo_line ''done'' ''2 a'']) = Some (Inr 2)" by code_simp
  from map_sum_Inr [OF this] obtain st where r: "redo_log (demo_log_ctx False False [''-'']) no_logs (\<lambda>_. None) ''/w'' None 1
      [demo_line ''do'' ''a'', demo_line ''done'' ''2 a''] = Some (Inr st)"
    by (elim exE)
  then have "demo_end = st" by (simp add: demo_end_def res_ok_def)
  with redo_log_progress_ok [OF r] f show ?thesis by simp
qed

text \<open>A target that another process had locked is noted as running when the line \<open>locked\<close> is read, and nothing takes the
  note back when \<open>unlocked\<close> is: if its own \<open>done\<close> was read before, it counts as started twice, and more targets are
  started than were seen.\<close>

lemma locked_after_done:
  "let p = note_seen ''x'' (note_running ''x'' (note_done ''x'' 1 (note_started ''x'' no_progress)))
   in progress_counts p = (2, 1, 1, 1) \<and> card (pg_seen p) = 1"
  by code_simp

subsection \<open>A log is shown completely\<close>

definition shown_line :: "bool \<Rightarrow> string \<Rightarrow> bool" where
  "shown_line unchanged line \<longleftrightarrow> unchanged \<or> (case parse_redo_meta_line line of Some (kind, _) \<Rightarrow> kind \<noteq> ''unchanged'' | None \<Rightarrow> True)"

lemma out_simps [simp]:
  "ls_out (say l st) = ls_out st @ [l]" "ls_out (on_progress f st) = ls_out st" "ls_out (mark_already n st) = ls_out st"
  "\<not> ro_pretty (lc_opts c) \<Longrightarrow> ls_out (show_line c line pid col s st) = ls_out st @ [line]"
  "\<not> ro_pretty (lc_opts c) \<Longrightarrow> ls_out (target_line c mydir line kind pid msg lock st) = ls_out st @ [line]"
  "\<not> ro_pretty (lc_opts c) \<Longrightarrow> ls_out (done_line c mydir line pid msg st) = ls_out st @ [line]"
  by (simp_all add: say_def on_progress_def mark_already_def show_line_def target_line_def done_line_def Let_def split: option.splits)

lemma meta_line_raw:
  assumes "\<not> ro_pretty (lc_opts c)" "handle_meta c mydir line m st = (st1, ch)"
  shows "ls_out st1 = ls_out st @ (if ro_unchanged (lc_opts c) \<or> fst m \<noteq> ''unchanged'' then [line] else [])"
proof -
  obtain kind pid msg where k: "m = (kind, pid, msg)" by (cases m)
  show ?thesis
  proof (cases "kind = ''unchanged''")
    case True
    then show ?thesis using assms by (auto simp: handle_meta_def k cache_kinds_def Let_def split: if_splits)
  next
    case False
    have if_fst: "ls_out (fst (if b then x else y)) = o1" if "ls_out (fst x) = o1" "ls_out (fst y) = o1"
      for b and x y :: "log_state \<times> string option" and o1 using that by simp
    have "ls_out (fst (handle_meta c mydir line m st)) = ls_out st @ [line]"
      unfolding handle_meta_def k Let_def prod.case if_not_P [OF False]
      by (intro if_fst) (simp_all add: assms(1) split: option.split)
    with assms(2) False show ?thesis by (simp add: k)
  qed
qed

lemma lines_simps [simp]:
  "ls_lines (say l st) = ls_lines st" "ls_lines (show_line c line pid col s st) = ls_lines st"
  "ls_lines (target_line c mydir line kind pid msg lock st) = ls_lines st"
  "ls_lines (finish_log c h st) = ls_lines st" "ls_lines (on_progress f st) = ls_lines st"
  "ls_lines (mark_already n st) = ls_lines st" "ls_lines (count_line st) = ls_lines st + 1"
  by (simp_all add: say_def show_line_def target_line_def finish_log_def on_progress_def mark_already_def count_line_def Let_def split: option.splits)

lemma meta_line_lines:
  assumes "handle_meta c mydir line m st = (st2, ch)"
  shows "ls_lines st2 = ls_lines st"
proof -
  have if_fst: "ls_lines (fst (if b then x else y)) = a" if "ls_lines (fst x) = a" "ls_lines (fst y) = a"
    for b and x y :: "log_state \<times> string option" and a using that by simp
  obtain kind pid msg where k: "m = (kind, pid, msg)" by (cases m)
  have "ls_lines (fst (handle_meta c mydir line m st)) = ls_lines st"
    unfolding handle_meta_def k Let_def prod.case
    by (intro if_fst) (simp_all add: done_line_def Let_def split: option.split)
  with assms show ?thesis by simp
qed

lemma raw_lines_line:
  "CHR 0x0A \<notin> set l \<Longrightarrow> raw_lines (l @ CHR 0x0A # s) = (l @ [CHR 0x0A]) # raw_lines s"
  by (subst raw_lines.simps) (simp add: read_line_append)

lemma read_line_rest: "CHR 0x0A \<notin> set l \<Longrightarrow> read_line l = (l, [])"
  by (induction l) auto

lemma raw_lines_text:
  assumes "\<forall>l \<in> set ls. CHR 0x0A \<notin> set l" "CHR 0x0A \<notin> set part"
  shows "raw_lines (concat (map (\<lambda>l. l @ [CHR 0x0A]) ls) @ part) =
    map (\<lambda>l. l @ [CHR 0x0A]) ls @ (if part = [] then [] else [part])"
  using assms(1)
proof (induction ls)
  case Nil
  then show ?case using read_line_rest [OF assms(2)] by (simp add: raw_lines.simps [of part] raw_lines.simps [of "[]"])
qed (simp add: raw_lines_line)

lemma trim_nl: "CHR 0x0A \<notin> set l \<Longrightarrow> trim_end_char (CHR 0x0A) (l @ [CHR 0x0A]) = l"
  using trim_end_char_id [of l "CHR 0x0A"] last_in_set [of l] by (cases l rule: rev_cases) (auto simp: trim_end_char_def)

lemma ends_with_nl: "ends_with [CHR 0x0A] (l @ [CHR 0x0A])" "CHR 0x0A \<notin> set l \<Longrightarrow> \<not> ends_with [CHR 0x0A] l"
  by (simp add: ends_with_def starts_with_def) (cases l rule: rev_cases; simp add: ends_with_def starts_with_def)

lemma cat_events_raw:
  assumes "\<not> ro_pretty (lc_opts c)" "ro_details (lc_opts c)" "\<not> ro_recursive (lc_opts c)"
    "\<forall>l \<in> set ls. CHR 0x0A \<notin> set l" "CHR 0x0A \<notin> set part"
  shows "\<exists>st'. cat_events c w n stdin mydir (map Piece (map (\<lambda>l. l @ [CHR 0x0A]) ls @ (if part = [] then [] else [part]))) saw [] st =
      Some (Inr st') \<and> ls_out st' = ls_out st @ filter (shown_line (ro_unchanged (lc_opts c))) ls @ (if part = [] then [] else [part])
      \<and> ls_lines st' = ls_lines st + length ls"
  using assms(4)
proof (induction ls arbitrary: st)
  case Nil
  then show ?case using assms(2,5) ends_with_nl(2) by (simp add: finish_log_def)
next
  case (Cons l ls)
  let ?evs = "map Piece (map (\<lambda>l. l @ [CHR 0x0A]) ls @ (if part = [] then [] else [part]))"
  have t: "trim_end_char (CHR 0x0A) ([] @ l @ [CHR 0x0A]) = l" using Cons.prems trim_nl [of l] by simp
  show ?case
  proof (cases rule: piece_cases [of "l @ [CHR 0x0A]" c w n stdin mydir ?evs saw "[]" st])
    case part
    then show ?thesis using ends_with_nl(1) by blast
  next
    case (plain line)
    then show ?thesis using t Cons.prems Cons.IH [of "say l (count_line st)"] assms(2)
      by (auto simp: shown_line_def simp del: cat_events.simps)
  next
    case (shown line m st2)
    then show ?thesis using t Cons.prems Cons.IH [of st2] meta_line_raw [OF assms(1) shown(4)] meta_line_lines [OF shown(4)]
      by (auto simp: shown_line_def simp del: cat_events.simps)
  next
    case (flat line m st2 child)
    then show ?thesis using t Cons.prems Cons.IH [of "mark_already (log_normalize child) st2"]
        meta_line_raw [OF assms(1) flat(4)] meta_line_lines [OF flat(4)]
      by (auto simp: shown_line_def simp del: cat_events.simps)
  next
    case (child line m st2 ch)
    with assms(3) show ?thesis by simp
  qed
qed

text \<open>C33. Nothing of a log is lost: read in raw mode, with details and without recursion, the log of a target is written out
  line by line, unterminated last line included; only the lines about unchanged targets are left out unless they are asked
  for. The line counter goes up by one for every complete line, shown or not; the unterminated one is not counted.\<close>

theorem raw_log_complete:
  assumes "\<not> ro_pretty (lc_opts c)" "ro_details (lc_opts c)" "\<not> ro_recursive (lc_opts c)" "t \<notin> set (ls_already st)"
    "by_name x e t False s = Inr (f, s)" "\<forall>l \<in> set ls. CHR 0x0A \<notin> set l" "CHR 0x0A \<notin> set part"
    "contents (logname e (f_id f)) = Some (concat (map (\<lambda>l. l @ [CHR 0x0A]) ls) @ part)"
  shows "\<exists>st'. catlog c (log_world_of x e s contents) (Suc n) stdin t st = Some (Inr st') \<and>
     ls_out st' = ls_out st @ filter (shown_line (ro_unchanged (lc_opts c))) ls @ (if part = [] then [] else [part]) \<and>
     ls_lines st' = ls_lines st + length ls"
  using cat_events_raw [OF assms(1-3,6,7), of "log_world_of x e s contents" n stdin "unwrap_or (path_parent t) []" False "mark_already t st"]
    assms(4,5,8) raw_lines_text [OF assms(6,7)]
  by (simp add: log_world_of_def)

definition demo_logs :: "string \<Rightarrow> string option" where
  "demo_logs p = (if p = ''/w/.redo/log.2'' then Some (concat (map (\<lambda>l. l @ [CHR 0x0A]) [''hello'', raw_meta ''unchanged'' 7 ''0.5'' ''src'']) @ ''part'') else None)"

theorem raw_log_complete_witness:
  "\<exists>st'. catlog ((demo_log_ctx False False [])\<lparr>lc_opts := log_defaults\<lparr>ro_pretty := False\<rparr>\<rparr>) (log_world_of demo_ext demo_env demo_plan demo_logs) 1 False ''t''
      \<lparr>ls_lines = 0, ls_progress = no_progress, ls_already = [], ls_out = []\<rparr> = Some (Inr st') \<and> ls_out st' = [''hello'', ''part''] \<and> ls_lines st' = 2"
proof -
  let ?c = "(demo_log_ctx False False [])\<lparr>lc_opts := log_defaults\<lparr>ro_pretty := False\<rparr>\<rparr>"
  let ?ls = "[''hello'', raw_meta ''unchanged'' 7 ''0.5'' ''src'']"
  have "map_sum id fst (by_name demo_ext demo_env ''t'' False demo_plan) = Inr demo_target" by code_simp
  then obtain s' where "by_name demo_ext demo_env ''t'' False demo_plan = Inr (demo_target, s')"
    by (cases "by_name demo_ext demo_env ''t'' False demo_plan") auto
  with by_name_False(1) [OF this] have b: "by_name demo_ext demo_env ''t'' False demo_plan = Inr (demo_target, demo_plan)" by simp
  have o: "\<not> ro_pretty (lc_opts ?c)" "ro_details (lc_opts ?c)" "\<not> ro_recursive (lc_opts ?c)" by code_simp+
  have l: "\<forall>l \<in> set ?ls. CHR 0x0A \<notin> set l" "CHR 0x0A \<notin> set ''part''" by code_simp+
  have f: "demo_logs (logname demo_env (f_id demo_target)) = Some (concat (map (\<lambda>l. l @ [CHR 0x0A]) ?ls) @ ''part'')" by code_simp
  have s: "filter (shown_line (ro_unchanged (lc_opts ?c))) ?ls = [''hello'']" by code_simp
  from raw_log_complete [where ls = ?ls and part = "''part''" and contents = demo_logs and e = demo_env and c = ?c and n = 0 and stdin = False
      and st = "\<lparr>ls_lines = 0, ls_progress = no_progress, ls_already = [], ls_out = []\<rparr>", OF o _ b l f] s
  show ?thesis by (simp add: numeral_2_eq_2 del: filter.simps)
qed

subsection \<open>Reading ends\<close>

text \<open>The lines of a log, and the targets they may send the reader to.\<close>

fun event_lines :: "log_event list \<Rightarrow> string \<Rightarrow> string list" where
  "event_lines [] h = []"
| "event_lines (Idle _ _ # evs) h = event_lines evs h"
| "event_lines (Piece b # evs) h =
     (if ends_with [CHR 0x0A] b then trim_end_char (CHR 0x0A) (h @ b) # event_lines evs [] else event_lines evs (h @ b))"

definition line_targets :: "string \<Rightarrow> string \<Rightarrow> string set" where
  "line_targets mydir line =
     (case parse_redo_meta_line line of
        None \<Rightarrow> {}
      | Some (kind, pid, msg) \<Rightarrow>
          if kind \<in> {''do'', ''locked'', ''waiting'', ''unlocked'', ''unchanged''} then {path_join mydir msg} else {})"

definition targets_in :: "string \<Rightarrow> log_event list \<Rightarrow> string \<Rightarrow> string set" where
  "targets_in mydir evs h = (\<Union>l \<in> set (event_lines evs h). line_targets mydir l)"

definition logs_within :: "log_world \<Rightarrow> string set \<Rightarrow> bool" where
  "logs_within w U \<longleftrightarrow> (\<forall>t \<in> U. \<forall>i saw evs. lw_lookup w t = Some i \<longrightarrow> lw_log w i = Some (saw, evs) \<longrightarrow>
     targets_in (unwrap_or (path_parent t) []) evs [] \<subseteq> U)"

lemma meta_line_target:
  assumes "parse_redo_meta_line line = Some m" "handle_meta c mydir line m st = (st2, Some child)"
  shows "child \<in> line_targets mydir line"
  using assms by (cases m) (auto simp: handle_meta_def line_targets_def Let_def split: if_splits)

lemma meta_line_already:
  assumes "handle_meta c mydir line m st = (st2, ch)"
  shows "ls_already st2 = ls_already st"
proof -
  have if_fst: "ls_already (fst (if b then x else y)) = a" if "ls_already (fst x) = a" "ls_already (fst y) = a"
    for b and x y :: "log_state \<times> string option" and a using that by simp
  obtain kind pid msg where k: "m = (kind, pid, msg)" by (cases m)
  have "ls_already (fst (handle_meta c mydir line m st)) = ls_already st"
    unfolding handle_meta_def k Let_def prod.case
    by (intro if_fst) (simp_all add: done_line_def Let_def split: option.split)
  with assms show ?thesis by simp
qed

definition good_end :: "log_state \<Rightarrow> log_state res option \<Rightarrow> bool" where
  "good_end st r \<longleftrightarrow> (\<exists>v. r = Some v \<and> (\<forall>st'. v = Inr st' \<longrightarrow> set (ls_already st) \<subseteq> set (ls_already st')))"

lemma good_end_mono: "good_end st1 r \<Longrightarrow> set (ls_already st) \<subseteq> set (ls_already st1) \<Longrightarrow> good_end st r"
  unfolding good_end_def by blast

lemma cat_events_total:
  assumes "\<And>t st. t \<in> U \<Longrightarrow> card (U - set (ls_already st)) < n \<Longrightarrow> good_end st (catlog c w n stdin t st)" "finite U"
    "targets_in mydir evs h \<subseteq> U" "card (U - set (ls_already st)) < n"
  shows "good_end st (cat_events c w n stdin mydir evs saw h st)"
  using assms(3,4)
proof (induction evs arbitrary: saw h st)
  case Nil
  then show ?case by (simp add: good_end_def)
next
  case (Cons ev evs)
  have less: "card (U - set (ls_already st1)) < n" if "set (ls_already st) \<subseteq> set (ls_already st1)" for st1
    using that assms(2) Cons.prems(2) by (intro le_less_trans [OF card_mono Cons.prems(2)]) auto
  have step: "good_end st (cat_events c w n stdin mydir evs saw h1 st1)"
    if "set (ls_already st) \<subseteq> set (ls_already st1)" "targets_in mydir evs h1 \<subseteq> U" for st1 saw h1
    using Cons.IH [OF that(2) less [OF that(1)]] that(1) by (rule good_end_mono)
  show ?case
  proof (cases ev)
    case (Idle locked grace)
    then have s: "good_end st (cat_events c w n stdin mydir evs saw1 h st)" for saw1
      using Cons.prems step [of st h saw1] by (simp add: targets_in_def)
    have i: "good_end st (if b then x else y)" if "good_end st x" "good_end st y" for b x y using that by simp
    show ?thesis unfolding Idle cat_events.simps by (intro i s) (simp_all add: good_end_def)
  next
    case (Piece b)
    show ?thesis
    proof (cases rule: piece_cases [of b c w n stdin mydir evs saw h st])
      case part
      with Piece Cons.prems step [of st] show ?thesis by (simp add: targets_in_def)
    next
      case (plain line)
      with Piece Cons.prems step show ?thesis by (simp add: targets_in_def)
    next
      case (shown line m st2)
      with Piece Cons.prems step meta_line_already [OF shown(4)] show ?thesis by (simp add: targets_in_def)
    next
      case (flat line m st2 ch)
      with Piece Cons.prems step [of "mark_already (log_normalize ch) st2"] meta_line_already [OF flat(4)] show ?thesis
        by (auto simp: targets_in_def)
    next
      case (child line m st2 ch)
      have a: "ls_already st2 = ls_already st" using meta_line_already [OF child(4)] by simp
      have "ch \<in> U" using meta_line_target [OF child(3,4)] child(1,2) Cons.prems(1) Piece by (auto simp: targets_in_def)
      then have "good_end st2 (catlog c w n stdin ch st2)" using assms(1) Cons.prems(2) a by simp
      then obtain v where v: "catlog c w n stdin ch st2 = Some v" "\<forall>st'. v = Inr st' \<longrightarrow> set (ls_already st) \<subseteq> set (ls_already st')"
        using a by (auto simp: good_end_def)
      show ?thesis
      proof (cases v)
        case (Inr st3)
        have "good_end st (cat_events c w n stdin mydir evs saw [] (mark_already (log_normalize ch) st3))"
          using v(2) Inr Cons.prems(1) Piece child(1) by (intro step) (auto simp: targets_in_def)
        then show ?thesis using child(6) v(1) Inr Piece by simp
      qed (use child(6) v(1) Piece in \<open>simp add: good_end_def\<close>)
    qed
  qed
qed

lemma catlog_total:
  assumes "finite U" "logs_within w U" "t \<in> U" "card (U - set (ls_already st)) < n"
  shows "good_end st (catlog c w n stdin t st)"
  using assms(3,4)
proof (induction n arbitrary: t st)
  case (Suc n)
  show ?case
  proof (cases "t \<in> set (ls_already st)")
    case False
    then have "U - set (ls_already (mark_already t st)) \<subset> U - set (ls_already st)" using Suc.prems(1) by auto
    then have "card (U - set (ls_already (mark_already t st))) < n"
      using psubset_card_mono [of "U - set (ls_already st)"] assms(1) Suc.prems(2) by fastforce
    then have e: "good_end (mark_already t st) (cat_events c w n stdin (unwrap_or (path_parent t) []) evs saw [] (mark_already t st))"
      if "lw_lookup w t = Some i" "lw_log w i = Some (saw, evs)" for i saw evs
      using cat_events_total [OF Suc.IH assms(1)] assms(2) Suc.prems(1) that by (auto simp: logs_within_def)
    have m: "good_end st r" if "good_end (mark_already t st) r" for r using that by (rule good_end_mono) auto
    show ?thesis
    proof (cases "lw_lookup w t")
      case (Some i)
      then show ?thesis using e m False by (cases "lw_log w i") (auto simp: good_end_def)
    qed (use False in \<open>simp add: good_end_def\<close>)
  qed (simp add: good_end_def)
qed simp

text \<open>C29. The recursive reading of logs ends: when the names under which the logs send the reader to each other are finitely
  many, as many nested logs as there are names are enough, cycles among the logs included.\<close>

theorem catlog_terminates:
  assumes "finite U" "logs_within w U" "t \<in> U" "card U < n"
  shows "catlog c w n stdin t st \<noteq> None"
proof -
  have "card (U - set (ls_already st)) < n" using card_mono [of U "U - set (ls_already st)"] assms(1,4) by fastforce
  from catlog_total [OF assms(1-3) this, of c stdin] show ?thesis by (auto simp: good_end_def)
qed

text \<open>Two logs of one directory that name each other.\<close>

definition one_line_log :: "string \<Rightarrow> string \<Rightarrow> log_event list" where
  "one_line_log kind msg = [Piece (demo_line kind msg)]"

definition cycle_logs :: log_world where
  "cycle_logs = \<lparr>lw_lookup = (\<lambda>t. if t = ''a'' then Some 1 else if t = ''b'' then Some 2 else None),
     lw_log = (\<lambda>i. Some (False, if i = 1 then one_line_log ''do'' ''b'' else one_line_log ''locked'' ''a''))\<rparr>"

theorem catlog_terminates_witness:
  "catlog (demo_log_ctx True True []) cycle_logs 3 False ''a'' \<lparr>ls_lines = 0, ls_progress = no_progress, ls_already = [], ls_out = []\<rparr> \<noteq> None"
proof (rule catlog_terminates)
  have "targets_in (unwrap_or (path_parent ''a'') []) (one_line_log ''do'' ''b'') [] = {''b''}"
    "targets_in (unwrap_or (path_parent ''b'') []) (one_line_log ''locked'' ''a'') [] = {''a''}" by code_simp+
  then show "logs_within cycle_logs {''a'', ''b''}" by (auto simp: logs_within_def cycle_logs_def)
qed auto

subsection \<open>Logs of different directories\<close>

text \<open>The name a log is entered by is compared as it is spelled, and the spelling grows on the way through the directories:
  \<open>d/../e/../d/x\<close>.\<close>

definition way :: "string list \<Rightarrow> string \<Rightarrow> string" where
  "way ds f = join_with ''/../'' ds @ ''/'' @ f"

definition way_comps :: "string list \<Rightarrow> component list" where
  "way_comps ds = (case ds of [] \<Rightarrow> [] | z # zs \<Rightarrow> Normal z # concat (map (\<lambda>z. [ParentDir, Normal z]) zs))"

lemma join_snoc: "ds \<noteq> [] \<Longrightarrow> join_with sep (ds @ [z]) = join_with sep ds @ sep @ z"
  by (induction ds rule: induct_list012) auto

lemma way_split:
  "ds \<noteq> [] \<Longrightarrow> \<forall>z \<in> set ds. good_name z \<Longrightarrow>
     split_on (CHR ''/'') (join_with ''/../'' ds) = hd ds # concat (map (\<lambda>z. [dotdot, z]) (tl ds))"
proof (induction ds rule: rev_nonempty_induct)
  case (single z)
  then show ?case by (simp add: split_on_id good_name_def)
next
  case (snoc z ds)
  have "split_on (CHR ''/'') (join_with ''/../'' ds @ CHR ''/'' # (dotdot @ CHR ''/'' # z)) =
      split_on (CHR ''/'') (join_with ''/../'' ds) @ [dotdot, z]"
    using snoc.prems by (simp add: split_on_append_sep split_on_id good_name_def dotdot_def)
  with snoc show ?case by (simp add: join_snoc dotdot_def)
qed

lemma way_relative: "ds \<noteq> [] \<Longrightarrow> \<forall>z \<in> set ds. good_name z \<Longrightarrow> \<not> is_absolute (join_with ''/../'' ds @ s)"
  by (cases ds; cases "tl ds"; cases "hd ds") (auto simp: is_absolute_def good_name_def)

lemma dotdot_comp: "comp_of dotdot = ParentDir" "dotdot \<noteq> []" "dotdot \<noteq> dot"
  by (simp_all add: comp_of_def dotdot_def dot_def)

lemma way_components:
  assumes "ds \<noteq> []" "\<forall>z \<in> set ds. good_name z" "good_name f"
  shows "path_components (way ds f) = way_comps ds @ [Normal f]"
proof -
  have s: "split_on (CHR ''/'') (way ds f) = hd ds # concat (map (\<lambda>z. [dotdot, z]) (tl ds)) @ [f]"
    using way_split [OF assms(1,2)] assms(3) by (simp add: way_def split_on_append_sep split_on_id good_name_def)
  obtain z zs where z: "ds = z # zs" using assms(1) by (cases ds) auto
  have f: "filter (\<lambda>x. x \<noteq> [] \<and> x \<noteq> dot) (concat (map (\<lambda>z. [dotdot, z]) zs)) = concat (map (\<lambda>z. [dotdot, z]) zs)"
    "map comp_of (concat (map (\<lambda>z. [dotdot, z]) zs)) = concat (map (\<lambda>z. [ParentDir, Normal z]) zs)"
    using assms(2) z dotdot_comp by (induction zs arbitrary: ds z) (auto simp: good_name_def)
  have "\<not> is_absolute (way ds f)" using way_relative [OF assms(1,2)] by (simp add: way_def)
  with s z f assms(2,3) show ?thesis by (auto simp: path_components_def way_comps_def good_name_def Let_def)
qed

lemma way_last:
  assumes "ds \<noteq> []" "\<forall>z \<in> set ds. good_name z"
  shows "join_with ''/../'' ds \<noteq> [] \<and> last (join_with ''/../'' ds) \<noteq> CHR ''/''"
proof (cases ds rule: rev_cases)
  case (snoc ys y)
  then have "y \<noteq> []" "last y \<noteq> CHR ''/''" using assms(2) good_nameD [of y] by auto
  then show ?thesis using snoc by (cases "ys = []") (simp_all add: join_snoc)
qed (use assms(1) in simp)

lemma way_of_comps:
  assumes "ds \<noteq> []" "\<forall>z \<in> set ds. good_name z"
  shows "path_of_components (way_comps ds) = join_with ''/../'' ds"
  using assms
proof (induction ds rule: rev_nonempty_induct)
  case (single z)
  then show ?case by (simp add: way_comps_def path_of_components_def push_parts_def comp_str_def path_join_def good_name_def is_absolute_def)
next
  case (snoc z ds)
  have c: "way_comps (ds @ [z]) = way_comps ds @ [ParentDir, Normal z]" using snoc.hyps by (cases ds) (auto simp: way_comps_def)
  let ?p = "join_with ''/../'' ds"
  have "?p \<noteq> []" "last ?p \<noteq> CHR ''/''"
    using snoc.prems snoc.hyps way_last [of ds] by auto
  then have "path_join (path_join ?p dotdot) z = ?p @ ''/../'' @ z"
    using snoc.prems good_nameD(3) [of z] by (simp add: path_join_def dotdot_def is_absolute_def)
  with snoc.IH snoc.prems snoc.hyps show ?case
    by (simp add: c path_of_components_def push_parts_def comp_str_def join_snoc)
qed

lemma way_parent:
  assumes "ds \<noteq> []" "\<forall>z \<in> set ds. good_name z" "good_name f"
  shows "path_parent (way ds f) = Some (join_with ''/../'' ds)"
  using way_components [OF assms] way_of_comps [OF assms(1,2)] by (simp add: path_parent_def)

lemma way_step:
  assumes "ds \<noteq> []" "\<forall>z \<in> set ds. good_name z"
  shows "path_join (join_with ''/../'' ds) (''../'' @ z @ ''/'' @ f) = way (ds @ [z]) f"
proof -
  have "join_with ''/../'' ds \<noteq> []" "last (join_with ''/../'' ds) \<noteq> CHR ''/''"
    using way_last [OF assms] by auto
  then show ?thesis using assms(1) by (simp add: path_join_def is_absolute_def way_def join_snoc)
qed

lemma way_normal:
  assumes "ds \<noteq> []" "\<forall>z \<in> set ds. good_name z" "good_name f"
  shows "log_normalize (way ds f) = last ds @ ''/'' @ f"
proof -
  have "foldl log_norm_step (False, []) (way_comps ds) = (False, [last ds])"
    using assms(1,2)
  proof (induction ds rule: rev_nonempty_induct)
    case (snoc z ds)
    then have c: "way_comps (ds @ [z]) = way_comps ds @ [ParentDir, Normal z]" by (cases ds) (auto simp: way_comps_def)
    have "last ds \<noteq> dotdot" using snoc by (simp add: good_name_def)
    with snoc show ?case by (simp add: c log_norm_step_def)
  qed (simp add: way_comps_def log_norm_step_def)
  then show ?thesis by (simp add: log_normalize_def way_components [OF assms] log_norm_step_def)
qed

text \<open>The logs a dependency cycle across two directories leaves: \<open>d/x\<close> starts \<open>e/y\<close>, which finds \<open>d/x\<close> locked. The database
  knows each target by its normalised name.\<close>

definition cross_logs :: log_world where
  "cross_logs = \<lparr>lw_lookup = (\<lambda>t. if log_normalize t = ''d/x'' then Some 1 else if log_normalize t = ''e/y'' then Some 2 else None),
     lw_log = (\<lambda>i. Some (False, if i = 1 then one_line_log ''do'' ''../e/y'' else one_line_log ''locked'' ''../d/x''))\<rparr>"

lemma cross_logs_loop:
  assumes "ro_recursive (lc_opts c)" "ds \<noteq> []" "set ds \<subseteq> {''d'', ''e''}" "f = (if last ds = ''d'' then ''x'' else ''y'')"
    "\<forall>t \<in> set (ls_already st). length t < length (way ds f)"
  shows "catlog c cross_logs n stdin (way ds f) st = None"
  using assms(2-)
proof (induction n arbitrary: ds f st)
  case (Suc n)
  have g: "\<forall>z \<in> set ds. good_name z" "good_name f" using Suc.prems(2,3) by (auto simp: good_name_def dot_def dotdot_def)
  have l: "last ds \<in> {''d'', ''e''}" using Suc.prems(1,2) last_in_set by blast
  let ?z = "if last ds = ''d'' then ''e'' else ''d''" and ?f = "if last ds = ''d'' then ''y'' else ''x''"
  let ?kind = "if last ds = ''d'' then ''do'' else ''locked''"
  let ?b = "demo_line ?kind (''../'' @ ?z @ ''/'' @ ?f)"
  have log: "catlog c cross_logs (Suc n) stdin (way ds f) st =
      cat_events c cross_logs n stdin (join_with ''/../'' ds) [Piece ?b] False [] (mark_already (way ds f) st)"
    using Suc.prems(3,4) l way_normal [OF Suc.prems(1) g] way_parent [OF Suc.prems(1) g]
    by (auto simp: cross_logs_def one_line_log_def simp del: cat_events.simps)
  have nl: "ends_with [CHR 0x0A] ?b" by (simp add: demo_line_def ends_with_nl)
  have m: "parse_redo_meta_line (trim_end_char (CHR 0x0A) ([] @ ?b)) = Some (?kind, 7, ''../'' @ ?z @ ''/'' @ ?f)"
  proof (cases "last ds = ''d''")
    case True
    show ?thesis unfolding if_P [OF True] by code_simp
  next
    case False
    show ?thesis unfolding if_not_P [OF False] by code_simp
  qed
  have tgt: "\<exists>st2. handle_meta c mydir line (?kind, 7, msg) st1 = (st2, Some (path_join mydir msg))" for mydir line msg st1
    by (auto simp: handle_meta_def Let_def cache_kinds_def)
  have IH: "catlog c cross_logs n stdin (way (ds @ [?z]) ?f) st2 = None" if "ls_already st2 = ls_already (mark_already (way ds f) st)" for st2
  proof (rule Suc.IH)
    have "length (way ds f) < length (way (ds @ [?z]) ?f)" using Suc.prems(1,3) by (simp add: way_def join_snoc)
    then show "\<forall>t \<in> set (ls_already st2). length t < length (way (ds @ [?z]) ?f)" using Suc.prems(4) that by auto
  qed (use Suc.prems l in auto)
  obtain st2 where st2: "handle_meta c (join_with ''/../'' ds) (trim_end_char (CHR 0x0A) ([] @ ?b)) (?kind, 7, ''../'' @ ?z @ ''/'' @ ?f)
      (count_line (mark_already (way ds f) st)) = (st2, Some (way (ds @ [?z]) ?f))"
    using tgt way_step [OF Suc.prems(1) g(1), of ?z ?f] by metis
  have "cat_events c cross_logs n stdin (join_with ''/../'' ds) [Piece ?b] False [] (mark_already (way ds f) st) = None"
  proof (cases rule: piece_cases [of ?b c cross_logs n stdin "join_with ''/../'' ds" "[]" False "[]" "mark_already (way ds f) st"])
    case (child line m1 st3 ch)
    then have "st3 = st2" "ch = way (ds @ [?z]) ?f" using m st2 by simp_all
    with child(6) IH meta_line_already [OF st2] show ?thesis by simp
  qed (use nl m st2 assms(1) in simp_all)
  with log show ?case by simp
qed simp

text \<open>With \<open>--recursive\<close>, reading the log of \<open>d/x\<close> after such a cycle never ends, whatever the depth allowed: each visit
  enters the other log under a new spelling.\<close>

theorem recursive_log_diverges:
  assumes "ro_recursive (lc_opts c)" "ls_already st = []"
  shows "catlog c cross_logs n stdin ''d/x'' st = None"
  using cross_logs_loop [OF assms(1), of "[''d'']" "''x''" st n stdin] assms(2) by (simp add: way_def)

theorem recursive_log_diverges_witness:
  "catlog (demo_log_ctx True True []) cross_logs 1000 True ''d/x'' \<lparr>ls_lines = 0, ls_progress = no_progress, ls_already = [], ls_out = []\<rparr> = None"
  by (rule recursive_log_diverges) (simp_all add: demo_log_ctx_def)

end
