(* ===== verification/Remote_Exec.thy ===== *)
theory Remote_Exec
  imports Remote_Cache
begin

text \<open>
  The client of remote execution (\<open>bins/src/redo_remote_exec.rs\<close>, \<open>redo_core/src/remote_exec.rs\<close>): it uploads the
  inputs of a script, has the server run it, and fetches what the run produced; whenever the server cannot
  do it, the command runs locally. The local files are regular files with their permission bits;
  \<open>xe_special\<close> tells which other paths exist. \<open>serde_json\<close>, SHA-256, the network, \<open>pathdiff\<close> and the local
  run of a command are parameters. An error is the exit code 201.
\<close>

subsection \<open>Arguments\<close>

record exec_args =
  xa_out :: "string option"
  xa_deps_out0 :: "string option"
  xa_trace_out0 :: "string option"
  xa_remote_ok :: "string option"
  xa_cwd_rel :: string
  xa_target_rel :: string
  xa_tmp_rel :: string
  xa_inputs :: "string list"
  xa_argv :: "string list"

definition no_exec_args :: exec_args where
  "no_exec_args = \<lparr>xa_out = None, xa_deps_out0 = None, xa_trace_out0 = None, xa_remote_ok = None, xa_cwd_rel = [],
     xa_target_rel = [], xa_tmp_rel = [], xa_inputs = [], xa_argv = []\<rparr>"

text \<open>\<open>None\<close> is \<open>--help\<close>. A missing value is the empty string.\<close>

function parse_exec_args :: "string list \<Rightarrow> exec_args \<Rightarrow> exec_args option" where
  "parse_exec_args [] xa = Some xa"
| "parse_exec_args (a # as) xa =
     (let v = next_arg as in
      if a = ''--out'' then parse_exec_args (tl as) (xa\<lparr>xa_out := Some v\<rparr>)
      else if a = ''--deps-out0'' then parse_exec_args (tl as) (xa\<lparr>xa_deps_out0 := Some v\<rparr>)
      else if a = ''--trace-out0'' then parse_exec_args (tl as) (xa\<lparr>xa_trace_out0 := Some v\<rparr>)
      else if a = ''--remote-ok'' then parse_exec_args (tl as) (xa\<lparr>xa_remote_ok := Some v\<rparr>)
      else if a = ''--cwd-rel'' then parse_exec_args (tl as) (xa\<lparr>xa_cwd_rel := v\<rparr>)
      else if a = ''--target-rel'' then parse_exec_args (tl as) (xa\<lparr>xa_target_rel := v\<rparr>)
      else if a = ''--tmp-rel'' then parse_exec_args (tl as) (xa\<lparr>xa_tmp_rel := v\<rparr>)
      else if a = ''--input'' then parse_exec_args (tl as) (xa\<lparr>xa_inputs := xa_inputs xa @ [v]\<rparr>)
      else if a = ''--help'' \<or> a = ''-h'' then None
      else if a = ''--'' then Some (xa\<lparr>xa_argv := xa_argv xa @ as\<rparr>)
      else parse_exec_args as xa)"
  by pat_completeness auto
termination by (relation "measure (\<lambda>(as, xa). length as)") auto

text \<open>What is missing, in the order of the checks.\<close>

definition exec_args_error :: "exec_args \<Rightarrow> string option" where
  "exec_args_error xa =
     (if xa_out xa = None then Some ''missing --out''
      else if xa_deps_out0 xa = None then Some ''missing --deps-out0''
      else if xa_trace_out0 xa = None then Some ''missing --trace-out0''
      else if xa_cwd_rel xa = [] \<or> xa_target_rel xa = [] \<or> xa_tmp_rel xa = [] then Some ''missing --cwd-rel/--target-rel/--tmp-rel''
      else if xa_argv xa = [] then Some ''missing argv after --'' else None)"

subsection \<open>The request and its answer\<close>

record exec_response =
  es_schema :: string
  es_exit_code :: int
  es_output_manifest :: "string option"
  es_deps :: "string option"
  es_trace :: "string option"

record 's exec_env_fns =
  xe_sha :: "string \<Rightarrow> string"
  xe_net :: "'s net"
  xe_to_json :: "exec_request \<Rightarrow> string"
  xe_of_json :: "string \<Rightarrow> exec_response option"
  xe_diff :: "string \<Rightarrow> string \<Rightarrow> string option"
  xe_special :: "string \<Rightarrow> bool"
  xe_run :: "string list \<Rightarrow> work \<Rightarrow> (int option \<times> work) option"
  xe_fmode :: nat

definition exec_v1 :: "'s exec_env_fns \<Rightarrow> remote_config \<Rightarrow> exec_request \<Rightarrow> 's \<Rightarrow> exec_response res \<times> 's" where
  "exec_v1 xe cfg req st =
     (case post_exec (xe_net xe) cfg (xe_to_json xe req) st of
        (r, st1) \<Rightarrow>
          (rbind r (\<lambda>body. case xe_of_json xe body of
             None \<Rightarrow> Inl (Msg ''invalid exec response'')
           | Some resp \<Rightarrow>
               if es_schema resp \<noteq> ''redo-remote-exec-result:v1'' then Inl (Msg ''unsupported exec response schema'')
               else Inr resp), st1))"

subsection \<open>The client\<close>

definition write_local :: "nat \<Rightarrow> string \<Rightarrow> string \<Rightarrow> work \<Rightarrow> work" where
  "write_local fmode p b w = w(p \<mapsto> (b, case w p of None \<Rightarrow> fmode | Some (_, m) \<Rightarrow> m))"

text \<open>The local run, under \<open>redo-trace\<close> in strict mode.\<close>

definition local_argv :: "bool \<Rightarrow> string \<Rightarrow> string list \<Rightarrow> string list" where
  "local_argv strict trace argv =
     (if strict then [''redo-trace'', ''--trace-out0'', trace, ''--mode'', ''read'', ''--''] @ argv else argv)"

definition run_local :: "'s exec_env_fns \<Rightarrow> bool \<Rightarrow> string \<Rightarrow> string list \<Rightarrow> work \<times> 's \<Rightarrow> int \<times> work \<times> 's" where
  "run_local xe strict trace argv ws =
     (case xe_run xe (local_argv strict trace argv) (fst ws) of
        None \<Rightarrow> (201, ws)
      | Some (code, w1) \<Rightarrow> (unwrap_or code 201, w1, snd ws))"

text \<open>Every input once; it has to be a regular file.\<close>

fun upload_inputs :: "'s exec_env_fns \<Rightarrow> remote_config \<Rightarrow> string \<Rightarrow> work \<Rightarrow> string list \<Rightarrow> string list \<Rightarrow> 's
    \<Rightarrow> exec_input list res \<times> 's" where
  "upload_inputs xe cfg base w seen [] st = (Inr [], st)"
| "upload_inputs xe cfg base w seen (rel0 # rels) st =
     (let rel = trim rel0; p = path_join base rel in
      if rel = [] \<or> rel \<in> set seen then upload_inputs xe cfg base w seen rels st
      else case w p of
        None \<Rightarrow> (Inl (if xe_special xe p then Msg (''remote_exec: unsupported input type (not file): '' @ rel) else IoError p), st)
      | Some (content, mode) \<Rightarrow>
          (case put_blob_bytes (xe_net xe) cfg (xe_sha xe content) content st of
             (Inl e, st1) \<Rightarrow> (Inl e, st1)
           | (Inr _, st1) \<Rightarrow>
               (case upload_inputs xe cfg base w (rel # seen) rels st1 of
                  (r, st2) \<Rightarrow> (rbind r (\<lambda>is. Inr (\<lparr>ei_path = rel, ei_sha256 = xe_sha xe content, ei_mode = mode AND 511\<rparr> # is)), st2))))"

definition trace_missing :: string where
  "trace_missing = ''TRACE_UNAVAILABLE:missing_trace'' @ [CHR 0x00]"

text \<open>Fetching one of the two lists: a missing one is written as the text \<open>d\<close>.\<close>

definition fetch_list :: "'s exec_env_fns \<Rightarrow> remote_config \<Rightarrow> string \<Rightarrow> string option \<Rightarrow> string \<Rightarrow> work \<times> 's \<Rightarrow> unit res \<times> work \<times> 's" where
  "fetch_list xe cfg p hex d ws =
     (case hex of
        None \<Rightarrow> (Inr (), write_local (xe_fmode xe) p d (fst ws), snd ws)
      | Some h \<Rightarrow>
          (case get_blob_bytes_verified (xe_sha xe) (xe_net xe) cfg h (snd ws) of
             (Inl e, st1) \<Rightarrow> (Inl e, fst ws, st1)
           | (Inr b, st1) \<Rightarrow> (Inr (), write_local (xe_fmode xe) p b (fst ws), st1)))"

text \<open>The output: the manifest, then its blob, straight into place.\<close>

definition fetch_output :: "'s exec_env_fns \<Rightarrow> remote_config \<Rightarrow> string \<Rightarrow> string \<Rightarrow> work \<times> 's \<Rightarrow> int \<times> work \<times> 's" where
  "fetch_output xe cfg out man_hex ws =
     (case get_blob_bytes_verified (xe_sha xe) (xe_net xe) cfg man_hex (snd ws) of
        (Inl _, st1) \<Rightarrow> (201, fst ws, st1)
      | (Inr man, st1) \<Rightarrow>
          (case parse_artifact_manifest_v1 man of
             Inl _ \<Rightarrow> (201, fst ws, st1)
           | Inr m \<Rightarrow>
               (case download_blob_to_file_verified (xe_sha xe) (xe_net xe) cfg (am_blob_sha256 m) None st1 of
                  ((Inl _, left), st2) \<Rightarrow> (201, (fst ws)(out := map_option (\<lambda>b. (b, xe_fmode xe)) left), st2)
                | ((Inr _, got), st2) \<Rightarrow> (0, (fst ws)(out := map_option (\<lambda>b. (b, unat (am_mode m AND 511))) got), st2))))"

definition take_results :: "'s exec_env_fns \<Rightarrow> remote_config \<Rightarrow> exec_args \<Rightarrow> bool \<Rightarrow> exec_response \<Rightarrow> work \<times> 's \<Rightarrow> int \<times> work \<times> 's" where
  "take_results xe cfg xa strict resp ws =
     (let out = the (xa_out xa); deps = the (xa_deps_out0 xa); trace = the (xa_trace_out0 xa) in
      case fetch_list xe cfg deps (es_deps resp) [] ws of
        (Inl _, ws1) \<Rightarrow> (201, ws1)
      | (Inr _, ws1) \<Rightarrow>
          (case fetch_list xe cfg trace (es_trace resp) trace_missing ws1 of
             (Inl _, ws2) \<Rightarrow> (201, ws2)
           | (Inr _, ws2) \<Rightarrow>
               (case es_output_manifest resp of
                  None \<Rightarrow> run_local xe strict trace (xa_argv xa) ws2
                | Some man_hex \<Rightarrow>
                    fetch_output xe cfg out man_hex
                      (case xa_remote_ok xa of
                         None \<Rightarrow> ws2
                       | Some p \<Rightarrow> (write_local (xe_fmode xe) p (''ok'' @ [CHR 0x0A]) (fst ws2), snd ws2)))))"

definition exec_remotely :: "'s exec_env_fns \<Rightarrow> remote_config \<Rightarrow> exec_args \<Rightarrow> string \<Rightarrow> bool \<Rightarrow> work \<times> 's \<Rightarrow> int \<times> work \<times> 's" where
  "exec_remotely xe cfg xa base strict ws =
     (let trace = the (xa_trace_out0 xa) in
      case upload_inputs xe cfg base (fst ws) [] (xa_inputs xa) (snd ws) of
        (Inl _, st1) \<Rightarrow> (201, fst ws, st1)
      | (Inr inputs, st1) \<Rightarrow>
          (case (xe_diff xe (the (xa_deps_out0 xa)) base, xe_diff xe trace base) of
             (Some deps_rel, Some trace_rel) \<Rightarrow>
               (case exec_v1 xe cfg
                       \<lparr>er_schema = ''redo-remote-exec:v1'', er_argv = xa_argv xa, er_cwd_rel = xa_cwd_rel xa,
                        er_target_rel = xa_target_rel xa, er_tmp_rel = xa_tmp_rel xa, er_deps_out0_rel = deps_rel,
                        er_trace_out0_rel = trace_rel, er_inputs = inputs\<rparr> st1 of
                  (Inl _, st2) \<Rightarrow> run_local xe strict trace (xa_argv xa) (fst ws, st2)
                | (Inr resp, st2) \<Rightarrow>
                    if es_exit_code resp \<noteq> 0 then run_local xe strict trace (xa_argv xa) (fst ws, st2)
                    else take_results xe cfg xa strict resp (fst ws, st2))
           | _ \<Rightarrow> (201, fst ws, st1)))"

definition redo_remote_exec :: "'s exec_env_fns \<Rightarrow> vars \<Rightarrow> string list \<Rightarrow> work \<times> 's \<Rightarrow> int \<times> work \<times> 's" where
  "redo_remote_exec xe vs args ws =
     (case parse_exec_args args no_exec_args of
        None \<Rightarrow> (0, ws)
      | Some xa \<Rightarrow>
          if exec_args_error xa \<noteq> None then (201, ws)
          else
            let base = unwrap_or (vs ''REDO_BASE'') ''.'';
                strict = env_flag_set vs ''REDO_STRICT''
            in case config_from_env vs of
                 Inr (Some cfg) \<Rightarrow> exec_remotely xe cfg xa base strict ws
               | _ \<Rightarrow> run_local xe strict (the (xa_trace_out0 xa)) (xa_argv xa) ws)"

end
