(* ===== verification/Remote_Exec_Props.thy ===== *)
theory Remote_Exec_Props
  imports Remote_Exec Remote_Props
begin

text \<open>
  The client of remote execution accepts nothing from a server that it has not verified, and touches no file
  other than those named on its command line.
\<close>

lemma fetch_list_ok:
  assumes "fetch_list xe cfg p hex d (w, st) = (Inr (), w', st')"
  shows "\<exists>b m. w' = w(p \<mapsto> (b, m)) \<and> (case hex of None \<Rightarrow> b = d | Some h \<Rightarrow> xe_sha xe b = h)"
  using assms by (auto simp: fetch_list_def write_local_def dest: verified_fetch split: option.splits prod.splits sum.splits)

lemma download_ok:
  "download_blob_to_file_verified sha net cfg key dest st = ((Inr n, got), st1) \<Longrightarrow> \<exists>b. got = Some b \<and> sha b = key"
  unfolding download_blob_to_file_verified_def by (auto simp: Let_def split: prod.splits sum.splits if_splits option.splits)

lemma fetch_output_ok:
  assumes "fetch_output xe cfg out man_hex (w, st) = (0, w', st')"
  shows "\<exists>man m b. xe_sha xe man = man_hex \<and> parse_artifact_manifest_v1 man = Inr m \<and> xe_sha xe b = am_blob_sha256 m \<and>
     w' = w(out \<mapsto> (b, unat (am_mode m AND 511)))"
  using assms
  by (auto simp: fetch_output_def dest!: verified_fetch download_ok split: prod.splits sum.splits) blast

lemma run_local_ok:
  "run_local xe strict trace argv (w, st) = (0, w', st') \<Longrightarrow> xe_run xe (local_argv strict trace argv) w = Some (Some 0, w')"
  by (auto simp: run_local_def unwrap_or_def split: option.splits)

text \<open>The files after the two lists have been fetched, and after the output has been as well.\<close>

definition lists_fetched :: "'s exec_env_fns \<Rightarrow> exec_args \<Rightarrow> exec_response \<Rightarrow> work \<Rightarrow> work \<Rightarrow> bool" where
  "lists_fetched xe xa resp w w' \<longleftrightarrow>
     (\<exists>b k c l. w' = w(the (xa_deps_out0 xa) \<mapsto> (b, k), the (xa_trace_out0 xa) \<mapsto> (c, l)) \<and>
        (case es_deps resp of None \<Rightarrow> b = [] | Some h \<Rightarrow> xe_sha xe b = h) \<and>
        (case es_trace resp of None \<Rightarrow> c = trace_missing | Some h \<Rightarrow> xe_sha xe c = h))"

definition fetched :: "'s exec_env_fns \<Rightarrow> exec_args \<Rightarrow> exec_response \<Rightarrow> work \<Rightarrow> work \<Rightarrow> bool" where
  "fetched xe xa resp w w' \<longleftrightarrow>
     (\<exists>w1 man m b. lists_fetched xe xa resp w w1 \<and>
        es_output_manifest resp = Some (xe_sha xe man) \<and> parse_artifact_manifest_v1 man = Inr m \<and> xe_sha xe b = am_blob_sha256 m \<and>
        w' = (case xa_remote_ok xa of None \<Rightarrow> w1 | Some p \<Rightarrow> write_local (xe_fmode xe) p (''ok'' @ [CHR 0x0A]) w1)
               (the (xa_out xa) \<mapsto> (b, unat (am_mode m AND 511))))"

lemma take_results_ok:
  assumes "take_results xe cfg xa strict resp (w, st) = (0, w', st')"
  shows "(\<exists>w1. es_output_manifest resp = None \<and> lists_fetched xe xa resp w w1 \<and>
            xe_run xe (local_argv strict (the (xa_trace_out0 xa)) (xa_argv xa)) w1 = Some (Some 0, w')) \<or>
         fetched xe xa resp w w'"
proof -
  let ?out = "the (xa_out xa)" and ?deps = "the (xa_deps_out0 xa)" and ?trace = "the (xa_trace_out0 xa)"
  obtain r1 w1 st1 where f1: "fetch_list xe cfg ?deps (es_deps resp) [] (w, st) = (r1, w1, st1)" by (rule prod_cases3)
  have "r1 = Inr ()" using assms f1 by (cases r1) (simp_all add: take_results_def Let_def)
  note 1 = f1 [unfolded this]
  obtain r2 w2 st2 where f2: "fetch_list xe cfg ?trace (es_trace resp) trace_missing (w1, st1) = (r2, w2, st2)" by (rule prod_cases3)
  have "r2 = Inr ()" using assms 1 f2 by (cases r2) (simp_all add: take_results_def Let_def)
  note 2 = f2 [unfolded this]
  have l: "lists_fetched xe xa resp w w2"
    using fetch_list_ok [OF 1] fetch_list_ok [OF 2] unfolding lists_fetched_def by blast
  show ?thesis
  proof (cases "es_output_manifest resp")
    case None
    then have "run_local xe strict ?trace (xa_argv xa) (w2, st2) = (0, w', st')"
      using assms 1 2 by (simp add: take_results_def Let_def)
    from run_local_ok [OF this] None l show ?thesis by blast
  next
    case (Some hex)
    let ?w3 = "case xa_remote_ok xa of None \<Rightarrow> w2 | Some p \<Rightarrow> write_local (xe_fmode xe) p (''ok'' @ [CHR 0x0A]) w2"
    have "fetch_output xe cfg ?out hex (?w3, st2) = (0, w', st')"
      using assms 1 2 Some by (cases "xa_remote_ok xa") (simp_all add: take_results_def Let_def)
    from fetch_output_ok [OF this] l Some show ?thesis unfolding fetched_def by blast
  qed
qed

text \<open>The request for the uploaded inputs.\<close>

definition exec_request_of :: "exec_args \<Rightarrow> string \<Rightarrow> string \<Rightarrow> exec_input list \<Rightarrow> exec_request" where
  "exec_request_of xa deps_rel trace_rel inputs =
     \<lparr>er_schema = ''redo-remote-exec:v1'', er_argv = xa_argv xa, er_cwd_rel = xa_cwd_rel xa,
      er_target_rel = xa_target_rel xa, er_tmp_rel = xa_tmp_rel xa, er_deps_out0_rel = deps_rel,
      er_trace_out0_rel = trace_rel, er_inputs = inputs\<rparr>"

text \<open>What a success with these arguments means: the command itself has succeeded here, on the files as they were or (without
  an output manifest) after the two lists were fetched; or the server's answer to the request for exactly these
  inputs has exit code 0, and the lists and the output in place are the verified ones it names.\<close>

definition exec_done :: "'s exec_env_fns \<Rightarrow> vars \<Rightarrow> exec_args \<Rightarrow> work \<Rightarrow> 's \<Rightarrow> work \<Rightarrow> bool" where
  "exec_done xe vs xa w st w' \<longleftrightarrow>
     (let base = unwrap_or (vs ''REDO_BASE'') ''.'';
          local = (\<lambda>w1. xe_run xe (local_argv (env_flag_set vs ''REDO_STRICT'') (the (xa_trace_out0 xa)) (xa_argv xa)) w1 = Some (Some 0, w'))
      in local w \<or>
         (\<exists>cfg inputs st1 deps_rel trace_rel resp st2.
            config_from_env vs = Inr (Some cfg) \<and>
            upload_inputs xe cfg base w [] (xa_inputs xa) st = (Inr inputs, st1) \<and>
            xe_diff xe (the (xa_deps_out0 xa)) base = Some deps_rel \<and> xe_diff xe (the (xa_trace_out0 xa)) base = Some trace_rel \<and>
            exec_v1 xe cfg (exec_request_of xa deps_rel trace_rel inputs) st1 = (Inr resp, st2) \<and> es_exit_code resp = 0 \<and>
            ((\<exists>w1. es_output_manifest resp = None \<and> lists_fetched xe xa resp w w1 \<and> local w1) \<or> fetched xe xa resp w w')))"

text \<open>C18. Remote execution never installs unverified bytes. When \<open>redo-remote-exec\<close> succeeds, against any server, honest or
  not, either it only printed its help, or the command of its arguments succeeded locally, or the server answered the
  request made of these arguments and of the inputs just uploaded with exit code 0, and what is in place, the
  output with the permission bits of the manifest, the list of dependencies and that of the traced files,
  has the digests the answer names (or the lists are marked as missing); no other file has changed.\<close>

theorem remote_exec_verified:
  assumes "redo_remote_exec xe vs args (w, st) = (0, w', st')"
  shows "case parse_exec_args args no_exec_args of None \<Rightarrow> w' = w | Some xa \<Rightarrow> exec_done xe vs xa w st w'"
proof (cases "parse_exec_args args no_exec_args")
  case None
  with assms show ?thesis by (simp add: redo_remote_exec_def)
next
  case (Some xa)
  let ?base = "unwrap_or (vs ''REDO_BASE'') ''.''" and ?strict = "env_flag_set vs ''REDO_STRICT''"
  let ?trace = "the (xa_trace_out0 xa)"
  have local: ?thesis if "run_local xe ?strict ?trace (xa_argv xa) (w, s) = (0, w', st')" for s
    using run_local_ok [OF that] Some by (simp add: exec_done_def Let_def)
  show ?thesis
  proof (cases "\<exists>cfg. config_from_env vs = Inr (Some cfg)")
    case False
    then have "run_local xe ?strict ?trace (xa_argv xa) (w, st) = (0, w', st')"
      using assms Some by (auto simp: redo_remote_exec_def Let_def split: if_splits sum.splits option.splits)
    then show ?thesis by (rule local)
  next
    case True
    then obtain cfg where cfg: "config_from_env vs = Inr (Some cfg)" by blast
    then have r: "exec_remotely xe cfg xa ?base ?strict (w, st) = (0, w', st')"
      using assms Some by (auto simp: redo_remote_exec_def Let_def split: if_splits)
    then obtain ins s1 deps_rel trace_rel where u: "upload_inputs xe cfg ?base w [] (xa_inputs xa) st = (Inr ins, s1)"
      and d: "xe_diff xe (the (xa_deps_out0 xa)) ?base = Some deps_rel" "xe_diff xe ?trace ?base = Some trace_rel"
      by (auto simp: exec_remotely_def Let_def split: prod.splits sum.splits option.splits)
    obtain v s2 where e: "exec_v1 xe cfg (exec_request_of xa deps_rel trace_rel ins) s1 = (v, s2)" by fastforce
    note r = r [unfolded exec_remotely_def Let_def, simplified, unfolded u d, simplified, folded exec_request_of_def, unfolded e]
    show ?thesis
    proof (cases v)
      case (Inl err)
      with r show ?thesis by (intro local [of s2]) simp
    next
      case (Inr resp)
      show ?thesis
      proof (cases "es_exit_code resp = 0")
        case False
        with r Inr show ?thesis by (intro local [of s2]) simp
      next
        case True
        then have "take_results xe cfg xa ?strict resp (w, s2) = (0, w', st')" using r Inr by simp
        from take_results_ok [OF this] show ?thesis
          using Some cfg u d e Inr True unfolding exec_done_def Let_def by auto
      qed
    qed
  qed
qed

text \<open>A server that has run the command and kept its output \<open>hello\<close>.\<close>

definition demo_manifest :: string where
  "demo_manifest = manifest_json ''hello'' 5 493"

definition demo_exec :: "string list exec_env_fns" where
  "demo_exec = \<lparr>xe_sha = id,
     xe_net = (\<lambda>_ st. case st of [] \<Rightarrow> (Inl (IoError ''connect''), []) | r # rs \<Rightarrow> (Inr (write_status 200 ''OK'' r ''x'', None), rs)),
     xe_to_json = (\<lambda>_. ''{}''),
     xe_of_json = (\<lambda>_. Some \<lparr>es_schema = ''redo-remote-exec-result:v1'', es_exit_code = 0, es_output_manifest = Some demo_manifest,
                             es_deps = None, es_trace = None\<rparr>),
     xe_diff = (\<lambda>p b. Some p), xe_special = (\<lambda>_. False), xe_run = (\<lambda>_ _. None), xe_fmode = 420\<rparr>"

definition demo_exec_args :: "string list" where
  "demo_exec_args = [''--out'', ''o'', ''--deps-out0'', ''d'', ''--trace-out0'', ''t'', ''--cwd-rel'', ''.'', ''--target-rel'', ''x'',
     ''--tmp-rel'', ''y'', ''--'', ''sh'', ''x.do'']"

definition demo_exec_vars :: vars where
  "demo_exec_vars = [''REDO_ACTION_CACHE_REMOTE_URL'' \<mapsto> ''http://127.0.0.1:8080'']"

definition demo_exec_end :: "int \<times> work \<times> string list" where
  "demo_exec_end = redo_remote_exec demo_exec demo_exec_vars demo_exec_args (Map.empty, [''{}'', demo_manifest, ''hello''])"

theorem remote_exec_verified_witness:
  "exec_done demo_exec demo_exec_vars (the (parse_exec_args demo_exec_args no_exec_args)) Map.empty [''{}'', demo_manifest, ''hello'']
     (fst (snd demo_exec_end)) \<and> fst (snd demo_exec_end) ''o'' = Some (''hello'', 493)"
proof -
  have c: "fst demo_exec_end = 0" "fst (snd demo_exec_end) ''o'' = Some (''hello'', 493)" by code_simp+
  then have r: "redo_remote_exec demo_exec demo_exec_vars demo_exec_args (Map.empty, [''{}'', demo_manifest, ''hello'']) =
      (0, fst (snd demo_exec_end), snd (snd demo_exec_end))"
    by (simp add: demo_exec_end_def [symmetric] prod_eq_iff)
  have "parse_exec_args demo_exec_args no_exec_args \<noteq> None" by code_simp
  with remote_exec_verified [OF r] c(2) show ?thesis by auto
qed

text \<open>The download of the output goes straight to its place: when the connection breaks in the middle, the program ends
  with 201 and what has arrived stays there, unverified.\<close>

definition broken_net :: "string list net" where
  "broken_net q st =
     (case st of
        [] \<Rightarrow> (Inl (IoError ''connect''), [])
      | [r] \<Rightarrow> (let a = write_status 200 ''OK'' r ''x'' in (Inr (take (length a - 2) a, Some (IoError ''timed out'')), []))
      | r # rs \<Rightarrow> (Inr (write_status 200 ''OK'' r ''x'', None), rs))"

lemma truncated_output_left:
  "(case redo_remote_exec (demo_exec\<lparr>xe_net := broken_net\<rparr>) demo_exec_vars demo_exec_args (Map.empty, [''{}'', demo_manifest, ''hello'']) of
      (code, w, _) \<Rightarrow> (code, w ''o'')) = (201, Some (''hel'', 420))"
  by code_simp

end
