(* ===== verification/Remote_Compose.thy ===== *)
theory Remote_Compose
  imports Remote_Exec_Props
begin

text \<open>
  The client of remote execution together with the server of \<open>redo-cache-server\<close>: the connection of
  \<open>Remote_Props\<close> with the execution handler of \<open>Cache_Server\<close> behind it. What the client ends with is what
  the sandbox of the server produced from the declared inputs.
\<close>

subsection \<open>Digests the client can rely on\<close>

definition good_blob :: "(string \<Rightarrow> string) \<Rightarrow> string \<Rightarrow> bool" where
  "good_blob sha b \<longleftrightarrow> (\<forall>c. sha c = sha b \<longrightarrow> c = b) \<and> length b < 2 ^ 64"

text \<open>The server holds the blob, and keeps it while its store grows.\<close>

definition has_blob :: "(string \<Rightarrow> string) \<Rightarrow> server_config \<Rightarrow> files \<Rightarrow> string \<Rightarrow> bool" where
  "has_blob sha scfg fs b \<longleftrightarrow> blob_at (cs_root scfg) fs (sha b) = Some b"

lemma holds_grows:
  assumes "grows sha (cs_root scfg) fs fs1" "is_key (sha b)" "has_blob sha scfg fs b"
  shows "has_blob sha scfg fs1 b"
  using assms unfolding grows_def has_blob_def by (metis option.distinct(1))

lemma holds_some:
  assumes "cas_ok sha (cs_root scfg) fs" "is_key (sha b)" "good_blob sha b" "blob_at (cs_root scfg) fs (sha b) \<noteq> None"
  shows "has_blob sha scfg fs b"
  using assms unfolding cas_ok_def good_blob_def has_blob_def by (metis option.exhaust)

lemma good_fetch:
  assumes "client_ok cfg scfg" "is_key (sha b)" "good_blob sha b" "has_blob sha scfg fs b"
  shows "get_blob_bytes_verified sha (server_net sha exec scfg u) cfg (sha b) fs = (Inr b, fs)"
  using get_blob_served [where sha = sha and b = b, OF assms(1,2)] assms(3,4) by (simp add: good_blob_def has_blob_def)

lemma store_known_ok: "\<exists>fs1. store_blob_bytes_known sha root (sha b) b u fs = Inr fs1"
  by (simp add: store_blob_bytes_known_def Let_def)

lemma store_ok_result: "fst (store_ok sha root u v fs) = map_option sha v"
proof (cases v)
  case (Some b)
  obtain fs1 where "store_blob_bytes_known sha root (sha b) b u fs = Inr fs1" using store_known_ok by blast
  with Some show ?thesis by (simp add: store_ok_def store_blob_bytes_def)
qed (simp add: store_ok_def)

lemma store_ok_holds:
  assumes "\<And>b. is_key (sha b)" "cas_ok sha (cs_root scfg) fs" "store_ok sha (cs_root scfg) u (Some b) fs = (r, fs1)" "good_blob sha b"
  shows "has_blob sha scfg fs1 b"
proof -
  obtain f where f: "store_blob_bytes_known sha (cs_root scfg) (sha b) b u fs = Inr f" using store_known_ok by blast
  then have e: "fs1 = f" using assms(3) by (simp add: store_ok_def store_blob_bytes_def)
  have "cas_ok sha (cs_root scfg) f" using store_ok_grows [OF assms(1,3)] grows_cas_ok assms(2) e by blast
  moreover have "blob_at (cs_root scfg) f (sha b) \<noteq> None"
    using store_known_adds(1) [OF assms(1) f] assms(1) unfolding adds_blob_def by auto
  ultimately show "has_blob sha scfg fs1 b" unfolding e using assms(1,4) holds_some by blast
qed

lemma compute_holds:
  assumes "\<And>b. is_key (sha b)" "cas_ok sha (cs_root scfg) fs" "good_blob sha b"
    "store_blob_from_file_compute sha (cs_root scfg) b u fs = (r, fs1)"
  shows "r = (sha b, length b)" "has_blob sha scfg fs1 b"
proof -
  show "r = (sha b, length b)" using assms(4) by (auto simp: store_blob_from_file_compute_def Let_def)
  have "cas_ok sha (cs_root scfg) fs1" using compute_grows [OF assms(1,4)] grows_cas_ok assms(2) by blast
  moreover have "blob_at (cs_root scfg) fs1 (sha b) \<noteq> None"
    using assms(4) neq_compute_tmp [OF assms(1)]
    by (auto simp: store_blob_from_file_compute_def Let_def blob_at_def rename_file_def split: if_splits)
  ultimately show "has_blob sha scfg fs1 b" using assms(1,3) holds_some by blast
qed


subsection \<open>The server's side of an execution\<close>

text \<open>What the sandbox leaves: the exit code of the script and the files after the rules for \<open>$3\<close>, standard
  output and the trace.\<close>

definition sandbox_end :: "nat \<Rightarrow> exec_request \<Rightarrow> sandbox_result \<Rightarrow> int \<times> work" where
  "sandbox_end fmode req res =
     (case res of (code, out, err, w, links) \<Rightarrow>
        case exec_output fmode req (unwrap_or code 201) out w of (final, w1) \<Rightarrow>
          (final, if w1 (work_key (er_trace_out0_rel req)) = None
                  then w1(work_key (er_trace_out0_rel req) \<mapsto> (trace_missing, fmode)) else w1))"

definition output_manifest :: "(string \<Rightarrow> string) \<Rightarrow> string \<times> nat \<Rightarrow> string" where
  "output_manifest sha f = manifest_json (sha (fst f)) (length (fst f)) (snd f AND 511)"

definition good_results :: "(string \<Rightarrow> string) \<Rightarrow> work \<Rightarrow> bool" where
  "good_results sha w \<longleftrightarrow> (\<forall>p f. w p = Some f \<longrightarrow> good_blob sha (fst f) \<and> good_blob sha (output_manifest sha f))"

lemma exec_manifest_holds:
  assumes "\<And>b. is_key (sha b)" "cas_ok sha (cs_root scfg) fs" "good_blob sha (fst f)" "good_blob sha (output_manifest sha f)"
    "exec_manifest sha (cs_root scfg) u 0 (Some f) fs = (r, fs1)"
  shows "r = Some (sha (output_manifest sha f))" "has_blob sha scfg fs1 (fst f)" "has_blob sha scfg fs1 (output_manifest sha f)"
proof -
  obtain h f1 where c: "store_blob_from_file_compute sha (cs_root scfg) (fst f) u fs = (h, f1)" by fastforce
  note ch = compute_holds [OF assms(1,2,3) c]
  have s: "store_ok sha (cs_root scfg) u (Some (output_manifest sha f)) f1 = (r, fs1)"
    using assms(5) c ch(1) by (simp add: exec_manifest_def output_manifest_def split: prod.splits)
  have ok: "cas_ok sha (cs_root scfg) f1" using compute_grows [OF assms(1) c] grows_cas_ok assms(2) by blast
  show "r = Some (sha (output_manifest sha f))"
    using store_ok_result [of sha "cs_root scfg" u "Some (output_manifest sha f)" f1] s by simp
  show "has_blob sha scfg fs1 (output_manifest sha f)" using store_ok_holds [OF assms(1) ok s assms(4)] .
  show "has_blob sha scfg fs1 (fst f)" using holds_grows [OF store_ok_grows [OF assms(1) s] assms(1) ch(2)] .
qed

text \<open>The results the server holds for the client after the attempt.\<close>

definition results_held :: "(string \<Rightarrow> string) \<Rightarrow> server_config \<Rightarrow> exec_request \<Rightarrow> work \<Rightarrow> files \<Rightarrow> bool" where
  "results_held sha scfg req v fs \<longleftrightarrow>
     (\<forall>p \<in> {er_deps_out0_rel req, er_trace_out0_rel req}. \<forall>f. v (work_key p) = Some f \<longrightarrow> has_blob sha scfg fs (fst f)) \<and>
     (\<forall>f. v (work_key (er_target_rel req)) = Some f \<longrightarrow> has_blob sha scfg fs (fst f) \<and> has_blob sha scfg fs (output_manifest sha f))"

definition result_of :: "(string \<Rightarrow> string) \<Rightarrow> exec_request \<Rightarrow> int \<Rightarrow> work \<Rightarrow> exec_response" where
  "result_of sha req final v =
     \<lparr>es_schema = ''redo-remote-exec-result:v1'', es_exit_code = final,
      es_output_manifest = (if final = 0 then map_option (sha \<circ> output_manifest sha) (v (work_key (er_target_rel req))) else None),
      es_deps = map_option (sha \<circ> fst) (v (work_key (er_deps_out0_rel req))),
      es_trace = map_option (sha \<circ> fst) (v (work_key (er_trace_out0_rel req)))\<rparr>"

definition answer_of :: "(string \<Rightarrow> string) \<Rightarrow> exec_request \<Rightarrow> int \<Rightarrow> work \<Rightarrow> string \<Rightarrow> string \<Rightarrow> string" where
  "answer_of sha req final v out err =
     (let r = result_of sha req final v
      in exec_result_json final (es_output_manifest r) (es_deps r) (es_trace r) (Some (sha out)) (Some (sha err)))"

lemma exec_finish_holds:
  assumes "\<And>b. is_key (sha b)" "cas_ok sha (cs_root scfg) fs"
    "sandbox_end fmode req res = (final, w)" "good_results sha w" "snd (snd (snd (snd res))) = []"
  obtains out err fs1 where
    "exec_finish fmode sha follow scfg u req res fs = (write_json 200 ''OK'' (answer_of sha req final w out err), fs1)"
    "final = 0 \<longrightarrow> results_held sha scfg req w fs1"
proof -
  let ?root = "cs_root scfg" and ?dk = "work_key (er_deps_out0_rel req)" and ?tk = "work_key (er_trace_out0_rel req)"
  obtain code out err w0 where res: "res = (code, out, err, w0, [])" using assms(5) by (cases res) auto
  have nl: "\<not> list_ex (via_link []) (exec_paths req)" by (simp add: via_link_def exec_paths_def)
  obtain h1 f1 where s1: "store_ok sha ?root u (Some out) fs = (h1, f1)" by fastforce
  obtain h2 f2 where s2: "store_ok sha ?root u (Some err) f1 = (h2, f2)" by fastforce
  obtain h3 f3 where s3: "store_ok sha ?root u (map_option fst (w ?dk)) f2 = (h3, f3)" by fastforce
  obtain h4 f4 where s4: "store_ok sha ?root u (map_option fst (w ?tk)) f3 = (h4, f4)" by fastforce
  obtain h5 f5 where s5: "exec_manifest sha ?root u final (w (work_key (er_target_rel req))) f4 = (h5, f5)" by fastforce
  have h: "h1 = Some (sha out)" "h2 = Some (sha err)" "h3 = map_option (sha \<circ> fst) (w ?dk)" "h4 = map_option (sha \<circ> fst) (w ?tk)"
    using store_ok_result [of sha ?root u "Some out" fs] store_ok_result [of sha ?root u "Some err" f1]
      store_ok_result [of sha ?root u "map_option fst (w ?dk)" f2] store_ok_result [of sha ?root u "map_option fst (w ?tk)" f3]
      s1 s2 s3 s4 by (simp_all add: option.map_comp)
  note g = store_ok_grows [OF assms(1) s1] store_ok_grows [OF assms(1) s2] store_ok_grows [OF assms(1) s3]
    store_ok_grows [OF assms(1) s4] exec_manifest_grows [OF assms(1) s5]
  have c1: "cas_ok sha ?root f1" using grows_cas_ok [OF g(1) assms(2)] .
  have c2: "cas_ok sha ?root f2" using grows_cas_ok [OF g(2) c1] .
  have c3: "cas_ok sha ?root f3" using grows_cas_ok [OF g(3) c2] .
  have c4: "cas_ok sha ?root f4" using grows_cas_ok [OF g(4) c3] .
  have c5: "cas_ok sha ?root f5" using grows_cas_ok [OF g(5) c4] .
  have t: "has_blob sha scfg f5 (fst f) \<and> has_blob sha scfg f5 (output_manifest sha f) \<and> h5 = Some (sha (output_manifest sha f))"
    if "final = 0" "w (work_key (er_target_rel req)) = Some f" for f
    using exec_manifest_holds [OF assms(1) c4, of f u h5 f5] s5 that assms(4) unfolding good_results_def by simp
  have h5: "h5 = (if final = 0 then map_option (sha \<circ> output_manifest sha) (w (work_key (er_target_rel req))) else None)"
    using t s5 by (cases "w (work_key (er_target_rel req))") (auto simp: exec_manifest_def split: if_splits)
  have l: "has_blob sha scfg f5 (fst f)" if "p \<in> {er_deps_out0_rel req, er_trace_out0_rel req}" "w (work_key p) = Some f" for p f
  proof -
    have good: "good_blob sha (fst f)" using assms(4) that(2) unfolding good_results_def by blast
    have "has_blob sha scfg f4 (fst f)"
      using that store_ok_holds [OF assms(1) c2, of u "fst f" h3 f3] store_ok_holds [OF assms(1) c3, of u "fst f" h4 f4]
        s3 s4 good holds_grows [OF g(4) assms(1)] by auto
    then show ?thesis by (rule holds_grows [OF g(5) assms(1)])
  qed
  obtain w1 where eo: "exec_output fmode req (unwrap_or code 201) out w0 = (final, w1)"
    and w: "(if w1 ?tk = None then w1(?tk \<mapsto> (trace_missing, fmode)) else w1) = w"
    using assms(3) unfolding sandbox_end_def res by (auto split: prod.splits)
  have e: "exec_finish fmode sha follow scfg u req res fs = (write_json 200 ''OK'' (exec_result_json final h5 h3 h4 h1 h2), f5)"
    unfolding exec_finish_def res prod.case if_not_P [OF nl] Let_def eo trace_missing_def [symmetric] w s1 s2 s3 s4 s5 ..
  show thesis
  proof (rule that)
    show "exec_finish fmode sha follow scfg u req res fs = (write_json 200 ''OK'' (answer_of sha req final w out err), f5)"
      unfolding e h h5 by (simp add: answer_of_def result_of_def)
    show "final = 0 \<longrightarrow> results_held sha scfg req w f5" using l t unfolding results_held_def by blast
  qed
qed

subsection \<open>Uploading the inputs\<close>

text \<open>The paths that are uploaded: each once, in the order of the arguments, and what is sent for one.\<close>

fun distinct_rels :: "string list \<Rightarrow> string list \<Rightarrow> string list" where
  "distinct_rels seen [] = []"
| "distinct_rels seen (r # rs) =
     (if trim r = [] \<or> trim r \<in> set seen then distinct_rels seen rs else trim r # distinct_rels (trim r # seen) rs)"

definition input_of :: "(string \<Rightarrow> string) \<Rightarrow> string \<Rightarrow> work \<Rightarrow> string \<Rightarrow> exec_input" where
  "input_of sha base w rel =
     (let (c, m) = the (w (path_join base rel)) in \<lparr>ei_path = rel, ei_sha256 = sha c, ei_mode = m AND 511\<rparr>)"

definition good_inputs :: "(string \<Rightarrow> string) \<Rightarrow> string \<Rightarrow> work \<Rightarrow> string list \<Rightarrow> bool" where
  "good_inputs sha base w rels \<longleftrightarrow> (\<forall>rel \<in> set rels. \<exists>f. w (path_join base rel) = Some f \<and> good_blob sha (fst f))"

lemma put_good:
  assumes "client_ok cfg scfg" "\<And>b. is_key (sha b)" "cas_ok sha (cs_root scfg) fs" "good_blob sha b"
  obtains fs1 where "put_blob_bytes (server_net sha exec scfg u) cfg (sha b) b fs = (Inr (), fs1)"
    "cas_ok sha (cs_root scfg) fs1" "has_blob sha scfg fs1 b" "\<And>c. has_blob sha scfg fs c \<Longrightarrow> has_blob sha scfg fs1 c"
proof (rule put_blob_kept [where sha = sha and b = b, OF assms(1,2) _ _ assms(3)])
  show "c = b" if "sha c = sha b" for c using that assms(4) by (simp add: good_blob_def)
  show "length b < 2 ^ 64" using assms(4) by (simp add: good_blob_def)
qed (use assms(2) that in \<open>auto simp: has_blob_def\<close>)

lemma upload_served:
  assumes "client_ok cfg scfg" "\<And>b. is_key (sha b)" "xe_sha xe = sha" "xe_net xe = server_net sha exec scfg u"
  shows "cas_ok sha (cs_root scfg) fs \<Longrightarrow> good_inputs sha base w (distinct_rels seen rels) \<Longrightarrow>
    \<exists>fs1. upload_inputs xe cfg base w seen rels fs = (Inr (map (input_of sha base w) (distinct_rels seen rels)), fs1)
      \<and> cas_ok sha (cs_root scfg) fs1 \<and> (\<forall>b. has_blob sha scfg fs b \<longrightarrow> has_blob sha scfg fs1 b)
      \<and> (\<forall>rel \<in> set (distinct_rels seen rels). has_blob sha scfg fs1 (fst (the (w (path_join base rel)))))"
proof (induction rels arbitrary: seen fs)
  case (Cons r rs)
  show ?case
  proof (cases "trim r = [] \<or> trim r \<in> set seen")
    case True
    with Cons show ?thesis by simp
  next
    case False
    obtain c m where f: "w (path_join base (trim r)) = Some (c, m)" "good_blob sha c"
      using Cons.prems(2) False by (auto simp: good_inputs_def)
    obtain fs1 where p: "put_blob_bytes (server_net sha exec scfg u) cfg (sha c) c fs = (Inr (), fs1)"
        "cas_ok sha (cs_root scfg) fs1" "has_blob sha scfg fs1 c" "\<And>b. has_blob sha scfg fs b \<Longrightarrow> has_blob sha scfg fs1 b"
      by (rule put_good [where sha = sha and b = c, OF assms(1,2) Cons.prems(1) f(2)]) blast
    have "good_inputs sha base w (distinct_rels (trim r # seen) rs)" using Cons.prems(2) False by (simp add: good_inputs_def)
    with Cons.IH [OF p(2)] obtain fs2 where
        "upload_inputs xe cfg base w (trim r # seen) rs fs1 = (Inr (map (input_of sha base w) (distinct_rels (trim r # seen) rs)), fs2)"
        "cas_ok sha (cs_root scfg) fs2" "\<forall>b. has_blob sha scfg fs1 b \<longrightarrow> has_blob sha scfg fs2 b"
        "\<forall>rel \<in> set (distinct_rels (trim r # seen) rs). has_blob sha scfg fs2 (fst (the (w (path_join base rel))))" by blast
    then show ?thesis using False f(1) p assms(3,4) by (simp add: input_of_def Let_def)
  qed
qed simp

subsection \<open>Staging the inputs\<close>

primrec put_all :: "('a \<Rightarrow> string) \<Rightarrow> ('a \<Rightarrow> string \<times> nat) \<Rightarrow> 'a list \<Rightarrow> work \<Rightarrow> work" where
  "put_all k v [] m = m"
| "put_all k v (x # xs) m = put_all k v xs (m(k x \<mapsto> v x))"

lemma put_all_lookup:
  assumes "\<And>x y. x \<in> set xs \<Longrightarrow> y \<in> set xs \<Longrightarrow> k x = k y \<Longrightarrow> v x = v y"
  shows "put_all k v xs m p = (case find (\<lambda>x. k x = p) xs of None \<Rightarrow> m p | Some x \<Rightarrow> Some (v x))"
  using assms
proof (induction xs arbitrary: m)
  case (Cons x xs)
  have IH: "put_all k v (x # xs) m p = (case find (\<lambda>x. k x = p) xs of None \<Rightarrow> (m(k x \<mapsto> v x)) p | Some y \<Rightarrow> Some (v y))"
    unfolding put_all.simps by (rule Cons.IH) (simp add: Cons.prems)
  show ?case
  proof (cases "k x = p")
    case True
    have "v y = v x" if "find (\<lambda>x. k x = p) xs = Some y" for y
      using that True Cons.prems [of y x] by (auto simp: find_Some_iff)
    then show ?thesis unfolding IH using True by (auto split: option.splits)
  next
    case False
    then show ?thesis unfolding IH by (auto split: option.splits)
  qed
qed simp

text \<open>What the inputs are in the sandbox: the files at their places relative to the base directory.\<close>

definition staged_file :: "string \<Rightarrow> work \<Rightarrow> string \<Rightarrow> string \<times> nat" where
  "staged_file base w rel = (let (c, m) = the (w (path_join base rel)) in (c, m AND 511))"

definition staged :: "string \<Rightarrow> work \<Rightarrow> string list \<Rightarrow> work" where
  "staged base w rels p = map_option (staged_file base w) (find (\<lambda>rel. work_key rel = p) rels)"

lemma materialize_held:
  assumes "\<forall>rel \<in> set rels. has_blob sha scfg fs (fst (the (w (path_join base rel))))"
  shows "materialize_inputs (cs_root scfg) fs (map (input_of sha base w) rels) v = Some (put_all work_key (staged_file base w) rels v)"
  using assms
proof (induction rels arbitrary: v)
  case (Cons r rs)
  obtain c m where f: "the (w (path_join base r)) = (c, m)" by fastforce
  from Cons f show ?case
    by (simp add: input_of_def has_blob_def blob_at_def staged_file_def and.assoc)
qed simp

lemma materialize_staged:
  assumes "\<forall>rel \<in> set rels. has_blob sha scfg fs (fst (the (w (path_join base rel))))"
    and "\<forall>r \<in> set rels. \<forall>s \<in> set rels. work_key r = work_key s \<longrightarrow> w (path_join base r) = w (path_join base s)"
  shows "materialize_inputs (cs_root scfg) fs (map (input_of sha base w) rels) Map.empty = Some (staged base w rels)"
proof -
  have "put_all work_key (staged_file base w) rels Map.empty = staged base w rels"
  proof
    fix p
    have same: "staged_file base w r = staged_file base w s" if "r \<in> set rels" "s \<in> set rels" "work_key r = work_key s" for r s
    proof -
      have "w (path_join base r) = w (path_join base s)" using that assms(2) by blast
      then show ?thesis by (simp only: staged_file_def)
    qed
    have "put_all work_key (staged_file base w) rels Map.empty p =
        (case find (\<lambda>rel. work_key rel = p) rels of None \<Rightarrow> Map.empty p | Some rel \<Rightarrow> Some (staged_file base w rel))"
      by (rule put_all_lookup) (rule same)
    then show "put_all work_key (staged_file base w) rels Map.empty p = staged base w rels p"
      by (simp add: staged_def split: option.splits)
  qed
  with materialize_held [OF assms(1)] show ?thesis by simp
qed

subsection \<open>The request and the answer\<close>

lemma exec_path: "trim_end_char (CHR ''/'') ''/v1/exec'' = ''/v1/exec''" "word_ok ''POST''" "word_ok ''/v1/exec''"
  by code_simp+

lemma server_net_exec:
  assumes "client_ok cfg scfg" "one_line c" "length b < 2 ^ 64"
  shows "server_net sha exec scfg u (client_request cfg ''POST'' ''/v1/exec'' (Some c) (Some b)) fs =
     (case exec scfg u b (length b) fs of Inl e \<Rightarrow> (Inl e, fs) | Inr (resp, fs1) \<Rightarrow> (Inr (resp, None), fs1))"
proof -
  have "length (unwrap_or (Some b) []) < 2 ^ 64" using assms(3) by simp
  from client_request_read [OF assms(1) exec_path(2,3) disjI2 this, of "Some c"] assms(2)
  obtain l r h where *: "read_line (client_request cfg ''POST'' ''/v1/exec'' (Some c) (Some b)) = (l, r)" "l \<noteq> []"
      "split_ws l = [''POST'', ''/v1/exec'', ''HTTP/1.1'']" "read_headers Map.empty r = (h, b)"
      "auth_ok h (cs_require_bearer scfg)" "\<not> cs_read_only scfg"
      "length b = unwrap_or (Option.bind (h ''content-length'') (parse_uint 64)) 0" by auto
  have "handle_one sha exec scfg u (client_request cfg ''POST'' ''/v1/exec'' (Some c) (Some b)) fs = exec scfg u b (length b) fs"
    using * exec_path(1) by (simp add: handle_one_def second_word_def)
  then show ?thesis by (simp add: server_net_def)
qed

lemma post_exec_served:
  assumes "client_ok cfg scfg" "length body < 2 ^ 64" "exec scfg u body (length body) fs = Inr (write_json 200 ''OK'' answer, fs1)"
    "length answer < 2 ^ 64"
  shows "post_exec (server_net sha exec scfg u) cfg body fs = (Inr answer, fs1)"
proof -
  have j: "RemoteUrl_join (rc_url cfg) ''v1/exec'' = ''/v1/exec''"
    using assms(1) by (simp add: client_ok_def RemoteUrl_join_def trim_start_char_def)
  have "read_http_response (write_json 200 ''OK'' answer) = Inr \<lparr>hr_status = 200, hr_body = answer\<rparr>"
    by (rule read_small_response) (simp_all add: assms(4) [simplified])
  then show ?thesis
    unfolding post_exec_def j client_calls [OF assms(1)]
    using server_net_exec [OF assms(1) _ assms(2), of "''application/json''" sha exec u fs] assms(3) by simp
qed

lemma show_nat_length: "length (show_nat n) \<le> Suc n"
proof (induction n rule: show_nat.induct)
  case (1 n)
  then show ?case by (subst show_nat.simps) (auto simp: not_less)
qed

lemma opt_json_length: "(\<And>s. v = Some s \<Longrightarrow> length s = 64) \<Longrightarrow> length (opt_json v) \<le> 66"
  by (cases v) (simp_all add: opt_json_def quoted_def)

lemma exec_result_length:
  assumes "\<bar>code\<bar> < 2 ^ 31" "length (opt_json man) \<le> 66" "length (opt_json deps) \<le> 66" "length (opt_json trace) \<le> 66"
    "length (opt_json out) \<le> 66" "length (opt_json err) \<le> 66"
  shows "length (exec_result_json code man deps trace out err) < 2 ^ 64"
proof -
  have "length (show_int code) \<le> 2 ^ 31 + 2"
    using show_nat_length [of "nat code"] show_nat_length [of "nat (- code)"] assms(1) by (auto simp: show_int_def)
  then show ?thesis using assms by (simp add: exec_result_json_def)
qed

lemma answer_length:
  assumes "\<And>b. is_key (sha b)" "\<bar>code\<bar> < 2 ^ 31"
  shows "length (answer_of sha req code v out err) < 2 ^ 64"
  unfolding answer_of_def Let_def
  by (rule exec_result_length [OF assms(2)]; rule opt_json_length; use assms(1) in \<open>auto simp: result_of_def is_key_def split: if_splits\<close>)

lemma post_exec_refused:
  assumes "client_ok cfg scfg" "length body < 2 ^ 64" "exec scfg u body (length body) fs = Inr (write_text code reason text, fs)"
    "code < 2 ^ 16" "code \<noteq> 200" "one_line reason" "length text < 2 ^ 64"
  shows "\<exists>e. post_exec (server_net sha exec scfg u) cfg body fs = (Inl e, fs)"
proof -
  have j: "RemoteUrl_join (rc_url cfg) ''v1/exec'' = ''/v1/exec''"
    using assms(1) by (simp add: client_ok_def RemoteUrl_join_def trim_start_char_def)
  have "read_http_response (write_text code reason text) = Inr \<lparr>hr_status = code, hr_body = text\<rparr>"
    by (rule read_small_response [OF assms(4,6,7)])
  then show ?thesis
    unfolding post_exec_def j client_calls [OF assms(1)]
    using server_net_exec [OF assms(1) _ assms(2), of "''application/json''" sha exec u fs] assms(3,5) by simp
qed

subsection \<open>Client and server together\<close>

text \<open>The work directory the script starts in.\<close>

definition sandbox_start :: "nat \<Rightarrow> string \<times> string \<Rightarrow> exec_request \<Rightarrow> work \<Rightarrow> work" where
  "sandbox_start fmode scripts req w =
     w(work_key (er_deps_out0_rel req) \<mapsto> ([], fmode), ''.redo/remote-bin/redo-ifchange'' \<mapsto> (fst scripts, 493),
       ''.redo/remote-bin/redo-ifcreate'' \<mapsto> (snd scripts, 493))"

text \<open>The attempt of a server to run a request on staged inputs: \<open>None\<close> when it does not get that far.\<close>

definition remote_attempt ::
  "nat \<Rightarrow> string \<times> string \<Rightarrow>
   (string list \<Rightarrow> (string \<times> string) list \<Rightarrow> work \<Rightarrow> (string + sandbox_result) option) \<Rightarrow>
   (string \<Rightarrow> bool) \<Rightarrow> server_config \<Rightarrow> string \<Rightarrow> nat \<Rightarrow> exec_request \<Rightarrow> work \<Rightarrow> (int \<times> work) option" where
  "remote_attempt fmode scripts run host_exists cfg uniq clen req inputs =
     (if \<not> cs_enable_exec cfg \<or> clen > 50 * 1024 * 1024 \<or> exec_refusal req \<noteq> None then None
      else case run (bwrap_args host_exists (path_join (path_join (path_join (cs_root cfg) ''exec'') uniq) ''work'') req) (exec_env req)
                  (sandbox_start fmode scripts req inputs) of
             Some (Inr res) \<Rightarrow> Some (sandbox_end fmode req res)
           | _ \<Rightarrow> None)"

text \<open>What the client makes of it.\<close>

definition remote_outcome :: "'s exec_env_fns \<Rightarrow> exec_args \<Rightarrow> bool \<Rightarrow> exec_request \<Rightarrow> (int \<times> work) option \<Rightarrow> work \<times> 's \<Rightarrow> int \<times> work \<times> 's" where
  "remote_outcome xe xa strict req attempt ws =
     (let trace = the (xa_trace_out0 xa); local = run_local xe strict trace (xa_argv xa);
          put = write_local (xe_fmode xe)
      in case attempt of
           None \<Rightarrow> local ws
         | Some (final, v) \<Rightarrow>
             if final \<noteq> 0 then local ws
             else
               let text = (\<lambda>p d. case v (work_key p) of None \<Rightarrow> d | Some f \<Rightarrow> fst f);
                   w1 = put (the (xa_deps_out0 xa)) (text (er_deps_out0_rel req) []) (fst ws);
                   w2 = put trace (text (er_trace_out0_rel req) trace_missing) w1
               in case v (work_key (er_target_rel req)) of
                    None \<Rightarrow> local (w2, snd ws)
                  | Some (content, mode) \<Rightarrow>
                      (0, (case xa_remote_ok xa of None \<Rightarrow> w2 | Some p \<Rightarrow> put p (''ok'' @ [CHR 0x0A]) w2)
                            (the (xa_out xa) \<mapsto> (content, mode AND 511)), snd ws))"

lemma and_511: "(m :: nat) AND 511 < 512"
proof -
  have "m AND 511 = take_bit 9 m" by (simp add: take_bit_eq_mask mask_eq_exp_minus_1)
  then show ?thesis using take_bit_nat_less_exp [of 9 m] by simp
qed

lemma mode_bits: "unat ((word_of_nat (m AND 511) :: 32 word) AND 511) = m AND 511"
proof -
  have u: "unat (word_of_nat x :: 32 word) = x" if "x < 2 ^ 32" for x using that by (simp add: unsigned_of_nat take_bit_nat_eq_self)
  have "m AND 511 < 2 ^ 32" by (rule less_trans [OF and_511]) simp
  from u [OF this] show ?thesis by (simp add: unsigned_and_eq and.assoc)
qed

lemma fetch_list_served:
  assumes "client_ok cfg scfg" "\<And>b. is_key (sha b)" "xe_sha xe = sha" "xe_net xe = server_net sha exec scfg u" "good_results sha v"
    "\<And>f. v k = Some f \<Longrightarrow> has_blob sha scfg fs (fst f)"
  shows "fetch_list xe cfg p (map_option (sha \<circ> fst) (v k)) d (w, fs) =
    (Inr (), write_local (xe_fmode xe) p (case v k of None \<Rightarrow> d | Some f \<Rightarrow> fst f) w, fs)"
  using good_fetch [where sha = sha, OF assms(1,2)] assms(3-6)
  by (auto simp: fetch_list_def good_results_def split: option.splits)

lemma fetch_output_served:
  assumes "client_ok cfg scfg" "\<And>b. is_key (sha b)" "xe_sha xe = sha" "xe_net xe = server_net sha exec scfg u"
    "good_blob sha (fst f)" "good_blob sha (output_manifest sha f)" "has_blob sha scfg fs (fst f)" "has_blob sha scfg fs (output_manifest sha f)"
  shows "fetch_output xe cfg out (sha (output_manifest sha f)) (w, fs) = (0, w(out \<mapsto> (fst f, snd f AND 511)), fs)"
proof -
  have l: "length (fst f) < 2 ^ 64" using assms(5) by (simp add: good_blob_def)
  have m: "snd f AND 511 < 2 ^ 32" by (rule less_trans [OF and_511]) simp
  have "parse_artifact_manifest_v1 (output_manifest sha f) =
      Inr \<lparr>am_blob_sha256 = sha (fst f), am_size = length (fst f), am_mode = word_of_nat (snd f AND 511)\<rparr>"
    unfolding output_manifest_def by (rule manifest_roundtrip [OF assms(2) l m])
  moreover have "download_blob_to_file_verified sha (server_net sha exec scfg u) cfg (sha (fst f)) None fs = ((Inr (length (fst f)), Some (fst f)), fs)"
    using download_served [where sha = sha and b = "fst f", OF assms(1,2) l] assms(7) by (simp add: has_blob_def)
  ultimately show ?thesis
    using good_fetch [where sha = sha, OF assms(1,2,6,8), of exec u] assms(3,4) by (simp add: fetch_output_def mode_bits)
qed

lemma take_results_served:
  assumes "client_ok cfg scfg" "\<And>b. is_key (sha b)" "xe_sha xe = sha" "xe_net xe = server_net sha exec scfg u"
    "good_results sha v" "results_held sha scfg req v fs" "er_target_rel req = xa_target_rel xa"
  shows "take_results xe cfg xa strict (result_of sha req 0 v) (w, fs) = remote_outcome xe xa strict req (Some (0, v)) (w, fs)"
proof -
  have k: "\<And>f. v (work_key (er_deps_out0_rel req)) = Some f \<Longrightarrow> has_blob sha scfg fs (fst f)"
    "\<And>f. v (work_key (er_trace_out0_rel req)) = Some f \<Longrightarrow> has_blob sha scfg fs (fst f)"
    using assms(6) unfolding results_held_def by blast+
  note f = fetch_list_served [where sha = sha, OF assms(1-5) k(1)] fetch_list_served [where sha = sha, OF assms(1-5) k(2)]
  show ?thesis
  proof (cases "v (work_key (er_target_rel req))")
    case None
    with f show ?thesis by (simp add: take_results_def result_of_def remote_outcome_def Let_def)
  next
    case (Some t)
    have o: "fetch_output xe cfg out (sha (output_manifest sha t)) (w, fs) = (0, w(out \<mapsto> (fst t, snd t AND 511)), fs)" for out w
      using assms(5,6) Some by (intro fetch_output_served [OF assms(1-4)]) (simp_all only: good_results_def results_held_def)
    show ?thesis
      using f Some o by (cases t) (simp add: take_results_def result_of_def remote_outcome_def Let_def split: option.split)
  qed
qed

lemma post_exec_attempt:
  assumes "client_ok cfg scfg" "\<And>b. is_key (sha b)" "cas_ok sha (cs_root scfg) fs" "length body < 2 ^ 64"
    "parse body = Some req" "materialize_inputs (cs_root scfg) fs (er_inputs req) Map.empty = Some inputs"
    "\<And>a e w x. run a e w = Some (Inl x) \<Longrightarrow> length x < 2 ^ 63"
    "attempt = remote_attempt fmode scripts run hx scfg u (length body) req inputs" "leaves_no_links run"
    "\<And>final v. attempt = Some (final, v) \<Longrightarrow> \<bar>final\<bar> < 2 ^ 31 \<and> good_results sha v"
  shows "case attempt of
      None \<Rightarrow> \<exists>e. post_exec (server_net sha (handle_post_exec fmode sha parse scripts run follow hx) scfg u) cfg body fs = (Inl e, fs)
    | Some (final, v) \<Rightarrow> \<exists>out err fs1. post_exec (server_net sha (handle_post_exec fmode sha parse scripts run follow hx) scfg u) cfg body fs =
        (Inr (answer_of sha req final v out err), fs1)
        \<and> (final = 0 \<longrightarrow> results_held sha scfg req v fs1)"
proof -
  let ?h = "handle_post_exec fmode sha parse scripts run follow hx" and ?n = "50 * 1024 * 1024 :: nat"
  let ?run = "run (bwrap_args hx (path_join (path_join (path_join (cs_root scfg) ''exec'') u) ''work'') req) (exec_env req)
      (sandbox_start fmode scripts req inputs)"
  have refused: "\<exists>e. post_exec (server_net sha ?h scfg u) cfg body fs = (Inl e, fs)"
    if "?h scfg u body (length body) fs = Inr (write_text code reason reply, fs)" "code \<noteq> 200 \<and> code < 2 ^ 16" "one_line reason"
      "length reply < 2 ^ 64" for code reason reply
    using post_exec_refused [where exec = ?h and u = u and fs = fs, OF assms(1,4) that(1)] that(2-4) by blast
  have lines: "one_line ''Not Found''" "one_line ''Payload Too Large''" "one_line ''Bad Request''" "one_line ''Not Implemented''"
    "one_line ''Internal Server Error''" by code_simp+
  show ?thesis
  proof (cases "cs_enable_exec scfg \<and> length body \<le> ?n \<and> exec_refusal req = None")
    case False
    then have "attempt = None" unfolding assms(8) remote_attempt_def by auto
    moreover have "\<exists>e. post_exec (server_net sha ?h scfg u) cfg body fs = (Inl e, fs)"
    proof (cases "exec_refusal req")
      case None
      with False show ?thesis
        by (cases "cs_enable_exec scfg")
           (rule refused, simp add: handle_post_exec_def, simp, rule lines, simp add: nl_def)+
    next
      case (Some msg)
      have short: "length (msg @ nl) < 2 ^ 64" using Some by (auto simp: exec_refusal_def nl_def split: if_splits)
      show ?thesis
      proof (cases "cs_enable_exec scfg \<and> length body \<le> ?n")
        case True
        show ?thesis
          by (rule refused [where code = 400, OF _ _ lines(3) short]) (use True Some assms(5) in \<open>simp_all add: handle_post_exec_def\<close>)
      next
        case False
        then show ?thesis
          by (cases "cs_enable_exec scfg")
             (rule refused, simp add: handle_post_exec_def, simp, rule lines, simp add: nl_def)+
      qed
    qed
    ultimately show ?thesis by simp
  next
    case True
    have go: "?h scfg u body (length body) fs =
        (case ?run of None \<Rightarrow> Inr (write_text 501 ''Not Implemented'' (''bwrap_missing'' @ nl), fs)
         | Some (Inl e) \<Rightarrow> Inr (write_text 500 ''Internal Server Error'' (''exec_failed:'' @ e @ nl), fs)
         | Some (Inr res) \<Rightarrow> Inr (exec_finish fmode sha follow scfg u req res fs))"
      using True assms(5,6) by (simp add: handle_post_exec_def sandbox_start_def Let_def not_less)
    have at: "attempt = (case ?run of Some (Inr res) \<Rightarrow> Some (sandbox_end fmode req res) | _ \<Rightarrow> None)"
      using True unfolding assms(8) remote_attempt_def by simp
    show ?thesis
    proof (cases ?run)
      case None
      show ?thesis unfolding at None option.case
        by (rule refused [where code = 501 and reply = "''bwrap_missing'' @ nl", OF _ _ lines(4)]) (use go None in \<open>simp_all add: nl_def\<close>)
    next
      case (Some r)
      show ?thesis
      proof (cases r)
        case (Inl e)
        have "length e < 2 ^ 63" using assms(7) Some Inl by blast
        then show ?thesis unfolding at Some Inl option.case sum.case
          by (intro refused [where code = 500 and reply = "''exec_failed:'' @ e @ nl", OF _ _ lines(5)]) (use go Some Inl in \<open>simp_all add: nl_def\<close>)
      next
        case (Inr res)
        obtain final v where e: "sandbox_end fmode req res = (final, v)" by fastforce
        have a: "attempt = Some (final, v)" unfolding at Some Inr option.case sum.case e ..
        note ok = assms(10) [OF a]
        have nl: "snd (snd (snd (snd res))) = []" using assms(9) Some Inr unfolding leaves_no_links_def by blast
        from ok obtain out err fs1 where f: "exec_finish fmode sha follow scfg u req res fs =
            (write_json 200 ''OK'' (answer_of sha req final v out err), fs1)" "final = 0 \<longrightarrow> results_held sha scfg req v fs1"
          using exec_finish_holds [where sha = sha and u = u and fs = fs and follow = follow, OF assms(2,3) e _ nl] by blast
        have "post_exec (server_net sha ?h scfg u) cfg body fs = (Inr (answer_of sha req final v out err), fs1)"
          by (rule post_exec_served [OF assms(1,4)])
             (use go Some Inr f answer_length [OF assms(2), of final] ok in simp_all)
        then show ?thesis using f(2) unfolding a by auto
      qed
    qed
  qed
qed

text \<open>When an input cannot be uploaded, the program ends with 201 and runs nothing.\<close>

lemma upload_failure_ends:
  assumes "parse_exec_args args no_exec_args = Some xa" "exec_args_error xa = None" "config_from_env vs = Inr (Some cfg)"
    "upload_inputs xe cfg (unwrap_or (vs ''REDO_BASE'') ''.'') w [] (xa_inputs xa) st = (Inl e, st1)"
  shows "redo_remote_exec xe vs args (w, st) = (201, w, st1)"
  using assms by (simp add: redo_remote_exec_def exec_remotely_def Let_def)

text \<open>C11. Client and server of remote execution together, for a client that may write to the server (its token is
  accepted, the server is not read-only) and whose inputs are all regular files. The client uploads them, the server stages
  them, runs the script in its sandbox and stores the results, and the client fetches them: over HTTP, between
  the two models, the client ends exactly as if the sandbox had run on the client's own files at their paths
  relative to the base directory: its output, with its permission bits, its dependencies and its trace are
  in place and no other file has changed. When the server does not run scripts, refuses the request, cannot start the
  sandbox, or the script fails there or leaves no output, the client runs the command itself. (The connection does not
  break; \<open>serde_json\<close> reads back what it wrote; the digest has no collisions for the bytes that are
  sent, which are shorter than \<open>2 ^ 64\<close>; two names of the same place are the same file; a script leaves no symbolic
  links. A client that is refused or lacks an input does not fall back: \<open>upload_failure_ends\<close>.)\<close>

theorem remote_exec_end_to_end:
  assumes "client_ok cfg scfg" "\<And>b. is_key (sha b)" "cas_ok sha (cs_root scfg) fs"
    and "xe_sha xe = sha" "xe_net xe = server_net sha (handle_post_exec fmode sha parse scripts run follow hx) scfg u"
    and "parse_exec_args args no_exec_args = Some xa" "exec_args_error xa = None" "config_from_env vs = Inr (Some cfg)"
    and "base = unwrap_or (vs ''REDO_BASE'') ''.''" "rels = distinct_rels [] (xa_inputs xa)"
    and "good_inputs sha base w rels"
    and "\<forall>r \<in> set rels. \<forall>s \<in> set rels. work_key r = work_key s \<longrightarrow> w (path_join base r) = w (path_join base s)"
    and "xe_diff xe (the (xa_deps_out0 xa)) base = Some deps_rel" "xe_diff xe (the (xa_trace_out0 xa)) base = Some trace_rel"
    and "req = exec_request_of xa deps_rel trace_rel (map (input_of sha base w) rels)"
    and "parse (xe_to_json xe req) = Some req" "length (xe_to_json xe req) < 2 ^ 64"
    and "\<And>final v out err. attempt = Some (final, v) \<Longrightarrow> xe_of_json xe (answer_of sha req final v out err) = Some (result_of sha req final v)"
    and "\<And>a e v x. run a e v = Some (Inl x) \<Longrightarrow> length x < 2 ^ 63"
    and "attempt = remote_attempt fmode scripts run hx scfg u (length (xe_to_json xe req)) req (staged base w rels)"
    and "\<And>final v. attempt = Some (final, v) \<Longrightarrow> \<bar>final\<bar> < 2 ^ 31 \<and> good_results sha v" "leaves_no_links run"
  shows "\<exists>fs1. redo_remote_exec xe vs args (w, fs) = remote_outcome xe xa (env_flag_set vs ''REDO_STRICT'') req attempt (w, fs1)"
proof -
  let ?strict = "env_flag_set vs ''REDO_STRICT''"
  obtain f1 where up: "upload_inputs xe cfg base w [] (xa_inputs xa) fs = (Inr (map (input_of sha base w) rels), f1)"
      "cas_ok sha (cs_root scfg) f1" "\<forall>rel \<in> set rels. has_blob sha scfg f1 (fst (the (w (path_join base rel))))"
    using upload_served [where sha = sha, OF assms(1,2,4,5,3)] assms(10,11) by blast
  have r: "redo_remote_exec xe vs args (w, fs) =
      (case exec_v1 xe cfg req f1 of
         (Inl _, st2) \<Rightarrow> run_local xe ?strict (the (xa_trace_out0 xa)) (xa_argv xa) (w, st2)
       | (Inr resp, st2) \<Rightarrow>
           if es_exit_code resp \<noteq> 0 then run_local xe ?strict (the (xa_trace_out0 xa)) (xa_argv xa) (w, st2)
           else take_results xe cfg xa ?strict resp (w, st2))"
    unfolding redo_remote_exec_def exec_remotely_def Let_def using assms(6-8,13-15) up(1)
    by (simp add: assms(9) [symmetric] exec_request_of_def split: prod.split sum.split)
  have mat: "materialize_inputs (cs_root scfg) f1 (er_inputs req) Map.empty = Some (staged base w rels)"
    using materialize_staged [OF up(3) assms(12)] by (simp add: assms(15) exec_request_of_def)
  have post: "case attempt of
      None \<Rightarrow> \<exists>e. post_exec (xe_net xe) cfg (xe_to_json xe req) f1 = (Inl e, f1)
    | Some (final, v) \<Rightarrow> \<exists>out err fs1. post_exec (xe_net xe) cfg (xe_to_json xe req) f1 = (Inr (answer_of sha req final v out err), fs1)
        \<and> (final = 0 \<longrightarrow> results_held sha scfg req v fs1)"
    unfolding assms(5)
    by (rule post_exec_attempt [where sha = sha and u = u and fs = f1 and parse = parse and run = run,
          OF assms(1,2) up(2) assms(17,16) mat _ assms(20,22)])
       (erule assms(19), erule assms(21))
  show ?thesis
  proof (cases attempt)
    case None
    with post obtain e where "exec_v1 xe cfg req f1 = (Inl e, f1)" by (auto simp: exec_v1_def)
    then have "redo_remote_exec xe vs args (w, fs) = remote_outcome xe xa ?strict req attempt (w, f1)"
      using r None by (simp add: remote_outcome_def Let_def)
    then show ?thesis by blast
  next
    case (Some a)
    obtain final v where a: "attempt = Some (final, v)" using Some by (cases a) simp
    with post obtain out err f2 where p: "post_exec (xe_net xe) cfg (xe_to_json xe req) f1 = (Inr (answer_of sha req final v out err), f2)"
      and h: "final = 0 \<longrightarrow> results_held sha scfg req v f2" by auto
    have e: "exec_v1 xe cfg req f1 = (Inr (result_of sha req final v), f2)"
      using p assms(18) [OF a] by (simp add: exec_v1_def result_of_def)
    have t: "er_target_rel req = xa_target_rel xa" by (simp add: assms(15) exec_request_of_def)
    have "redo_remote_exec xe vs args (w, fs) = remote_outcome xe xa ?strict req attempt (w, f2)"
    proof (cases "final = 0")
      case True
      then show ?thesis
        using r e h t a take_results_served [OF assms(1,2,4,5), of v req f2 xa ?strict w] assms(21) [OF a]
        by (simp add: result_of_def)
    next
      case False
      then show ?thesis using r e a by (simp add: result_of_def remote_outcome_def Let_def)
    qed
    then show ?thesis by blast
  qed
qed

text \<open>A script that copies its input \<open>in\<close> to \<open>$3\<close>, on a server whose sandbox does just that.\<close>

definition trip_sha :: "string \<Rightarrow> string" where
  "trip_sha b = replicate 64
     (if b = ''hello'' then CHR ''1'' else if b = trace_missing then CHR ''2''
      else if b = manifest_json (replicate 64 (CHR ''1'')) 5 493 then CHR ''3''
      else if b = manifest_json (replicate 64 (CHR ''2'')) 32 420 then CHR ''4'' else CHR ''0'')"

definition trip_run :: "string list \<Rightarrow> (string \<times> string) list \<Rightarrow> work \<Rightarrow> (string + sandbox_result) option" where
  "trip_run av env w = Some (Inr (Some 0, [], [], map_of [(''y'', (fst (the (w ''in'')), 493))], []))"

definition trip_server :: server_config where
  "trip_server = demo_cfg\<lparr>cs_enable_exec := True\<rparr>"

definition trip_args :: "string list" where
  "trip_args = [''--input'', ''in''] @ demo_exec_args"

definition trip_files :: work where
  "trip_files = map_of [(''./in'', (''hello'', 420))]"

definition trip_req :: exec_request where
  "trip_req = exec_request_of (the (parse_exec_args trip_args no_exec_args)) ''d'' ''t''
     [\<lparr>ei_path = ''in'', ei_sha256 = replicate 64 (CHR ''1''), ei_mode = 420\<rparr>]"

definition trip_left :: "int \<times> work" where
  "trip_left = sandbox_end 420 trip_req (Some 0, [], [], map_of [(''y'', (''hello'', 493))], [])"

definition trip_exec :: "files exec_env_fns" where
  "trip_exec = \<lparr>xe_sha = trip_sha,
     xe_net = server_net trip_sha (handle_post_exec 420 trip_sha (\<lambda>_. Some trip_req) ([], []) trip_run (\<lambda>_ _ fs. ([], fs)) (\<lambda>_. True)) trip_server ''1.0'',
     xe_to_json = (\<lambda>_. ''{}''), xe_of_json = (\<lambda>_. Some (result_of trip_sha trip_req 0 (snd trip_left))),
     xe_diff = (\<lambda>p b. Some p), xe_special = (\<lambda>_. False), xe_run = (\<lambda>_ _. None), xe_fmode = 420\<rparr>"

lemma trip_sha_key: "is_key (trip_sha b)"
  by (simp add: is_key_def trip_sha_def is_hex_def list_all_iff is_ascii_hexdigit_def is_digit_def)

lemma trip_good:
  "good_blob trip_sha ''hello''" "good_blob trip_sha trace_missing"
  "good_blob trip_sha (manifest_json (replicate 64 (CHR ''1'')) 5 493)"
  "good_blob trip_sha (manifest_json (replicate 64 (CHR ''2'')) 32 420)"
proof -
  let ?a = "manifest_json (replicate 64 (CHR ''1'')) 5 493" and ?b = "manifest_json (replicate 64 (CHR ''2'')) 32 420"
  have d: "trace_missing \<noteq> ''hello''" "?a \<noteq> ''hello''" "?a \<noteq> trace_missing" "?b \<noteq> ''hello''" "?b \<noteq> trace_missing" "?b \<noteq> ?a" by code_simp+
  have l: "length ''hello'' < 2 ^ 64" "length trace_missing < 2 ^ 64" "length ?a < 2 ^ 64" "length ?b < 2 ^ 64" by code_simp+
  show "good_blob trip_sha ''hello''" "good_blob trip_sha trace_missing" "good_blob trip_sha ?a" "good_blob trip_sha ?b"
    using d l by (auto simp: good_blob_def trip_sha_def split: if_splits)
qed

lemma trip_left_files: "trip_left = (0, [''x'' \<mapsto> (''hello'', 493), ''t'' \<mapsto> (trace_missing, 420)])"
proof -
  have k: "work_key ''x'' = ''x''" "work_key ''y'' = ''y''" "work_key ''t'' = ''t''" by code_simp+
  have r: "er_tmp_rel trip_req = ''y''" "er_target_rel trip_req = ''x''" "er_trace_out0_rel trip_req = ''t''" by code_simp+
  show ?thesis
    by (auto simp: trip_left_def sandbox_end_def exec_output_def k r Let_def fun_eq_iff)
qed

lemma trip_results: "good_results trip_sha (snd trip_left)"
proof -
  have "output_manifest trip_sha (''hello'', 493) = manifest_json (replicate 64 (CHR ''1'')) 5 493"
    "output_manifest trip_sha (trace_missing, 420) = manifest_json (replicate 64 (CHR ''2'')) 32 420" by code_simp+
  then show ?thesis using trip_good by (auto simp: good_results_def trip_left_files split: if_splits)
qed

definition trip_xa :: exec_args where
  "trip_xa = the (parse_exec_args trip_args no_exec_args)"

lemma trip_attempt:
  "remote_attempt 420 ([], []) trip_run (\<lambda>_. True) trip_server ''1.0'' 2 trip_req (staged ''.'' trip_files [''in'']) = Some trip_left"
proof -
  have s: "exec_refusal trip_req = None" "cs_enable_exec trip_server" by code_simp+
  have "sandbox_start 420 ([], []) trip_req (staged ''.'' trip_files [''in'']) ''in'' = Some (''hello'', 420)" by code_simp
  then show ?thesis using s by (simp add: remote_attempt_def trip_run_def trip_left_def)
qed

theorem remote_exec_end_to_end_witness:
  "\<exists>w fs. redo_remote_exec trip_exec demo_exec_vars trip_args (trip_files, Map.empty) = (0, w, fs) \<and> w ''o'' = Some (''hello'', 493)"
proof -
  let ?cfg = "\<lparr>rc_url = \<lparr>ru_host = ''127.0.0.1'', ru_port = 8080, ru_base_path = []\<rparr>, rc_timeout = 5, rc_bearer_token = None, rc_push_enabled = False\<rparr>"
  have c: "client_ok ?cfg trip_server" by code_simp
  have ok: "cas_ok trip_sha (cs_root trip_server) Map.empty" by (simp add: cas_ok_def blob_at_def)
  have x: "xe_sha trip_exec = trip_sha"
    "xe_net trip_exec = server_net trip_sha (handle_post_exec 420 trip_sha (\<lambda>_. Some trip_req) ([], []) trip_run (\<lambda>_ _ fs. ([], fs)) (\<lambda>_. True)) trip_server ''1.0''"
    "xe_diff trip_exec p b = Some p" "xe_to_json trip_exec r = ''{}''"
    "xe_of_json trip_exec s = Some (result_of trip_sha trip_req 0 (snd trip_left))" for p b r s by (simp_all add: trip_exec_def)
  have a: "parse_exec_args trip_args no_exec_args = Some trip_xa" "exec_args_error trip_xa = None"
    "config_from_env demo_exec_vars = Inr (Some ?cfg)" "''.'' = unwrap_or (demo_exec_vars ''REDO_BASE'') ''.''"
    "[''in''] = distinct_rels [] (xa_inputs trip_xa)" "the (xa_deps_out0 trip_xa) = ''d''" "the (xa_trace_out0 trip_xa) = ''t''" by code_simp+
  have i: "trip_files (path_join ''.'' ''in'') = Some (''hello'', 420)" by code_simp
  have g: "good_inputs trip_sha ''.'' trip_files [''in'']" using i trip_good(1) by (simp add: good_inputs_def)
  have q: "trip_req = exec_request_of trip_xa ''d'' ''t'' (map (input_of trip_sha ''.'' trip_files) [''in''])"
    using i by (simp add: trip_req_def trip_xa_def input_of_def trip_sha_def and.assoc)
  have l: "length (xe_to_json trip_exec trip_req) < 2 ^ 64" "length (xe_to_json trip_exec trip_req) = 2" by (simp_all add: x)
  have f: "final = 0 \<and> v = snd trip_left" if "Some trip_left = Some (final, v)" for final v using that by (simp add: trip_left_files)
  have "\<exists>fs1. redo_remote_exec trip_exec demo_exec_vars trip_args (trip_files, Map.empty) =
      remote_outcome trip_exec trip_xa (env_flag_set demo_exec_vars ''REDO_STRICT'') trip_req (Some trip_left) (trip_files, fs1)"
  proof (rule remote_exec_end_to_end [where parse = "\<lambda>_. Some trip_req" and run = trip_run, OF c trip_sha_key ok x(1,2) a(1-5) g])
    show "Some trip_left = remote_attempt 420 ([], []) trip_run (\<lambda>_. True) trip_server ''1.0'' (length (xe_to_json trip_exec trip_req)) trip_req
        (staged ''.'' trip_files [''in''])" unfolding l(2) by (rule trip_attempt [symmetric])
    show "trip_req = exec_request_of trip_xa ''d'' ''t'' (map (input_of trip_sha ''.'' trip_files) [''in''])" by (rule q)
    show "xe_of_json trip_exec (answer_of trip_sha trip_req final v out err) = Some (result_of trip_sha trip_req final v)"
      if "Some trip_left = Some (final, v)" for final v out err using f [OF that] x(5) by simp
    show "\<bar>final\<bar> < 2 ^ 31 \<and> good_results trip_sha v" if "Some trip_left = Some (final, v)" for final v
      using f [OF that] trip_results by simp
  qed (simp_all add: x(3) a(6,7) x(4) trip_run_def leaves_no_links_def)
  moreover have "remote_outcome trip_exec trip_xa st trip_req (Some trip_left) ws = (0, fst (snd (remote_outcome trip_exec trip_xa st trip_req (Some trip_left) ws)), snd ws)
      \<and> fst (snd (remote_outcome trip_exec trip_xa st trip_req (Some trip_left) ws)) ''o'' = Some (''hello'', 493)" for st ws
  proof -
    have "er_target_rel trip_req = ''x''" "work_key ''x'' = ''x''" "xa_out trip_xa = Some ''o''" "xa_remote_ok trip_xa = None" by code_simp+
    then show ?thesis by (simp add: remote_outcome_def trip_left_files Let_def)
  qed
  ultimately show ?thesis by metis
qed

end
