(* ===== verification/Trace_Platforms.thy ===== *)
theory Trace_Platforms
  imports Read_Trace
begin

text \<open>
  \<open>redo-trace\<close> as a whole (\<open>bins/src/redo_trace.rs\<close>): the tracer for macOS, which reads what \<open>dtruss\<close> reports, the
  platforms without a tracer, and what is run and written in each case. Starting a command is a parameter.
\<close>

subsection \<open>Running without a trace\<close>

definition status_code :: "int option \<Rightarrow> int" where
  "status_code st = unwrap_or st 201"

text \<open>\<open>spawn\<close> runs a command with the given variables and no others: \<open>None\<close> when it cannot be started, otherwise its
  exit code, if it has one. Running something changes the world \<open>'w\<close> outside, which is passed along, so that it shows what is
  run and how often.\<close>

type_synonym 'w spawn = "string list \<Rightarrow> vars \<Rightarrow> 'w \<Rightarrow> int option option \<times> 'w"

definition run_env_scrubbed :: "'w spawn \<Rightarrow> string list \<Rightarrow> vars \<Rightarrow> 'w \<Rightarrow> int option \<times> 'w" where
  "run_env_scrubbed spawn argv envp w = (case spawn argv envp w of (r, w1) \<Rightarrow> (map_option status_code r, w1))"

definition trace_unavailable_marker :: "string \<Rightarrow> string list" where
  "trace_unavailable_marker msg = [''TRACE_UNAVAILABLE:'' @ msg]"

definition untraced :: "'w spawn \<Rightarrow> string list \<Rightarrow> vars \<Rightarrow> string \<Rightarrow> 'w \<Rightarrow> (string list \<times> int) \<times> 'w" where
  "untraced spawn argv envp why w =
     (case run_env_scrubbed spawn argv envp w of (rv, w1) \<Rightarrow> ((trace_unavailable_marker why, unwrap_or rv 201), w1))"

definition trace_run_other :: "'w spawn \<Rightarrow> string list \<Rightarrow> vars \<Rightarrow> 'w \<Rightarrow> (string list \<times> int) \<times> 'w" where
  "trace_run_other spawn argv envp w = untraced spawn argv envp ''unsupported_platform'' w"

text \<open>On Linux, other processors have no tracer; \<open>traced\<close> is the run of \<open>trace_run_linux_x86_64\<close>, or the text of an
  error when the command cannot be started.\<close>

type_synonym 'w traced = "string list \<Rightarrow> vars \<Rightarrow> 'w \<Rightarrow> (string + string list \<times> int) \<times> 'w"

definition trace_run_linux :: "bool \<Rightarrow> 'w traced \<Rightarrow> 'w spawn \<Rightarrow> string list \<Rightarrow> vars \<Rightarrow> 'w \<Rightarrow> (string + string list \<times> int) \<times> 'w" where
  "trace_run_linux x86_64 traced spawn argv envp w =
     (if x86_64 then traced argv envp w
      else case untraced spawn argv envp ''linux_unsupported_arch'' w of (r, w1) \<Rightarrow> (Inr r, w1))"

subsection \<open>macOS\<close>

definition has_sub :: "string \<Rightarrow> string \<Rightarrow> bool" where
  "has_sub p s \<longleftrightarrow> find_sub p s \<noteq> None"

fun quoted_rest :: "string \<Rightarrow> string option" where
  "quoted_rest [] = None"
| "quoted_rest [c] = (if c = CHR ''\"'' then Some [] else None)"
| "quoted_rest (c # d # s) =
     (if c = CHR ''\"'' then Some []
      else if c = CHR 0x5C then map_option ((#) d) (quoted_rest s)
      else map_option ((#) c) (quoted_rest (d # s)))"

definition extract_first_quoted :: "string \<Rightarrow> string option" where
  "extract_first_quoted s = (case dropWhile (\<lambda>c. c \<noteq> CHR ''\"'') s of [] \<Rightarrow> None | _ # r \<Rightarrow> quoted_rest r)"

text \<open>The working directories of the processes that changed theirs, the paths observed and the markers.\<close>

record dtruss_state =
  dt_cwds :: "string \<rightharpoonup> string"
  dt_observed :: "string list"
  dt_markers :: "string list"

definition line_pid :: "string \<Rightarrow> string" where
  "line_pid l = takeWhile is_digit (trim (hd (split_on (CHR ''/'') l)))"

definition file_calls :: "string list" where
  "file_calls = [''open('', ''open_nocancel('', ''openat('', ''openat_nocancel('', ''stat64('', ''lstat64('', ''access('', ''execve('']"

definition dtruss_line :: "string \<Rightarrow> string \<Rightarrow> dtruss_state \<Rightarrow> dtruss_state" where
  "dtruss_line cwd0 l dt0 =
     (let pid = line_pid l; cwd = unwrap_or (dt_cwds dt0 pid) cwd0;
          dt = (if (has_sub ''openat('' l \<or> has_sub ''openat_nocancel('' l) \<and> \<not> has_sub ''AT_FDCWD'' l
                then dt0\<lparr>dt_markers := List.insert ''UNRESOLVED:openat_dirfd'' (dt_markers dt0)\<rparr> else dt0)
      in if has_sub ''chdir('' l
         then (case extract_first_quoted l of
                 Some p \<Rightarrow> if pid \<noteq> [] then dt\<lparr>dt_cwds := (dt_cwds dt)(pid \<mapsto> resolve_path_macos cwd p)\<rparr> else dt
               | None \<Rightarrow> dt)
         else if list_ex (\<lambda>c. has_sub c l) file_calls
         then (case extract_first_quoted l of
                 Some p \<Rightarrow> dt\<lparr>dt_observed := List.insert (resolve_path_macos cwd p) (dt_observed dt)\<rparr>
               | None \<Rightarrow> dt)
         else dt)"

definition dtruss_refused :: "string \<Rightarrow> bool" where
  "dtruss_refused s \<longleftrightarrow> trim s = [] \<or> has_sub ''dtrace:'' s \<and>
     (has_sub ''Operation not permitted'' s \<or> has_sub ''System Integrity Protection'' s \<or> has_sub ''restricted'' s)"

text \<open>\<open>dtruss\<close> is the run of that program on the command: \<open>None\<close> when it cannot be started, otherwise its exit code and the
  report it wrote (empty when there is none).\<close>

type_synonym 'w dtruss = "string list \<Rightarrow> vars \<Rightarrow> 'w \<Rightarrow> (int option \<times> string) option \<times> 'w"

definition trace_run_macos :: "bool \<Rightarrow> string \<Rightarrow> 'w dtruss \<Rightarrow> 'w spawn \<Rightarrow> string list \<Rightarrow> vars \<Rightarrow> 'w \<Rightarrow> (string list \<times> int) \<times> 'w" where
  "trace_run_macos root cwd0 dtruss spawn argv envp w =
     (if \<not> root then untraced spawn argv envp ''macos_dtruss_requires_root'' w
      else case dtruss argv envp w of
        (None, w1) \<Rightarrow> untraced spawn argv envp ''macos_dtruss_not_found'' w1
      | (Some (st, s), w1) \<Rightarrow>
          if dtruss_refused s then ((trace_unavailable_marker ''macos_dtruss_unavailable'', status_code st), w1)
          else let dt = fold (dtruss_line cwd0) (str_lines s) \<lparr>dt_cwds = Map.empty, dt_observed = [], dt_markers = []\<rparr> in
            if dt_observed dt = [] then ((trace_unavailable_marker ''macos_dtruss_empty'', status_code st), w1)
            else ((sort (dt_markers dt @ dt_observed dt), status_code st), w1))"

subsection \<open>The program\<close>

datatype 'w platform =
  Linux bool "'w traced"
| Mac bool "'w dtruss"
| Other_Platform

definition trace_run :: "'w platform \<Rightarrow> string \<Rightarrow> 'w spawn \<Rightarrow> string list \<Rightarrow> vars \<Rightarrow> 'w \<Rightarrow> (string list \<times> int) \<times> 'w" where
  "trace_run pf cwd0 spawn argv envp w =
     (case pf of
        Linux x86_64 traced \<Rightarrow>
          (case trace_run_linux x86_64 traced spawn argv envp w of
             (Inr r, w1) \<Rightarrow> (r, w1) | (Inl e, w1) \<Rightarrow> untraced spawn argv envp (''linux_error:'' @ e) w1)
      | Mac root dtruss \<Rightarrow> trace_run_macos root cwd0 dtruss spawn argv envp w
      | Other_Platform \<Rightarrow> trace_run_other spawn argv envp w)"

text \<open>The exit code, and the file written with its contents.\<close>

definition redo_trace :: "'w platform \<Rightarrow> nat \<Rightarrow> string \<Rightarrow> string \<Rightarrow> 'w spawn \<Rightarrow> vars \<Rightarrow> string list \<Rightarrow> 'w \<Rightarrow>
    (int \<times> (string \<times> string) option) \<times> 'w" where
  "redo_trace pf pid temp_dir cwd0 spawn vs args w =
     (case redo_trace_main args of
        Inl c \<Rightarrow> ((c, None), w)
      | Inr (out0, argv) \<Rightarrow>
          (case trace_run pf cwd0 spawn argv (build_scrubbed_env pid temp_dir vs) w of
             ((observed, rv), w1) \<Rightarrow> ((rv, Some (out0, write_trace_out0 observed)), w1)))"

subsection \<open>Without a trace nothing is accepted\<close>

lemma failed_entry:
  assumes "e \<in> set es" "trace_failure e \<noteq> None" "e \<noteq> []"
  shows "\<not> fst (fold (trace_entry base) es acc)"
proof -
  have keep: "\<not> fst (fold (trace_entry base) xs a)" if "\<not> fst a" for xs a
    using that
  proof (induction xs arbitrary: a)
    case (Cons x xs)
    have "\<not> fst (trace_entry base x a)" using Cons.prems by (cases a) (auto simp: trace_entry_def split: option.splits)
    then show ?case using Cons.IH by simp
  qed simp
  obtain as bs where es: "es = as @ e # bs" using split_list [OF assms(1)] by blast
  have "\<not> fst (trace_entry base e a)" for a using assms(2,3) by (cases a) (auto simp: trace_entry_def split: option.splits)
  then show ?thesis using keep by (simp add: es)
qed

text \<open>What is tried first, and what comes of it: nothing is tried (or it cannot be started), \<open>dtruss\<close> runs but its report is of no
  use, or the command is traced. The world is the one after the attempt.\<close>

datatype attempt = Not_Run | Report_Useless int | Traced

definition first_attempt :: "'w platform \<Rightarrow> string \<Rightarrow> string list \<Rightarrow> vars \<Rightarrow> 'w \<Rightarrow> attempt \<times> 'w" where
  "first_attempt pf cwd0 argv envp w =
     (case pf of
        Linux x86_64 traced \<Rightarrow>
          if x86_64 then (case traced argv envp w of (Inl _, w1) \<Rightarrow> (Not_Run, w1) | (Inr _, w1) \<Rightarrow> (Traced, w1)) else (Not_Run, w)
      | Mac root dtruss \<Rightarrow>
          if root
          then (case dtruss argv envp w of
                  (None, w1) \<Rightarrow> (Not_Run, w1)
                | (Some (st, s), w1) \<Rightarrow>
                    (if dtruss_refused s \<or>
                        dt_observed (fold (dtruss_line cwd0) (str_lines s) \<lparr>dt_cwds = Map.empty, dt_observed = [], dt_markers = []\<rparr>) = []
                     then Report_Useless (status_code st) else Traced, w1))
          else (Not_Run, w)
      | Other_Platform \<Rightarrow> (Not_Run, w))"

text \<open>The text of an error has no zero byte.\<close>

definition clean_errors :: "'w platform \<Rightarrow> bool" where
  "clean_errors pf \<longleftrightarrow> (\<forall>x tr argv envp w e. pf = Linux x tr \<longrightarrow> fst (tr argv envp w) = Inl e \<longrightarrow> CHR 0x00 \<notin> set e)"

text \<open>An attempt and what follows it: run the command as it is if it was not run, otherwise take the exit code of \<open>dtruss\<close>.\<close>

definition after_attempt :: "'w spawn \<Rightarrow> string list \<Rightarrow> vars \<Rightarrow> attempt \<times> 'w \<Rightarrow> int \<times> 'w" where
  "after_attempt spawn argv envp aw =
     (case aw of
        (Report_Useless c, w1) \<Rightarrow> (c, w1)
      | (_, w1) \<Rightarrow> (case spawn argv envp w1 of (r, w2) \<Rightarrow> (case r of None \<Rightarrow> 201 | Some st \<Rightarrow> unwrap_or st 201, w2)))"

lemma untraced_run:
  "untraced spawn argv envp why w =
     ((trace_unavailable_marker why, fst (after_attempt spawn argv envp (Not_Run, w))), snd (after_attempt spawn argv envp (Not_Run, w)))"
  by (auto simp: untraced_def run_env_scrubbed_def after_attempt_def status_code_def split: prod.split option.split)

lemma not_traced:
  assumes "first_attempt pf cwd0 argv envp w = (a, w1)" "a \<noteq> Traced" "clean_errors pf"
  shows "\<exists>why. CHR 0x00 \<notin> set why \<and> trace_run pf cwd0 spawn argv envp w =
     ((trace_unavailable_marker why, fst (after_attempt spawn argv envp (a, w1))), snd (after_attempt spawn argv envp (a, w1)))"
proof (cases pf)
  case (Linux x traced)
  show ?thesis
  proof (cases x)
    case True
    then obtain e where e: "traced argv envp w = (Inl e, w1)" "a = Not_Run"
      using assms(1,2) Linux by (auto simp: first_attempt_def split: prod.splits sum.splits)
    then have "CHR 0x00 \<notin> set e" using assms(3) Linux by (metis clean_errors_def fst_conv)
    then show ?thesis using e True
      by (intro exI [of _ "''linux_error:'' @ e"]) (simp add: Linux trace_run_def trace_run_linux_def untraced_run)
  next
    case False
    then show ?thesis using assms(1)
      by (intro exI [of _ "''linux_unsupported_arch''"]) (simp add: Linux first_attempt_def trace_run_def trace_run_linux_def untraced_run)
  qed
next
  case (Mac root dtruss)
  let ?S = "{''macos_dtruss_requires_root'', ''macos_dtruss_not_found'', ''macos_dtruss_unavailable'', ''macos_dtruss_empty''}"
  have "\<exists>why \<in> ?S. trace_run pf cwd0 spawn argv envp w =
     ((trace_unavailable_marker why, fst (after_attempt spawn argv envp (a, w1))), snd (after_attempt spawn argv envp (a, w1)))"
    using assms(1,2)
    by (auto simp: Mac first_attempt_def trace_run_def trace_run_macos_def untraced_run after_attempt_def [of _ _ _ "(Report_Useless _, _)"]
        Let_def split: prod.splits option.splits if_splits)
  moreover have "\<forall>why \<in> ?S. CHR 0x00 \<notin> set why" by simp
  ultimately show ?thesis by blast
next
  case Other_Platform
  then show ?thesis using assms(1)
    by (intro exI [of _ "''unsupported_platform''"]) (simp add: first_attempt_def trace_run_def trace_run_other_def untraced_run)
qed

lemma marker_read:
  assumes "CHR 0x00 \<notin> set why"
  shows "\<not> sr_trace_ok (evaluate_strict_readtrace base declared (parse_nul_separated_strings (write_trace_out0 (trace_unavailable_marker why))))"
proof -
  let ?e = "''TRACE_UNAVAILABLE:'' @ why"
  have p: "parse_nul_separated_strings (write_trace_out0 (trace_unavailable_marker why)) = [?e]"
    unfolding trace_unavailable_marker_def using assms by (intro parse_write_out0) auto
  have "trace_failure ?e = Some why" by (simp add: trace_failure_def)
  then show ?thesis
    using failed_entry [of ?e "[?e]" base "(True, [], [])"]
    by (auto simp: p evaluate_strict_readtrace_def split: prod.splits)
qed

text \<open>C31. Strict mode fails safe. On a platform without a tracer, without the permission to trace, or when the tracer cannot be
  started, \<open>redo-trace\<close> runs the command once, as it is and with the scrubbed variables, and ends with its exit code (201 when
  it cannot be started or was killed by a signal). When \<open>dtruss\<close> ran but its report is unusable or empty, the command is not run
  again: the exit code is that of \<open>dtruss\<close>. In all these cases strict mode, reading the file \<open>redo-trace\<close> wrote, does not accept the build,
  whatever was declared.\<close>

theorem untraced_is_rejected:
  assumes "redo_trace pf pid temp_dir cwd0 spawn vs args w = ((rv, Some (out0, file)), w')"
    "redo_trace_main args = Inr (out0, argv)" "envp = build_scrubbed_env pid temp_dir vs"
    "first_attempt pf cwd0 argv envp w = (a, w1)" "a \<noteq> Traced" "clean_errors pf"
  shows "\<not> sr_trace_ok (evaluate_strict_readtrace base declared (parse_nul_separated_strings file)) \<and>
     (case a of
        Report_Useless c \<Rightarrow> rv = c \<and> w' = w1
      | _ \<Rightarrow> (case spawn argv envp w1 of (r, w2) \<Rightarrow> rv = (case r of None \<Rightarrow> 201 | Some st \<Rightarrow> unwrap_or st 201) \<and> w' = w2))"
proof -
  obtain why where w: "CHR 0x00 \<notin> set why" "trace_run pf cwd0 spawn argv envp w =
     ((trace_unavailable_marker why, fst (after_attempt spawn argv envp (a, w1))), snd (after_attempt spawn argv envp (a, w1)))"
    using not_traced [OF assms(4-6)] by blast
  then have "file = write_trace_out0 (trace_unavailable_marker why)" "(rv, w') = after_attempt spawn argv envp (a, w1)"
    using assms(1-3) by (auto simp: redo_trace_def)
  with marker_read [OF w(1)] assms(5) show ?thesis
    by (auto simp: after_attempt_def split: attempt.splits prod.splits)
qed

text \<open>The world of the example is the list of the commands that were run.\<close>

definition demo_spawn :: "string list list spawn" where
  "demo_spawn argv envp w = (Some (Some 3), w @ [argv])"

theorem untraced_is_rejected_witness:
  "\<exists>file. redo_trace (Mac False (\<lambda>_ _ w. (None, w))) 7 ''/tmp'' ''/w'' demo_spawn Map.empty [''--trace-out0'', ''t'', ''--'', ''sh''] [] =
       ((3, Some (''t'', file)), [[''sh'']]) \<and>
     \<not> sr_trace_ok (evaluate_strict_readtrace ''/w'' [] (parse_nul_separated_strings file))"
proof -
  let ?pf = "Mac False (\<lambda>_ _ w. (None, w)) :: string list list platform" and ?args = "[''--trace-out0'', ''t'', ''--'', ''sh'']"
  obtain rv contents w' where r: "redo_trace ?pf 7 ''/tmp'' ''/w'' demo_spawn Map.empty ?args [] = ((rv, Some (''t'', contents)), w')"
    by (simp add: redo_trace_def redo_trace_main_def trace_run_def trace_run_macos_def untraced_def run_env_scrubbed_def demo_spawn_def)
  have m: "redo_trace_main ?args = Inr (''t'', [''sh''])" by code_simp
  have a: "first_attempt ?pf ''/w'' [''sh''] (build_scrubbed_env 7 ''/tmp'' Map.empty) [] = (Not_Run, [])" by (simp add: first_attempt_def)
  from untraced_is_rejected [OF r m refl a, of "''/w''" "[]"] r show ?thesis by (simp add: clean_errors_def demo_spawn_def)
qed

text \<open>
  When \<open>dtruss\<close> may not trace, it is the only thing that ran: the command itself may never have been started, and
  the exit code is that of \<open>dtruss\<close>.
\<close>

lemma refused_dtruss_not_rerun:
  "redo_trace (Mac True (\<lambda>_ _ w. (Some (Some 1, ''dtrace: system integrity protection is on: Operation not permitted''), w)))
       7 ''/tmp'' ''/w'' demo_spawn Map.empty [''--trace-out0'', ''t'', ''--'', ''sh''] [] =
     ((1, Some (''t'', ''TRACE_UNAVAILABLE:macos_dtruss_unavailable'' @ [CHR 0x00])), [])"
proof -
  have m: "redo_trace_main [''--trace-out0'', ''t'', ''--'', ''sh''] = Inr (''t'', [''sh''])" by code_simp
  have "dtruss_refused ''dtrace: system integrity protection is on: Operation not permitted''" by code_simp
  then show ?thesis by (simp add: redo_trace_def m trace_run_def trace_run_macos_def status_code_def trace_unavailable_marker_def write_trace_out0_def)
qed

subsection \<open>What the report for macOS is taken for\<close>

text \<open>\<open>dtruss\<close> shows the end of a string as a backslash and a zero, which is read as an escaped digit: every path gets a
  zero at its end. And a \<open>chdir\<close> that failed is followed as if it had succeeded.\<close>

lemma dtruss_path_garbled:
  "extract_first_quoted (''  12/0x5a:  open('' @ [CHR ''\"''] @ ''/w/a'' @ [CHR 0x5C] @ ''0'' @ [CHR ''\"''] @ '', 0x0)   = 3 0'') = Some ''/w/a0''"
  by code_simp

lemma failed_chdir_followed:
  "dt_observed (fold (dtruss_line ''/w'')
     [''12/0x5a:  chdir('' @ [CHR ''\"''] @ ''/other'' @ [CHR ''\"''] @ '', 0x0)   = -1 Err#2'',
      ''12/0x5a:  open('' @ [CHR ''\"''] @ ''x'' @ [CHR ''\"''] @ '', 0x0)   = 3 0'']
     \<lparr>dt_cwds = Map.empty, dt_observed = [], dt_markers = []\<rparr>) = [''/other/x'']"
  by code_simp

end
