(* ===== verification/Spec2Isabelle.thy ===== *)
theory Spec2Isabelle
  imports Locks Deps_Sound Jobserver Remote_Props Action_Cache Commands Cached_Props Scheduler_Live Browse_Props Log_Props Remote_Compose Trace_Platforms
begin

text \<open>
  A verification development of the \<open>redo\<close> build system: its core library \<open>src/redo_core/src/\<close> and its
  commands \<open>src/bins/src/\<close>.

  \<^bold>\<open>The program.\<close> A target is built by a script (its \<open>.do\<close> file), which declares what it depends on while it
  runs by calling \<open>redo-ifchange\<close>, \<open>redo-ifcreate\<close>, \<open>redo-always\<close> and \<open>redo-stamp\<close>. All processes of a build share
  an SQLite database (\<open>.redo/db.sqlite3\<close>: a table of files with their stamps and run ids, and a table of
  dependencies), a lock file with one byte per target, a pipe of job tokens, environment variables, and the files.
  \<open>redo-ifchange\<close> decides with the database which targets are out of date and builds these, restores them from a
  cache on this machine or on a server, or has a server build them. \<open>redo-log\<close> shows the logs, \<open>redo-browse\<close> the
  graph of dependencies.

  \<^bold>\<open>The theories\<close>, and the files of the sources they model:

  \<^item> \<open>Prelude\<close>: strings, lists, integers and error values as the Rust library has them. \<open>Worklist\<close>: search with a
    queue and a set of keys seen, and the closure it computes.
  \<^item> \<open>Paths\<close> (\<open>paths.rs\<close>, the path functions of \<open>env.rs\<close>, \<open>state.rs\<close>, \<open>builder.rs\<close>): components, normalisation
    in its several copies, the search for rules, the base directory. \<open>Env_Cycles\<close> (\<open>env.rs\<close>, \<open>cycles.rs\<close>): the
    environment and the set of targets under construction.
  \<^item> \<open>State\<close>, \<open>State_Props\<close> (\<open>state.rs\<close>): the tables, one definition per SQL statement, transactions, run ids, the
    operations of \<open>File\<close>, stamps. \<open>Locks\<close> (\<open>state.rs\<close>): lock objects over POSIX record locks.
  \<^item> \<open>Deps\<close>, \<open>Deps_Sound\<close> (\<open>deps.rs\<close>, \<open>redo_ood.rs\<close>): is a target out of date?
  \<^item> \<open>Jobserver\<close> (\<open>jobserver.rs\<close>): tokens, cheating, waiting for jobs.
  \<^item> \<open>Pools\<close>, \<open>Builder\<close>, \<open>Builder_Props\<close>, \<open>Cached_Build\<close>, \<open>Cached_Props\<close>, \<open>Scheduler\<close>, \<open>Scheduler_Props\<close>,
    \<open>Scheduler_Live\<close> (\<open>builder.rs\<close>): job pools, the build of one target (\<open>build_one\<close>, \<open>run_redo\<close>), the jobs of
    \<open>redo-ifchange\<close> with both caches (\<open>schedule_build_one\<close>), and its scheduler (\<open>run_ifchange\<close>).
  \<^item> \<open>Read_Trace\<close>, \<open>Trace_Platforms\<close> (\<open>redo_trace.rs\<close>, strict mode of \<open>builder.rs\<close>): the files a script reads.
  \<^item> \<open>Http\<close>, \<open>Blob_Store\<close>, \<open>Cache_Server\<close> (\<open>redo_cache_server.rs\<close>), \<open>Remote_Cache\<close>, \<open>Remote_Props\<close>
    (\<open>remote_cache.rs\<close>), \<open>Action_Cache\<close> (\<open>action_cache.rs\<close>), \<open>Remote_Exec\<close>, \<open>Remote_Exec_Props\<close>
    (\<open>redo_remote_exec.rs\<close>, \<open>remote_exec.rs\<close>): the caches, the server and its clients. \<open>Remote_Compose\<close>: the client
    of remote execution with the server behind it.
  \<^item> \<open>Commands\<close> (\<open>redo_stamp.rs\<close>, \<open>redo_always.rs\<close>, \<open>redo_ifcreate.rs\<close>, \<open>redo_unlocked.rs\<close>, the reports).
  \<^item> \<open>Plan\<close>, \<open>Plan_Props\<close> (\<open>redo.rs\<close>, \<open>redo_log.rs\<close>): the plan of a build. \<open>Redo_Main\<close> (\<open>redo.rs\<close>,
    \<open>redo_ifchange.rs\<close>): options and start of the two commands.
  \<^item> \<open>Log_Format\<close> (\<open>logs.rs\<close>), \<open>Redo_Log\<close>, \<open>Log_Props\<close> (\<open>redo_log.rs\<close>): log lines and the log reader.
  \<^item> \<open>Browse\<close>, \<open>Browse_Http\<close>, \<open>Browse_Props\<close>, \<open>Json\<close> (\<open>redo_browse.rs\<close>): the graph server, and a reference reader
    for the JSON it writes.

  Records stand for the structs of the sources and datatypes for its enums, with their fields; a function of the
  source is a definition of the same name, a loop is a recursive function named after it, and a panic or an error is a
  value \<open>Inl\<close> of the type \<open>res\<close>. The state a process changes is passed on: the database with its transaction
  (\<open>state_inner\<close>), the files (\<open>disk\<close>), the kernel's table of locks (\<open>klocks\<close>), together a \<open>world\<close>.

  \<^bold>\<open>Processes.\<close> Where the order of events matters the model is a step relation, and the theorems hold for all its
  runs: \<open>lock_step\<close> (processes competing for locks), \<open>js_step\<close> (a tree of processes sharing tokens, which may end at
  any time and in any state), \<open>sched_step\<close> (\<open>redo-ifchange\<close>, whose jobs end in any order while other processes change
  files, database and locks), \<open>par_step\<close> (\<open>redo -j\<close>), \<open>server_step\<close> (the threads of the cache server: whole requests, blobs
  stored later, and the check and the commit of a \<open>PUT\<close> of a mapping as two steps). A script is a function of the files and the database to its exit code, its output and the
  new files and database; its effect takes place when it is waited for.

  \<^bold>\<open>What is shown\<close>, by groups of lemmas. The invariants of the tables under every statement, what a commit and a
  rollback leave, and that a build replaces exactly the dependencies of its target (\<open>State_Props\<close>). Mutual exclusion
  and cyclic dependencies (\<open>Locks\<close>). A file reported clean is up to date in the sense of an independent definition
  (\<open>up_to_date\<close>), the read-only analysis decides exactly that, both end (\<open>Deps\<close>, \<open>Deps_Sound\<close>), and the build
  may trust the plan (\<open>Plan_Props\<close>). Tokens are conserved but for what a process that ends takes with it or leaves unreturned (\<open>Jobserver\<close>). Sources are never overwritten, a failed
  script changes nothing but its temporary file, a successful one installs its output, exit codes tell the truth
  (\<open>Builder_Props\<close>, \<open>Scheduler_Props\<close>), and the scheduler ends (\<open>Scheduler_Live\<close>). A cache returns what was stored
  under the same key, the server changes nothing that is stored as long as no script
  leaves symbolic links in its work directory, a client takes only bytes with the digest it asked for (\<open>Action_Cache\<close>, \<open>Cache_Server\<close>, \<open>Remote_Props\<close>, \<open>Cached_Props\<close>, \<open>Remote_Exec_Props\<close>), and a script run
  remotely leaves what its sandbox produced from the client's files (\<open>Remote_Compose\<close>). Strict mode
  finds an undeclared read by any of the calls the tracer knows, stated over the stops the kernel reports, and fails safe
  without a trace (\<open>Read_Trace\<close>, \<open>Trace_Platforms\<close>). The plan and the graph server answer with the closure of the dependency
  relation (\<open>Plan_Props\<close>, \<open>Browse_Props\<close>). Log lines are read back as written, reading them ends (\<open>Log_Props\<close>).

  Interfaces are locales, interpreted on the model: \<open>db_statement\<close> (what every SQL statement keeps), \<open>region_op\<close>
  (operations on one lock byte), \<open>dirty_checker\<close> and \<open>sound_checker\<close> (the closures the analysis is called with),
  \<open>blob_store\<close> (content-addressed storage), \<open>trace_op\<close> (operations of the tracer).

  \<^bold>\<open>Bounds and fuel.\<close> \<open>isdirty\<close> and \<open>isdirty_readonly\<close> recurse over the dependency graph, which may be cyclic, with
  a list of the files already visited; the number of rows of the table plus one is enough fuel for every database
  (\<open>isdirty_terminates\<close>, \<open>check_file_total\<close>, \<open>build_plan_counts\<close>). \<open>catlog\<close> takes fuel for the nesting of logs: the
  number of targets is enough when names are normal (\<open>catlog_terminates\<close>), no fuel is in a cycle of two directories
  (\<open>recursive_log_diverges\<close>). \<open>base_up\<close> takes the number of path components. The value \<open>None\<close> of the operations
  that may block (\<open>build_one\<close>, \<open>schedule_build_one\<close>, \<open>wait_body\<close>) means that the process waits for another one.
  Machine integers are words or integers with their bounds written out: hashes and shuffling are \<open>64 word\<close>, numbers
  that are parsed are checked against their width.

  \<^bold>\<open>Assumptions.\<close> SQLite executes a statement as its SQL says and does not fail; \<open>fcntl\<close> locks are POSIX record locks;
  SHA-256, \<open>serde_json\<close>, \<open>pathdiff\<close>, the clock, process ids, directory listings, the resolution of symbolic links and
  the network (whose connections may break) are parameters, and so is what the server does on its files through a symbolic
  link a script left (\<open>follow\<close>), with what is needed of them stated where it is used (injectivity on the texts
  concerned, for digests). Strings are lists of bytes, and where the code decodes them loosely
  (\<open>from_utf8_lossy\<close>, \<open>to_string_lossy\<close>) they are taken to be valid UTF-8. White space is that of ASCII.

  \<^bold>\<open>Not modelled.\<close> Process groups, signal handlers, \<open>fork\<close>, \<open>exec\<close>, pipes and the handshake with \<open>redo-log\<close>; interrupted
  system calls and failures of the disk other than those the code reacts to; the moments at which \<open>redo-log\<close> prints its
  status line; the page \<open>index_html\<close> of \<open>redo-browse\<close>; the accept loops of the two servers (requests of \<open>redo-browse\<close> only read);
  log lines written during a build; the start of the traced command and the \<open>ptrace\<close> calls of \<open>redo_trace.rs\<close>; \<open>close_on_exec\<close> and the version string.
\<close>

end
